(* ===== verification/Prelude.thy ===== *)
theory Prelude
  imports Main "HOL-Library.Word"
begin

unbundle bit_operations_syntax

text \<open>
  Shared vocabulary of the development: the names of the machine types the C++ sources use
  (\<open>unsigned char\<close>, \<open>unsigned short\<close>, \<open>unsigned int\<close>, \<open>uint64_t\<close>), the collections of
  rewrite rules the component theories fill and use, and generic facts on bytes, bit
  operations and lists that several components need.

  A C++ \<open>char\<close> buffer whose numeric value matters is a \<open>byte list\<close>; a name or text that is
  only compared and scanned is a \<open>string\<close> (a list of 8-bit \<open>char\<close>).
\<close>

type_synonym byte = "8 word"
type_synonym u16 = "16 word"
type_synonym u32 = "32 word"
type_synonym u64 = "64 word"

named_theorems byte_masks "bit masks on bytes read as range tests or remainders"
named_theorems or_sums "disjunctions of disjoint bit fields read as sums"

subsection \<open>Bytes\<close>

lemma unat_byte_less [simp]: "unat (b :: byte) < 256"
  using unsigned_less [of b, where 'a = nat] by simp

lemma uint_byte_less [simp]: "uint (b :: byte) < 256"
  using unsigned_less [of b, where 'a = int] by simp

text \<open>An integer stored into a byte keeps its low 8 bits.\<close>

definition byte_of :: "int \<Rightarrow> byte" where
  "byte_of x = word_of_int x"

lemma uint_byte_of [simp]: "0 \<le> x \<Longrightarrow> x < 256 \<Longrightarrow> uint (byte_of x) = x"
  by (simp add: byte_of_def uint_word_of_int_eq take_bit_int_eq_self)

lemma byte_of_uint [simp]: "byte_of (uint b) = b"
  by (simp add: byte_of_def)

text \<open>Masks of low bits are remainders, masks of high bits are what the low bits leave.\<close>

lemma int_and_low: "(x :: int) AND (2 ^ n - 1) = x mod 2 ^ n"
  by (simp flip: mask_eq_exp_minus_1 add: take_bit_eq_mask [symmetric] take_bit_eq_mod)

lemma int_and_high:
  fixes x :: int
  assumes "0 \<le> x" "x < 256" "m = 255 - l" "m AND l = 0" "m OR l = 255"
  shows "x AND m = x - (x AND l)"
proof -
  have "x AND 255 = x"
    using int_and_low [of x 8] assms by simp
  then have "x = (x AND m) OR (x AND l)"
    using assms by (metis bit.conj_disj_distrib)
  moreover have "(x AND m) AND (x AND l) = 0"
    using assms by (metis and.assoc and.commute and_zero_eq)
  then have "(x AND m) + (x AND l) = (x AND m) OR (x AND l)"
    by (simp add: disjunctive_add bit_eq_iff bit_and_iff)
  ultimately show ?thesis by simp
qed

lemma uint_and_3F [byte_masks]: "uint ((b :: byte) AND 0x3F) = uint b mod 64"
  and uint_and_1F [byte_masks]: "uint ((b :: byte) AND 0x1F) = uint b mod 32"
  and uint_and_0F [byte_masks]: "uint ((b :: byte) AND 0x0F) = uint b mod 16"
  and uint_and_07 [byte_masks]: "uint ((b :: byte) AND 0x07) = uint b mod 8"
  using int_and_low [of "uint b" 6] int_and_low [of "uint b" 5]
    int_and_low [of "uint b" 4] int_and_low [of "uint b" 3]
  by (simp_all add: uint_and)

lemma uint_and_C0 [byte_masks]: "uint ((b :: byte) AND 0xC0) = uint b - uint b mod 64"
  using int_and_high [of "uint b" "0xC0" "0x3F"] int_and_low [of "uint b" 6]
  by (simp add: uint_and)

lemma uint_and_E0 [byte_masks]: "uint ((b :: byte) AND 0xE0) = uint b - uint b mod 32"
  using int_and_high [of "uint b" "0xE0" "0x1F"] int_and_low [of "uint b" 5]
  by (simp add: uint_and)

lemma uint_and_F0 [byte_masks]: "uint ((b :: byte) AND 0xF0) = uint b - uint b mod 16"
  using int_and_high [of "uint b" "0xF0" "0x0F"] int_and_low [of "uint b" 4]
  by (simp add: uint_and)

lemma uint_and_F8 [byte_masks]: "uint ((b :: byte) AND 0xF8) = uint b - uint b mod 8"
  using int_and_high [of "uint b" "0xF8" "0x07"] int_and_low [of "uint b" 3]
  by (simp add: uint_and)

lemma uint_and_FE [byte_masks]: "uint ((b :: byte) AND 0xFE) = uint b - uint b mod 2"
  using int_and_high [of "uint b" "0xFE" "0x01"] int_and_low [of "uint b" 1]
  by (simp add: uint_and)

text \<open>Comparisons of bytes are comparisons of their values.\<close>

lemma byte_eq_uint: "(a :: byte) = b \<longleftrightarrow> uint a = uint b"
  by (simp add: word_uint_eq_iff)

lemma byte_le_uint: "(a :: byte) \<le> b \<longleftrightarrow> uint a \<le> uint b"
  by (simp add: word_le_def)

lemma byte_less_uint: "(a :: byte) < b \<longleftrightarrow> uint a < uint b"
  by (simp add: word_less_def)

lemmas byte_uint = byte_eq_uint byte_le_uint byte_less_uint

subsection \<open>Disjunctions of disjoint bit fields\<close>

lemma int_or_disjoint:
  fixes x y :: int
  assumes "0 \<le> y" "y < 2 ^ n"
  shows "(x * 2 ^ n) OR y = x * 2 ^ n + y"
proof -
  have y: "take_bit n y = y"
    using assms by (simp add: take_bit_int_eq_self)
  have "\<not> bit (x * 2 ^ n) k \<or> \<not> bit y k" for k
  proof (cases "k < n")
    case True
    then show ?thesis by (simp add: bit_push_bit_iff flip: push_bit_eq_mult)
  next
    case False
    then have "\<not> bit (take_bit n y) k" by (simp add: bit_take_bit_iff)
    with y show ?thesis by simp
  qed
  then show ?thesis by (simp add: disjunctive_add)
qed

lemma or_0xC0 [or_sums]: "0 \<le> y \<Longrightarrow> y < 32 \<Longrightarrow> (0xC0 :: int) OR y = 0xC0 + y"
  using int_or_disjoint [of y 5 6] by simp

lemma or_0x80 [or_sums]: "0 \<le> y \<Longrightarrow> y < 64 \<Longrightarrow> (0x80 :: int) OR y = 0x80 + y"
  using int_or_disjoint [of y 6 2] by simp

lemma or_0xE0 [or_sums]: "0 \<le> y \<Longrightarrow> y < 16 \<Longrightarrow> (0xE0 :: int) OR y = 0xE0 + y"
  using int_or_disjoint [of y 4 14] by simp

lemma or_0xF0 [or_sums]: "0 \<le> y \<Longrightarrow> y < 8 \<Longrightarrow> (0xF0 :: int) OR y = 0xF0 + y"
  using int_or_disjoint [of y 3 30] by simp

subsection \<open>Decimal text\<close>

text \<open>\<open>std::to_string\<close> on an unsigned number.\<close>

fun show_nat :: "nat \<Rightarrow> string" where
  "show_nat n =
     (if n < 10 then [char_of (48 + n)] else show_nat (n div 10) @ [char_of (48 + n mod 10)])"

declare show_nat.simps [simp del]

lemma digit_char_inj:
  assumes "m < 10" "n < 10" "(char_of (48 + m :: nat) :: char) = char_of (48 + n)"
  shows "m = n"
proof -
  have "(of_char (char_of (48 + m :: nat) :: char) :: nat) = of_char (char_of (48 + n) :: char)"
    using assms(3) by simp
  with assms(1,2) show ?thesis by (simp only: of_char_of) simp
qed

lemma show_nat_not_Nil [simp]: "show_nat n \<noteq> []"
  by (subst show_nat.simps) simp

lemma Nil_not_show_nat [simp]: "[] \<noteq> show_nat n"
  using show_nat_not_Nil [of n] by metis

lemma show_nat_inj: "show_nat m = show_nat n \<Longrightarrow> m = n"
proof (induction m arbitrary: n rule: less_induct)
  case (less m)
  note m = show_nat.simps [of m] and n = show_nat.simps [of n]
  consider "m < 10" "n < 10" | (both) "\<not> m < 10" "\<not> n < 10" | "(m < 10) \<noteq> (n < 10)" by blast
  then show ?case
  proof cases
    case both
    then have eq: "show_nat (m div 10) = show_nat (n div 10)"
      "(char_of (48 + m mod 10) :: char) = char_of (48 + n mod 10)"
      using less.prems m n by auto
    have "m div 10 = n div 10" using both by (intro less.IH eq) simp
    moreover have "m mod 10 = n mod 10" using digit_char_inj [OF _ _ eq(2)] by simp
    ultimately show ?thesis by (metis div_mult_mod_eq)
  qed (use less.prems m n digit_char_inj in \<open>auto split: if_splits\<close>)
qed

end
