(* ===== verification/Unicode.thy ===== *)
theory Unicode
  imports Prelude
begin

text \<open>
  \<open>src/misc/unicode.hpp\<close>: the UTF-8 validator, decoder and encoder and the UTF-16 surrogate
  arithmetic of \<open>UnicodeUtil\<close>.  A \<open>char\<close> buffer \<open>[begin, end)\<close> is a \<open>byte list\<close>; an \<open>int\<close>
  code point is an \<open>int\<close> (every value the code computes lies between -1 and 0x10FFFF).

  The specification side is the table of well-formed UTF-8 byte sequences of the Unicode
  standard, \<open>wf_utf8\<close>.  The lemmas show that the validator accepts exactly that table, and
  that the decoder and the encoder are inverse to each other on scalar values.
\<close>

section \<open>Byte sizes\<close>

definition utf8_size_table :: "nat list" where
  "utf8_size_table =
     replicate 128 1 @ replicate 64 0 @
     replicate 32 2 @ replicate 16 3 @ replicate 8 4 @ replicate 8 0"

definition utf8ByteSize :: "byte \<Rightarrow> nat" where
  "utf8ByteSize b = utf8_size_table ! unat b"

definition utf8NextPos :: "nat \<Rightarrow> byte \<Rightarrow> nat" where
  "utf8NextPos pos b = (let size = utf8ByteSize b in pos + (if size > 0 then size else 1))"

section \<open>Validation\<close>

definition utf8ValidateChar :: "byte list \<Rightarrow> nat" where
  "utf8ValidateChar bs =
     (let n = length bs in
      if n = 0 then 0
      else if bs ! 0 < 0x80 then 1
      else if bs ! 0 AND 0xE0 = 0xC0 then
        (if n = 1 \<or> bs ! 1 AND 0xC0 \<noteq> 0x80 \<or> bs ! 0 AND 0xFE = 0xC0 then 0 else 2)
      else if bs ! 0 AND 0xF0 = 0xE0 then
        (if n \<le> 2 \<or> bs ! 1 AND 0xC0 \<noteq> 0x80 \<or> bs ! 2 AND 0xC0 \<noteq> 0x80
            \<or> (bs ! 0 = 0xE0 \<and> bs ! 1 AND 0xE0 = 0x80)
            \<or> (bs ! 0 = 0xED \<and> bs ! 1 AND 0xE0 = 0xA0)
         then 0 else 3)
      else if bs ! 0 AND 0xF8 = 0xF0 then
        (if n \<le> 3 \<or> bs ! 1 AND 0xC0 \<noteq> 0x80 \<or> bs ! 2 AND 0xC0 \<noteq> 0x80
            \<or> bs ! 3 AND 0xC0 \<noteq> 0x80
            \<or> (bs ! 0 = 0xF0 \<and> bs ! 1 AND 0xF0 = 0x80)
            \<or> (bs ! 0 = 0xF4 \<and> bs ! 1 > 0x8F) \<or> bs ! 0 > 0xF4
         then 0 else 4)
      else 0)"

section \<open>Decoding and encoding\<close>

text \<open>The pair holds the returned byte size and the value written to \<open>codePoint\<close>.\<close>

definition utf8ToCodePoint :: "byte list \<Rightarrow> nat \<times> int" where
  "utf8ToCodePoint bs =
     (let size = utf8ValidateChar bs;
          at = (\<lambda>i m. ucast (bs ! i AND m) :: u32)
      in (size,
        if size = 1 then uint (bs ! 0)
        else if size = 2 then
          sint (push_bit 6 (at 0 0x1F) OR at 1 0x3F)
        else if size = 3 then
          sint (push_bit 12 (at 0 0x0F) OR push_bit 6 (at 1 0x3F) OR at 2 0x3F)
        else if size = 4 then
          sint (push_bit 18 (at 0 0x07) OR push_bit 12 (at 1 0x3F)
                OR push_bit 6 (at 2 0x3F) OR at 3 0x3F)
        else -1))"

definition isValidCodePoint :: "int \<Rightarrow> bool" where
  "isValidCodePoint cp \<longleftrightarrow> 0 \<le> cp \<and> cp \<le> 0x10FFFF"

definition isBmpCodePoint :: "int \<Rightarrow> bool" where
  "isBmpCodePoint cp \<longleftrightarrow> 0 \<le> cp \<and> cp \<le> 0xFFFF"

definition isSupplementaryCodePoint :: "int \<Rightarrow> bool" where
  "isSupplementaryCodePoint cp \<longleftrightarrow> cp > 0xFFFF \<and> cp \<le> 0x10FFFF"

text \<open>The bytes written to \<open>buf\<close>; the returned size is their number.\<close>

definition codePointToUtf8 :: "int \<Rightarrow> byte list" where
  "codePointToUtf8 cp =
     (if \<not> isValidCodePoint cp then []
      else if cp \<le> 0x7F then [byte_of cp]
      else if cp \<le> 0x7FF then
        [byte_of (0xC0 OR drop_bit 6 cp), byte_of (0x80 OR (cp AND 0x3F))]
      else if cp \<le> 0xFFFF then
        [byte_of (0xE0 OR drop_bit 12 cp),
         byte_of (0x80 OR (drop_bit 6 cp AND 0x3F)), byte_of (0x80 OR (cp AND 0x3F))]
      else if cp \<le> 0x10FFFF then
        [byte_of (0xF0 OR drop_bit 18 cp), byte_of (0x80 OR (drop_bit 12 cp AND 0x3F)),
         byte_of (0x80 OR (drop_bit 6 cp AND 0x3F)), byte_of (0x80 OR (cp AND 0x3F))]
      else [])"

section \<open>Surrogates\<close>

definition isHighSurrogate :: "u16 \<Rightarrow> bool" where
  "isHighSurrogate v \<longleftrightarrow> v \<ge> 0xD800 \<and> v \<le> 0xDBFF"

definition isLowSurrogate :: "u16 \<Rightarrow> bool" where
  "isLowSurrogate v \<longleftrightarrow> v \<ge> 0xDC00 \<and> v \<le> 0xDFFF"

definition isSurrogate :: "u16 \<Rightarrow> bool" where
  "isSurrogate v \<longleftrightarrow> v \<ge> 0xD800 \<and> v \<le> 0xDFFF"

definition utf16ToCodePoint :: "u16 \<Rightarrow> u16 \<Rightarrow> int" where
  "utf16ToCodePoint high low =
     (if isHighSurrogate high \<and> isLowSurrogate low
      then sint (push_bit 10 (word_of_int (uint high - 0xD800) :: u32)
                 + word_of_int (uint low - 0xDC00) + 0x10000)
      else -1)"

section \<open>The standard's table of well-formed sequences\<close>

definition cont :: "byte \<Rightarrow> bool" where
  "cont b \<longleftrightarrow> 0x80 \<le> b \<and> b \<le> 0xBF"

text \<open>The encodings of exactly one Unicode scalar value (Unicode, table 3-7).\<close>

fun wf_utf8 :: "byte list \<Rightarrow> bool" where
  "wf_utf8 [a] \<longleftrightarrow> a \<le> 0x7F"
| "wf_utf8 [a, b] \<longleftrightarrow> 0xC2 \<le> a \<and> a \<le> 0xDF \<and> cont b"
| "wf_utf8 [a, b, c] \<longleftrightarrow> cont c \<and>
     (a = 0xE0 \<and> 0xA0 \<le> b \<and> b \<le> 0xBF \<or> 0xE1 \<le> a \<and> a \<le> 0xEC \<and> cont b
      \<or> a = 0xED \<and> 0x80 \<le> b \<and> b \<le> 0x9F \<or> 0xEE \<le> a \<and> a \<le> 0xEF \<and> cont b)"
| "wf_utf8 [a, b, c, d] \<longleftrightarrow> cont c \<and> cont d \<and>
     (a = 0xF0 \<and> 0x90 \<le> b \<and> b \<le> 0xBF \<or> 0xF1 \<le> a \<and> a \<le> 0xF3 \<and> cont b
      \<or> a = 0xF4 \<and> 0x80 \<le> b \<and> b \<le> 0x8F)"
| "wf_utf8 _ \<longleftrightarrow> False"

text \<open>The masks of the validator are range tests.\<close>

lemma sub_mod_iff: "0 < m \<Longrightarrow> x - x mod m = k * m \<longleftrightarrow> k * m \<le> x \<and> x < k * m + m" for x m k :: int
proof -
  assume m: "0 < m"
  have *: "x - x mod m = (x div m) * m" by (simp add: minus_mod_eq_div_mult)
  have "x div m = k \<longleftrightarrow> k * m \<le> x \<and> x < k * m + m"
  proof
    assume "x div m = k"
    then have "x = k * m + x mod m" using * by simp
    moreover have "0 \<le> x mod m" "x mod m < m" using m by simp_all
    ultimately show "k * m \<le> x \<and> x < k * m + m" by linarith
  next
    assume "k * m \<le> x \<and> x < k * m + m"
    then show "x div m = k"
      using int_div_pos_eq [of x m k "x - k * m"] by (simp add: mult.commute)
  qed
  with * m show ?thesis by simp
qed

lemma mask_tests [byte_masks]:
  fixes b :: byte
  shows "b AND 0xC0 = 0x80 \<longleftrightarrow> cont b"
    and "b AND 0xE0 = 0xC0 \<longleftrightarrow> 0xC0 \<le> b \<and> b \<le> 0xDF"
    and "b AND 0xFE = 0xC0 \<longleftrightarrow> 0xC0 \<le> b \<and> b \<le> 0xC1"
    and "b AND 0xF0 = 0xE0 \<longleftrightarrow> 0xE0 \<le> b \<and> b \<le> 0xEF"
    and "b AND 0xE0 = 0x80 \<longleftrightarrow> 0x80 \<le> b \<and> b \<le> 0x9F"
    and "b AND 0xE0 = 0xA0 \<longleftrightarrow> 0xA0 \<le> b \<and> b \<le> 0xBF"
    and "b AND 0xF8 = 0xF0 \<longleftrightarrow> 0xF0 \<le> b \<and> b \<le> 0xF7"
    and "b AND 0xF0 = 0x80 \<longleftrightarrow> 0x80 \<le> b \<and> b \<le> 0x8F"
  by (auto simp: byte_uint cont_def uint_and_C0 uint_and_E0 uint_and_F0 uint_and_F8 uint_and_FE
      sub_mod_iff [of 64 _ 2, simplified] sub_mod_iff [of 32 _ 6, simplified]
      sub_mod_iff [of 2 _ 96, simplified] sub_mod_iff [of 16 _ 14, simplified]
      sub_mod_iff [of 32 _ 4, simplified] sub_mod_iff [of 32 _ 5, simplified]
      sub_mod_iff [of 8 _ 30, simplified] sub_mod_iff [of 16 _ 8, simplified])

lemma wf_utf8_length: "wf_utf8 bs \<Longrightarrow> length bs \<in> {1, 2, 3, 4}"
  by (cases bs rule: wf_utf8.cases) simp_all

text \<open>The classes of lead bytes.\<close>

lemma lead_cases:
  fixes a :: byte
  obtains (ascii) "uint a < 0x80" | (tail) "0x80 \<le> uint a" "uint a < 0xC0"
  | (over2) "0xC0 \<le> uint a" "uint a < 0xC2" | (two) "0xC2 \<le> uint a" "uint a < 0xE0"
  | (e0) "uint a = 0xE0" | (three1) "0xE1 \<le> uint a" "uint a < 0xED"
  | (ed) "uint a = 0xED" | (three2) "0xED < uint a" "uint a < 0xF0"
  | (f0) "uint a = 0xF0" | (four) "0xF0 < uint a" "uint a < 0xF4"
  | (f4) "uint a = 0xF4" | (over4) "0xF4 < uint a" "uint a < 0xF8"
  | (bad) "0xF8 \<le> uint a" "uint a < 256"
proof -
  consider "uint a < 0xC2" | "0xC2 \<le> uint a" "uint a < 0xED" | "0xED \<le> uint a" "uint a < 0xF1"
    | "0xF1 \<le> uint a" by linarith
  then show thesis
  proof cases
    case 1
    then show thesis using ascii tail over2 by linarith
  next
    case 2
    then show thesis using two e0 three1 by linarith
  next
    case 3
    then show thesis using ed three2 f0 by linarith
  next
    case 4
    then show thesis using four f4 over4 bad uint_byte_less [of a] by linarith
  qed
qed

lemma validate_cons:
  "utf8ValidateChar (a # bs) =
     (if uint a < 0x80 then 1
      else if 0xC2 \<le> uint a \<and> uint a < 0xE0 \<and> 1 \<le> length bs \<and> wf_utf8 [a, bs ! 0] then 2
      else if 0xE0 \<le> uint a \<and> uint a < 0xF0 \<and> 2 \<le> length bs \<and> wf_utf8 [a, bs ! 0, bs ! 1] then 3
      else if 0xF0 \<le> uint a \<and> uint a < 0xF5 \<and> 3 \<le> length bs \<and> wf_utf8 [a, bs ! 0, bs ! 1, bs ! 2] then 4
      else 0)"
  unfolding utf8ValidateChar_def mask_tests Let_def
  apply (cases a rule: lead_cases)
              apply (simp_all add: byte_uint cont_def split del: if_split)
         apply (auto simp: byte_uint cont_def not_le Suc_le_eq split: if_splits)
  done
lemma wf_utf8_lead:
  "wf_utf8 [a] \<longleftrightarrow> uint a < 0x80"
  "wf_utf8 [a, b] \<Longrightarrow> 0xC2 \<le> uint a \<and> uint a < 0xE0"
  "wf_utf8 [a, b, c] \<Longrightarrow> 0xE0 \<le> uint a \<and> uint a < 0xF0"
  "wf_utf8 [a, b, c, d] \<Longrightarrow> 0xF0 \<le> uint a \<and> uint a < 0xF5"
  by (auto simp: byte_uint)


lemma utf8ValidateChar_wf:
  "utf8ValidateChar bs = Suc n \<longleftrightarrow> Suc n \<le> length bs \<and> wf_utf8 (take (Suc n) bs)"
proof (cases "n \<le> 3")
  case False
  then have "\<not> wf_utf8 (take (Suc n) bs)" if "Suc n \<le> length bs"
    using that wf_utf8_length [of "take (Suc n) bs"] by auto
  moreover have "utf8ValidateChar bs \<noteq> Suc n"
    using False by (cases bs) (simp_all add: validate_cons utf8ValidateChar_def)
  ultimately show ?thesis by blast
next
  case True
  then have n: "n = 0 \<or> n = Suc 0 \<or> n = Suc (Suc 0) \<or> n = Suc (Suc (Suc 0))" by linarith
  show ?thesis
  proof (cases bs)
    case Nil
    then show ?thesis by (simp add: utf8ValidateChar_def)
  next
    case (Cons a xs)
    note lead = wf_utf8_lead(2) [of a] wf_utf8_lead(3) [of a] wf_utf8_lead(4) [of a]
    show ?thesis
    proof (cases xs rule: wf_utf8.cases)
      case (1 b)
      with n show ?thesis using lead
        by (elim disjE) (simp_all add: Cons validate_cons wf_utf8_lead(1) del: wf_utf8.simps, force+)
    qed (use n lead in \<open>(elim disjE; force simp add: Cons validate_cons wf_utf8_lead(1) simp del: wf_utf8.simps)\<close>)+
  qed
qed

section \<open>Decoding inverts encoding\<close>

lemma uint_ucast_byte [simp]: "uint (ucast (x :: byte) :: u32) = uint x"
proof -
  have "take_bit 32 (uint x) = uint x"
    by (rule take_bit_int_eq_self) (simp, rule order_less_trans [OF uint_byte_less], simp)
  then show ?thesis by (simp add: unsigned_ucast_eq)
qed

lemma uint_shift_or [or_sums]:
  fixes w :: u32
  assumes "uint w < 2 ^ n" "n \<le> 24"
  shows "uint (push_bit n (ucast (x :: byte)) OR w) = uint x * 2 ^ n + uint w"
proof -
  have "uint x * 2 ^ n < 2 ^ 8 * 2 ^ n"
    by (rule mult_strict_right_mono) simp_all
  also have "\<dots> \<le> (2 :: int) ^ 32"
    using assms(2) power_increasing [of n 24 "2 :: int"] by simp
  finally have "uint (push_bit n (ucast x :: u32)) = uint x * 2 ^ n"
    unfolding unsigned_push_bit_eq by (simp add: push_bit_eq_mult take_bit_int_eq_self)
  with assms(1) show ?thesis
    by (simp add: uint_or int_or_disjoint)
qed

lemma sint_small: "uint (w :: u32) < 2 ^ 31 \<Longrightarrow> sint w = uint w"
  by (simp add: sint_uint signed_take_bit_eq_if_positive bit_iff_odd take_bit_int_eq_self)

lemma decode_1: "utf8ValidateChar bs = 1 \<Longrightarrow> utf8ToCodePoint bs = (1, uint (bs ! 0))"
  by (simp add: utf8ToCodePoint_def)

lemma decode_2:
  assumes "utf8ValidateChar bs = 2"
  shows "utf8ToCodePoint bs = (2, (uint (bs ! 0) mod 32) * 64 + uint (bs ! 1) mod 64)"
proof -
  let ?w = "push_bit 6 (ucast (bs ! 0 AND 0x1F)) OR ucast (bs ! 1 AND 0x3F) :: u32"
  have "uint ?w = (uint (bs ! 0) mod 32) * 64 + uint (bs ! 1) mod 64"
    by (subst uint_shift_or) (simp_all add: byte_masks del: take_bit_and)
  moreover have "uint (bs ! 0) mod 32 \<le> 31" "uint (bs ! 1) mod 64 \<le> 63" by simp_all
  ultimately show ?thesis
    using assms sint_small [of ?w] by (simp add: utf8ToCodePoint_def Let_def)
qed

lemma decode_3:
  assumes "utf8ValidateChar bs = 3"
  shows "utf8ToCodePoint bs =
    (3, (uint (bs ! 0) mod 16) * 4096 + ((uint (bs ! 1) mod 64) * 64 + uint (bs ! 2) mod 64))"
proof -
  let ?v = "push_bit 6 (ucast (bs ! 1 AND 0x3F)) OR ucast (bs ! 2 AND 0x3F) :: u32"
  let ?w = "push_bit 12 (ucast (bs ! 0 AND 0x0F)) OR ?v :: u32"
  have b: "uint (bs ! 0) mod 16 \<le> 15" "uint (bs ! 1) mod 64 \<le> 63" "uint (bs ! 2) mod 64 \<le> 63"
    by simp_all
  have v: "uint ?v = (uint (bs ! 1) mod 64) * 64 + uint (bs ! 2) mod 64"
    by (subst uint_shift_or) (simp_all add: byte_masks del: take_bit_and)
  have "uint ?w = (uint (bs ! 0) mod 16) * 4096 + uint ?v"
    using b v by (subst uint_shift_or) (simp_all add: byte_masks del: take_bit_and)
  with assms b v sint_small [of ?w] show ?thesis by (simp add: utf8ToCodePoint_def Let_def)
qed

lemma decode_4:
  assumes "utf8ValidateChar bs = 4"
  shows "utf8ToCodePoint bs =
    (4, (uint (bs ! 0) mod 8) * 262144 + ((uint (bs ! 1) mod 64) * 4096
        + ((uint (bs ! 2) mod 64) * 64 + uint (bs ! 3) mod 64)))"
proof -
  let ?u = "push_bit 6 (ucast (bs ! 2 AND 0x3F)) OR ucast (bs ! 3 AND 0x3F) :: u32"
  let ?v = "push_bit 12 (ucast (bs ! 1 AND 0x3F)) OR ?u :: u32"
  let ?w = "push_bit 18 (ucast (bs ! 0 AND 0x07)) OR ?v :: u32"
  have b: "uint (bs ! 0) mod 8 \<le> 7" "uint (bs ! 1) mod 64 \<le> 63" "uint (bs ! 2) mod 64 \<le> 63"
    "uint (bs ! 3) mod 64 \<le> 63"
    by simp_all
  have u: "uint ?u = (uint (bs ! 2) mod 64) * 64 + uint (bs ! 3) mod 64"
    by (subst uint_shift_or) (simp_all add: byte_masks del: take_bit_and)
  have v: "uint ?v = (uint (bs ! 1) mod 64) * 4096 + uint ?u"
    using b u by (subst uint_shift_or) (simp_all add: byte_masks del: take_bit_and)
  have "uint ?w = (uint (bs ! 0) mod 8) * 262144 + uint ?v"
    using b u v by (subst uint_shift_or) (simp_all add: byte_masks del: take_bit_and)
  with assms b u v sint_small [of ?w] show ?thesis by (simp add: utf8ToCodePoint_def Let_def)
qed

lemma encode_arith:
  "codePointToUtf8 cp =
     (if cp < 0 \<or> 0x10FFFF < cp then []
      else if cp \<le> 0x7F then [byte_of cp]
      else if cp \<le> 0x7FF then [byte_of (0xC0 + cp div 64), byte_of (0x80 + cp mod 64)]
      else if cp \<le> 0xFFFF then
        [byte_of (0xE0 + cp div 4096), byte_of (0x80 + cp div 64 mod 64),
         byte_of (0x80 + cp mod 64)]
      else
        [byte_of (0xF0 + cp div 262144), byte_of (0x80 + cp div 4096 mod 64),
         byte_of (0x80 + cp div 64 mod 64), byte_of (0x80 + cp mod 64)])"
proof -
  have "x AND 0x3F = x mod 64" for x :: int using int_and_low [of x 6] by simp
  moreover have "0 \<le> cp \<Longrightarrow> cp \<le> 0x7FF \<Longrightarrow> cp div 64 < 32"
    "0 \<le> cp \<Longrightarrow> cp \<le> 0xFFFF \<Longrightarrow> cp div 4096 < 16"
    "0 \<le> cp \<Longrightarrow> cp \<le> 0x10FFFF \<Longrightarrow> cp div 262144 < 8" by linarith+
  ultimately show ?thesis
    by (auto simp: codePointToUtf8_def isValidCodePoint_def drop_bit_eq_div or_sums pos_imp_zdiv_nonneg_iff)
qed


definition is_scalar :: "int \<Rightarrow> bool" where
  "is_scalar cp \<longleftrightarrow> 0 \<le> cp \<and> cp \<le> 0x10FFFF \<and> \<not> (0xD800 \<le> cp \<and> cp \<le> 0xDFFF)"


lemma scalar_cases:
  assumes "is_scalar cp"
  obtains (1) "0 \<le> cp" "cp \<le> 0x7F" | (2) "0x7F < cp" "cp \<le> 0x7FF" 
  | (3) "0x7FF < cp" "cp \<le> 0xFFFF" "cp < 0xD800 \<or> 0xDFFF < cp" | (4) "0xFFFF < cp" "cp \<le> 0x10FFFF"
  using assms by (force simp: is_scalar_def)

text \<open>A code point as its groups of six bits.\<close>

lemma sextets_3:
  fixes cp :: int
  assumes "0x7FF < cp" "cp \<le> 0xFFFF"
  obtains x y z where "cp = x * 4096 + (y * 64 + z)" "cp div 4096 = x" "cp div 64 mod 64 = y"
    "cp mod 64 = z" "0 \<le> x" "x < 16" "0 \<le> y" "y < 64" "0 \<le> z" "z < 64" "x = 0 \<longrightarrow> 32 \<le> y"
proof -
  define p x y z where "p = cp div 64" and "x = p div 64" and "y = p mod 64" and "z = cp mod 64"
  have "p * 64 + z = cp" "x * 64 + y = p" and b: "0 \<le> z" "z < 64" "0 \<le> y" "y < 64"
    by (simp_all add: p_def x_def y_def z_def)
  then have eq: "cp = x * 4096 + (y * 64 + z)" and c: "0 \<le> x" "x < 16" "x = 0 \<longrightarrow> 32 \<le> y"
    using assms by linarith+
  have "cp div 4096 = x"
    using zdiv_zmult2_eq [of 64 cp 64] by (simp add: x_def p_def)
  then show ?thesis
    using that [OF eq _ _ _ c(1,2) b(3,4,1,2) c(3)] by (simp add: y_def p_def z_def)
qed

lemma sextets_4:
  fixes cp :: int
  assumes "0xFFFF < cp" "cp \<le> 0x10FFFF"
  obtains w x y z where "cp = w * 262144 + (x * 4096 + (y * 64 + z))" "cp div 262144 = w"
    "cp div 4096 mod 64 = x" "cp div 64 mod 64 = y" "cp mod 64 = z" "0 \<le> w" "w \<le> 4"
    "0 \<le> x" "x < 64" "0 \<le> y" "y < 64" "0 \<le> z" "z < 64" "w = 0 \<longrightarrow> 16 \<le> x" "w = 4 \<longrightarrow> x < 16"
proof -
  define p q w x y z where "p = cp div 64" and "q = p div 64" and "w = q div 64"
    and "x = q mod 64" and "y = p mod 64" and "z = cp mod 64"
  have "p * 64 + z = cp" "q * 64 + y = p" "w * 64 + x = q"
    and b: "0 \<le> z" "z < 64" "0 \<le> y" "y < 64" "0 \<le> x" "x < 64"
    by (simp_all add: p_def q_def w_def x_def y_def z_def)
  then have eq: "cp = w * 262144 + (x * 4096 + (y * 64 + z))"
    and c: "0 \<le> w" "w \<le> 4" "w = 0 \<longrightarrow> 16 \<le> x" "w = 4 \<longrightarrow> x < 16"
    using assms by linarith+
  have "cp div 4096 = q" "cp div 262144 = w"
    using zdiv_zmult2_eq [of 64 cp 64] zdiv_zmult2_eq [of 64 cp 4096] zdiv_zmult2_eq [of 64 p 64]
    by (simp_all add: q_def p_def w_def)
  then show ?thesis
    using that [OF eq _ _ _ _ c(1,2) b(5,6,3,4,1,2) c(3,4)] by (simp add: x_def y_def p_def z_def)
qed

lemma mod_dvd_add: "m dvd k \<Longrightarrow> 0 \<le> x \<Longrightarrow> x < m \<Longrightarrow> (k + x) mod m = x"
  for x k m :: int
  by (metis mod_pos_pos_trivial mod_add_left_eq add_0 dvd_eq_mod_eq_0)

lemma wf_utf8_3:
  "wf_utf8 [byte_of (0xE0 + x), byte_of (0x80 + y), byte_of (0x80 + z)]"
  if asm: "0 \<le> x" "x < 16" "0 \<le> y" "y < 64" "0 \<le> z" "z < 64" "x = 0 \<longrightarrow> 32 \<le> y" "x = 13 \<longrightarrow> y < 32"
proof -
  have u: "uint (byte_of (0xE0 + x)) = 0xE0 + x" "uint (byte_of (0x80 + y)) = 0x80 + y"
    "uint (byte_of (0x80 + z)) = 0x80 + z"
    using asm by simp_all
  consider "x = 0" | "x = 13" | "0 < x" "x < 13" | "13 < x" using asm(1) by linarith
  then show ?thesis
    using asm by cases (simp_all add: byte_uint cont_def u)
qed

lemma wf_utf8_4:
  "wf_utf8 [byte_of (0xF0 + w), byte_of (0x80 + x), byte_of (0x80 + y), byte_of (0x80 + z)]"
  if asm: "0 \<le> w" "w \<le> 4" "0 \<le> x" "x < 64" "0 \<le> y" "y < 64" "0 \<le> z" "z < 64"
    "w = 0 \<longrightarrow> 16 \<le> x" "w = 4 \<longrightarrow> x < 16"
proof -
  have u: "uint (byte_of (0xF0 + w)) = 0xF0 + w" "uint (byte_of (0x80 + x)) = 0x80 + x"
    "uint (byte_of (0x80 + y)) = 0x80 + y" "uint (byte_of (0x80 + z)) = 0x80 + z"
    using asm by simp_all
  consider "w = 0" | "w = 4" | "0 < w" "w < 4" using asm(1,2) by linarith
  then show ?thesis
    using asm by cases (simp_all add: byte_uint cont_def u)
qed

lemma encode_wf:
  assumes "is_scalar cp" 
  shows "wf_utf8 (codePointToUtf8 cp)"
  using assms
proof (cases rule: scalar_cases)
  case 2
  then have "2 \<le> cp div 64" "cp div 64 < 32" by linarith+
  with 2 show ?thesis by (simp add: encode_arith byte_uint cont_def)
next
  case 3
  obtain x y z where *: "cp = x * 4096 + (y * 64 + z)" "cp div 4096 = x" "cp div 64 mod 64 = y"
    "cp mod 64 = z" "0 \<le> x" "x < 16" "0 \<le> y" "y < 64" "0 \<le> z" "z < 64" "x = 0 \<longrightarrow> 32 \<le> y"
    by (rule sextets_3 [OF 3(1,2)])
  have enc: "codePointToUtf8 cp = [byte_of (0xE0 + x), byte_of (0x80 + y), byte_of (0x80 + z)]"
    using 3 *(2-4) by (simp add: encode_arith)
  have "x = 13 \<longrightarrow> y < 32" using 3 *(1,7-) by linarith
  with *(5-) show ?thesis unfolding enc by (intro wf_utf8_3) blast+
next
  case 4
  obtain w x y z where *: "cp = w * 262144 + (x * 4096 + (y * 64 + z))" "cp div 262144 = w"
    "cp div 4096 mod 64 = x" "cp div 64 mod 64 = y" "cp mod 64 = z" "0 \<le> w" "w \<le> 4"
    "0 \<le> x" "x < 64" "0 \<le> y" "y < 64" "0 \<le> z" "z < 64" "w = 0 \<longrightarrow> 16 \<le> x" "w = 4 \<longrightarrow> x < 16"
    by (rule sextets_4 [OF 4])
  have enc: "codePointToUtf8 cp = [byte_of (0xF0 + w), byte_of (0x80 + x), byte_of (0x80 + y), byte_of (0x80 + z)]"
    using 4 *(2-5) by (simp add: encode_arith)
  from *(6-) show ?thesis unfolding enc by (intro wf_utf8_4) blast+
qed (simp add: encode_arith byte_uint)


lemma decode_encode:
  assumes "is_scalar cp"
  shows "utf8ToCodePoint (codePointToUtf8 cp @ rest) = (length (codePointToUtf8 cp), cp)"
proof -
  have v: "utf8ValidateChar (codePointToUtf8 cp @ rest) = length (codePointToUtf8 cp)"
    using utf8ValidateChar_wf [of "codePointToUtf8 cp @ rest" "length (codePointToUtf8 cp) - 1"]
      encode_wf [OF assms] wf_utf8_length [of "codePointToUtf8 cp"]
    by (cases "codePointToUtf8 cp") simp_all
  show ?thesis
    using assms
  proof (cases rule: scalar_cases)
    case 1
    then show ?thesis using v by (simp add: decode_1 encode_arith)
  next
    case 2
    then have "0 \<le> cp div 64" "cp div 64 < 32" by linarith+
    with 2 v show ?thesis by (simp add: decode_2 encode_arith mod_dvd_add)
  next
    case 3
    obtain x y z where *: "cp = x * 4096 + (y * 64 + z)" "cp div 4096 = x" "cp div 64 mod 64 = y"
      "cp mod 64 = z" "0 \<le> x" "x < 16" "0 \<le> y" "y < 64" "0 \<le> z" "z < 64" "x = 0 \<longrightarrow> 32 \<le> y"
      by (rule sextets_3 [OF 3(1,2)])
    have enc: "codePointToUtf8 cp = [byte_of (0xE0 + x), byte_of (0x80 + y), byte_of (0x80 + z)]"
      using 3 *(2-4) by (simp add: encode_arith)
    show ?thesis using v *(5-) unfolding enc by (simp add: decode_3 mod_dvd_add *(1))
  next
    case 4
    obtain w x y z where *: "cp = w * 262144 + (x * 4096 + (y * 64 + z))" "cp div 262144 = w"
      "cp div 4096 mod 64 = x" "cp div 64 mod 64 = y" "cp mod 64 = z" "0 \<le> w" "w \<le> 4"
      "0 \<le> x" "x < 64" "0 \<le> y" "y < 64" "0 \<le> z" "z < 64" "w = 0 \<longrightarrow> 16 \<le> x" "w = 4 \<longrightarrow> x < 16"
      by (rule sextets_4 [OF 4])
    have enc: "codePointToUtf8 cp = [byte_of (0xF0 + w), byte_of (0x80 + x), byte_of (0x80 + y), byte_of (0x80 + z)]"
      using 4 *(2-5) by (simp add: encode_arith)
    show ?thesis using v *(6-) unfolding enc by (simp add: decode_4 mod_dvd_add *(1))
  qed
qed

lemma join_sextet:
  "0 \<le> z \<Longrightarrow> z < 64 \<Longrightarrow> (w * 64 + z) div 64 = w"
  "0 \<le> z \<Longrightarrow> z < 64 \<Longrightarrow> (w * 64 + z) mod 64 = z"
  for w z :: int
  by simp_all

lemma join_3:
  fixes x y z :: int
  assumes "0 \<le> y" "y < 64" "0 \<le> z" "z < 64"
  shows "(x * 4096 + (y * 64 + z)) div 4096 = x" "(x * 4096 + (y * 64 + z)) div 64 mod 64 = y"
    "(x * 4096 + (y * 64 + z)) mod 64 = z"
proof -
  have eq: "x * 4096 + (y * 64 + z) = (x * 64 + y) * 64 + z" by simp
  show "(x * 4096 + (y * 64 + z)) div 4096 = x"
    using zdiv_zmult2_eq [of 64 "(x * 64 + y) * 64 + z" 64] join_sextet(1) assms
    unfolding eq by simp
  show "(x * 4096 + (y * 64 + z)) div 64 mod 64 = y" "(x * 4096 + (y * 64 + z)) mod 64 = z"
    unfolding eq using assms by (simp_all only: join_sextet)
qed

lemma join_4:
  fixes w x y z :: int
  assumes "0 \<le> x" "x < 64" "0 \<le> y" "y < 64" "0 \<le> z" "z < 64"
  shows "(w * 262144 + (x * 4096 + (y * 64 + z))) div 262144 = w"
    "(w * 262144 + (x * 4096 + (y * 64 + z))) div 4096 mod 64 = x"
    "(w * 262144 + (x * 4096 + (y * 64 + z))) div 64 mod 64 = y"
    "(w * 262144 + (x * 4096 + (y * 64 + z))) mod 64 = z"
proof -
  have eq: "w * 262144 + (x * 4096 + (y * 64 + z)) = (w * 64 + x) * 4096 + (y * 64 + z)" by simp
  have q: "((w * 64 + x) * 4096 + (y * 64 + z)) div 4096 = w * 64 + x"
    by (rule join_3 [OF assms(3-6)])
  then show "(w * 262144 + (x * 4096 + (y * 64 + z))) div 262144 = w"
    using zdiv_zmult2_eq [of 64 "(w * 64 + x) * 4096 + (y * 64 + z)" 4096] join_sextet(1) [OF assms(1,2)]
    unfolding eq by simp
  show "(w * 262144 + (x * 4096 + (y * 64 + z))) div 4096 mod 64 = x"
    unfolding eq q using assms(1,2) by (rule join_sextet)
  show "(w * 262144 + (x * 4096 + (y * 64 + z))) div 64 mod 64 = y"
    "(w * 262144 + (x * 4096 + (y * 64 + z))) mod 64 = z"
    unfolding eq by (rule join_3 [OF assms(3-6)])+
qed

lemma wf_utf8_encoding:
  assumes "wf_utf8 ws"
  obtains cp where "is_scalar cp" "codePointToUtf8 cp = ws"
proof (cases ws rule: wf_utf8.cases)
  case (1 a)
  with assms have "is_scalar (uint a)" "codePointToUtf8 (uint a) = ws"
    by (simp_all add: is_scalar_def encode_arith byte_le_uint)
  then show ?thesis by (rule that)
next
  case (2 a b)
  define x y where "x = uint a - 0xC0" and "y = uint b - 0x80"
  have xy: "2 \<le> x" "x < 32" "0 \<le> y" "y < 64"
    using assms 2 by (simp_all add: x_def y_def cont_def byte_le_uint)
  have ws: "ws = [byte_of (0xC0 + x), byte_of (0x80 + y)]"
    using 2 by (simp add: x_def y_def)
  define cp where "cp = x * 64 + y"
  have cp: "is_scalar cp" "0x7F < cp" "cp \<le> 0x7FF"
    using xy unfolding cp_def is_scalar_def by linarith+
  moreover have "codePointToUtf8 cp = ws"
    using cp(2,3) join_sextet [OF xy(3,4), of x] by (simp add: ws encode_arith flip: cp_def)
  ultimately show ?thesis by (intro that)
next
  case (3 a b c)
  define x y z where "x = uint a - 0xE0" and "y = uint b - 0x80" and "z = uint c - 0x80"
  have xyz: "0 \<le> x" "x < 16" "0 \<le> y" "y < 64" "0 \<le> z" "z < 64" "x = 0 \<longrightarrow> 32 \<le> y" "x = 13 \<longrightarrow> y < 32"
    using assms 3 by (auto simp: x_def y_def z_def cont_def byte_le_uint)
  have ws: "ws = [byte_of (0xE0 + x), byte_of (0x80 + y), byte_of (0x80 + z)]"
    using 3 by (simp add: x_def y_def z_def)
  define cp where "cp = x * 4096 + (y * 64 + z)"
  have range: "0x7FF < cp" "cp \<le> 0xFFFF"
    using xyz unfolding cp_def by linarith+
  have "\<not> (0xD800 \<le> cp \<and> cp \<le> 0xDFFF)"
  proof
    assume "0xD800 \<le> cp \<and> cp \<le> 0xDFFF"
    moreover from this have "x = 13" using xyz unfolding cp_def by linarith
    ultimately show False using xyz unfolding cp_def by linarith
  qed
  with range have cp: "is_scalar cp" "0x7FF < cp" "cp \<le> 0xFFFF"
    by (simp_all add: is_scalar_def)
  moreover have "codePointToUtf8 cp = ws"
    using cp(2,3) join_3 [OF xyz(3-6), of x] by (simp add: ws encode_arith flip: cp_def)
  ultimately show ?thesis by (intro that)
next
  case (4 a b c d)
  define w x y z where "w = uint a - 0xF0" and "x = uint b - 0x80" and "y = uint c - 0x80"
    and "z = uint d - 0x80"
  have wxyz: "0 \<le> x" "x < 64" "0 \<le> y" "y < 64" "0 \<le> z" "z < 64" "0 \<le> w" "w \<le> 4"
     "w = 0 \<longrightarrow> 16 \<le> x" "w = 4 \<longrightarrow> x < 16"
    using assms 4 by (auto simp: w_def x_def y_def z_def cont_def byte_le_uint)
  have ws: "ws = [byte_of (0xF0 + w), byte_of (0x80 + x), byte_of (0x80 + y), byte_of (0x80 + z)]"
    using 4 by (simp add: w_def x_def y_def z_def)
  define cp where "cp = w * 262144 + (x * 4096 + (y * 64 + z))"
  have "0xFFFF < cp" "cp \<le> 0x10FFFF"
    using wxyz unfolding cp_def by linarith+
  then have cp: "is_scalar cp" "0xFFFF < cp" "cp \<le> 0x10FFFF"
    by (simp_all add: is_scalar_def)
  moreover have "codePointToUtf8 cp = ws"
    using cp(2,3) join_4 [OF wxyz(1-6), of w] by (simp add: ws encode_arith flip: cp_def)
  ultimately show ?thesis by (intro that)
qed (use assms in simp_all)

lemma encode_decode:
  assumes "utf8ToCodePoint bs = (Suc n, cp)"
  shows "is_scalar cp \<and> codePointToUtf8 cp = take (Suc n) bs"
proof -
  have "utf8ValidateChar bs = Suc n"
    using assms by (simp add: utf8ToCodePoint_def Let_def)
  then have "Suc n \<le> length bs" "wf_utf8 (take (Suc n) bs)"
    by (simp_all add: utf8ValidateChar_wf)
  moreover from this obtain cp' where cp': "is_scalar cp'" "codePointToUtf8 cp' = take (Suc n) bs"
    by (elim wf_utf8_encoding)
  ultimately have "utf8ToCodePoint bs = (Suc n, cp')"
    using decode_encode [OF cp'(1), of "drop (Suc n) bs"] by simp
  with cp' assms show ?thesis by simp
qed


section \<open>Main results\<close>

text \<open>
  [C1] The validator of \<open>UnicodeUtil\<close> accepts exactly the byte sequences of the Unicode
  standard: it returns a positive size \<open>n\<close> if and only if the buffer starts with a well-formed
  sequence of \<open>n\<close> bytes (no overlong form, no surrogate, nothing above 0x10FFFF), and it never
  reads past the end of the buffer.
\<close>

theorem utf8ValidateChar_table:
  "utf8ValidateChar bs = Suc n \<longleftrightarrow> Suc n \<le> length bs \<and> wf_utf8 (take (Suc n) bs)"
  by (rule utf8ValidateChar_wf)

text \<open>
  [C2] The decoder and the encoder of \<open>UnicodeUtil\<close> are inverse to each other: decoding
  succeeds with size \<open>n\<close> and code point \<open>cp\<close> exactly when \<open>cp\<close> is a Unicode scalar value
  (so never a surrogate and never above 0x10FFFF) and the first \<open>n\<close> bytes of the buffer are
  its encoding, whatever follows them.
\<close>

theorem utf8_decode_iff_encode:
  "utf8ToCodePoint bs = (Suc n, cp) \<longleftrightarrow>
     is_scalar cp \<and> codePointToUtf8 cp = take (Suc n) bs \<and> length (codePointToUtf8 cp) = Suc n"
proof
  assume dec: "utf8ToCodePoint bs = (Suc n, cp)"
  then have "utf8ValidateChar bs = Suc n" by (simp add: utf8ToCodePoint_def Let_def)
  then have "Suc n \<le> length bs" by (simp only: utf8ValidateChar_wf)
  with encode_decode [OF dec]
  show "is_scalar cp \<and> codePointToUtf8 cp = take (Suc n) bs \<and> length (codePointToUtf8 cp) = Suc n"
    by simp
next
  assume *: "is_scalar cp \<and> codePointToUtf8 cp = take (Suc n) bs \<and> length (codePointToUtf8 cp) = Suc n"
  then have "utf8ToCodePoint (codePointToUtf8 cp @ drop (Suc n) bs) = (Suc n, cp)"
    using decode_encode [of cp "drop (Suc n) bs"] by metis
  with * show "utf8ToCodePoint bs = (Suc n, cp)" by simp
qed

text \<open>The lead byte alone tells the size of a valid sequence.\<close>

lemma utf8ByteSize_ranges:
  "utf8ByteSize b =
     (if uint b < 0x80 then 1 else if uint b < 0xC0 then 0 else if uint b < 0xE0 then 2
      else if uint b < 0xF0 then 3 else if uint b < 0xF8 then 4 else 0)"
proof -
  define n where "n = unat b"
  then have n: "uint b = int n" and "n < 256" by simp_all
  then consider "n < 128" | "128 \<le> n" "n < 192" | "192 \<le> n" "n < 224"
    | "224 \<le> n" "n < 240" | "240 \<le> n" "n < 248" | "248 \<le> n" "n < 256"
    by linarith
  then show ?thesis
    unfolding n utf8ByteSize_def utf8_size_table_def n_def [symmetric]
    by cases (simp_all add: nth_append not_less less_diff_conv2)
qed

lemma utf8NextPos_valid:
  assumes "utf8ValidateChar (b # bs) = Suc n"
  shows "utf8NextPos pos b = pos + Suc n"
  using assms by (simp add: validate_cons utf8NextPos_def utf8ByteSize_ranges Let_def split: if_splits)

text \<open>
  The encoder writes three bytes for a surrogate code point, which the decoder then refuses.
\<close>

lemma surrogate_not_decodable:
  assumes "0xD800 \<le> cp" "cp \<le> 0xDFFF"
  shows "length (codePointToUtf8 cp) = 3" and "fst (utf8ToCodePoint (codePointToUtf8 cp)) = 0"
proof -
  show *: "length (codePointToUtf8 cp) = 3" using assms by (simp add: encode_arith)
  have "cp div 4096 = 13" "864 \<le> cp div 64" "cp div 64 < 896" using assms by linarith+
  moreover have "32 \<le> k mod 64" "k mod 64 < 64" if "864 \<le> k" "k < 896" for k :: int
    using that by presburger+
  moreover define y z where "y = cp div 64 mod 64" and "z = byte_of (0x80 + cp mod 64)"
  ultimately have y: "32 \<le> y" "y < 64"
    and enc: "codePointToUtf8 cp = [byte_of 0xED, byte_of (0x80 + y), z]"
    using assms by (simp_all add: encode_arith)
  have "\<not> wf_utf8 [byte_of 0xED, byte_of (0x80 + y), z]"
    using y by (simp add: byte_uint)
  then have "utf8ValidateChar (codePointToUtf8 cp) = 0"
    by (simp add: enc validate_cons del: wf_utf8.simps)
  then show "fst (utf8ToCodePoint (codePointToUtf8 cp)) = 0"
    by (simp add: utf8ToCodePoint_def Let_def)
qed

text \<open>
  The UTF-16 surrogate arithmetic: two code units combine to \<open>cp\<close> exactly when \<open>cp\<close> is
  a supplementary code point and the units are its high and low surrogates; every other pair
  gives -1.
\<close>

theorem utf16ToCodePoint_surrogates:
  "utf16ToCodePoint high low = cp \<and> cp \<noteq> -1 \<longleftrightarrow>
     isSupplementaryCodePoint cp
     \<and> uint high = 0xD800 + (cp - 0x10000) div 1024 \<and> uint low = 0xDC00 + (cp - 0x10000) mod 1024"
proof -
  define x y where "x = uint high - 0xD800" and "y = uint low - 0xDC00"
  have hl: "isHighSurrogate high \<longleftrightarrow> 0 \<le> x \<and> x < 1024" "isLowSurrogate low \<longleftrightarrow> 0 \<le> y \<and> y < 1024"
    by (auto simp: isHighSurrogate_def isLowSurrogate_def word_le_def x_def y_def)
  have val: "utf16ToCodePoint high low = x * 1024 + y + 0x10000"
    if "0 \<le> x" "x < 1024" "0 \<le> y" "y < 1024"
  proof -
    define v where "v = x * 1024 + y + 0x10000"
    have "push_bit 10 (word_of_int x :: u32) + word_of_int y + 0x10000 = word_of_int v"
      by (simp add: push_bit_eq_mult v_def)
    moreover have v: "0 \<le> v" "v < 2 ^ 31" using that by (simp_all add: v_def)
    then have "uint (word_of_int v :: u32) = v"
      by (simp add: uint_word_of_int_eq take_bit_int_eq_self)
    then have "sint (word_of_int v :: u32) = v"
      using v by (subst sint_small) simp_all
    ultimately show ?thesis
      using that hl by (simp add: utf16ToCodePoint_def v_def flip: x_def y_def)
  qed
  show ?thesis
  proof (cases "0 \<le> x \<and> x < 1024 \<and> 0 \<le> y \<and> y < 1024")
    case True
    moreover from this have "(x * 1024 + y) div 1024 = x" "(x * 1024 + y) mod 1024 = y" by simp_all
    moreover have "uint high = 0xD800 + x" "uint low = 0xDC00 + y" by (simp_all add: x_def y_def)
    ultimately show ?thesis
      using val div_mult_mod_eq [of "cp - 0x10000" 1024]
      by (auto simp: isSupplementaryCodePoint_def)
  next
    case False
    then have "utf16ToCodePoint high low = -1" using hl by (auto simp: utf16ToCodePoint_def)
    moreover have "0 \<le> x \<and> x < 1024 \<and> 0 \<le> y \<and> y < 1024"
      if "isSupplementaryCodePoint cp" "uint high = 0xD800 + (cp - 0x10000) div 1024"
        "uint low = 0xDC00 + (cp - 0x10000) mod 1024"
      using that unfolding isSupplementaryCodePoint_def x_def y_def by linarith
    ultimately show ?thesis using False by blast
  qed
qed

end
