(* ===== verification/Binary_Search.thy ===== *)
theory Binary_Search
  imports Prelude
begin

text \<open>
  The standard library's \<open>std::lower_bound\<close> and \<open>std::binary_search\<close> as the sources use them,
  over a list and a predicate "this element is before the searched value".  The locale
  \<open>interval_table\<close> is the contract under which \<open>searchFrom\<close> (\<open>src/misc/unicode.hpp\<close>) and the
  grapheme break lookup (\<open>src/misc/grapheme.hpp\<close>) search their tables of code point intervals:
  the intervals are non-empty, disjoint and in ascending order.
\<close>

section \<open>Lower bound by halving\<close>

text \<open>
  The half-open range \<open>[first, first + len)\<close> is halved until it is empty.
\<close>

fun lower_bound_from :: "('a \<Rightarrow> bool) \<Rightarrow> 'a list \<Rightarrow> nat \<Rightarrow> nat \<Rightarrow> nat" where
  "lower_bound_from precedes xs first len =
     (if len = 0 then first
      else let half = len div 2; mid = first + half
           in if precedes (xs ! mid) then lower_bound_from precedes xs (mid + 1) (len - half - 1)
              else lower_bound_from precedes xs first half)"

declare lower_bound_from.simps [simp del]

definition lower_bound :: "('a \<Rightarrow> bool) \<Rightarrow> 'a list \<Rightarrow> nat" where
  "lower_bound precedes xs = lower_bound_from precedes xs 0 (length xs)"

text \<open>
  On a list that is partitioned by the predicate the halving finds the partition point.
\<close>

definition partitioned :: "('a \<Rightarrow> bool) \<Rightarrow> 'a list \<Rightarrow> bool" where
  "partitioned precedes xs \<longleftrightarrow> (\<forall>i j. i \<le> j \<longrightarrow> j < length xs \<longrightarrow> precedes (xs ! j) \<longrightarrow> precedes (xs ! i))"

lemma lower_bound_from_spec:
  assumes part: "partitioned precedes xs"
  shows "\<lbrakk> first + len \<le> length xs; \<forall>i < first. precedes (xs ! i);
      \<forall>i. first + len \<le> i \<longrightarrow> i < length xs \<longrightarrow> \<not> precedes (xs ! i) \<rbrakk>
    \<Longrightarrow> lower_bound_from precedes xs first len \<le> length xs
      \<and> (\<forall>i < length xs. precedes (xs ! i) \<longleftrightarrow> i < lower_bound_from precedes xs first len)"
proof (induction len arbitrary: first rule: less_induct)
  case (less len)
  define half where "half = len div 2"
  show ?case
  proof (cases "len = 0")
    case True
    with less.prems show ?thesis
      by (simp add: lower_bound_from.simps [of precedes xs first 0]) (meson not_less)
  next
    case False
    then have half: "half < len" by (simp add: half_def)
    show ?thesis
    proof (cases "precedes (xs ! (first + half))")
      case True
      then have "\<forall>i < first + half + 1. precedes (xs ! i)"
        using part less.prems(1) half unfolding partitioned_def
        by (metis Suc_eq_plus1 add_less_cancel_left less_Suc_eq_le order_less_le_trans)
      with less.IH [of "len - half - 1" "first + half + 1"] less.prems half True False
      show ?thesis
        by (simp add: lower_bound_from.simps [of precedes xs first len] Let_def flip: half_def)
    next
      case nb: False
      then have "\<forall>i. first + half \<le> i \<longrightarrow> i < length xs \<longrightarrow> \<not> precedes (xs ! i)"
        using part unfolding partitioned_def by blast
      with less.IH [of half first] less.prems half nb False
      show ?thesis
        by (simp add: lower_bound_from.simps [of precedes xs first len] Let_def flip: half_def)
    qed
  qed
qed

lemma lower_bound_from_le:
  "first + len \<le> n \<Longrightarrow> lower_bound_from precedes xs first len \<le> n"
proof (induction precedes xs first len rule: lower_bound_from.induct)
  case (1 precedes xs first len)
  then show ?case
    by (subst lower_bound_from.simps) (auto simp: Let_def)
qed

lemma lower_bound_le: "lower_bound precedes xs \<le> length xs"
  by (simp add: lower_bound_def lower_bound_from_le)

lemma lower_bound_spec:
  assumes "partitioned precedes xs"
  shows "lower_bound precedes xs \<le> length xs"
    and "i < length xs \<Longrightarrow> precedes (xs ! i) \<longleftrightarrow> i < lower_bound precedes xs"
  using lower_bound_from_spec [OF assms, of 0 "length xs"] by (simp_all add: lower_bound_def)

section \<open>Tables of intervals\<close>

text \<open>
  An entry \<open>e\<close> of a table covers the code points from \<open>lo e\<close> to \<open>hi e\<close>; the entries of a
  table are non-empty and ascending.
\<close>

fun ascending :: "('e \<Rightarrow> int) \<Rightarrow> ('e \<Rightarrow> int) \<Rightarrow> 'e list \<Rightarrow> bool" where
  "ascending lo hi [] \<longleftrightarrow> True"
| "ascending lo hi [a] \<longleftrightarrow> lo a \<le> hi a"
| "ascending lo hi (a # b # rest) \<longleftrightarrow> lo a \<le> hi a \<and> hi a < lo b \<and> ascending lo hi (b # rest)"

lemma ascending_first:
  "ascending lo hi (a # rest) \<Longrightarrow> lo a \<le> hi a \<and> (\<forall>b \<in> set rest. hi a < lo b)"
proof (induction rest arbitrary: a)
  case (Cons b rest)
  from Cons.prems have "lo a \<le> hi a" "hi a < lo b" and asc: "ascending lo hi (b # rest)" by auto
  with Cons.IH [OF asc] show ?case by fastforce
qed simp

lemma ascending_tl: "ascending lo hi (a # rest) \<Longrightarrow> ascending lo hi rest"
  by (cases rest) auto

lemma ascending_sorted_wrt: "ascending lo hi tbl \<Longrightarrow> sorted_wrt (\<lambda>a b. hi a < lo b) tbl"
proof (induction tbl)
  case (Cons a rest)
  then show ?case using ascending_first [OF Cons.prems] ascending_tl [OF Cons.prems] by simp
qed simp

lemma ascending_nonempty: "ascending lo hi tbl \<Longrightarrow> a \<in> set tbl \<Longrightarrow> lo a \<le> hi a"
proof (induction tbl)
  case (Cons b rest)
  then show ?case using ascending_first [OF Cons.prems(1)] ascending_tl [OF Cons.prems(1)] by auto
qed simp

locale interval_table =
  fixes lo hi :: "'e \<Rightarrow> int" and tbl :: "'e list"
  assumes asc: "ascending lo hi tbl"
begin

lemma nth_disjoint: "i < j \<Longrightarrow> j < length tbl \<Longrightarrow> hi (tbl ! i) < lo (tbl ! j)"
  using ascending_sorted_wrt [OF asc] by (simp add: sorted_wrt_iff_nth_less)

lemma partitioned_upper: "partitioned (\<lambda>e. hi e < c) tbl"
proof -
  have "hi (tbl ! i) < c" if "i \<le> j" "j < length tbl" "hi (tbl ! j) < c" for i j
    using that nth_disjoint [of i j] ascending_nonempty [OF asc nth_mem, of j]
    by (cases "i = j") auto
  then show ?thesis by (auto simp: partitioned_def)
qed

abbreviation pos :: "int \<Rightarrow> nat" where
  "pos c \<equiv> lower_bound (\<lambda>e. hi e < c) tbl"

text \<open>The interval at the lower bound is the only one that can hold the code point.\<close>

lemma member_iff:
  "e \<in> set tbl \<and> lo e \<le> c \<and> c \<le> hi e \<longleftrightarrow> pos c < length tbl \<and> e = tbl ! pos c \<and> lo e \<le> c"
proof
  assume e: "e \<in> set tbl \<and> lo e \<le> c \<and> c \<le> hi e"
  then obtain i where i: "i < length tbl" "e = tbl ! i" by (auto simp: in_set_conv_nth)
  have "\<not> hi (tbl ! i) < c" using e i by simp
  then have le: "pos c \<le> i"
    using lower_bound_spec(2) [OF partitioned_upper i(1)] by (simp add: not_less)
  have "\<not> pos c < i"
  proof
    assume lt: "pos c < i"
    then have "hi (tbl ! pos c) < c" using nth_disjoint [OF lt i(1)] e i by simp
    then show False
      using lower_bound_spec(2) [OF partitioned_upper, of "pos c" c] lt i(1) by simp
  qed
  with le e i show "pos c < length tbl \<and> e = tbl ! pos c \<and> lo e \<le> c" by simp
next
  assume *: "pos c < length tbl \<and> e = tbl ! pos c \<and> lo e \<le> c"
  then have "\<not> hi (tbl ! pos c) < c"
    using lower_bound_spec(2) [OF partitioned_upper, of "pos c" c] by simp
  with * show "e \<in> set tbl \<and> lo e \<le> c \<and> c \<le> hi e" by (metis not_less nth_mem)
qed

lemma covered_iff:
  "(\<exists>e \<in> set tbl. lo e \<le> c \<and> c \<le> hi e) \<longleftrightarrow> pos c < length tbl \<and> lo (tbl ! pos c) \<le> c"
  using member_iff by metis

end

end
