(* ===== verification/Grapheme_Table.thy ===== *)
theory Grapheme_Table
  imports Binary_Search
begin

text \<open>
  \<open>src/misc/grapheme_break_property.h\<close>: the table of Unicode grapheme break properties that
  \<open>GraphemeBoundary::getBreakProperty\<close> searches, in consecutive parts, and the fact that the
  whole table is ascending (\<open>grapheme_table_ascending\<close>).
\<close>

datatype BreakProperty =
    BP_SOT
  | BP_Any | BP_CR | BP_LF | BP_Control | BP_Extend | BP_ZWJ | BP_Regional_Indicator
  | BP_Prepend | BP_SpacingMark | BP_L | BP_V | BP_T | BP_LV | BP_LVT
  | BP_Extended_Pictographic
  | BP_Extended_Pictographic_with_ZWJ

type_synonym property_interval = "int \<times> int \<times> BreakProperty"

definition grapheme_break_property_table_1 :: "property_interval list" where
  "grapheme_break_property_table_1 = [
     (0x0000, 0x0009, BP_Control), (0x000A, 0x000A, BP_LF), (0x000B, 0x000C, BP_Control),
     (0x000D, 0x000D, BP_CR), (0x000E, 0x001F, BP_Control), (0x007F, 0x009F, BP_Control),
     (0x00A9, 0x00A9, BP_Extended_Pictographic), (0x00AD, 0x00AD, BP_Control), (0x00AE, 0x00AE, BP_Extended_Pictographic),
     (0x0300, 0x036F, BP_Extend), (0x0483, 0x0489, BP_Extend), (0x0591, 0x05BD, BP_Extend),
     (0x05BF, 0x05BF, BP_Extend), (0x05C1, 0x05C2, BP_Extend), (0x05C4, 0x05C5, BP_Extend),
     (0x05C7, 0x05C7, BP_Extend), (0x0600, 0x0605, BP_Prepend), (0x0610, 0x061A, BP_Extend),
     (0x061C, 0x061C, BP_Control), (0x064B, 0x065F, BP_Extend), (0x0670, 0x0670, BP_Extend),
     (0x06D6, 0x06DC, BP_Extend), (0x06DD, 0x06DD, BP_Prepend), (0x06DF, 0x06E4, BP_Extend),
     (0x06E7, 0x06E8, BP_Extend), (0x06EA, 0x06ED, BP_Extend), (0x070F, 0x070F, BP_Prepend),
     (0x0711, 0x0711, BP_Extend), (0x0730, 0x074A, BP_Extend), (0x07A6, 0x07B0, BP_Extend),
     (0x07EB, 0x07F3, BP_Extend), (0x07FD, 0x07FD, BP_Extend), (0x0816, 0x0819, BP_Extend),
     (0x081B, 0x0823, BP_Extend), (0x0825, 0x0827, BP_Extend), (0x0829, 0x082D, BP_Extend),
     (0x0859, 0x085B, BP_Extend), (0x08D3, 0x08E1, BP_Extend), (0x08E2, 0x08E2, BP_Prepend),
     (0x08E3, 0x0902, BP_Extend), (0x0903, 0x0903, BP_SpacingMark), (0x093A, 0x093A, BP_Extend),
     (0x093B, 0x093B, BP_SpacingMark), (0x093C, 0x093C, BP_Extend), (0x093E, 0x0940, BP_SpacingMark),
     (0x0941, 0x0948, BP_Extend), (0x0949, 0x094C, BP_SpacingMark), (0x094D, 0x094D, BP_Extend),
     (0x094E, 0x094F, BP_SpacingMark), (0x0951, 0x0957, BP_Extend), (0x0962, 0x0963, BP_Extend),
     (0x0981, 0x0981, BP_Extend), (0x0982, 0x0983, BP_SpacingMark), (0x09BC, 0x09BC, BP_Extend),
     (0x09BE, 0x09BE, BP_Extend), (0x09BF, 0x09C0, BP_SpacingMark), (0x09C1, 0x09C4, BP_Extend),
     (0x09C7, 0x09C8, BP_SpacingMark), (0x09CB, 0x09CC, BP_SpacingMark), (0x09CD, 0x09CD, BP_Extend),
     (0x09D7, 0x09D7, BP_Extend), (0x09E2, 0x09E3, BP_Extend), (0x09FE, 0x09FE, BP_Extend),
     (0x0A01, 0x0A02, BP_Extend), (0x0A03, 0x0A03, BP_SpacingMark), (0x0A3C, 0x0A3C, BP_Extend),
     (0x0A3E, 0x0A40, BP_SpacingMark), (0x0A41, 0x0A42, BP_Extend), (0x0A47, 0x0A48, BP_Extend),
     (0x0A4B, 0x0A4D, BP_Extend), (0x0A51, 0x0A51, BP_Extend), (0x0A70, 0x0A71, BP_Extend),
     (0x0A75, 0x0A75, BP_Extend), (0x0A81, 0x0A82, BP_Extend), (0x0A83, 0x0A83, BP_SpacingMark),
     (0x0ABC, 0x0ABC, BP_Extend), (0x0ABE, 0x0AC0, BP_SpacingMark), (0x0AC1, 0x0AC5, BP_Extend),
     (0x0AC7, 0x0AC8, BP_Extend), (0x0AC9, 0x0AC9, BP_SpacingMark), (0x0ACB, 0x0ACC, BP_SpacingMark),
     (0x0ACD, 0x0ACD, BP_Extend), (0x0AE2, 0x0AE3, BP_Extend), (0x0AFA, 0x0AFF, BP_Extend),
     (0x0B01, 0x0B01, BP_Extend), (0x0B02, 0x0B03, BP_SpacingMark), (0x0B3C, 0x0B3C, BP_Extend),
     (0x0B3E, 0x0B3F, BP_Extend), (0x0B40, 0x0B40, BP_SpacingMark), (0x0B41, 0x0B44, BP_Extend),
     (0x0B47, 0x0B48, BP_SpacingMark), (0x0B4B, 0x0B4C, BP_SpacingMark), (0x0B4D, 0x0B4D, BP_Extend),
     (0x0B55, 0x0B57, BP_Extend), (0x0B62, 0x0B63, BP_Extend), (0x0B82, 0x0B82, BP_Extend),
     (0x0BBE, 0x0BBE, BP_Extend), (0x0BBF, 0x0BBF, BP_SpacingMark), (0x0BC0, 0x0BC0, BP_Extend),
     (0x0BC1, 0x0BC2, BP_SpacingMark), (0x0BC6, 0x0BC8, BP_SpacingMark), (0x0BCA, 0x0BCC, BP_SpacingMark),
     (0x0BCD, 0x0BCD, BP_Extend), (0x0BD7, 0x0BD7, BP_Extend), (0x0C00, 0x0C00, BP_Extend),
     (0x0C01, 0x0C03, BP_SpacingMark), (0x0C04, 0x0C04, BP_Extend), (0x0C3E, 0x0C40, BP_Extend),
     (0x0C41, 0x0C44, BP_SpacingMark), (0x0C46, 0x0C48, BP_Extend), (0x0C4A, 0x0C4D, BP_Extend),
     (0x0C55, 0x0C56, BP_Extend), (0x0C62, 0x0C63, BP_Extend), (0x0C81, 0x0C81, BP_Extend),
     (0x0C82, 0x0C83, BP_SpacingMark), (0x0CBC, 0x0CBC, BP_Extend), (0x0CBE, 0x0CBE, BP_SpacingMark),
     (0x0CBF, 0x0CBF, BP_Extend), (0x0CC0, 0x0CC1, BP_SpacingMark), (0x0CC2, 0x0CC2, BP_Extend),
     (0x0CC3, 0x0CC4, BP_SpacingMark), (0x0CC6, 0x0CC6, BP_Extend), (0x0CC7, 0x0CC8, BP_SpacingMark),
     (0x0CCA, 0x0CCB, BP_SpacingMark), (0x0CCC, 0x0CCD, BP_Extend), (0x0CD5, 0x0CD6, BP_Extend),
     (0x0CE2, 0x0CE3, BP_Extend), (0x0D00, 0x0D01, BP_Extend), (0x0D02, 0x0D03, BP_SpacingMark),
     (0x0D3B, 0x0D3C, BP_Extend), (0x0D3E, 0x0D3E, BP_Extend), (0x0D3F, 0x0D40, BP_SpacingMark),
     (0x0D41, 0x0D44, BP_Extend), (0x0D46, 0x0D48, BP_SpacingMark), (0x0D4A, 0x0D4C, BP_SpacingMark),
     (0x0D4D, 0x0D4D, BP_Extend), (0x0D4E, 0x0D4E, BP_Prepend), (0x0D57, 0x0D57, BP_Extend),
     (0x0D62, 0x0D63, BP_Extend), (0x0D81, 0x0D81, BP_Extend), (0x0D82, 0x0D83, BP_SpacingMark),
     (0x0DCA, 0x0DCA, BP_Extend), (0x0DCF, 0x0DCF, BP_Extend), (0x0DD0, 0x0DD1, BP_SpacingMark),
     (0x0DD2, 0x0DD4, BP_Extend)]"

definition grapheme_break_property_table_2 :: "property_interval list" where
  "grapheme_break_property_table_2 = [
     (0x0DD6, 0x0DD6, BP_Extend), (0x0DD8, 0x0DDE, BP_SpacingMark), (0x0DDF, 0x0DDF, BP_Extend),
     (0x0DF2, 0x0DF3, BP_SpacingMark), (0x0E31, 0x0E31, BP_Extend), (0x0E33, 0x0E33, BP_SpacingMark),
     (0x0E34, 0x0E3A, BP_Extend), (0x0E47, 0x0E4E, BP_Extend), (0x0EB1, 0x0EB1, BP_Extend),
     (0x0EB3, 0x0EB3, BP_SpacingMark), (0x0EB4, 0x0EBC, BP_Extend), (0x0EC8, 0x0ECD, BP_Extend),
     (0x0F18, 0x0F19, BP_Extend), (0x0F35, 0x0F35, BP_Extend), (0x0F37, 0x0F37, BP_Extend),
     (0x0F39, 0x0F39, BP_Extend), (0x0F3E, 0x0F3F, BP_SpacingMark), (0x0F71, 0x0F7E, BP_Extend),
     (0x0F7F, 0x0F7F, BP_SpacingMark), (0x0F80, 0x0F84, BP_Extend), (0x0F86, 0x0F87, BP_Extend),
     (0x0F8D, 0x0F97, BP_Extend), (0x0F99, 0x0FBC, BP_Extend), (0x0FC6, 0x0FC6, BP_Extend),
     (0x102D, 0x1030, BP_Extend), (0x1031, 0x1031, BP_SpacingMark), (0x1032, 0x1037, BP_Extend),
     (0x1039, 0x103A, BP_Extend), (0x103B, 0x103C, BP_SpacingMark), (0x103D, 0x103E, BP_Extend),
     (0x1056, 0x1057, BP_SpacingMark), (0x1058, 0x1059, BP_Extend), (0x105E, 0x1060, BP_Extend),
     (0x1071, 0x1074, BP_Extend), (0x1082, 0x1082, BP_Extend), (0x1084, 0x1084, BP_SpacingMark),
     (0x1085, 0x1086, BP_Extend), (0x108D, 0x108D, BP_Extend), (0x109D, 0x109D, BP_Extend),
     (0x1100, 0x115F, BP_L), (0x1160, 0x11A7, BP_V), (0x11A8, 0x11FF, BP_T),
     (0x135D, 0x135F, BP_Extend), (0x1712, 0x1714, BP_Extend), (0x1732, 0x1734, BP_Extend),
     (0x1752, 0x1753, BP_Extend), (0x1772, 0x1773, BP_Extend), (0x17B4, 0x17B5, BP_Extend),
     (0x17B6, 0x17B6, BP_SpacingMark), (0x17B7, 0x17BD, BP_Extend), (0x17BE, 0x17C5, BP_SpacingMark),
     (0x17C6, 0x17C6, BP_Extend), (0x17C7, 0x17C8, BP_SpacingMark), (0x17C9, 0x17D3, BP_Extend),
     (0x17DD, 0x17DD, BP_Extend), (0x180B, 0x180D, BP_Extend), (0x180E, 0x180E, BP_Control),
     (0x1885, 0x1886, BP_Extend), (0x18A9, 0x18A9, BP_Extend), (0x1920, 0x1922, BP_Extend),
     (0x1923, 0x1926, BP_SpacingMark), (0x1927, 0x1928, BP_Extend), (0x1929, 0x192B, BP_SpacingMark),
     (0x1930, 0x1931, BP_SpacingMark), (0x1932, 0x1932, BP_Extend), (0x1933, 0x1938, BP_SpacingMark),
     (0x1939, 0x193B, BP_Extend), (0x1A17, 0x1A18, BP_Extend), (0x1A19, 0x1A1A, BP_SpacingMark),
     (0x1A1B, 0x1A1B, BP_Extend), (0x1A55, 0x1A55, BP_SpacingMark), (0x1A56, 0x1A56, BP_Extend),
     (0x1A57, 0x1A57, BP_SpacingMark), (0x1A58, 0x1A5E, BP_Extend), (0x1A60, 0x1A60, BP_Extend),
     (0x1A62, 0x1A62, BP_Extend), (0x1A65, 0x1A6C, BP_Extend), (0x1A6D, 0x1A72, BP_SpacingMark),
     (0x1A73, 0x1A7C, BP_Extend), (0x1A7F, 0x1A7F, BP_Extend), (0x1AB0, 0x1AC0, BP_Extend),
     (0x1B00, 0x1B03, BP_Extend), (0x1B04, 0x1B04, BP_SpacingMark), (0x1B34, 0x1B3A, BP_Extend),
     (0x1B3B, 0x1B3B, BP_SpacingMark), (0x1B3C, 0x1B3C, BP_Extend), (0x1B3D, 0x1B41, BP_SpacingMark),
     (0x1B42, 0x1B42, BP_Extend), (0x1B43, 0x1B44, BP_SpacingMark), (0x1B6B, 0x1B73, BP_Extend),
     (0x1B80, 0x1B81, BP_Extend), (0x1B82, 0x1B82, BP_SpacingMark), (0x1BA1, 0x1BA1, BP_SpacingMark),
     (0x1BA2, 0x1BA5, BP_Extend), (0x1BA6, 0x1BA7, BP_SpacingMark), (0x1BA8, 0x1BA9, BP_Extend),
     (0x1BAA, 0x1BAA, BP_SpacingMark), (0x1BAB, 0x1BAD, BP_Extend), (0x1BE6, 0x1BE6, BP_Extend),
     (0x1BE7, 0x1BE7, BP_SpacingMark), (0x1BE8, 0x1BE9, BP_Extend), (0x1BEA, 0x1BEC, BP_SpacingMark),
     (0x1BED, 0x1BED, BP_Extend), (0x1BEE, 0x1BEE, BP_SpacingMark), (0x1BEF, 0x1BF1, BP_Extend),
     (0x1BF2, 0x1BF3, BP_SpacingMark), (0x1C24, 0x1C2B, BP_SpacingMark), (0x1C2C, 0x1C33, BP_Extend),
     (0x1C34, 0x1C35, BP_SpacingMark), (0x1C36, 0x1C37, BP_Extend), (0x1CD0, 0x1CD2, BP_Extend),
     (0x1CD4, 0x1CE0, BP_Extend), (0x1CE1, 0x1CE1, BP_SpacingMark), (0x1CE2, 0x1CE8, BP_Extend),
     (0x1CED, 0x1CED, BP_Extend), (0x1CF4, 0x1CF4, BP_Extend), (0x1CF7, 0x1CF7, BP_SpacingMark),
     (0x1CF8, 0x1CF9, BP_Extend), (0x1DC0, 0x1DF9, BP_Extend), (0x1DFB, 0x1DFF, BP_Extend),
     (0x200B, 0x200B, BP_Control), (0x200C, 0x200C, BP_Extend), (0x200D, 0x200D, BP_ZWJ),
     (0x200E, 0x200F, BP_Control), (0x2028, 0x202E, BP_Control), (0x203C, 0x203C, BP_Extended_Pictographic),
     (0x2049, 0x2049, BP_Extended_Pictographic), (0x2060, 0x206F, BP_Control), (0x20D0, 0x20F0, BP_Extend),
     (0x2122, 0x2122, BP_Extended_Pictographic), (0x2139, 0x2139, BP_Extended_Pictographic), (0x2194, 0x2199, BP_Extended_Pictographic),
     (0x21A9, 0x21AA, BP_Extended_Pictographic), (0x231A, 0x231B, BP_Extended_Pictographic), (0x2328, 0x2328, BP_Extended_Pictographic),
     (0x2388, 0x2388, BP_Extended_Pictographic), (0x23CF, 0x23CF, BP_Extended_Pictographic), (0x23E9, 0x23F3, BP_Extended_Pictographic),
     (0x23F8, 0x23FA, BP_Extended_Pictographic), (0x24C2, 0x24C2, BP_Extended_Pictographic), (0x25AA, 0x25AB, BP_Extended_Pictographic),
     (0x25B6, 0x25B6, BP_Extended_Pictographic), (0x25C0, 0x25C0, BP_Extended_Pictographic), (0x25FB, 0x25FE, BP_Extended_Pictographic),
     (0x2600, 0x2605, BP_Extended_Pictographic)]"

definition grapheme_break_property_table_3 :: "property_interval list" where
  "grapheme_break_property_table_3 = [
     (0x2607, 0x2612, BP_Extended_Pictographic), (0x2614, 0x2685, BP_Extended_Pictographic), (0x2690, 0x2705, BP_Extended_Pictographic),
     (0x2708, 0x2712, BP_Extended_Pictographic), (0x2714, 0x2714, BP_Extended_Pictographic), (0x2716, 0x2716, BP_Extended_Pictographic),
     (0x271D, 0x271D, BP_Extended_Pictographic), (0x2721, 0x2721, BP_Extended_Pictographic), (0x2728, 0x2728, BP_Extended_Pictographic),
     (0x2733, 0x2734, BP_Extended_Pictographic), (0x2744, 0x2744, BP_Extended_Pictographic), (0x2747, 0x2747, BP_Extended_Pictographic),
     (0x274C, 0x274C, BP_Extended_Pictographic), (0x274E, 0x274E, BP_Extended_Pictographic), (0x2753, 0x2755, BP_Extended_Pictographic),
     (0x2757, 0x2757, BP_Extended_Pictographic), (0x2763, 0x2767, BP_Extended_Pictographic), (0x2795, 0x2797, BP_Extended_Pictographic),
     (0x27A1, 0x27A1, BP_Extended_Pictographic), (0x27B0, 0x27B0, BP_Extended_Pictographic), (0x27BF, 0x27BF, BP_Extended_Pictographic),
     (0x2934, 0x2935, BP_Extended_Pictographic), (0x2B05, 0x2B07, BP_Extended_Pictographic), (0x2B1B, 0x2B1C, BP_Extended_Pictographic),
     (0x2B50, 0x2B50, BP_Extended_Pictographic), (0x2B55, 0x2B55, BP_Extended_Pictographic), (0x2CEF, 0x2CF1, BP_Extend),
     (0x2D7F, 0x2D7F, BP_Extend), (0x2DE0, 0x2DFF, BP_Extend), (0x302A, 0x302F, BP_Extend),
     (0x3030, 0x3030, BP_Extended_Pictographic), (0x303D, 0x303D, BP_Extended_Pictographic), (0x3099, 0x309A, BP_Extend),
     (0x3297, 0x3297, BP_Extended_Pictographic), (0x3299, 0x3299, BP_Extended_Pictographic), (0xA66F, 0xA672, BP_Extend),
     (0xA674, 0xA67D, BP_Extend), (0xA69E, 0xA69F, BP_Extend), (0xA6F0, 0xA6F1, BP_Extend),
     (0xA802, 0xA802, BP_Extend), (0xA806, 0xA806, BP_Extend), (0xA80B, 0xA80B, BP_Extend),
     (0xA823, 0xA824, BP_SpacingMark), (0xA825, 0xA826, BP_Extend), (0xA827, 0xA827, BP_SpacingMark),
     (0xA82C, 0xA82C, BP_Extend), (0xA880, 0xA881, BP_SpacingMark), (0xA8B4, 0xA8C3, BP_SpacingMark),
     (0xA8C4, 0xA8C5, BP_Extend), (0xA8E0, 0xA8F1, BP_Extend), (0xA8FF, 0xA8FF, BP_Extend),
     (0xA926, 0xA92D, BP_Extend), (0xA947, 0xA951, BP_Extend), (0xA952, 0xA953, BP_SpacingMark),
     (0xA960, 0xA97C, BP_L), (0xA980, 0xA982, BP_Extend), (0xA983, 0xA983, BP_SpacingMark),
     (0xA9B3, 0xA9B3, BP_Extend), (0xA9B4, 0xA9B5, BP_SpacingMark), (0xA9B6, 0xA9B9, BP_Extend),
     (0xA9BA, 0xA9BB, BP_SpacingMark), (0xA9BC, 0xA9BD, BP_Extend), (0xA9BE, 0xA9C0, BP_SpacingMark),
     (0xA9E5, 0xA9E5, BP_Extend), (0xAA29, 0xAA2E, BP_Extend), (0xAA2F, 0xAA30, BP_SpacingMark),
     (0xAA31, 0xAA32, BP_Extend), (0xAA33, 0xAA34, BP_SpacingMark), (0xAA35, 0xAA36, BP_Extend),
     (0xAA43, 0xAA43, BP_Extend), (0xAA4C, 0xAA4C, BP_Extend), (0xAA4D, 0xAA4D, BP_SpacingMark),
     (0xAA7C, 0xAA7C, BP_Extend), (0xAAB0, 0xAAB0, BP_Extend), (0xAAB2, 0xAAB4, BP_Extend),
     (0xAAB7, 0xAAB8, BP_Extend), (0xAABE, 0xAABF, BP_Extend), (0xAAC1, 0xAAC1, BP_Extend),
     (0xAAEB, 0xAAEB, BP_SpacingMark), (0xAAEC, 0xAAED, BP_Extend), (0xAAEE, 0xAAEF, BP_SpacingMark),
     (0xAAF5, 0xAAF5, BP_SpacingMark), (0xAAF6, 0xAAF6, BP_Extend), (0xABE3, 0xABE4, BP_SpacingMark),
     (0xABE5, 0xABE5, BP_Extend), (0xABE6, 0xABE7, BP_SpacingMark), (0xABE8, 0xABE8, BP_Extend),
     (0xABE9, 0xABEA, BP_SpacingMark), (0xABEC, 0xABEC, BP_SpacingMark), (0xABED, 0xABED, BP_Extend),
     (0xAC00, 0xAC00, BP_LV), (0xAC01, 0xAC1B, BP_LVT), (0xAC1C, 0xAC1C, BP_LV),
     (0xAC1D, 0xAC37, BP_LVT), (0xAC38, 0xAC38, BP_LV), (0xAC39, 0xAC53, BP_LVT),
     (0xAC54, 0xAC54, BP_LV), (0xAC55, 0xAC6F, BP_LVT), (0xAC70, 0xAC70, BP_LV),
     (0xAC71, 0xAC8B, BP_LVT), (0xAC8C, 0xAC8C, BP_LV), (0xAC8D, 0xACA7, BP_LVT),
     (0xACA8, 0xACA8, BP_LV), (0xACA9, 0xACC3, BP_LVT), (0xACC4, 0xACC4, BP_LV),
     (0xACC5, 0xACDF, BP_LVT), (0xACE0, 0xACE0, BP_LV), (0xACE1, 0xACFB, BP_LVT),
     (0xACFC, 0xACFC, BP_LV), (0xACFD, 0xAD17, BP_LVT), (0xAD18, 0xAD18, BP_LV),
     (0xAD19, 0xAD33, BP_LVT), (0xAD34, 0xAD34, BP_LV), (0xAD35, 0xAD4F, BP_LVT),
     (0xAD50, 0xAD50, BP_LV), (0xAD51, 0xAD6B, BP_LVT), (0xAD6C, 0xAD6C, BP_LV),
     (0xAD6D, 0xAD87, BP_LVT), (0xAD88, 0xAD88, BP_LV), (0xAD89, 0xADA3, BP_LVT),
     (0xADA4, 0xADA4, BP_LV), (0xADA5, 0xADBF, BP_LVT), (0xADC0, 0xADC0, BP_LV),
     (0xADC1, 0xADDB, BP_LVT), (0xADDC, 0xADDC, BP_LV), (0xADDD, 0xADF7, BP_LVT),
     (0xADF8, 0xADF8, BP_LV), (0xADF9, 0xAE13, BP_LVT), (0xAE14, 0xAE14, BP_LV),
     (0xAE15, 0xAE2F, BP_LVT), (0xAE30, 0xAE30, BP_LV), (0xAE31, 0xAE4B, BP_LVT),
     (0xAE4C, 0xAE4C, BP_LV), (0xAE4D, 0xAE67, BP_LVT), (0xAE68, 0xAE68, BP_LV),
     (0xAE69, 0xAE83, BP_LVT), (0xAE84, 0xAE84, BP_LV), (0xAE85, 0xAE9F, BP_LVT),
     (0xAEA0, 0xAEA0, BP_LV), (0xAEA1, 0xAEBB, BP_LVT), (0xAEBC, 0xAEBC, BP_LV),
     (0xAEBD, 0xAED7, BP_LVT), (0xAED8, 0xAED8, BP_LV), (0xAED9, 0xAEF3, BP_LVT),
     (0xAEF4, 0xAEF4, BP_LV)]"

definition grapheme_break_property_table_4 :: "property_interval list" where
  "grapheme_break_property_table_4 = [
     (0xAEF5, 0xAF0F, BP_LVT), (0xAF10, 0xAF10, BP_LV), (0xAF11, 0xAF2B, BP_LVT),
     (0xAF2C, 0xAF2C, BP_LV), (0xAF2D, 0xAF47, BP_LVT), (0xAF48, 0xAF48, BP_LV),
     (0xAF49, 0xAF63, BP_LVT), (0xAF64, 0xAF64, BP_LV), (0xAF65, 0xAF7F, BP_LVT),
     (0xAF80, 0xAF80, BP_LV), (0xAF81, 0xAF9B, BP_LVT), (0xAF9C, 0xAF9C, BP_LV),
     (0xAF9D, 0xAFB7, BP_LVT), (0xAFB8, 0xAFB8, BP_LV), (0xAFB9, 0xAFD3, BP_LVT),
     (0xAFD4, 0xAFD4, BP_LV), (0xAFD5, 0xAFEF, BP_LVT), (0xAFF0, 0xAFF0, BP_LV),
     (0xAFF1, 0xB00B, BP_LVT), (0xB00C, 0xB00C, BP_LV), (0xB00D, 0xB027, BP_LVT),
     (0xB028, 0xB028, BP_LV), (0xB029, 0xB043, BP_LVT), (0xB044, 0xB044, BP_LV),
     (0xB045, 0xB05F, BP_LVT), (0xB060, 0xB060, BP_LV), (0xB061, 0xB07B, BP_LVT),
     (0xB07C, 0xB07C, BP_LV), (0xB07D, 0xB097, BP_LVT), (0xB098, 0xB098, BP_LV),
     (0xB099, 0xB0B3, BP_LVT), (0xB0B4, 0xB0B4, BP_LV), (0xB0B5, 0xB0CF, BP_LVT),
     (0xB0D0, 0xB0D0, BP_LV), (0xB0D1, 0xB0EB, BP_LVT), (0xB0EC, 0xB0EC, BP_LV),
     (0xB0ED, 0xB107, BP_LVT), (0xB108, 0xB108, BP_LV), (0xB109, 0xB123, BP_LVT),
     (0xB124, 0xB124, BP_LV), (0xB125, 0xB13F, BP_LVT), (0xB140, 0xB140, BP_LV),
     (0xB141, 0xB15B, BP_LVT), (0xB15C, 0xB15C, BP_LV), (0xB15D, 0xB177, BP_LVT),
     (0xB178, 0xB178, BP_LV), (0xB179, 0xB193, BP_LVT), (0xB194, 0xB194, BP_LV),
     (0xB195, 0xB1AF, BP_LVT), (0xB1B0, 0xB1B0, BP_LV), (0xB1B1, 0xB1CB, BP_LVT),
     (0xB1CC, 0xB1CC, BP_LV), (0xB1CD, 0xB1E7, BP_LVT), (0xB1E8, 0xB1E8, BP_LV),
     (0xB1E9, 0xB203, BP_LVT), (0xB204, 0xB204, BP_LV), (0xB205, 0xB21F, BP_LVT),
     (0xB220, 0xB220, BP_LV), (0xB221, 0xB23B, BP_LVT), (0xB23C, 0xB23C, BP_LV),
     (0xB23D, 0xB257, BP_LVT), (0xB258, 0xB258, BP_LV), (0xB259, 0xB273, BP_LVT),
     (0xB274, 0xB274, BP_LV), (0xB275, 0xB28F, BP_LVT), (0xB290, 0xB290, BP_LV),
     (0xB291, 0xB2AB, BP_LVT), (0xB2AC, 0xB2AC, BP_LV), (0xB2AD, 0xB2C7, BP_LVT),
     (0xB2C8, 0xB2C8, BP_LV), (0xB2C9, 0xB2E3, BP_LVT), (0xB2E4, 0xB2E4, BP_LV),
     (0xB2E5, 0xB2FF, BP_LVT), (0xB300, 0xB300, BP_LV), (0xB301, 0xB31B, BP_LVT),
     (0xB31C, 0xB31C, BP_LV), (0xB31D, 0xB337, BP_LVT), (0xB338, 0xB338, BP_LV),
     (0xB339, 0xB353, BP_LVT), (0xB354, 0xB354, BP_LV), (0xB355, 0xB36F, BP_LVT),
     (0xB370, 0xB370, BP_LV), (0xB371, 0xB38B, BP_LVT), (0xB38C, 0xB38C, BP_LV),
     (0xB38D, 0xB3A7, BP_LVT), (0xB3A8, 0xB3A8, BP_LV), (0xB3A9, 0xB3C3, BP_LVT),
     (0xB3C4, 0xB3C4, BP_LV), (0xB3C5, 0xB3DF, BP_LVT), (0xB3E0, 0xB3E0, BP_LV),
     (0xB3E1, 0xB3FB, BP_LVT), (0xB3FC, 0xB3FC, BP_LV), (0xB3FD, 0xB417, BP_LVT),
     (0xB418, 0xB418, BP_LV), (0xB419, 0xB433, BP_LVT), (0xB434, 0xB434, BP_LV),
     (0xB435, 0xB44F, BP_LVT), (0xB450, 0xB450, BP_LV), (0xB451, 0xB46B, BP_LVT),
     (0xB46C, 0xB46C, BP_LV), (0xB46D, 0xB487, BP_LVT), (0xB488, 0xB488, BP_LV),
     (0xB489, 0xB4A3, BP_LVT), (0xB4A4, 0xB4A4, BP_LV), (0xB4A5, 0xB4BF, BP_LVT),
     (0xB4C0, 0xB4C0, BP_LV), (0xB4C1, 0xB4DB, BP_LVT), (0xB4DC, 0xB4DC, BP_LV),
     (0xB4DD, 0xB4F7, BP_LVT), (0xB4F8, 0xB4F8, BP_LV), (0xB4F9, 0xB513, BP_LVT),
     (0xB514, 0xB514, BP_LV), (0xB515, 0xB52F, BP_LVT), (0xB530, 0xB530, BP_LV),
     (0xB531, 0xB54B, BP_LVT), (0xB54C, 0xB54C, BP_LV), (0xB54D, 0xB567, BP_LVT),
     (0xB568, 0xB568, BP_LV), (0xB569, 0xB583, BP_LVT), (0xB584, 0xB584, BP_LV),
     (0xB585, 0xB59F, BP_LVT), (0xB5A0, 0xB5A0, BP_LV), (0xB5A1, 0xB5BB, BP_LVT),
     (0xB5BC, 0xB5BC, BP_LV), (0xB5BD, 0xB5D7, BP_LVT), (0xB5D8, 0xB5D8, BP_LV),
     (0xB5D9, 0xB5F3, BP_LVT), (0xB5F4, 0xB5F4, BP_LV), (0xB5F5, 0xB60F, BP_LVT),
     (0xB610, 0xB610, BP_LV), (0xB611, 0xB62B, BP_LVT), (0xB62C, 0xB62C, BP_LV),
     (0xB62D, 0xB647, BP_LVT), (0xB648, 0xB648, BP_LV), (0xB649, 0xB663, BP_LVT),
     (0xB664, 0xB664, BP_LV), (0xB665, 0xB67F, BP_LVT), (0xB680, 0xB680, BP_LV),
     (0xB681, 0xB69B, BP_LVT), (0xB69C, 0xB69C, BP_LV), (0xB69D, 0xB6B7, BP_LVT),
     (0xB6B8, 0xB6B8, BP_LV), (0xB6B9, 0xB6D3, BP_LVT), (0xB6D4, 0xB6D4, BP_LV),
     (0xB6D5, 0xB6EF, BP_LVT)]"

definition grapheme_break_property_table_5 :: "property_interval list" where
  "grapheme_break_property_table_5 = [
     (0xB6F0, 0xB6F0, BP_LV), (0xB6F1, 0xB70B, BP_LVT), (0xB70C, 0xB70C, BP_LV),
     (0xB70D, 0xB727, BP_LVT), (0xB728, 0xB728, BP_LV), (0xB729, 0xB743, BP_LVT),
     (0xB744, 0xB744, BP_LV), (0xB745, 0xB75F, BP_LVT), (0xB760, 0xB760, BP_LV),
     (0xB761, 0xB77B, BP_LVT), (0xB77C, 0xB77C, BP_LV), (0xB77D, 0xB797, BP_LVT),
     (0xB798, 0xB798, BP_LV), (0xB799, 0xB7B3, BP_LVT), (0xB7B4, 0xB7B4, BP_LV),
     (0xB7B5, 0xB7CF, BP_LVT), (0xB7D0, 0xB7D0, BP_LV), (0xB7D1, 0xB7EB, BP_LVT),
     (0xB7EC, 0xB7EC, BP_LV), (0xB7ED, 0xB807, BP_LVT), (0xB808, 0xB808, BP_LV),
     (0xB809, 0xB823, BP_LVT), (0xB824, 0xB824, BP_LV), (0xB825, 0xB83F, BP_LVT),
     (0xB840, 0xB840, BP_LV), (0xB841, 0xB85B, BP_LVT), (0xB85C, 0xB85C, BP_LV),
     (0xB85D, 0xB877, BP_LVT), (0xB878, 0xB878, BP_LV), (0xB879, 0xB893, BP_LVT),
     (0xB894, 0xB894, BP_LV), (0xB895, 0xB8AF, BP_LVT), (0xB8B0, 0xB8B0, BP_LV),
     (0xB8B1, 0xB8CB, BP_LVT), (0xB8CC, 0xB8CC, BP_LV), (0xB8CD, 0xB8E7, BP_LVT),
     (0xB8E8, 0xB8E8, BP_LV), (0xB8E9, 0xB903, BP_LVT), (0xB904, 0xB904, BP_LV),
     (0xB905, 0xB91F, BP_LVT), (0xB920, 0xB920, BP_LV), (0xB921, 0xB93B, BP_LVT),
     (0xB93C, 0xB93C, BP_LV), (0xB93D, 0xB957, BP_LVT), (0xB958, 0xB958, BP_LV),
     (0xB959, 0xB973, BP_LVT), (0xB974, 0xB974, BP_LV), (0xB975, 0xB98F, BP_LVT),
     (0xB990, 0xB990, BP_LV), (0xB991, 0xB9AB, BP_LVT), (0xB9AC, 0xB9AC, BP_LV),
     (0xB9AD, 0xB9C7, BP_LVT), (0xB9C8, 0xB9C8, BP_LV), (0xB9C9, 0xB9E3, BP_LVT),
     (0xB9E4, 0xB9E4, BP_LV), (0xB9E5, 0xB9FF, BP_LVT), (0xBA00, 0xBA00, BP_LV),
     (0xBA01, 0xBA1B, BP_LVT), (0xBA1C, 0xBA1C, BP_LV), (0xBA1D, 0xBA37, BP_LVT),
     (0xBA38, 0xBA38, BP_LV), (0xBA39, 0xBA53, BP_LVT), (0xBA54, 0xBA54, BP_LV),
     (0xBA55, 0xBA6F, BP_LVT), (0xBA70, 0xBA70, BP_LV), (0xBA71, 0xBA8B, BP_LVT),
     (0xBA8C, 0xBA8C, BP_LV), (0xBA8D, 0xBAA7, BP_LVT), (0xBAA8, 0xBAA8, BP_LV),
     (0xBAA9, 0xBAC3, BP_LVT), (0xBAC4, 0xBAC4, BP_LV), (0xBAC5, 0xBADF, BP_LVT),
     (0xBAE0, 0xBAE0, BP_LV), (0xBAE1, 0xBAFB, BP_LVT), (0xBAFC, 0xBAFC, BP_LV),
     (0xBAFD, 0xBB17, BP_LVT), (0xBB18, 0xBB18, BP_LV), (0xBB19, 0xBB33, BP_LVT),
     (0xBB34, 0xBB34, BP_LV), (0xBB35, 0xBB4F, BP_LVT), (0xBB50, 0xBB50, BP_LV),
     (0xBB51, 0xBB6B, BP_LVT), (0xBB6C, 0xBB6C, BP_LV), (0xBB6D, 0xBB87, BP_LVT),
     (0xBB88, 0xBB88, BP_LV), (0xBB89, 0xBBA3, BP_LVT), (0xBBA4, 0xBBA4, BP_LV),
     (0xBBA5, 0xBBBF, BP_LVT), (0xBBC0, 0xBBC0, BP_LV), (0xBBC1, 0xBBDB, BP_LVT),
     (0xBBDC, 0xBBDC, BP_LV), (0xBBDD, 0xBBF7, BP_LVT), (0xBBF8, 0xBBF8, BP_LV),
     (0xBBF9, 0xBC13, BP_LVT), (0xBC14, 0xBC14, BP_LV), (0xBC15, 0xBC2F, BP_LVT),
     (0xBC30, 0xBC30, BP_LV), (0xBC31, 0xBC4B, BP_LVT), (0xBC4C, 0xBC4C, BP_LV),
     (0xBC4D, 0xBC67, BP_LVT), (0xBC68, 0xBC68, BP_LV), (0xBC69, 0xBC83, BP_LVT),
     (0xBC84, 0xBC84, BP_LV), (0xBC85, 0xBC9F, BP_LVT), (0xBCA0, 0xBCA0, BP_LV),
     (0xBCA1, 0xBCBB, BP_LVT), (0xBCBC, 0xBCBC, BP_LV), (0xBCBD, 0xBCD7, BP_LVT),
     (0xBCD8, 0xBCD8, BP_LV), (0xBCD9, 0xBCF3, BP_LVT), (0xBCF4, 0xBCF4, BP_LV),
     (0xBCF5, 0xBD0F, BP_LVT), (0xBD10, 0xBD10, BP_LV), (0xBD11, 0xBD2B, BP_LVT),
     (0xBD2C, 0xBD2C, BP_LV), (0xBD2D, 0xBD47, BP_LVT), (0xBD48, 0xBD48, BP_LV),
     (0xBD49, 0xBD63, BP_LVT), (0xBD64, 0xBD64, BP_LV), (0xBD65, 0xBD7F, BP_LVT),
     (0xBD80, 0xBD80, BP_LV), (0xBD81, 0xBD9B, BP_LVT), (0xBD9C, 0xBD9C, BP_LV),
     (0xBD9D, 0xBDB7, BP_LVT), (0xBDB8, 0xBDB8, BP_LV), (0xBDB9, 0xBDD3, BP_LVT),
     (0xBDD4, 0xBDD4, BP_LV), (0xBDD5, 0xBDEF, BP_LVT), (0xBDF0, 0xBDF0, BP_LV),
     (0xBDF1, 0xBE0B, BP_LVT), (0xBE0C, 0xBE0C, BP_LV), (0xBE0D, 0xBE27, BP_LVT),
     (0xBE28, 0xBE28, BP_LV), (0xBE29, 0xBE43, BP_LVT), (0xBE44, 0xBE44, BP_LV),
     (0xBE45, 0xBE5F, BP_LVT), (0xBE60, 0xBE60, BP_LV), (0xBE61, 0xBE7B, BP_LVT),
     (0xBE7C, 0xBE7C, BP_LV), (0xBE7D, 0xBE97, BP_LVT), (0xBE98, 0xBE98, BP_LV),
     (0xBE99, 0xBEB3, BP_LVT), (0xBEB4, 0xBEB4, BP_LV), (0xBEB5, 0xBECF, BP_LVT),
     (0xBED0, 0xBED0, BP_LV)]"

definition grapheme_break_property_table_6 :: "property_interval list" where
  "grapheme_break_property_table_6 = [
     (0xBED1, 0xBEEB, BP_LVT), (0xBEEC, 0xBEEC, BP_LV), (0xBEED, 0xBF07, BP_LVT),
     (0xBF08, 0xBF08, BP_LV), (0xBF09, 0xBF23, BP_LVT), (0xBF24, 0xBF24, BP_LV),
     (0xBF25, 0xBF3F, BP_LVT), (0xBF40, 0xBF40, BP_LV), (0xBF41, 0xBF5B, BP_LVT),
     (0xBF5C, 0xBF5C, BP_LV), (0xBF5D, 0xBF77, BP_LVT), (0xBF78, 0xBF78, BP_LV),
     (0xBF79, 0xBF93, BP_LVT), (0xBF94, 0xBF94, BP_LV), (0xBF95, 0xBFAF, BP_LVT),
     (0xBFB0, 0xBFB0, BP_LV), (0xBFB1, 0xBFCB, BP_LVT), (0xBFCC, 0xBFCC, BP_LV),
     (0xBFCD, 0xBFE7, BP_LVT), (0xBFE8, 0xBFE8, BP_LV), (0xBFE9, 0xC003, BP_LVT),
     (0xC004, 0xC004, BP_LV), (0xC005, 0xC01F, BP_LVT), (0xC020, 0xC020, BP_LV),
     (0xC021, 0xC03B, BP_LVT), (0xC03C, 0xC03C, BP_LV), (0xC03D, 0xC057, BP_LVT),
     (0xC058, 0xC058, BP_LV), (0xC059, 0xC073, BP_LVT), (0xC074, 0xC074, BP_LV),
     (0xC075, 0xC08F, BP_LVT), (0xC090, 0xC090, BP_LV), (0xC091, 0xC0AB, BP_LVT),
     (0xC0AC, 0xC0AC, BP_LV), (0xC0AD, 0xC0C7, BP_LVT), (0xC0C8, 0xC0C8, BP_LV),
     (0xC0C9, 0xC0E3, BP_LVT), (0xC0E4, 0xC0E4, BP_LV), (0xC0E5, 0xC0FF, BP_LVT),
     (0xC100, 0xC100, BP_LV), (0xC101, 0xC11B, BP_LVT), (0xC11C, 0xC11C, BP_LV),
     (0xC11D, 0xC137, BP_LVT), (0xC138, 0xC138, BP_LV), (0xC139, 0xC153, BP_LVT),
     (0xC154, 0xC154, BP_LV), (0xC155, 0xC16F, BP_LVT), (0xC170, 0xC170, BP_LV),
     (0xC171, 0xC18B, BP_LVT), (0xC18C, 0xC18C, BP_LV), (0xC18D, 0xC1A7, BP_LVT),
     (0xC1A8, 0xC1A8, BP_LV), (0xC1A9, 0xC1C3, BP_LVT), (0xC1C4, 0xC1C4, BP_LV),
     (0xC1C5, 0xC1DF, BP_LVT), (0xC1E0, 0xC1E0, BP_LV), (0xC1E1, 0xC1FB, BP_LVT),
     (0xC1FC, 0xC1FC, BP_LV), (0xC1FD, 0xC217, BP_LVT), (0xC218, 0xC218, BP_LV),
     (0xC219, 0xC233, BP_LVT), (0xC234, 0xC234, BP_LV), (0xC235, 0xC24F, BP_LVT),
     (0xC250, 0xC250, BP_LV), (0xC251, 0xC26B, BP_LVT), (0xC26C, 0xC26C, BP_LV),
     (0xC26D, 0xC287, BP_LVT), (0xC288, 0xC288, BP_LV), (0xC289, 0xC2A3, BP_LVT),
     (0xC2A4, 0xC2A4, BP_LV), (0xC2A5, 0xC2BF, BP_LVT), (0xC2C0, 0xC2C0, BP_LV),
     (0xC2C1, 0xC2DB, BP_LVT), (0xC2DC, 0xC2DC, BP_LV), (0xC2DD, 0xC2F7, BP_LVT),
     (0xC2F8, 0xC2F8, BP_LV), (0xC2F9, 0xC313, BP_LVT), (0xC314, 0xC314, BP_LV),
     (0xC315, 0xC32F, BP_LVT), (0xC330, 0xC330, BP_LV), (0xC331, 0xC34B, BP_LVT),
     (0xC34C, 0xC34C, BP_LV), (0xC34D, 0xC367, BP_LVT), (0xC368, 0xC368, BP_LV),
     (0xC369, 0xC383, BP_LVT), (0xC384, 0xC384, BP_LV), (0xC385, 0xC39F, BP_LVT),
     (0xC3A0, 0xC3A0, BP_LV), (0xC3A1, 0xC3BB, BP_LVT), (0xC3BC, 0xC3BC, BP_LV),
     (0xC3BD, 0xC3D7, BP_LVT), (0xC3D8, 0xC3D8, BP_LV), (0xC3D9, 0xC3F3, BP_LVT),
     (0xC3F4, 0xC3F4, BP_LV), (0xC3F5, 0xC40F, BP_LVT), (0xC410, 0xC410, BP_LV),
     (0xC411, 0xC42B, BP_LVT), (0xC42C, 0xC42C, BP_LV), (0xC42D, 0xC447, BP_LVT),
     (0xC448, 0xC448, BP_LV), (0xC449, 0xC463, BP_LVT), (0xC464, 0xC464, BP_LV),
     (0xC465, 0xC47F, BP_LVT), (0xC480, 0xC480, BP_LV), (0xC481, 0xC49B, BP_LVT),
     (0xC49C, 0xC49C, BP_LV), (0xC49D, 0xC4B7, BP_LVT), (0xC4B8, 0xC4B8, BP_LV),
     (0xC4B9, 0xC4D3, BP_LVT), (0xC4D4, 0xC4D4, BP_LV), (0xC4D5, 0xC4EF, BP_LVT),
     (0xC4F0, 0xC4F0, BP_LV), (0xC4F1, 0xC50B, BP_LVT), (0xC50C, 0xC50C, BP_LV),
     (0xC50D, 0xC527, BP_LVT), (0xC528, 0xC528, BP_LV), (0xC529, 0xC543, BP_LVT),
     (0xC544, 0xC544, BP_LV), (0xC545, 0xC55F, BP_LVT), (0xC560, 0xC560, BP_LV),
     (0xC561, 0xC57B, BP_LVT), (0xC57C, 0xC57C, BP_LV), (0xC57D, 0xC597, BP_LVT),
     (0xC598, 0xC598, BP_LV), (0xC599, 0xC5B3, BP_LVT), (0xC5B4, 0xC5B4, BP_LV),
     (0xC5B5, 0xC5CF, BP_LVT), (0xC5D0, 0xC5D0, BP_LV), (0xC5D1, 0xC5EB, BP_LVT),
     (0xC5EC, 0xC5EC, BP_LV), (0xC5ED, 0xC607, BP_LVT), (0xC608, 0xC608, BP_LV),
     (0xC609, 0xC623, BP_LVT), (0xC624, 0xC624, BP_LV), (0xC625, 0xC63F, BP_LVT),
     (0xC640, 0xC640, BP_LV), (0xC641, 0xC65B, BP_LVT), (0xC65C, 0xC65C, BP_LV),
     (0xC65D, 0xC677, BP_LVT), (0xC678, 0xC678, BP_LV), (0xC679, 0xC693, BP_LVT),
     (0xC694, 0xC694, BP_LV), (0xC695, 0xC6AF, BP_LVT), (0xC6B0, 0xC6B0, BP_LV),
     (0xC6B1, 0xC6CB, BP_LVT)]"

definition grapheme_break_property_table_7 :: "property_interval list" where
  "grapheme_break_property_table_7 = [
     (0xC6CC, 0xC6CC, BP_LV), (0xC6CD, 0xC6E7, BP_LVT), (0xC6E8, 0xC6E8, BP_LV),
     (0xC6E9, 0xC703, BP_LVT), (0xC704, 0xC704, BP_LV), (0xC705, 0xC71F, BP_LVT),
     (0xC720, 0xC720, BP_LV), (0xC721, 0xC73B, BP_LVT), (0xC73C, 0xC73C, BP_LV),
     (0xC73D, 0xC757, BP_LVT), (0xC758, 0xC758, BP_LV), (0xC759, 0xC773, BP_LVT),
     (0xC774, 0xC774, BP_LV), (0xC775, 0xC78F, BP_LVT), (0xC790, 0xC790, BP_LV),
     (0xC791, 0xC7AB, BP_LVT), (0xC7AC, 0xC7AC, BP_LV), (0xC7AD, 0xC7C7, BP_LVT),
     (0xC7C8, 0xC7C8, BP_LV), (0xC7C9, 0xC7E3, BP_LVT), (0xC7E4, 0xC7E4, BP_LV),
     (0xC7E5, 0xC7FF, BP_LVT), (0xC800, 0xC800, BP_LV), (0xC801, 0xC81B, BP_LVT),
     (0xC81C, 0xC81C, BP_LV), (0xC81D, 0xC837, BP_LVT), (0xC838, 0xC838, BP_LV),
     (0xC839, 0xC853, BP_LVT), (0xC854, 0xC854, BP_LV), (0xC855, 0xC86F, BP_LVT),
     (0xC870, 0xC870, BP_LV), (0xC871, 0xC88B, BP_LVT), (0xC88C, 0xC88C, BP_LV),
     (0xC88D, 0xC8A7, BP_LVT), (0xC8A8, 0xC8A8, BP_LV), (0xC8A9, 0xC8C3, BP_LVT),
     (0xC8C4, 0xC8C4, BP_LV), (0xC8C5, 0xC8DF, BP_LVT), (0xC8E0, 0xC8E0, BP_LV),
     (0xC8E1, 0xC8FB, BP_LVT), (0xC8FC, 0xC8FC, BP_LV), (0xC8FD, 0xC917, BP_LVT),
     (0xC918, 0xC918, BP_LV), (0xC919, 0xC933, BP_LVT), (0xC934, 0xC934, BP_LV),
     (0xC935, 0xC94F, BP_LVT), (0xC950, 0xC950, BP_LV), (0xC951, 0xC96B, BP_LVT),
     (0xC96C, 0xC96C, BP_LV), (0xC96D, 0xC987, BP_LVT), (0xC988, 0xC988, BP_LV),
     (0xC989, 0xC9A3, BP_LVT), (0xC9A4, 0xC9A4, BP_LV), (0xC9A5, 0xC9BF, BP_LVT),
     (0xC9C0, 0xC9C0, BP_LV), (0xC9C1, 0xC9DB, BP_LVT), (0xC9DC, 0xC9DC, BP_LV),
     (0xC9DD, 0xC9F7, BP_LVT), (0xC9F8, 0xC9F8, BP_LV), (0xC9F9, 0xCA13, BP_LVT),
     (0xCA14, 0xCA14, BP_LV), (0xCA15, 0xCA2F, BP_LVT), (0xCA30, 0xCA30, BP_LV),
     (0xCA31, 0xCA4B, BP_LVT), (0xCA4C, 0xCA4C, BP_LV), (0xCA4D, 0xCA67, BP_LVT),
     (0xCA68, 0xCA68, BP_LV), (0xCA69, 0xCA83, BP_LVT), (0xCA84, 0xCA84, BP_LV),
     (0xCA85, 0xCA9F, BP_LVT), (0xCAA0, 0xCAA0, BP_LV), (0xCAA1, 0xCABB, BP_LVT),
     (0xCABC, 0xCABC, BP_LV), (0xCABD, 0xCAD7, BP_LVT), (0xCAD8, 0xCAD8, BP_LV),
     (0xCAD9, 0xCAF3, BP_LVT), (0xCAF4, 0xCAF4, BP_LV), (0xCAF5, 0xCB0F, BP_LVT),
     (0xCB10, 0xCB10, BP_LV), (0xCB11, 0xCB2B, BP_LVT), (0xCB2C, 0xCB2C, BP_LV),
     (0xCB2D, 0xCB47, BP_LVT), (0xCB48, 0xCB48, BP_LV), (0xCB49, 0xCB63, BP_LVT),
     (0xCB64, 0xCB64, BP_LV), (0xCB65, 0xCB7F, BP_LVT), (0xCB80, 0xCB80, BP_LV),
     (0xCB81, 0xCB9B, BP_LVT), (0xCB9C, 0xCB9C, BP_LV), (0xCB9D, 0xCBB7, BP_LVT),
     (0xCBB8, 0xCBB8, BP_LV), (0xCBB9, 0xCBD3, BP_LVT), (0xCBD4, 0xCBD4, BP_LV),
     (0xCBD5, 0xCBEF, BP_LVT), (0xCBF0, 0xCBF0, BP_LV), (0xCBF1, 0xCC0B, BP_LVT),
     (0xCC0C, 0xCC0C, BP_LV), (0xCC0D, 0xCC27, BP_LVT), (0xCC28, 0xCC28, BP_LV),
     (0xCC29, 0xCC43, BP_LVT), (0xCC44, 0xCC44, BP_LV), (0xCC45, 0xCC5F, BP_LVT),
     (0xCC60, 0xCC60, BP_LV), (0xCC61, 0xCC7B, BP_LVT), (0xCC7C, 0xCC7C, BP_LV),
     (0xCC7D, 0xCC97, BP_LVT), (0xCC98, 0xCC98, BP_LV), (0xCC99, 0xCCB3, BP_LVT),
     (0xCCB4, 0xCCB4, BP_LV), (0xCCB5, 0xCCCF, BP_LVT), (0xCCD0, 0xCCD0, BP_LV),
     (0xCCD1, 0xCCEB, BP_LVT), (0xCCEC, 0xCCEC, BP_LV), (0xCCED, 0xCD07, BP_LVT),
     (0xCD08, 0xCD08, BP_LV), (0xCD09, 0xCD23, BP_LVT), (0xCD24, 0xCD24, BP_LV),
     (0xCD25, 0xCD3F, BP_LVT), (0xCD40, 0xCD40, BP_LV), (0xCD41, 0xCD5B, BP_LVT),
     (0xCD5C, 0xCD5C, BP_LV), (0xCD5D, 0xCD77, BP_LVT), (0xCD78, 0xCD78, BP_LV),
     (0xCD79, 0xCD93, BP_LVT), (0xCD94, 0xCD94, BP_LV), (0xCD95, 0xCDAF, BP_LVT),
     (0xCDB0, 0xCDB0, BP_LV), (0xCDB1, 0xCDCB, BP_LVT), (0xCDCC, 0xCDCC, BP_LV),
     (0xCDCD, 0xCDE7, BP_LVT), (0xCDE8, 0xCDE8, BP_LV), (0xCDE9, 0xCE03, BP_LVT),
     (0xCE04, 0xCE04, BP_LV), (0xCE05, 0xCE1F, BP_LVT), (0xCE20, 0xCE20, BP_LV),
     (0xCE21, 0xCE3B, BP_LVT), (0xCE3C, 0xCE3C, BP_LV), (0xCE3D, 0xCE57, BP_LVT),
     (0xCE58, 0xCE58, BP_LV), (0xCE59, 0xCE73, BP_LVT), (0xCE74, 0xCE74, BP_LV),
     (0xCE75, 0xCE8F, BP_LVT), (0xCE90, 0xCE90, BP_LV), (0xCE91, 0xCEAB, BP_LVT),
     (0xCEAC, 0xCEAC, BP_LV)]"

definition grapheme_break_property_table_8 :: "property_interval list" where
  "grapheme_break_property_table_8 = [
     (0xCEAD, 0xCEC7, BP_LVT), (0xCEC8, 0xCEC8, BP_LV), (0xCEC9, 0xCEE3, BP_LVT),
     (0xCEE4, 0xCEE4, BP_LV), (0xCEE5, 0xCEFF, BP_LVT), (0xCF00, 0xCF00, BP_LV),
     (0xCF01, 0xCF1B, BP_LVT), (0xCF1C, 0xCF1C, BP_LV), (0xCF1D, 0xCF37, BP_LVT),
     (0xCF38, 0xCF38, BP_LV), (0xCF39, 0xCF53, BP_LVT), (0xCF54, 0xCF54, BP_LV),
     (0xCF55, 0xCF6F, BP_LVT), (0xCF70, 0xCF70, BP_LV), (0xCF71, 0xCF8B, BP_LVT),
     (0xCF8C, 0xCF8C, BP_LV), (0xCF8D, 0xCFA7, BP_LVT), (0xCFA8, 0xCFA8, BP_LV),
     (0xCFA9, 0xCFC3, BP_LVT), (0xCFC4, 0xCFC4, BP_LV), (0xCFC5, 0xCFDF, BP_LVT),
     (0xCFE0, 0xCFE0, BP_LV), (0xCFE1, 0xCFFB, BP_LVT), (0xCFFC, 0xCFFC, BP_LV),
     (0xCFFD, 0xD017, BP_LVT), (0xD018, 0xD018, BP_LV), (0xD019, 0xD033, BP_LVT),
     (0xD034, 0xD034, BP_LV), (0xD035, 0xD04F, BP_LVT), (0xD050, 0xD050, BP_LV),
     (0xD051, 0xD06B, BP_LVT), (0xD06C, 0xD06C, BP_LV), (0xD06D, 0xD087, BP_LVT),
     (0xD088, 0xD088, BP_LV), (0xD089, 0xD0A3, BP_LVT), (0xD0A4, 0xD0A4, BP_LV),
     (0xD0A5, 0xD0BF, BP_LVT), (0xD0C0, 0xD0C0, BP_LV), (0xD0C1, 0xD0DB, BP_LVT),
     (0xD0DC, 0xD0DC, BP_LV), (0xD0DD, 0xD0F7, BP_LVT), (0xD0F8, 0xD0F8, BP_LV),
     (0xD0F9, 0xD113, BP_LVT), (0xD114, 0xD114, BP_LV), (0xD115, 0xD12F, BP_LVT),
     (0xD130, 0xD130, BP_LV), (0xD131, 0xD14B, BP_LVT), (0xD14C, 0xD14C, BP_LV),
     (0xD14D, 0xD167, BP_LVT), (0xD168, 0xD168, BP_LV), (0xD169, 0xD183, BP_LVT),
     (0xD184, 0xD184, BP_LV), (0xD185, 0xD19F, BP_LVT), (0xD1A0, 0xD1A0, BP_LV),
     (0xD1A1, 0xD1BB, BP_LVT), (0xD1BC, 0xD1BC, BP_LV), (0xD1BD, 0xD1D7, BP_LVT),
     (0xD1D8, 0xD1D8, BP_LV), (0xD1D9, 0xD1F3, BP_LVT), (0xD1F4, 0xD1F4, BP_LV),
     (0xD1F5, 0xD20F, BP_LVT), (0xD210, 0xD210, BP_LV), (0xD211, 0xD22B, BP_LVT),
     (0xD22C, 0xD22C, BP_LV), (0xD22D, 0xD247, BP_LVT), (0xD248, 0xD248, BP_LV),
     (0xD249, 0xD263, BP_LVT), (0xD264, 0xD264, BP_LV), (0xD265, 0xD27F, BP_LVT),
     (0xD280, 0xD280, BP_LV), (0xD281, 0xD29B, BP_LVT), (0xD29C, 0xD29C, BP_LV),
     (0xD29D, 0xD2B7, BP_LVT), (0xD2B8, 0xD2B8, BP_LV), (0xD2B9, 0xD2D3, BP_LVT),
     (0xD2D4, 0xD2D4, BP_LV), (0xD2D5, 0xD2EF, BP_LVT), (0xD2F0, 0xD2F0, BP_LV),
     (0xD2F1, 0xD30B, BP_LVT), (0xD30C, 0xD30C, BP_LV), (0xD30D, 0xD327, BP_LVT),
     (0xD328, 0xD328, BP_LV), (0xD329, 0xD343, BP_LVT), (0xD344, 0xD344, BP_LV),
     (0xD345, 0xD35F, BP_LVT), (0xD360, 0xD360, BP_LV), (0xD361, 0xD37B, BP_LVT),
     (0xD37C, 0xD37C, BP_LV), (0xD37D, 0xD397, BP_LVT), (0xD398, 0xD398, BP_LV),
     (0xD399, 0xD3B3, BP_LVT), (0xD3B4, 0xD3B4, BP_LV), (0xD3B5, 0xD3CF, BP_LVT),
     (0xD3D0, 0xD3D0, BP_LV), (0xD3D1, 0xD3EB, BP_LVT), (0xD3EC, 0xD3EC, BP_LV),
     (0xD3ED, 0xD407, BP_LVT), (0xD408, 0xD408, BP_LV), (0xD409, 0xD423, BP_LVT),
     (0xD424, 0xD424, BP_LV), (0xD425, 0xD43F, BP_LVT), (0xD440, 0xD440, BP_LV),
     (0xD441, 0xD45B, BP_LVT), (0xD45C, 0xD45C, BP_LV), (0xD45D, 0xD477, BP_LVT),
     (0xD478, 0xD478, BP_LV), (0xD479, 0xD493, BP_LVT), (0xD494, 0xD494, BP_LV),
     (0xD495, 0xD4AF, BP_LVT), (0xD4B0, 0xD4B0, BP_LV), (0xD4B1, 0xD4CB, BP_LVT),
     (0xD4CC, 0xD4CC, BP_LV), (0xD4CD, 0xD4E7, BP_LVT), (0xD4E8, 0xD4E8, BP_LV),
     (0xD4E9, 0xD503, BP_LVT), (0xD504, 0xD504, BP_LV), (0xD505, 0xD51F, BP_LVT),
     (0xD520, 0xD520, BP_LV), (0xD521, 0xD53B, BP_LVT), (0xD53C, 0xD53C, BP_LV),
     (0xD53D, 0xD557, BP_LVT), (0xD558, 0xD558, BP_LV), (0xD559, 0xD573, BP_LVT),
     (0xD574, 0xD574, BP_LV), (0xD575, 0xD58F, BP_LVT), (0xD590, 0xD590, BP_LV),
     (0xD591, 0xD5AB, BP_LVT), (0xD5AC, 0xD5AC, BP_LV), (0xD5AD, 0xD5C7, BP_LVT),
     (0xD5C8, 0xD5C8, BP_LV), (0xD5C9, 0xD5E3, BP_LVT), (0xD5E4, 0xD5E4, BP_LV),
     (0xD5E5, 0xD5FF, BP_LVT), (0xD600, 0xD600, BP_LV), (0xD601, 0xD61B, BP_LVT),
     (0xD61C, 0xD61C, BP_LV), (0xD61D, 0xD637, BP_LVT), (0xD638, 0xD638, BP_LV),
     (0xD639, 0xD653, BP_LVT), (0xD654, 0xD654, BP_LV), (0xD655, 0xD66F, BP_LVT),
     (0xD670, 0xD670, BP_LV), (0xD671, 0xD68B, BP_LVT), (0xD68C, 0xD68C, BP_LV),
     (0xD68D, 0xD6A7, BP_LVT)]"

definition grapheme_break_property_table_9 :: "property_interval list" where
  "grapheme_break_property_table_9 = [
     (0xD6A8, 0xD6A8, BP_LV), (0xD6A9, 0xD6C3, BP_LVT), (0xD6C4, 0xD6C4, BP_LV),
     (0xD6C5, 0xD6DF, BP_LVT), (0xD6E0, 0xD6E0, BP_LV), (0xD6E1, 0xD6FB, BP_LVT),
     (0xD6FC, 0xD6FC, BP_LV), (0xD6FD, 0xD717, BP_LVT), (0xD718, 0xD718, BP_LV),
     (0xD719, 0xD733, BP_LVT), (0xD734, 0xD734, BP_LV), (0xD735, 0xD74F, BP_LVT),
     (0xD750, 0xD750, BP_LV), (0xD751, 0xD76B, BP_LVT), (0xD76C, 0xD76C, BP_LV),
     (0xD76D, 0xD787, BP_LVT), (0xD788, 0xD788, BP_LV), (0xD789, 0xD7A3, BP_LVT),
     (0xD7B0, 0xD7C6, BP_V), (0xD7CB, 0xD7FB, BP_T), (0xFB1E, 0xFB1E, BP_Extend),
     (0xFE00, 0xFE0F, BP_Extend), (0xFE20, 0xFE2F, BP_Extend), (0xFEFF, 0xFEFF, BP_Control),
     (0xFF9E, 0xFF9F, BP_Extend), (0xFFF0, 0xFFFB, BP_Control), (0x101FD, 0x101FD, BP_Extend),
     (0x102E0, 0x102E0, BP_Extend), (0x10376, 0x1037A, BP_Extend), (0x10A01, 0x10A03, BP_Extend),
     (0x10A05, 0x10A06, BP_Extend), (0x10A0C, 0x10A0F, BP_Extend), (0x10A38, 0x10A3A, BP_Extend),
     (0x10A3F, 0x10A3F, BP_Extend), (0x10AE5, 0x10AE6, BP_Extend), (0x10D24, 0x10D27, BP_Extend),
     (0x10EAB, 0x10EAC, BP_Extend), (0x10F46, 0x10F50, BP_Extend), (0x11000, 0x11000, BP_SpacingMark),
     (0x11001, 0x11001, BP_Extend), (0x11002, 0x11002, BP_SpacingMark), (0x11038, 0x11046, BP_Extend),
     (0x1107F, 0x11081, BP_Extend), (0x11082, 0x11082, BP_SpacingMark), (0x110B0, 0x110B2, BP_SpacingMark),
     (0x110B3, 0x110B6, BP_Extend), (0x110B7, 0x110B8, BP_SpacingMark), (0x110B9, 0x110BA, BP_Extend),
     (0x110BD, 0x110BD, BP_Prepend), (0x110CD, 0x110CD, BP_Prepend), (0x11100, 0x11102, BP_Extend),
     (0x11127, 0x1112B, BP_Extend), (0x1112C, 0x1112C, BP_SpacingMark), (0x1112D, 0x11134, BP_Extend),
     (0x11145, 0x11146, BP_SpacingMark), (0x11173, 0x11173, BP_Extend), (0x11180, 0x11181, BP_Extend),
     (0x11182, 0x11182, BP_SpacingMark), (0x111B3, 0x111B5, BP_SpacingMark), (0x111B6, 0x111BE, BP_Extend),
     (0x111BF, 0x111C0, BP_SpacingMark), (0x111C2, 0x111C3, BP_Prepend), (0x111C9, 0x111CC, BP_Extend),
     (0x111CE, 0x111CE, BP_SpacingMark), (0x111CF, 0x111CF, BP_Extend), (0x1122C, 0x1122E, BP_SpacingMark),
     (0x1122F, 0x11231, BP_Extend), (0x11232, 0x11233, BP_SpacingMark), (0x11234, 0x11234, BP_Extend),
     (0x11235, 0x11235, BP_SpacingMark), (0x11236, 0x11237, BP_Extend), (0x1123E, 0x1123E, BP_Extend),
     (0x112DF, 0x112DF, BP_Extend), (0x112E0, 0x112E2, BP_SpacingMark), (0x112E3, 0x112EA, BP_Extend),
     (0x11300, 0x11301, BP_Extend), (0x11302, 0x11303, BP_SpacingMark), (0x1133B, 0x1133C, BP_Extend),
     (0x1133E, 0x1133E, BP_Extend), (0x1133F, 0x1133F, BP_SpacingMark), (0x11340, 0x11340, BP_Extend),
     (0x11341, 0x11344, BP_SpacingMark), (0x11347, 0x11348, BP_SpacingMark), (0x1134B, 0x1134D, BP_SpacingMark),
     (0x11357, 0x11357, BP_Extend), (0x11362, 0x11363, BP_SpacingMark), (0x11366, 0x1136C, BP_Extend),
     (0x11370, 0x11374, BP_Extend), (0x11435, 0x11437, BP_SpacingMark), (0x11438, 0x1143F, BP_Extend),
     (0x11440, 0x11441, BP_SpacingMark), (0x11442, 0x11444, BP_Extend), (0x11445, 0x11445, BP_SpacingMark),
     (0x11446, 0x11446, BP_Extend), (0x1145E, 0x1145E, BP_Extend), (0x114B0, 0x114B0, BP_Extend),
     (0x114B1, 0x114B2, BP_SpacingMark), (0x114B3, 0x114B8, BP_Extend), (0x114B9, 0x114B9, BP_SpacingMark),
     (0x114BA, 0x114BA, BP_Extend), (0x114BB, 0x114BC, BP_SpacingMark), (0x114BD, 0x114BD, BP_Extend),
     (0x114BE, 0x114BE, BP_SpacingMark), (0x114BF, 0x114C0, BP_Extend), (0x114C1, 0x114C1, BP_SpacingMark),
     (0x114C2, 0x114C3, BP_Extend), (0x115AF, 0x115AF, BP_Extend), (0x115B0, 0x115B1, BP_SpacingMark),
     (0x115B2, 0x115B5, BP_Extend), (0x115B8, 0x115BB, BP_SpacingMark), (0x115BC, 0x115BD, BP_Extend),
     (0x115BE, 0x115BE, BP_SpacingMark), (0x115BF, 0x115C0, BP_Extend), (0x115DC, 0x115DD, BP_Extend),
     (0x11630, 0x11632, BP_SpacingMark), (0x11633, 0x1163A, BP_Extend), (0x1163B, 0x1163C, BP_SpacingMark),
     (0x1163D, 0x1163D, BP_Extend), (0x1163E, 0x1163E, BP_SpacingMark), (0x1163F, 0x11640, BP_Extend),
     (0x116AB, 0x116AB, BP_Extend), (0x116AC, 0x116AC, BP_SpacingMark), (0x116AD, 0x116AD, BP_Extend),
     (0x116AE, 0x116AF, BP_SpacingMark), (0x116B0, 0x116B5, BP_Extend), (0x116B6, 0x116B6, BP_SpacingMark),
     (0x116B7, 0x116B7, BP_Extend), (0x1171D, 0x1171F, BP_Extend), (0x11720, 0x11721, BP_SpacingMark),
     (0x11722, 0x11725, BP_Extend), (0x11726, 0x11726, BP_SpacingMark), (0x11727, 0x1172B, BP_Extend),
     (0x1182C, 0x1182E, BP_SpacingMark), (0x1182F, 0x11837, BP_Extend), (0x11838, 0x11838, BP_SpacingMark),
     (0x11839, 0x1183A, BP_Extend), (0x11930, 0x11930, BP_Extend), (0x11931, 0x11935, BP_SpacingMark),
     (0x11937, 0x11938, BP_SpacingMark), (0x1193B, 0x1193C, BP_Extend), (0x1193D, 0x1193D, BP_SpacingMark),
     (0x1193E, 0x1193E, BP_Extend), (0x1193F, 0x1193F, BP_Prepend), (0x11940, 0x11940, BP_SpacingMark),
     (0x11941, 0x11941, BP_Prepend)]"

definition grapheme_break_property_table_10 :: "property_interval list" where
  "grapheme_break_property_table_10 = [
     (0x11942, 0x11942, BP_SpacingMark), (0x11943, 0x11943, BP_Extend), (0x119D1, 0x119D3, BP_SpacingMark),
     (0x119D4, 0x119D7, BP_Extend), (0x119DA, 0x119DB, BP_Extend), (0x119DC, 0x119DF, BP_SpacingMark),
     (0x119E0, 0x119E0, BP_Extend), (0x119E4, 0x119E4, BP_SpacingMark), (0x11A01, 0x11A0A, BP_Extend),
     (0x11A33, 0x11A38, BP_Extend), (0x11A39, 0x11A39, BP_SpacingMark), (0x11A3A, 0x11A3A, BP_Prepend),
     (0x11A3B, 0x11A3E, BP_Extend), (0x11A47, 0x11A47, BP_Extend), (0x11A51, 0x11A56, BP_Extend),
     (0x11A57, 0x11A58, BP_SpacingMark), (0x11A59, 0x11A5B, BP_Extend), (0x11A84, 0x11A89, BP_Prepend),
     (0x11A8A, 0x11A96, BP_Extend), (0x11A97, 0x11A97, BP_SpacingMark), (0x11A98, 0x11A99, BP_Extend),
     (0x11C2F, 0x11C2F, BP_SpacingMark), (0x11C30, 0x11C36, BP_Extend), (0x11C38, 0x11C3D, BP_Extend),
     (0x11C3E, 0x11C3E, BP_SpacingMark), (0x11C3F, 0x11C3F, BP_Extend), (0x11C92, 0x11CA7, BP_Extend),
     (0x11CA9, 0x11CA9, BP_SpacingMark), (0x11CAA, 0x11CB0, BP_Extend), (0x11CB1, 0x11CB1, BP_SpacingMark),
     (0x11CB2, 0x11CB3, BP_Extend), (0x11CB4, 0x11CB4, BP_SpacingMark), (0x11CB5, 0x11CB6, BP_Extend),
     (0x11D31, 0x11D36, BP_Extend), (0x11D3A, 0x11D3A, BP_Extend), (0x11D3C, 0x11D3D, BP_Extend),
     (0x11D3F, 0x11D45, BP_Extend), (0x11D46, 0x11D46, BP_Prepend), (0x11D47, 0x11D47, BP_Extend),
     (0x11D8A, 0x11D8E, BP_SpacingMark), (0x11D90, 0x11D91, BP_Extend), (0x11D93, 0x11D94, BP_SpacingMark),
     (0x11D95, 0x11D95, BP_Extend), (0x11D96, 0x11D96, BP_SpacingMark), (0x11D97, 0x11D97, BP_Extend),
     (0x11EF3, 0x11EF4, BP_Extend), (0x11EF5, 0x11EF6, BP_SpacingMark), (0x13430, 0x13438, BP_Control),
     (0x16AF0, 0x16AF4, BP_Extend), (0x16B30, 0x16B36, BP_Extend), (0x16F4F, 0x16F4F, BP_Extend),
     (0x16F51, 0x16F87, BP_SpacingMark), (0x16F8F, 0x16F92, BP_Extend), (0x16FE4, 0x16FE4, BP_Extend),
     (0x16FF0, 0x16FF1, BP_SpacingMark), (0x1BC9D, 0x1BC9E, BP_Extend), (0x1BCA0, 0x1BCA3, BP_Control),
     (0x1D165, 0x1D165, BP_Extend), (0x1D166, 0x1D166, BP_SpacingMark), (0x1D167, 0x1D169, BP_Extend),
     (0x1D16D, 0x1D16D, BP_SpacingMark), (0x1D16E, 0x1D172, BP_Extend), (0x1D173, 0x1D17A, BP_Control),
     (0x1D17B, 0x1D182, BP_Extend), (0x1D185, 0x1D18B, BP_Extend), (0x1D1AA, 0x1D1AD, BP_Extend),
     (0x1D242, 0x1D244, BP_Extend), (0x1DA00, 0x1DA36, BP_Extend), (0x1DA3B, 0x1DA6C, BP_Extend),
     (0x1DA75, 0x1DA75, BP_Extend), (0x1DA84, 0x1DA84, BP_Extend), (0x1DA9B, 0x1DA9F, BP_Extend),
     (0x1DAA1, 0x1DAAF, BP_Extend), (0x1E000, 0x1E006, BP_Extend), (0x1E008, 0x1E018, BP_Extend),
     (0x1E01B, 0x1E021, BP_Extend), (0x1E023, 0x1E024, BP_Extend), (0x1E026, 0x1E02A, BP_Extend),
     (0x1E130, 0x1E136, BP_Extend), (0x1E2EC, 0x1E2EF, BP_Extend), (0x1E8D0, 0x1E8D6, BP_Extend),
     (0x1E944, 0x1E94A, BP_Extend), (0x1F000, 0x1F0FF, BP_Extended_Pictographic), (0x1F10D, 0x1F10F, BP_Extended_Pictographic),
     (0x1F12F, 0x1F12F, BP_Extended_Pictographic), (0x1F16C, 0x1F171, BP_Extended_Pictographic), (0x1F17E, 0x1F17F, BP_Extended_Pictographic),
     (0x1F18E, 0x1F18E, BP_Extended_Pictographic), (0x1F191, 0x1F19A, BP_Extended_Pictographic), (0x1F1AD, 0x1F1E5, BP_Extended_Pictographic),
     (0x1F1E6, 0x1F1FF, BP_Regional_Indicator), (0x1F201, 0x1F20F, BP_Extended_Pictographic), (0x1F21A, 0x1F21A, BP_Extended_Pictographic),
     (0x1F22F, 0x1F22F, BP_Extended_Pictographic), (0x1F232, 0x1F23A, BP_Extended_Pictographic), (0x1F23C, 0x1F23F, BP_Extended_Pictographic),
     (0x1F249, 0x1F3FA, BP_Extended_Pictographic), (0x1F3FB, 0x1F3FF, BP_Extend), (0x1F400, 0x1F53D, BP_Extended_Pictographic),
     (0x1F546, 0x1F64F, BP_Extended_Pictographic), (0x1F680, 0x1F6FF, BP_Extended_Pictographic), (0x1F774, 0x1F77F, BP_Extended_Pictographic),
     (0x1F7D5, 0x1F7FF, BP_Extended_Pictographic), (0x1F80C, 0x1F80F, BP_Extended_Pictographic), (0x1F848, 0x1F84F, BP_Extended_Pictographic),
     (0x1F85A, 0x1F85F, BP_Extended_Pictographic), (0x1F888, 0x1F88F, BP_Extended_Pictographic), (0x1F8AE, 0x1F8FF, BP_Extended_Pictographic),
     (0x1F90C, 0x1F93A, BP_Extended_Pictographic), (0x1F93C, 0x1F945, BP_Extended_Pictographic), (0x1F947, 0x1FAFF, BP_Extended_Pictographic),
     (0x1FC00, 0x1FFFD, BP_Extended_Pictographic), (0xE0000, 0xE001F, BP_Control), (0xE0020, 0xE007F, BP_Extend),
     (0xE0080, 0xE00FF, BP_Control), (0xE0100, 0xE01EF, BP_Extend), (0xE01F0, 0xE0FFF, BP_Control)]"

definition grapheme_break_property_table :: "property_interval list" where
  "grapheme_break_property_table =
     grapheme_break_property_table_1 @
     grapheme_break_property_table_2 @
     grapheme_break_property_table_3 @
     grapheme_break_property_table_4 @
     grapheme_break_property_table_5 @
     grapheme_break_property_table_6 @
     grapheme_break_property_table_7 @
     grapheme_break_property_table_8 @
     grapheme_break_property_table_9 @
     grapheme_break_property_table_10"

lemma grapheme_table_properties:
  "list_all (\<lambda>e. snd (snd e) \<noteq> BP_SOT \<and> snd (snd e) \<noteq> BP_Extended_Pictographic_with_ZWJ)
     grapheme_break_property_table"
proof -
  let ?ok = "list_all (\<lambda>e :: property_interval.
    snd (snd e) \<noteq> BP_SOT \<and> snd (snd e) \<noteq> BP_Extended_Pictographic_with_ZWJ)"
  have "?ok grapheme_break_property_table_1" by (simp add: grapheme_break_property_table_1_def)
  moreover
  have "?ok grapheme_break_property_table_2" by (simp add: grapheme_break_property_table_2_def)
  moreover
  have "?ok grapheme_break_property_table_3" by (simp add: grapheme_break_property_table_3_def)
  moreover
  have "?ok grapheme_break_property_table_4" by (simp add: grapheme_break_property_table_4_def)
  moreover
  have "?ok grapheme_break_property_table_5" by (simp add: grapheme_break_property_table_5_def)
  moreover
  have "?ok grapheme_break_property_table_6" by (simp add: grapheme_break_property_table_6_def)
  moreover
  have "?ok grapheme_break_property_table_7" by (simp add: grapheme_break_property_table_7_def)
  moreover
  have "?ok grapheme_break_property_table_8" by (simp add: grapheme_break_property_table_8_def)
  moreover
  have "?ok grapheme_break_property_table_9" by (simp add: grapheme_break_property_table_9_def)
  moreover
  have "?ok grapheme_break_property_table_10" by (simp add: grapheme_break_property_table_10_def)
  ultimately show ?thesis
    by (simp add: grapheme_break_property_table_def)
qed

lemma grapheme_table_ascending:
  "ascending fst (\<lambda>e. fst (snd e)) grapheme_break_property_table"
  by (simp add: grapheme_break_property_table_def
      grapheme_break_property_table_1_def
      grapheme_break_property_table_2_def
      grapheme_break_property_table_3_def
      grapheme_break_property_table_4_def
      grapheme_break_property_table_5_def
      grapheme_break_property_table_6_def
      grapheme_break_property_table_7_def
      grapheme_break_property_table_8_def
      grapheme_break_property_table_9_def
      grapheme_break_property_table_10_def)

end
