(* ===== verification/Grapheme.thy ===== *)
theory Grapheme
  imports Unicode Grapheme_Table
begin

text \<open>
  \<open>src/misc/grapheme.hpp\<close>: extended grapheme cluster boundaries.  \<open>GraphemeBoundary\<close> is a
  state machine over break properties whose one-property state compresses the history of the
  text; the main result shows that it decides exactly the boundary rules GB1 to GB999 of
  Unicode annex 29, which look arbitrarily far back.  \<open>GraphemeScanner\<close> cuts a byte string
  into clusters; \<open>string_count\<close> and \<open>string_chars\<close> of \<open>src/builtin.h\<close> run it to the end.

  \<open>toCodePoint\<close> reads a byte that does not start a valid sequence as a (signed) \<open>char\<close>, so
  such a byte has a negative code point.  The array \<open>codePoints\<close> of a result has 32 entries and
  the code asserts that it is not exceeded; the model returns \<open>None\<close> where the assertion fails.
\<close>

section \<open>The boundary state machine\<close>

definition getBreakProperty :: "int \<Rightarrow> BreakProperty" where
  "getBreakProperty cp =
     (let tbl = grapheme_break_property_table;
          i = lower_bound (\<lambda>e. fst (snd e) < cp) tbl
      in if i \<noteq> length tbl then
           (let e = tbl ! i in
            if cp \<ge> fst e \<and> cp \<le> fst (snd e) then snd (snd e) else BP_Any)
         else BP_Any)"

text \<open>
  \<open>scanProperty\<close> is \<open>scanBoundary\<close> after the table lookup: from the state before and the
  property after, whether there is a boundary, and the new state.  An early \<open>return\<close> of the
  code is the first matching branch.
\<close>

definition scanProperty :: "BreakProperty \<Rightarrow> BreakProperty \<Rightarrow> bool \<times> BreakProperty" where
  "scanProperty prior after =
     (if prior = BP_SOT then (False, after)
      else if prior = BP_CR then (after \<noteq> BP_LF, after)
      else if prior = BP_LF \<or> prior = BP_Control then (True, after)
      else if after = BP_Control \<or> after = BP_CR \<or> after = BP_LF then (True, after)
      else if prior = BP_L \<and> after \<in> {BP_L, BP_V, BP_LV, BP_LVT} then (False, after)
      else if (prior = BP_LV \<or> prior = BP_V) \<and> (after = BP_V \<or> after = BP_T) then (False, after)
      else if (prior = BP_LVT \<or> prior = BP_T) \<and> after = BP_T then (False, after)
      else if (after = BP_Extend \<or> after = BP_ZWJ) \<and> prior \<noteq> BP_Extended_Pictographic
        then (False, after)
      else if after = BP_SpacingMark then (False, after)
      else if prior = BP_Prepend then (False, after)
      else if prior = BP_Regional_Indicator \<and> after = BP_Regional_Indicator then (False, BP_Any)
      else if prior = BP_Extended_Pictographic \<and> after = BP_Extend
        then (False, BP_Extended_Pictographic)
      else if prior = BP_Extended_Pictographic \<and> after = BP_ZWJ
        then (False, BP_Extended_Pictographic_with_ZWJ)
      else if prior = BP_Extended_Pictographic_with_ZWJ \<and> after = BP_Extended_Pictographic
        then (False, after)
      else (True, after))"

definition scanBoundary :: "BreakProperty \<Rightarrow> int \<Rightarrow> bool \<times> BreakProperty" where
  "scanBoundary state cp = scanProperty state (getBreakProperty cp)"

section \<open>The rules of annex 29\<close>

text \<open>
  The history is the list of the properties of the preceding code points, the latest first.
  \<open>emoji_prefix\<close> is "Extended_Pictographic Extend*", read backwards.
\<close>

fun emoji_prefix :: "BreakProperty list \<Rightarrow> bool" where
  "emoji_prefix [] \<longleftrightarrow> False"
| "emoji_prefix (p # ps) \<longleftrightarrow> p = BP_Extended_Pictographic \<or> p = BP_Extend \<and> emoji_prefix ps"

definition ri_run :: "BreakProperty list \<Rightarrow> nat" where
  "ri_run ps = length (takeWhile (\<lambda>p. p = BP_Regional_Indicator) ps)"

text \<open>
  A boundary between a non-empty history \<open>p # ps\<close> and the next property: the first rule that
  applies decides.  (Rule GB1, a boundary at the start of the text, is not reported by the code:
  the start is not "between two code points".)
\<close>

definition gb_boundary :: "BreakProperty list \<Rightarrow> BreakProperty \<Rightarrow> bool" where
  "gb_boundary ps after = (case ps of [] \<Rightarrow> False | p # ps' \<Rightarrow>
     if p = BP_CR \<and> after = BP_LF then False \<comment> \<open>GB3\<close>
     else if p \<in> {BP_Control, BP_CR, BP_LF} then True \<comment> \<open>GB4\<close>
     else if after \<in> {BP_Control, BP_CR, BP_LF} then True \<comment> \<open>GB5\<close>
     else if p = BP_L \<and> after \<in> {BP_L, BP_V, BP_LV, BP_LVT} then False \<comment> \<open>GB6\<close>
     else if p \<in> {BP_LV, BP_V} \<and> after \<in> {BP_V, BP_T} then False \<comment> \<open>GB7\<close>
     else if p \<in> {BP_LVT, BP_T} \<and> after = BP_T then False \<comment> \<open>GB8\<close>
     else if after \<in> {BP_Extend, BP_ZWJ} then False \<comment> \<open>GB9\<close>
     else if after = BP_SpacingMark then False \<comment> \<open>GB9a\<close>
     else if p = BP_Prepend then False \<comment> \<open>GB9b\<close>
     else if p = BP_ZWJ \<and> emoji_prefix ps' \<and> after = BP_Extended_Pictographic then False \<comment> \<open>GB11\<close>
     else if odd (ri_run ps) \<and> after = BP_Regional_Indicator then False \<comment> \<open>GB12, GB13\<close>
     else True)"

text \<open>The boundaries of a whole text, by the state machine and by the rules.\<close>

fun scan_boundaries :: "BreakProperty \<Rightarrow> int list \<Rightarrow> bool list" where
  "scan_boundaries st [] = []"
| "scan_boundaries st (c # cs) = (case scanBoundary st c of (b, st') \<Rightarrow> b # scan_boundaries st' cs)"

fun rule_boundaries :: "BreakProperty list \<Rightarrow> BreakProperty list \<Rightarrow> bool list" where
  "rule_boundaries hist [] = []"
| "rule_boundaries hist (p # ps) = gb_boundary hist p # rule_boundaries (p # hist) ps"

text \<open>
  The abstraction: what the one-property state says about the history.  The two synthetic
  states stand for a history that ends in "Extended_Pictographic Extend* ZWJ", and \<open>BP_Any\<close>
  also stands for an even run of regional indicators.
\<close>

definition state_of :: "BreakProperty list \<Rightarrow> BreakProperty" where
  "state_of ps = (case ps of [] \<Rightarrow> BP_SOT | p # ps' \<Rightarrow>
     if p = BP_Extend \<and> emoji_prefix ps' then BP_Extended_Pictographic
     else if p = BP_ZWJ \<and> emoji_prefix ps' then BP_Extended_Pictographic_with_ZWJ
     else if p = BP_Regional_Indicator \<and> even (ri_run ps) then BP_Any
     else p)"

abbreviation table_property :: "BreakProperty \<Rightarrow> bool" where
  "table_property p \<equiv> p \<noteq> BP_SOT \<and> p \<noteq> BP_Extended_Pictographic_with_ZWJ"

lemma ri_run_Cons:
  "ri_run (p # ps) = (if p = BP_Regional_Indicator then Suc (ri_run ps) else 0)"
  by (simp add: ri_run_def)

lemma scanProperty_step:
  assumes "list_all table_property hist" "table_property after"
  shows "scanProperty (state_of hist) after = (gb_boundary hist after, state_of (after # hist))"
proof (cases hist)
  case Nil
  then show ?thesis
    using assms by (auto simp: scanProperty_def state_of_def gb_boundary_def ri_run_Cons ri_run_def)
next
  case (Cons p ps)
  then show ?thesis
    using assms
    by (cases p; cases after)
      (simp_all add: scanProperty_def state_of_def gb_boundary_def ri_run_Cons)
qed

interpretation grapheme_table: interval_table fst "\<lambda>e. fst (snd e)" grapheme_break_property_table
  by unfold_locales (rule grapheme_table_ascending)

lemma getBreakProperty_entry:
  assumes "(l, u, p) \<in> set grapheme_break_property_table" "l \<le> c" "c \<le> u"
  shows "getBreakProperty c = p"
proof -
  define i where "i = grapheme_table.pos c"
  have "i < length grapheme_break_property_table" "(l, u, p) = grapheme_break_property_table ! i"
    using assms grapheme_table.member_iff [of "(l, u, p)" c] by (simp_all add: i_def)
  with assms(2,3) show ?thesis
    unfolding getBreakProperty_def Let_def i_def [symmetric] by (metis fst_conv snd_conv nat_neq_iff)
qed

lemma getBreakProperty_table: "table_property (getBreakProperty c)"
proof -
  have "lower_bound before grapheme_break_property_table
      \<le> length grapheme_break_property_table" for before
    by (rule lower_bound_le)
  with grapheme_table_properties show ?thesis
    by (auto simp: getBreakProperty_def Let_def list_all_length order_le_less)
qed

lemma scan_boundaries_rules:
  "list_all table_property hist \<Longrightarrow>
   scan_boundaries (state_of hist) cs = rule_boundaries hist (map getBreakProperty cs)"
  by (induction cs arbitrary: hist)
    (simp_all add: scanBoundary_def scanProperty_step getBreakProperty_table)

text \<open>
  [C4] The one-property state machine of \<open>GraphemeBoundary\<close> reports a boundary before a code
  point exactly where the rules GB3 to GB13 and GB999 of Unicode annex 29 put one, although the
  rules for emoji sequences and regional indicator pairs look back over the whole text.
\<close>

theorem grapheme_boundaries_follow_rules:
  "scan_boundaries BP_SOT cs = rule_boundaries [] (map getBreakProperty cs)"
  using scan_boundaries_rules [of "[]" cs] by (simp add: state_of_def)

section \<open>The cluster scanner\<close>

record GraphemeScanner =
  sc_ref :: "byte list"
  prevPos :: nat
  curPos :: nat
  boundary :: BreakProperty

definition new_scanner :: "byte list \<Rightarrow> GraphemeScanner" where
  "new_scanner ref = \<lparr>sc_ref = ref, prevPos = 0, curPos = 0, boundary = BP_SOT\<rparr>"

definition hasNext :: "GraphemeScanner \<Rightarrow> bool" where
  "hasNext sc \<longleftrightarrow> prevPos sc \<le> curPos sc \<and> prevPos sc < length (sc_ref sc)"

definition MAX_GRAPHEME_CODE_POINTS :: nat where
  "MAX_GRAPHEME_CODE_POINTS = 32"

record scan_result =
  res_ref :: "byte list"
  res_codePoints :: "int list"

text \<open>A byte outside a valid sequence is read as a signed \<open>char\<close>.\<close>

definition toCodePoint :: "byte list \<Rightarrow> nat \<Rightarrow> int" where
  "toCodePoint ref pos =
     (let cp = snd (utf8ToCodePoint (drop pos ref)) in
      if cp < 0 then sint (ref ! pos) else cp)"

definition substr :: "byte list \<Rightarrow> nat \<Rightarrow> nat \<Rightarrow> byte list" where
  "substr ref pos sz = take (min (length ref - pos) sz) (drop pos ref)"

lemma utf8NextPos_greater: "pos < utf8NextPos pos b"
  by (simp add: utf8NextPos_def Let_def)

text \<open>
  The loop of \<open>next\<close>: it collects code points until a boundary (\<open>Some pos\<close>, the position of
  the code point after it) or the end of the text (\<open>None\<close>).
\<close>

function scan_loop ::
  "GraphemeScanner \<Rightarrow> int list \<Rightarrow> (GraphemeScanner \<times> int list \<times> nat option) option" where
  "scan_loop sc cps =
     (if curPos sc < length (sc_ref sc) then
        (let pos = curPos sc;
             cp = toCodePoint (sc_ref sc) pos;
             bs = scanBoundary (boundary sc) cp;
             sc' = sc\<lparr>curPos := utf8NextPos pos (sc_ref sc ! pos), boundary := snd bs\<rparr>
         in if \<not> length cps < MAX_GRAPHEME_CODE_POINTS then None
            else if fst bs then Some (sc', cps, Some pos)
            else scan_loop sc' (cps @ [cp]))
      else Some (sc, cps, None))"
  by pat_completeness auto
termination
proof (relation "measure (\<lambda>(sc, cps). length (sc_ref sc) - curPos sc)", goal_cases)
  case (2 sc cps pos cp bs sc')
  then show ?case using utf8NextPos_greater [of "curPos sc" "sc_ref sc ! curPos sc"] by auto
qed simp

declare scan_loop.simps [simp del]

definition scan_next ::
  "GraphemeScanner \<Rightarrow> scan_result \<Rightarrow> (bool \<times> GraphemeScanner \<times> scan_result) option" where
  "scan_next sc res =
     (let startPos = prevPos sc;
          cps0 = (if prevPos sc \<noteq> curPos sc then [toCodePoint (sc_ref sc) (prevPos sc)] else [])
      in case scan_loop sc cps0 of
           None \<Rightarrow> None
         | Some (sc', cps, Some pos) \<Rightarrow>
             Some (True, sc'\<lparr>prevPos := pos\<rparr>,
                   \<lparr>res_ref = substr (sc_ref sc) startPos (pos - prevPos sc'), res_codePoints = cps\<rparr>)
         | Some (sc', cps, None) \<Rightarrow>
             if curPos sc' = length (sc_ref sc) then
               Some (cps \<noteq> [], sc'\<lparr>prevPos := curPos sc'\<rparr>,
                     \<lparr>res_ref = substr (sc_ref sc) startPos (curPos sc' - prevPos sc'),
                      res_codePoints = cps\<rparr>)
             else Some (cps \<noteq> [], sc', res\<lparr>res_codePoints := cps\<rparr>))"

text \<open>
  \<open>while (scanner.next(ret))\<close> of \<open>string_chars\<close> and \<open>string_count\<close>, with fuel.
\<close>

datatype scan_error = TooManyCodePoints | OutOfFuel

fun string_chars :: "nat \<Rightarrow> GraphemeScanner \<Rightarrow> scan_result \<Rightarrow> scan_error + byte list list" where
  "string_chars 0 sc res = Inl OutOfFuel"
| "string_chars (Suc fuel) sc res =
     (case scan_next sc res of
        None \<Rightarrow> Inl TooManyCodePoints
      | Some (False, sc', res') \<Rightarrow> Inr []
      | Some (True, sc', res') \<Rightarrow>
          (case string_chars fuel sc' res' of
             Inl e \<Rightarrow> Inl e
           | Inr cs \<Rightarrow> Inr (res_ref res' # cs)))"

fun string_count :: "nat \<Rightarrow> GraphemeScanner \<Rightarrow> scan_result \<Rightarrow> nat \<Rightarrow> scan_error + nat" where
  "string_count 0 sc res count = Inl OutOfFuel"
| "string_count (Suc fuel) sc res count =
     (case scan_next sc res of
        None \<Rightarrow> Inl TooManyCodePoints
      | Some (False, sc', res') \<Rightarrow> Inr count
      | Some (True, sc', res') \<Rightarrow> string_count fuel sc' res' (count + 1))"

lemma string_count_chars:
  "string_count fuel sc res count =
     (case string_chars fuel sc res of Inl e \<Rightarrow> Inl e | Inr cs \<Rightarrow> Inr (count + length cs))"
  by (induction fuel arbitrary: sc res count) (auto split: option.splits sum.splits bool.splits)

section \<open>Clusters partition an aligned text\<close>

text \<open>
  A text is aligned at a position when stepping by \<open>utf8NextPos\<close> from there lands exactly on
  its end; a text of well-formed UTF-8 is aligned at its start (\<open>wf_text_aligned\<close>).
\<close>

function aligned :: "byte list \<Rightarrow> nat \<Rightarrow> bool" where
  "aligned ref pos \<longleftrightarrow>
     (if pos < length ref then aligned ref (utf8NextPos pos (ref ! pos)) else pos = length ref)"
  by pat_completeness auto
termination
  using utf8NextPos_greater
  by (relation "measure (\<lambda>(ref, pos). length ref - pos)") (auto simp: diff_less_mono2 intro: diff_less_mono2)

declare aligned.simps [simp del]

lemma aligned_le: "aligned ref pos \<Longrightarrow> pos \<le> length ref"
  by (subst (asm) aligned.simps) (auto split: if_splits)

lemma aligned_next: "aligned ref pos \<Longrightarrow> pos < length ref \<Longrightarrow> aligned ref (utf8NextPos pos (ref ! pos))"
  by (subst (asm) aligned.simps) (auto split: if_splits)

lemma wf_text_aligned_from: "list_all wf_utf8 ws \<Longrightarrow> aligned (pre @ concat ws) (length pre)"
proof (induction ws arbitrary: pre)
  case Nil
  then show ?case by (simp add: aligned.simps)
next
  case (Cons w ws)
  then have w: "wf_utf8 w" by simp
  then obtain b w' where bw: "w = b # w'" by (cases w) auto
  with w have "utf8ValidateChar (b # w' @ concat ws) = Suc (length w')"
    by (simp add: utf8ValidateChar_wf)
  then have "utf8NextPos (length pre) b = length (pre @ w)"
    by (simp add: utf8NextPos_valid bw)
  moreover have "aligned ((pre @ w) @ concat ws) (length (pre @ w))"
    using Cons by (intro Cons.IH) simp
  ultimately show ?case
    by (subst aligned.simps) (simp add: bw nth_append)
qed

lemma wf_text_aligned: "list_all wf_utf8 ws \<Longrightarrow> aligned (concat ws) 0"
  using wf_text_aligned_from [of ws "[]"] by simp

lemma scanBoundary_SOT: "fst (scanBoundary BP_SOT cp) = False"
  by (simp add: scanBoundary_def scanProperty_def)

lemma scan_loop_SomeD:
  assumes "scan_loop sc cps = Some (sc', cps', r)" "aligned (sc_ref sc) (curPos sc)"
  shows "sc_ref sc' = sc_ref sc \<and> prevPos sc' = prevPos sc \<and> aligned (sc_ref sc) (curPos sc') \<and>
    (case r of
       None \<Rightarrow> curPos sc' = length (sc_ref sc)
         \<and> (cps' = [] \<longleftrightarrow> cps = [] \<and> curPos sc = length (sc_ref sc))
     | Some pos \<Rightarrow> curPos sc \<le> pos \<and> pos < curPos sc' \<and> (boundary sc = BP_SOT \<longrightarrow> curPos sc < pos)
         \<and> (boundary sc = BP_SOT \<or> cps \<noteq> [] \<longrightarrow> cps' \<noteq> []))"
  using assms
proof (induction "length (sc_ref sc) - curPos sc" arbitrary: sc cps rule: less_induct)
  case less
  show ?case
  proof (cases "curPos sc < length (sc_ref sc)")
    case False
    with less.prems aligned_le [OF less.prems(2)] show ?thesis
      by (simp add: scan_loop.simps [of sc cps] split: option.splits) 
  next
    case True
    define cp where "cp = toCodePoint (sc_ref sc) (curPos sc)"
    define bs where "bs = scanBoundary (boundary sc) cp"
    define sc1 where "sc1 = sc\<lparr>curPos := utf8NextPos (curPos sc) (sc_ref sc ! curPos sc), boundary := snd bs\<rparr>"
    have al: "aligned (sc_ref sc1) (curPos sc1)"
      using aligned_next [OF less.prems(2) True] by (simp add: sc1_def)
    have lt: "curPos sc < curPos sc1" by (simp add: sc1_def utf8NextPos_greater)
    note eq = scan_loop.simps [of sc cps, unfolded Let_def, folded cp_def, folded bs_def, folded sc1_def]
    have len: "length cps < MAX_GRAPHEME_CODE_POINTS"
      using less.prems(1) True by (simp add: eq split: if_splits)
    show ?thesis
    proof (cases "fst bs")
      case b: True
      with less.prems(1) True len have "sc' = sc1" "cps' = cps" "r = Some (curPos sc)"
        by (simp_all add: eq)
      moreover have "boundary sc \<noteq> BP_SOT"
        using b scanBoundary_SOT by (auto simp: bs_def)
      ultimately show ?thesis using al lt by (simp add: sc1_def)
    next
      case b: False
      then have rec: "scan_loop sc1 (cps @ [cp]) = Some (sc', cps', r)"
        using less.prems(1) True len by (simp add: eq)
      have "length (sc_ref sc1) - curPos sc1 < length (sc_ref sc) - curPos sc"
        using lt True by (simp add: sc1_def)
      from less.hyps [OF this rec al] lt True show ?thesis
        by (auto simp: sc1_def split: option.splits)
    qed
  qed
qed

definition sc_inv :: "GraphemeScanner \<Rightarrow> bool" where
  "sc_inv sc \<longleftrightarrow> aligned (sc_ref sc) (curPos sc) \<and> prevPos sc \<le> curPos sc
     \<and> (prevPos sc = curPos sc \<longrightarrow> curPos sc = length (sc_ref sc) \<or> boundary sc = BP_SOT)"

lemma substr_drop: "a + n \<le> length ref \<Longrightarrow> substr ref a n = take n (drop a ref)"
  by (simp add: substr_def min_def)

lemma scan_next_inv:
  assumes "scan_next sc res = Some (b, sc', res')" "sc_inv sc"
  shows "sc_inv sc' \<and> sc_ref sc' = sc_ref sc \<and> prevPos sc \<le> prevPos sc'
    \<and> prevPos sc' \<le> length (sc_ref sc)
    \<and> (b \<longleftrightarrow> prevPos sc < length (sc_ref sc)) \<and> (b \<longrightarrow> prevPos sc < prevPos sc')
    \<and> res_ref res' = take (prevPos sc' - prevPos sc) (drop (prevPos sc) (sc_ref sc))"
proof -
  define cps0 where "cps0 = (if prevPos sc \<noteq> curPos sc then [toCodePoint (sc_ref sc) (prevPos sc)] else [])"
  from assms(1) obtain sc1 cps r where loop: "scan_loop sc cps0 = Some (sc1, cps, r)"
    by (auto simp: scan_next_def Let_def cps0_def split: option.splits)
  have al: "aligned (sc_ref sc) (curPos sc)" and le: "prevPos sc \<le> curPos sc"
    using assms(2) by (simp_all add: sc_inv_def)
  note L = scan_loop_SomeD [OF loop al]
  have len1: "curPos sc1 \<le> length (sc_ref sc)" using L aligned_le by blast
  show ?thesis
  proof (cases r)
    case None
    then have e: "curPos sc1 = length (sc_ref sc)" "cps = [] \<longleftrightarrow> cps0 = [] \<and> curPos sc = length (sc_ref sc)"
      using L by simp_all
    have "(b, sc', res') = (cps \<noteq> [], sc1\<lparr>prevPos := curPos sc1\<rparr>,
        \<lparr>res_ref = substr (sc_ref sc) (prevPos sc) (curPos sc1 - prevPos sc), res_codePoints = cps\<rparr>)"
      using assms(1) loop None e(1) L
      unfolding scan_next_def Let_def cps0_def [symmetric] by simp
    moreover have "cps \<noteq> [] \<longleftrightarrow> prevPos sc < length (sc_ref sc)"
      using e le al aligned_le [OF al] by (auto simp: cps0_def)
    moreover have "prevPos sc \<le> length (sc_ref sc)" using le aligned_le [OF al] by simp
    ultimately show ?thesis
      using L e(1) by (simp add: sc_inv_def substr_drop)
  next
    case (Some pos)
    then have p: "curPos sc \<le> pos" "pos < curPos sc1" "boundary sc = BP_SOT \<longrightarrow> curPos sc < pos"
      using L by simp_all
    have "curPos sc < length (sc_ref sc)" using p len1 by linarith
    then have "prevPos sc < pos"
      using assms(2) p le by (auto simp: sc_inv_def le_less)
    moreover have "(b, sc', res') = (True, sc1\<lparr>prevPos := pos\<rparr>,
        \<lparr>res_ref = substr (sc_ref sc) (prevPos sc) (pos - prevPos sc), res_codePoints = cps\<rparr>)"
      using assms(1) loop Some L
      unfolding scan_next_def Let_def cps0_def [symmetric] by simp
    ultimately show ?thesis
      using L Some len1 p by (simp add: sc_inv_def substr_drop)
  qed
qed

lemma string_chars_partition:
  assumes "sc_inv sc" "length (sc_ref sc) - prevPos sc < fuel"
  shows "string_chars fuel sc res = Inl TooManyCodePoints
    \<or> (\<exists>cs. string_chars fuel sc res = Inr cs \<and> concat cs = drop (prevPos sc) (sc_ref sc)
          \<and> [] \<notin> set cs)"
  using assms
proof (induction fuel arbitrary: sc res)
  case (Suc fuel)
  show ?case
  proof (cases "scan_next sc res")
    case None
    then show ?thesis by simp
  next
    case (Some t)
    obtain b sc' res' where t: "t = (b, sc', res')" by (cases t)
    note N = scan_next_inv [OF Some [unfolded t] Suc.prems(1)]
    show ?thesis
    proof (cases b)
      case False
      then show ?thesis using Some t N by simp
    next
      case True
      then have lt: "prevPos sc < prevPos sc'" "prevPos sc' \<le> length (sc_ref sc)" using N by auto
      then have "length (sc_ref sc') - prevPos sc' < fuel" using Suc.prems(2) N lt
        by (metis diff_less_mono2 less_Suc_eq_le order_less_le_trans)
      from Suc.IH [OF _ this, of res'] N consider
        "string_chars fuel sc' res' = Inl TooManyCodePoints"
        | cs where "string_chars fuel sc' res' = Inr cs"
          "concat cs = drop (prevPos sc') (sc_ref sc)" "[] \<notin> set cs"
        by auto
      then show ?thesis
      proof cases
        case 1
        then show ?thesis using Some t True by simp
      next
        case 2
        have "res_ref res' @ drop (prevPos sc') (sc_ref sc) = drop (prevPos sc) (sc_ref sc)"
          using N lt append_take_drop_id [of "prevPos sc' - prevPos sc" "drop (prevPos sc) (sc_ref sc)"]
          by (simp add: add.commute)
        moreover have "res_ref res' \<noteq> []" using N lt by simp
        ultimately show ?thesis using 2 Some t True by simp
      qed
    qed
  qed
qed simp

lemma new_scanner_inv: "aligned ref 0 \<Longrightarrow> sc_inv (new_scanner ref)"
  by (simp add: sc_inv_def new_scanner_def)



lemma aligned_ab: "aligned [0x61, 0x62] 0"
  by (simp add: aligned.simps utf8NextPos_def utf8ByteSize_ranges Let_def)


section \<open>Texts that are not aligned\<close>

lemma scan_loop_not_aligned:
  assumes "scan_loop sc cps = Some (sc', cps', r)" "\<not> aligned (sc_ref sc) (curPos sc)"
  shows "sc_ref sc' = sc_ref sc \<and> prevPos sc' = prevPos sc \<and> \<not> aligned (sc_ref sc) (curPos sc') \<and>
    (case r of
       None \<Rightarrow> (cps' = [] \<longrightarrow> cps = [] \<and> length (sc_ref sc) \<le> curPos sc)
     | Some pos \<Rightarrow> pos < length (sc_ref sc))"
  using assms
proof (induction "length (sc_ref sc) - curPos sc" arbitrary: sc cps rule: less_induct)
  case less
  show ?case
  proof (cases "curPos sc < length (sc_ref sc)")
    case False
    with less.prems show ?thesis
      by (simp add: scan_loop.simps [of sc cps])
  next
    case True
    define cp where "cp = toCodePoint (sc_ref sc) (curPos sc)"
    define bs where "bs = scanBoundary (boundary sc) cp"
    define sc1 where "sc1 = sc\<lparr>curPos := utf8NextPos (curPos sc) (sc_ref sc ! curPos sc), boundary := snd bs\<rparr>"
    have al: "\<not> aligned (sc_ref sc1) (curPos sc1)"
      using less.prems(2) True aligned.simps [of "sc_ref sc" "curPos sc"] by (simp add: sc1_def)
    note eq = scan_loop.simps [of sc cps, unfolded Let_def, folded cp_def, folded bs_def, folded sc1_def]
    have len: "length cps < MAX_GRAPHEME_CODE_POINTS"
      using less.prems(1) True by (simp add: eq split: if_splits)
    show ?thesis
    proof (cases "fst bs")
      case b: True
      with less.prems(1) True len al show ?thesis by (auto simp add: eq sc1_def)
    next
      case b: False
      then have rec: "scan_loop sc1 (cps @ [cp]) = Some (sc', cps', r)"
        using less.prems(1) True len by (simp add: eq)
      have "length (sc_ref sc1) - curPos sc1 < length (sc_ref sc) - curPos sc"
        using True by (simp add: sc1_def utf8NextPos_greater diff_less_mono2)
      from less.hyps [OF this rec al] show ?thesis
        by (auto simp: sc1_def split: option.splits)
    qed
  qed
qed

lemma scan_next_not_aligned:
  assumes "scan_next sc res = Some (b, sc', res')"
    and "\<not> aligned (sc_ref sc) (curPos sc)" "prevPos sc < length (sc_ref sc)"
  shows "b \<and> sc_ref sc' = sc_ref sc \<and> \<not> aligned (sc_ref sc') (curPos sc')
    \<and> prevPos sc' < length (sc_ref sc')"
proof -
  define cps0 where "cps0 = (if prevPos sc \<noteq> curPos sc then [toCodePoint (sc_ref sc) (prevPos sc)] else [])"
  from assms(1) obtain sc1 cps r where loop: "scan_loop sc cps0 = Some (sc1, cps, r)"
    by (auto simp: scan_next_def Let_def cps0_def split: option.splits)
  note L = scan_loop_not_aligned [OF loop assms(2)]
  have ne: "curPos sc1 \<noteq> length (sc_ref sc)"
    using L aligned.simps [of "sc_ref sc" "length (sc_ref sc)"] by auto
  show ?thesis
  proof (cases r)
    case None
    have "cps \<noteq> []" using L None assms(3) by (auto simp: cps0_def split: if_splits)
    moreover have "(b, sc', res') = (cps \<noteq> [], sc1, res\<lparr>res_codePoints := cps\<rparr>)"
      using assms(1) loop None ne unfolding scan_next_def Let_def cps0_def [symmetric] by simp
    ultimately show ?thesis using L assms(3) by simp
  next
    case (Some pos)
    then have "b \<and> sc' = sc1\<lparr>prevPos := pos\<rparr>"
      using assms(1) loop unfolding scan_next_def Let_def cps0_def [symmetric] by auto
    then show ?thesis using L Some by simp
  qed
qed

lemma string_chars_not_aligned:
  "\<not> aligned (sc_ref sc) (curPos sc) \<Longrightarrow> prevPos sc < length (sc_ref sc) \<Longrightarrow>
   string_chars fuel sc res \<noteq> Inr cs"
proof (induction fuel arbitrary: sc res cs)
  case (Suc fuel)
  show ?case
  proof (cases "scan_next sc res")
    case (Some t)
    obtain b sc' res' where t: "t = (b, sc', res')" by (cases t)
    note N = scan_next_not_aligned [OF Some [unfolded t] Suc.prems]
    then have "string_chars fuel sc' res' \<noteq> Inr cs'" for cs' by (intro Suc.IH) auto
    then show ?thesis using Some t N by (auto split: sum.splits bool.splits)
  qed simp
qed simp

text \<open>
  [C6] If stepping through the text by lead bytes overshoots its end, as it does for a text
  that ends in a truncated UTF-8 sequence, then \<open>next\<close> keeps returning true without advancing:
  with no amount of fuel does the loop of \<open>string_count\<close> and \<open>string_chars\<close> return.
\<close>

theorem string_count_diverges:
  assumes "\<not> aligned ref 0"
  shows "string_count fuel (new_scanner ref) res 0 \<noteq> Inr n"
proof -
  have "ref \<noteq> []" using assms aligned.simps [of ref 0] by auto
  then have "string_chars fuel (new_scanner ref) res \<noteq> Inr cs" for cs
    using assms by (intro string_chars_not_aligned) (simp_all add: new_scanner_def)
  then show ?thesis by (auto simp: string_count_chars split: sum.splits)
qed

theorem string_count_diverges_witness:
  "\<forall>fuel res n. string_count fuel (new_scanner [0x61, 0xE3]) res 0 \<noteq> Inr n"
proof -
  have "\<not> aligned [0x61, 0xE3] 0"
    by (simp add: aligned.simps utf8NextPos_def utf8ByteSize_ranges Let_def)
  then show ?thesis using string_count_diverges by blast
qed

section \<open>Clusters of more than 32 code points\<close>

lemma combining_acute:
  "utf8ToCodePoint (0xCC # 0x81 # bs) = (2, 0x301)"
  "utf8NextPos pos 0xCC = pos + 2"
proof -
  show "utf8ToCodePoint (0xCC # 0x81 # bs) = (2, 0x301)"
    by (subst decode_2) (simp_all add: validate_cons byte_uint cont_def)
  show "utf8NextPos pos 0xCC = pos + 2"
    by (simp add: utf8NextPos_def utf8ByteSize_ranges Let_def)
qed

lemma property_acute: "getBreakProperty 0x301 = BP_Extend"
  by (rule getBreakProperty_entry [of "0x0300" "0x036F"])
    (simp_all add: grapheme_break_property_table_def grapheme_break_property_table_1_def)

lemma scan_loop_acutes:
  assumes "sc_ref sc = pre @ concat (replicate n [0xCC, 0x81])" "curPos sc = length pre"
    and "boundary sc = BP_SOT \<or> boundary sc = BP_Extend"
    and "length cps \<le> MAX_GRAPHEME_CODE_POINTS" "MAX_GRAPHEME_CODE_POINTS < length cps + n"
  shows "scan_loop sc cps = None"
  using assms
proof (induction n arbitrary: sc pre cps)
  case (Suc n)
  have cp: "toCodePoint (sc_ref sc) (curPos sc) = 0x301"
    using Suc.prems(1,2) combining_acute(1) by (simp add: toCodePoint_def)
  have bs: "scanBoundary (boundary sc) 0x301 = (False, BP_Extend)"
    using Suc.prems(3) by (auto simp: scanBoundary_def property_acute scanProperty_def)
  let ?sc = "sc\<lparr>curPos := curPos sc + 2, boundary := BP_Extend\<rparr>"
  have step: "scan_loop sc cps =
      (if length cps < MAX_GRAPHEME_CODE_POINTS then scan_loop ?sc (cps @ [0x301]) else None)"
    using Suc.prems(1,2) cp bs combining_acute(2)
    by (simp add: scan_loop.simps [of sc cps] Let_def nth_append)
  show ?case
  proof (cases "length cps < MAX_GRAPHEME_CODE_POINTS")
    case True
    then have "scan_loop ?sc (cps @ [0x301]) = None"
      using Suc.prems by (intro Suc.IH [of _ "pre @ [0xCC, 0x81]"]) simp_all
    with step True show ?thesis by simp
  qed (use step in simp)
qed simp

text \<open>
  [C7] The result's array of 32 code points can be exceeded by a valid text: 33 combining
  accents form one cluster, and \<open>next\<close> reaches the assertion that guards the array (which a
  release build compiles out, so that it writes past the array's end).
\<close>

theorem grapheme_array_exceeded:
  "aligned (concat (replicate 33 [0xCC, 0x81])) 0
   \<and> scan_next (new_scanner (concat (replicate 33 [0xCC, 0x81]))) res = None"
proof
  show "aligned (concat (replicate 33 [0xCC, 0x81])) 0"
    by (rule wf_text_aligned) (simp add: list_all_iff cont_def)
  show "scan_next (new_scanner (concat (replicate 33 [0xCC, 0x81]))) res = None"
    by (simp add: scan_next_def new_scanner_def Let_def MAX_GRAPHEME_CODE_POINTS_def
        scan_loop_acutes [of _ "[]" 33])
qed

end
