(* ===== verification/Num_Util.thy ===== *)
theory Num_Util
  imports Prelude
begin

text \<open>
  Number parsing (\<open>misc/num_util.hpp\<close>). The templates over \<open>uint32_t\<close> and \<open>uint64_t\<close> are
  definitions over words of any width, the theorems ask for one of those two widths. The
  overflow builtins return the flag and the wrapped result; a parser returns the pair of
  value and status that the code returns, and the \<open>errno\<close> it leaves. The signed functions
  return the bit pattern, which \<open>sint\<close> reads.
\<close>

datatype Errno = E_OK | EINVAL | ERANGE

definition add_overflow :: "'a::len word \<Rightarrow> 'a word \<Rightarrow> bool \<times> 'a word" where
  "add_overflow x y = (2 ^ LENGTH('a) \<le> uint x + uint y, x + y)"

definition mul_overflow :: "'a::len word \<Rightarrow> 'a word \<Rightarrow> bool \<times> 'a word" where
  "mul_overflow x y = (2 ^ LENGTH('a) \<le> uint x * uint y, x * y)"

definition fits_signed :: "'a::len itself \<Rightarrow> int \<Rightarrow> bool" where
  "fits_signed t x \<longleftrightarrow> - (2 ^ (LENGTH('a) - 1)) \<le> x \<and> x < 2 ^ (LENGTH('a) - 1)"

definition sadd_overflow :: "'a::len word \<Rightarrow> 'a word \<Rightarrow> bool \<times> 'a word" where
  "sadd_overflow x y = (\<not> fits_signed TYPE('a) (sint x + sint y), x + y)"

definition ssub_overflow :: "'a::len word \<Rightarrow> 'a word \<Rightarrow> bool \<times> 'a word" where
  "ssub_overflow x y = (\<not> fits_signed TYPE('a) (sint x - sint y), x - y)"

definition smul_overflow :: "'a::len word \<Rightarrow> 'a word \<Rightarrow> bool \<times> 'a word" where
  "smul_overflow x y = (\<not> fits_signed TYPE('a) (sint x * sint y), x * y)"

text \<open>The base, -1 at the end of the input, and what remains to be parsed.\<close>

fun parseBase :: "string \<Rightarrow> int \<times> string" where
  "parseBase [] = (-1, [])"
| "parseBase [c] = (if c = CHR ''0'' then (8, [c]) else (10, [c]))"
| "parseBase (c # d # rest) =
     (if c = CHR ''0'' then
        if d = CHR ''x'' \<or> d = CHR ''X'' then (16, rest)
        else if d = CHR ''o'' \<or> d = CHR ''O'' then (8, rest)
        else (8, d # rest)
      else (10, c # d # rest))"

definition dropSign :: "'a::len word \<Rightarrow> 'a word" where
  "dropSign v = NOT v + 1"

definition putSign :: "'a::len word \<Rightarrow> 'a word" where
  "putSign v = NOT v + 1"

definition signed_min :: "'a::len word" where
  "signed_min = word_of_int (- (2 ^ (LENGTH('a) - 1)))"

definition signed_max :: "'a::len word" where
  "signed_max = word_of_int (2 ^ (LENGTH('a) - 1) - 1)"

definition makeSigned :: "'a::len word \<Rightarrow> bool \<Rightarrow> 'a word \<times> bool" where
  "makeSigned v negate =
     (if negate then
        if v \<le> dropSign signed_min then (putSign v, True) else (v, False)
      else if v \<le> signed_max then (v, True) else (v, False))"

text \<open>The tests and values of one digit.\<close>

definition isDecimal :: "char \<Rightarrow> bool" where
  "isDecimal ch \<longleftrightarrow> of_char ch \<ge> (0x30 :: nat) \<and> of_char ch \<le> (0x39 :: nat)"

definition isOctal :: "char \<Rightarrow> bool" where
  "isOctal ch \<longleftrightarrow> of_char ch \<ge> (0x30 :: nat) \<and> of_char ch < (0x38 :: nat)"

definition isHex :: "char \<Rightarrow> bool" where
  "isHex ch \<longleftrightarrow> of_char ch \<ge> (0x30 :: nat) \<and> of_char ch \<le> (0x39 :: nat)
     \<or> of_char ch \<ge> (0x41 :: nat) \<and> of_char ch \<le> (0x46 :: nat)
     \<or> of_char ch \<ge> (0x61 :: nat) \<and> of_char ch \<le> (0x66 :: nat)"

definition hexToNum :: "char \<Rightarrow> nat" where
  "hexToNum ch =
     (let c = of_char ch :: nat in
      if c \<ge> 0x30 \<and> c \<le> 0x39 then c - 0x30
      else if c \<ge> 0x61 \<and> c \<le> 0x66 then 10 + (c - 0x61)
      else if c \<ge> 0x41 \<and> c \<le> 0x46 then 10 + (c - 0x41)
      else 0)"

definition decimal_digit :: "char \<Rightarrow> nat option" where
  "decimal_digit ch =
     (let c = of_char ch :: nat in if c \<ge> 0x30 \<and> c \<le> 0x39 then Some (c - 0x30) else None)"

definition radix_digit :: "nat \<Rightarrow> char \<Rightarrow> nat option" where
  "radix_digit base ch =
     (let c = of_char ch :: nat;
          v = (if c \<ge> 0x30 \<and> c \<le> 0x39 then Some (c - 0x30)
               else if c \<ge> 0x61 \<and> c \<le> 0x66 then Some (10 + (c - 0x61))
               else if c \<ge> 0x41 \<and> c \<le> 0x46 then Some (10 + (c - 0x41))
               else None)
      in case v of Some d \<Rightarrow> if d \<ge> base then None else Some d | None \<Rightarrow> None)"

text \<open>The \<open>do ... while (++begin != end)\<close> loop that both parsers have.\<close>

fun digit_loop ::
  "(char \<Rightarrow> nat option) \<Rightarrow> 'a::len word \<Rightarrow> 'a word \<Rightarrow> string \<Rightarrow> ('a word \<times> bool) \<times> Errno"
where
  "digit_loop digit base ret [] = ((ret, True), E_OK)"
| "digit_loop digit base ret (ch # rest) =
     (case digit ch of
        None \<Rightarrow> ((ret, False), EINVAL)
      | Some v \<Rightarrow>
          (let m = mul_overflow ret base in
           if fst m then ((snd m, False), ERANGE)
           else let a = add_overflow (snd m) (of_nat v) in
             if fst a then ((snd a, False), ERANGE) else digit_loop digit base (snd a) rest))"

fun parseDecimal :: "string \<Rightarrow> ('a::len word \<times> bool) \<times> Errno" where
  "parseDecimal [] = ((0, False), EINVAL)"
| "parseDecimal (ch # rest) =
     (if ch = CHR ''0'' then (if rest \<noteq> [] then ((0, False), EINVAL) else ((0, True), E_OK))
      else digit_loop decimal_digit 10 0 (ch # rest))"

definition parseOctalOrHex :: "string \<Rightarrow> nat \<Rightarrow> ('a::len word \<times> bool) \<times> Errno" where
  "parseOctalOrHex s base =
     (if s = [] then ((0, False), EINVAL)
      else digit_loop (radix_digit base) (of_nat base) 0 s)"

definition parseInteger :: "string \<Rightarrow> int \<Rightarrow> ('a::len word \<times> bool) \<times> Errno" where
  "parseInteger s base =
     (let (base, s) = (if base = 0 then parseBase s else (base, s)) in
      if base = 8 \<or> base = 16 then parseOctalOrHex s (nat base)
      else if base = 10 then parseDecimal s
      else ((0, False), EINVAL))"

text \<open>The overload of \<open>parseInteger\<close> for signed types.\<close>

definition parseSigned :: "string \<Rightarrow> int \<Rightarrow> ('a::len word \<times> bool) \<times> Errno" where
  "parseSigned s base =
     (let sign = (s \<noteq> [] \<and> hd s = CHR ''-'');
          (ret, e) = parseInteger (if sign then tl s else s) base
      in if snd ret then (makeSigned (fst ret) sign, e) else ((fst ret, False), e))"

definition convertToNum :: "string \<Rightarrow> int \<Rightarrow> 'a::len word \<times> bool" where
  "convertToNum s base = fst (parseSigned s base)"

definition convertToNum_unsigned :: "string \<Rightarrow> int \<Rightarrow> 'a::len word \<times> bool" where
  "convertToNum_unsigned s base = fst (parseInteger s base)"

definition fromIntLiteral :: "string \<Rightarrow> 'a::len word \<times> bool" where
  "fromIntLiteral s =
     (let negate = (s \<noteq> [] \<and> hd s = CHR ''-'');
          s' = (if negate then tl s else s);
          decimal = (s' \<noteq> [] \<and> hd s' \<noteq> CHR ''0'');
          ret = convertToNum_unsigned s' 0
      in if snd ret \<and> decimal then makeSigned (fst ret) negate
         else if snd ret \<and> \<not> negate then (fst ret, True)
         else (fst ret, False))"

section \<open>What a numeral denotes\<close>

text \<open>
  The reference: the value of a digit string by positional notation, and the grammar of the
  numerals. Base 0 selects the radix from the prefix; decimal numerals have no leading zero.
\<close>

fun digits_value :: "(char \<Rightarrow> nat option) \<Rightarrow> nat \<Rightarrow> nat \<Rightarrow> string \<Rightarrow> nat option" where
  "digits_value digit base acc [] = Some acc"
| "digits_value digit base acc (ch # rest) =
     (case digit ch of None \<Rightarrow> None | Some v \<Rightarrow> digits_value digit base (acc * base + v) rest)"

definition numeral_of :: "(char \<Rightarrow> nat option) \<Rightarrow> nat \<Rightarrow> string \<Rightarrow> nat option" where
  "numeral_of digit base s = (if s = [] then None else digits_value digit base 0 s)"

definition decimal_value :: "string \<Rightarrow> nat option" where
  "decimal_value s = (if length s > 1 \<and> hd s = CHR ''0'' then None else numeral_of decimal_digit 10 s)"

definition numeral_value :: "int \<Rightarrow> string \<Rightarrow> nat option" where
  "numeral_value base s =
     (if base = 8 then numeral_of (radix_digit 8) 8 s
      else if base = 16 then numeral_of (radix_digit 16) 16 s
      else if base = 10 then decimal_value s
      else if base = 0 then
        (if take 2 s = ''0x'' \<or> take 2 s = ''0X'' then numeral_of (radix_digit 16) 16 (drop 2 s)
         else if take 2 s = ''0o'' \<or> take 2 s = ''0O'' then numeral_of (radix_digit 8) 8 (drop 2 s)
         else if length s > 1 \<and> hd s = CHR ''0'' then numeral_of (radix_digit 8) 8 (tl s)
         else decimal_value s)
      else None)"

lemma digits_value_ge: "digits_value digit base acc s = Some n \<Longrightarrow> 1 \<le> base \<Longrightarrow> acc \<le> n"
proof (induction s arbitrary: acc)
  case (Cons ch rest)
  then obtain v where v: "digit ch = Some v" "digits_value digit base (acc * base + v) rest = Some n"
    by (auto split: option.splits)
  then have "acc * base + v \<le> n" using Cons by blast
  moreover have "acc \<le> acc * base" using Cons.prems by simp
  ultimately show ?case by linarith
qed simp

lemma radix_digit_less: "radix_digit base ch = Some v \<Longrightarrow> v < base"
  by (auto simp: radix_digit_def Let_def split: option.splits if_splits)

lemma decimal_digit_less: "decimal_digit ch = Some v \<Longrightarrow> v < 10"
  by (auto simp: decimal_digit_def Let_def split: if_splits)

text \<open>The loop computes the value when it fits the word, and reports failure otherwise.\<close>

definition parses_as :: "nat option \<Rightarrow> ('a::len word \<times> bool) \<times> Errno \<Rightarrow> bool" where
  "parses_as value res \<longleftrightarrow>
     (case value of
        None \<Rightarrow> \<not> snd (fst res) \<and> snd res \<noteq> E_OK
      | Some n \<Rightarrow> if n < 2 ^ LENGTH('a) then res = ((of_nat n, True), E_OK)
                  else \<not> snd (fst res) \<and> snd res = ERANGE)"

lemma unat_of_nat_small: "n < 2 ^ LENGTH('a) \<Longrightarrow> unat (of_nat n :: 'a::len word) = n"
  by (simp add: unsigned_of_nat take_bit_nat_eq_self)

lemma mul_overflow_nat:
  fixes x y :: "'a::len word"
  shows "fst (mul_overflow x y) \<longleftrightarrow> 2 ^ LENGTH('a) \<le> unat x * unat y"
    and "\<not> fst (mul_overflow x y) \<Longrightarrow> unat (snd (mul_overflow x y)) = unat x * unat y"
proof -
  have "2 ^ LENGTH('a) \<le> uint x * uint y \<longleftrightarrow> int (2 ^ LENGTH('a)) \<le> int (unat x * unat y)"
    by simp
  then show *: "fst (mul_overflow x y) \<longleftrightarrow> 2 ^ LENGTH('a) \<le> unat x * unat y"
    by (simp only: mul_overflow_def fst_conv of_nat_le_iff)
  show "\<not> fst (mul_overflow x y) \<Longrightarrow> unat (snd (mul_overflow x y)) = unat x * unat y"
    using * by (simp add: mul_overflow_def unat_word_ariths take_bit_nat_eq_self)
qed

lemma add_overflow_nat:
  fixes x y :: "'a::len word"
  shows "fst (add_overflow x y) \<longleftrightarrow> 2 ^ LENGTH('a) \<le> unat x + unat y"
    and "\<not> fst (add_overflow x y) \<Longrightarrow> unat (snd (add_overflow x y)) = unat x + unat y"
proof -
  have "2 ^ LENGTH('a) \<le> uint x + uint y \<longleftrightarrow> int (2 ^ LENGTH('a)) \<le> int (unat x + unat y)"
    by simp
  then show *: "fst (add_overflow x y) \<longleftrightarrow> 2 ^ LENGTH('a) \<le> unat x + unat y"
    by (simp only: add_overflow_def fst_conv of_nat_le_iff)
  show "\<not> fst (add_overflow x y) \<Longrightarrow> unat (snd (add_overflow x y)) = unat x + unat y"
    using * by (simp add: add_overflow_def unat_word_ariths take_bit_nat_eq_self)
qed

lemma digit_loop_value:
  assumes less: "\<And>ch v. digit ch = Some v \<Longrightarrow> v < base" and base: "1 \<le> base" "base < 2 ^ LENGTH('a)"
  shows "parses_as (digits_value digit base (unat ret) s)
    (digit_loop digit (of_nat base) (ret :: 'a::len word) s)"
proof (induction s arbitrary: ret)
  case (Cons ch rest)
  show ?case
  proof (cases "digit ch")
    case (Some v)
    let ?m = "mul_overflow ret (of_nat base)"
    let ?a = "add_overflow (snd ?m) (of_nat v)"
    let ?V = "unat ret * base + v"
    have v: "v < 2 ^ LENGTH('a)" using less [OF Some] base by simp
    have m: "fst ?m \<longleftrightarrow> 2 ^ LENGTH('a) \<le> unat ret * base"
      using base by (simp add: mul_overflow_nat(1) unat_of_nat_small)
    have mv: "\<not> fst ?m \<Longrightarrow> unat (snd ?m) = unat ret * base"
      using base by (simp add: mul_overflow_nat(2) unat_of_nat_small)
    have big: "fst ?m \<or> fst ?a \<longleftrightarrow> 2 ^ LENGTH('a) \<le> ?V"
      using m mv v by (auto simp: add_overflow_nat(1) unat_of_nat_small)
    show ?thesis
    proof (cases "fst ?m \<or> fst ?a")
      case True
      then have "2 ^ LENGTH('a) \<le> ?V" using big by blast
      then have "\<not> n < 2 ^ LENGTH('a)" if "digits_value digit base ?V rest = Some n" for n
        using digits_value_ge [OF that base(1)] by simp
      with True Some show ?thesis by (auto simp: Let_def parses_as_def split: option.splits)
    next
      case False
      then have "unat (snd ?a) = ?V"
        using mv v by (simp add: add_overflow_nat(2) unat_of_nat_small)
      then show ?thesis using Cons [of "snd ?a"] Some False by (simp add: Let_def)
    qed
  qed (simp add: parses_as_def)
qed (simp add: parses_as_def)

lemma radix_value:
  assumes "b \<in> {8, 16}" "5 \<le> LENGTH('a::len)"
  shows "parses_as (numeral_of (radix_digit b) b s) (parseOctalOrHex s b :: ('a word \<times> bool) \<times> Errno)"
proof -
  have "(2::nat) ^ 5 \<le> 2 ^ LENGTH('a)" using assms(2) by (intro power_increasing) auto
  then have "1 \<le> b" "b < 2 ^ LENGTH('a)" using assms(1) by auto
  from digit_loop_value [of "radix_digit b", OF radix_digit_less this, where s = s and ret = 0]
  show ?thesis by (simp add: numeral_of_def parseOctalOrHex_def) (simp add: parses_as_def)
qed

lemma decimal_parses:
  assumes "5 \<le> LENGTH('a::len)"
  shows "parses_as (decimal_value s) (parseDecimal s :: ('a word \<times> bool) \<times> Errno)"
proof -
  have "(2::nat) ^ 5 \<le> 2 ^ LENGTH('a)" using assms by (intro power_increasing) auto
  then have "1 \<le> (10 :: nat)" "(10 :: nat) < 2 ^ LENGTH('a)" by auto
  note loop = digit_loop_value [of decimal_digit 10, OF decimal_digit_less this, where s = s and ret = 0]
  have zero: "decimal_digit (CHR ''0'') = Some 0" by (simp add: decimal_digit_def)
  show ?thesis
  proof (cases "s \<noteq> [] \<and> hd s = CHR ''0''")
    case True
    then show ?thesis using zero
      by (cases s) (auto simp: parses_as_def decimal_value_def numeral_of_def)
  next
    case False
    then show ?thesis using loop
      by (cases s) (simp_all add: decimal_value_def numeral_of_def parses_as_def [of None])
  qed
qed

lemma parseInteger_value:
  assumes "5 \<le> LENGTH('a::len)"
  shows "parses_as (numeral_value base s) (parseInteger s base :: ('a word \<times> bool) \<times> Errno)"
proof (cases "base = 0")
  case True
  note R = radix_value [OF _ assms] decimal_parses [OF assms]
  have none: "parses_as None (parseInteger [] 0 :: ('a word \<times> bool) \<times> Errno)"
    by (simp add: parseInteger_def parses_as_def)
  show ?thesis
  proof (cases s rule: parseBase.cases)
    case 1
    then show ?thesis using True none by (simp add: numeral_value_def decimal_value_def numeral_of_def)
  next
    case (2 c)
    have "decimal_value [CHR ''0''] = numeral_of (radix_digit 8) 8 [CHR ''0'']"
      by (simp add: decimal_value_def numeral_of_def radix_digit_def decimal_digit_def)
    with 2 show ?thesis using True R(1) [of 8 s] R(2) [of s]
      by (auto simp: numeral_value_def parseInteger_def)
  next
    case (3 c d rest)
    then show ?thesis using True R(1) [of 8] R(1) [of 16] R(2) [of s]
      by (auto simp: numeral_value_def parseInteger_def)
  qed
next
  case False
  then show ?thesis using radix_value [OF _ assms, of 8 s] radix_value [OF _ assms, of 16 s]
      decimal_parses [OF assms, of s]
    by (auto simp: numeral_value_def parseInteger_def parses_as_def [of None])
qed

section \<open>Signs\<close>

lemma uint_signed_bounds:
  "uint (dropSign (signed_min :: 'a::len word)) = 2 ^ (LENGTH('a) - 1)"
  "uint (signed_max :: 'a::len word) = 2 ^ (LENGTH('a) - 1) - 1"
proof -
  have less: "(2::int) ^ (LENGTH('a) - 1) < 2 ^ LENGTH('a)" by (intro power_strict_increasing) auto
  have "dropSign (signed_min :: 'a word) = word_of_int (2 ^ (LENGTH('a) - 1))"
    by (simp add: dropSign_def signed_min_def flip: minus_eq_not_plus_1)
  then show "uint (dropSign (signed_min :: 'a::len word)) = 2 ^ (LENGTH('a) - 1)"
    using less by (metis uint_word_of_int_eq take_bit_int_eq_self zero_le_power zero_le_numeral)
  show "uint (signed_max :: 'a::len word) = 2 ^ (LENGTH('a) - 1) - 1"
    unfolding signed_max_def uint_word_of_int_eq using less
    by (intro take_bit_int_eq_self) (simp, linarith)
qed

lemma sint_of_fits:
  assumes "fits_signed TYPE('a::len) k"
  shows "sint (word_of_int k :: 'a word) = k"
  using assms by (simp add: sint_sbintrunc' fits_signed_def signed_take_bit_int_eq_self)

lemma sint_uint_fits: "fits_signed TYPE('a) (uint v) \<Longrightarrow> sint (v :: 'a::len word) = uint v"
  using sint_of_fits [of "uint v", where 'a = 'a] by simp

lemma makeSigned_value:
  fixes v :: "'a::len word" and negate :: bool
  defines "k \<equiv> (if negate then - uint v else uint v)"
  shows "snd (makeSigned v negate) \<longleftrightarrow> fits_signed TYPE('a) k"
    and "fits_signed TYPE('a) k \<Longrightarrow> sint (fst (makeSigned v negate)) = k"
proof -
  have "putSign v = word_of_int (- uint v)"
    by (simp add: putSign_def flip: minus_eq_not_plus_1)
  then have neg: "fits_signed TYPE('a) (- uint v) \<Longrightarrow> sint (putSign v) = - uint v"
    using sint_of_fits by metis
  define N where "N = (2 :: int) ^ (LENGTH('a) - 1)"
  define u where "u = uint v"
  have pos: "0 \<le> u" "0 < N" by (simp_all add: N_def u_def)
  show fits: "snd (makeSigned v negate) \<longleftrightarrow> fits_signed TYPE('a) k"
    unfolding k_def makeSigned_def fits_signed_def word_le_def uint_signed_bounds
      N_def [symmetric] u_def [symmetric]
    using pos by auto
  show "fits_signed TYPE('a) k \<Longrightarrow> sint (fst (makeSigned v negate)) = k"
    using fits neg sint_uint_fits [of v]
    by (auto simp: k_def makeSigned_def split: if_splits)
qed

definition negative :: "string \<Rightarrow> bool" where
  "negative s \<longleftrightarrow> s \<noteq> [] \<and> hd s = CHR ''-''"

definition unsigned_part :: "string \<Rightarrow> string" where
  "unsigned_part s = (if negative s then tl s else s)"

definition with_sign :: "string \<Rightarrow> nat \<Rightarrow> int" where
  "with_sign s n = (if negative s then - int n else int n)"

lemma uint_of_nat_small: "n < 2 ^ LENGTH('a) \<Longrightarrow> uint (of_nat n :: 'a::len word) = int n"
  by (simp add: unsigned_of_nat take_bit_nat_eq_self)

lemma fits_signed_small: "fits_signed TYPE('a::len) (with_sign s n) \<Longrightarrow> n < 2 ^ LENGTH('a)"
proof -
  assume "fits_signed TYPE('a) (with_sign s n)"
  then have "int n \<le> 2 ^ (LENGTH('a) - 1)" by (auto simp: fits_signed_def with_sign_def split: if_splits)
  also have "(2::int) ^ (LENGTH('a) - 1) < 2 ^ LENGTH('a)" by (intro power_strict_increasing) auto
  finally show "n < 2 ^ LENGTH('a)" by (metis of_nat_less_iff of_nat_numeral of_nat_power)
qed

lemma sint_eqI: "sint v = sint w \<Longrightarrow> v = w"
  by (rule signed_word_eqI)

lemma makeSigned_iff:
  assumes "n < 2 ^ LENGTH('a::len)"
  shows "makeSigned (of_nat n :: 'a word) (negative s) = (w, True) \<longleftrightarrow>
    fits_signed TYPE('a) (with_sign s n) \<and> sint w = with_sign s n"
proof -
  have k: "(if negative s then - uint (of_nat n :: 'a word) else uint (of_nat n :: 'a word)) = with_sign s n"
    using assms by (simp add: uint_of_nat_small with_sign_def)
  note M = makeSigned_value [where v = "of_nat n :: 'a word" and negate = "negative s", unfolded k]
  show ?thesis
    using M by (cases "makeSigned (of_nat n :: 'a word) (negative s)") (auto intro: sint_eqI)
qed

lemma convertToNum_iff:
  assumes "5 \<le> LENGTH('a::len)"
  shows "convertToNum s base = (w :: 'a word, True) \<longleftrightarrow>
    (\<exists>n. numeral_value base (unsigned_part s) = Some n
       \<and> fits_signed TYPE('a) (with_sign s n) \<and> sint w = with_sign s n)"
proof -
  obtain ret e where ret: "parseInteger (unsigned_part s) base = (ret :: 'a word \<times> bool, e)"
    by fastforce
  have c: "convertToNum s base = (if snd ret then makeSigned (fst ret) (negative s) else (fst ret, False))"
    using ret by (simp add: convertToNum_def parseSigned_def unsigned_part_def negative_def)
  show ?thesis
  proof (cases "\<exists>n. numeral_value base (unsigned_part s) = Some n \<and> n < 2 ^ LENGTH('a)")
    case True
    then obtain n where n: "numeral_value base (unsigned_part s) = Some n" "n < 2 ^ LENGTH('a)" by blast
    then have rn: "ret = (of_nat n, True)"
      using parseInteger_value [OF assms, of base "unsigned_part s"] ret by (simp add: parses_as_def)
    with n rn c show ?thesis using makeSigned_iff [OF n(2), of s w] by simp
  next
    case False
    then have "\<not> snd ret"
      using parseInteger_value [OF assms, of base "unsigned_part s"] ret
      by (auto simp: parses_as_def split: option.splits if_splits)
    with c False fits_signed_small show ?thesis by force
  qed
qed

lemma fromIntLiteral_iff:
  assumes "5 \<le> LENGTH('a::len)"
  shows "fromIntLiteral s = (w :: 'a word, True) \<longleftrightarrow>
    (\<exists>n. numeral_value 0 (unsigned_part s) = Some n \<and>
      (if hd (unsigned_part s) \<noteq> CHR ''0''
       then fits_signed TYPE('a) (with_sign s n) \<and> sint w = with_sign s n
       else \<not> negative s \<and> n < 2 ^ LENGTH('a) \<and> uint w = int n))"
proof -
  define t where "t = unsigned_part s"
  obtain ret e where ret: "parseInteger t 0 = (ret :: 'a word \<times> bool, e)" by fastforce
  have c: "fromIntLiteral s =
      (if snd ret \<and> t \<noteq> [] \<and> hd t \<noteq> CHR ''0'' then makeSigned (fst ret) (negative s)
       else if snd ret \<and> \<not> negative s then (fst ret, True) else (fst ret, False))"
    unfolding fromIntLiteral_def convertToNum_unsigned_def Let_def negative_def [symmetric]
      unsigned_part_def [symmetric] t_def [symmetric] ret fst_conv by simp
  have ne: "numeral_value 0 t = Some n \<Longrightarrow> t \<noteq> []" for n
    by (auto simp: numeral_value_def decimal_value_def numeral_of_def)
  have "fromIntLiteral s = (w, True) \<longleftrightarrow>
    (\<exists>n. numeral_value 0 t = Some n \<and>
      (if hd t \<noteq> CHR ''0'' then fits_signed TYPE('a) (with_sign s n) \<and> sint w = with_sign s n
       else \<not> negative s \<and> n < 2 ^ LENGTH('a) \<and> uint w = int n))"
  proof (cases "\<exists>n. numeral_value 0 t = Some n \<and> n < 2 ^ LENGTH('a)")
    case True
    then obtain n where n: "numeral_value 0 t = Some n" "n < 2 ^ LENGTH('a)" by blast
    then have rn: "ret = (of_nat n, True)"
      using parseInteger_value [OF assms, of 0 t] ret by (simp add: parses_as_def)
    have "of_nat n = w \<longleftrightarrow> uint w = int n"
      using n by (metis uint_of_nat_small word_uint_eq_iff)
    then show ?thesis
      using n rn c ne [OF n(1)] makeSigned_iff [OF n(2), of s w] by simp
  next
    case False
    then have "\<not> snd ret"
      using parseInteger_value [OF assms, of 0 t] ret
      by (auto simp: parses_as_def split: option.splits if_splits)
    with c False fits_signed_small show ?thesis by force
  qed
  then show ?thesis by (simp only: t_def)
qed

text \<open>
  [C8] \<open>convertToNum\<close> for \<open>int32_t\<close> and \<open>int64_t\<close> succeeds exactly when the text, after one
  optional minus sign, is a numeral of the given base (base 0 reads the prefix) and its signed
  value fits the type; then the result is that value. In particular no overflow of an
  intermediate product or sum is ever reported as a success.
\<close>

theorem convertToNum_value:
  assumes "LENGTH('a::len) = 32 \<or> LENGTH('a) = 64"
  shows "convertToNum s base = (w :: 'a word, True) \<longleftrightarrow>
    (\<exists>n. numeral_value base (unsigned_part s) = Some n
       \<and> fits_signed TYPE('a) (with_sign s n) \<and> sint w = with_sign s n)"
  using assms by (intro convertToNum_iff) auto

lemma digits_small:
  "radix_digit 16 CHR ''8'' = Some 8" "radix_digit 16 CHR ''0'' = Some 0"
  "decimal_digit CHR ''1'' = Some 1" "decimal_digit CHR ''2'' = Some 2"
  by (simp_all add: radix_digit_def decimal_digit_def)

theorem convertToNum_value_witness:
  "convertToNum ''-0x80000000'' 0 = (0x80000000 :: 32 word, True)"
  by (subst convertToNum_value)
    (simp_all add: numeral_value_def unsigned_part_def negative_def with_sign_def numeral_of_def
      digits_small fits_signed_def)

text \<open>
  \<open>fromIntLiteral\<close> reads the integer literals of the language: a decimal literal must fit
  the signed type with its sign, while a literal that starts with 0 (hexadecimal or octal) may
  use all bits of the unsigned type, is reinterpreted as signed, and admits no minus sign.
\<close>

theorem fromIntLiteral_value:
  assumes "LENGTH('a::len) = 32 \<or> LENGTH('a) = 64"
  shows "fromIntLiteral s = (w :: 'a word, True) \<longleftrightarrow>
    (\<exists>n. numeral_value 0 (unsigned_part s) = Some n \<and>
      (if hd (unsigned_part s) \<noteq> CHR ''0''
       then fits_signed TYPE('a) (with_sign s n) \<and> sint w = with_sign s n
       else \<not> negative s \<and> n < 2 ^ LENGTH('a) \<and> uint w = int n))"
  using assms by (intro fromIntLiteral_iff) auto

theorem fromIntLiteral_value_witness:
  "fromIntLiteral ''0x80000000'' = (0x80000000 :: 32 word, True)"
  by (subst fromIntLiteral_value)
    (simp_all add: numeral_value_def unsigned_part_def negative_def with_sign_def numeral_of_def
      digits_small)

text \<open>
  An out-of-range text yields the wrapped value of the digits read so far, not 0; the callers
  look at the flag alone.
\<close>

lemma convertToNum_overflow_value:
  "convertToNum ''4294967297'' 0 = (1 :: 32 word, False)"
  by (simp add: convertToNum_def parseSigned_def parseInteger_def decimal_digit_def
      mul_overflow_def add_overflow_def Let_def)

end
