(* ===== verification/Wildcard.thy ===== *)
theory Wildcard
  imports Prelude
begin

text \<open>
  Matching of one path component against a wildcard pattern (\<open>WildCardMatcher\<close> in
  \<open>misc/glob.hpp\<close>). The template parameters \<open>Meta\<close> and \<open>Iter\<close> present the pattern as a
  sequence of tokens: a character, the meta token that matches any character, or the one that
  matches any sequence. The matcher's state, its iterator, is the list of tokens that remain;
  each operation returns the new one. A name is null terminated, its end is the empty list.
\<close>

datatype token = Lit char | AnyChar | ZeroOrMore

datatype GlobMatchOption = TILDE | DOTGLOB | IGNORE_SYS_DIR | FASTGLOB

datatype WildMatchResult = FAILED | DOT | DOTDOT | MATCHED

definition isEndOrSep :: "token list \<Rightarrow> bool" where
  "isEndOrSep iter \<longleftrightarrow> iter = [] \<or> hd iter = Lit CHR ''/''"

fun consumeSeps :: "token list \<Rightarrow> nat \<times> token list" where
  "consumeSeps [] = (0, [])"
| "consumeSeps (t # iter) =
     (if t = Lit CHR ''/'' then (let (count, iter') = consumeSeps iter in (count + 1, iter'))
      else (0, t # iter))"

definition consumeDot :: "token list \<Rightarrow> bool \<times> token list" where
  "consumeDot iter =
     (if iter \<noteq> [] \<and> hd iter = Lit CHR ''.'' \<and> isEndOrSep (tl iter) then (True, tl iter)
      else (False, iter))"

definition at_dot :: "token list \<Rightarrow> bool" where
  "at_dot iter \<longleftrightarrow> iter \<noteq> [] \<and> hd iter = Lit CHR ''.''"

definition matchDots :: "string \<Rightarrow> token list \<Rightarrow> nat \<times> token list" where
  "matchDots name old =
     (if name \<noteq> [] \<and> hd name = CHR ''.'' \<and> at_dot old then
        (let name1 = tl name; iter1 = tl old in
         if name1 = [] \<and> isEndOrSep iter1 then (1, iter1)
         else if name1 \<noteq> [] \<and> hd name1 = CHR ''.'' \<and> at_dot iter1 then
           (let name2 = tl name1; iter2 = tl iter1 in
            if name2 = [] \<and> isEndOrSep iter2 then (2, iter2) else (0, old))
         else (0, old))
      else (0, old))"

text \<open>One token against one character: \<open>*name == *iter || Meta::isAny(iter)\<close>.\<close>

definition accepts :: "token \<Rightarrow> char \<Rightarrow> bool" where
  "accepts t c \<longleftrightarrow> t = Lit c \<or> t = AnyChar"

text \<open>The first loop, up to the first \<open>ZeroOrMore\<close>; the boolean is false when it fails.\<close>

fun match_prefix :: "string \<Rightarrow> token list \<Rightarrow> bool \<times> string \<times> token list" where
  "match_prefix [] iter = (True, [], iter)"
| "match_prefix (c # name) iter =
     (if isEndOrSep iter then (False, c # name, iter)
      else if hd iter = ZeroOrMore then (True, c # name, iter)
      else if \<not> accepts (hd iter) c then (False, c # name, iter)
      else match_prefix name (tl iter))"

text \<open>
  The second loop. \<open>oldIter\<close> is the pattern after the last \<open>ZeroOrMore\<close> and \<open>cp\<close> the name from
  which it is tried next. \<open>Inl\<close> is the early return.
\<close>

partial_function (option) match_rest ::
  "string \<Rightarrow> token list \<Rightarrow> string \<Rightarrow> token list \<Rightarrow> (token list + token list) option"
where
  "match_rest name iter cp oldIter =
     (if name = [] then Some (Inr iter)
      else if isEndOrSep iter then match_rest cp oldIter (tl cp) oldIter
      else if accepts (hd iter) (hd name) then match_rest (tl name) (tl iter) cp oldIter
      else if hd iter = ZeroOrMore then
        (if isEndOrSep (tl iter) then Some (Inl (tl iter))
         else match_rest name (tl iter) (tl name) (tl iter))
      else match_rest cp oldIter (tl cp) oldIter)"

fun skip_stars :: "token list \<Rightarrow> token list" where
  "skip_stars (ZeroOrMore # iter) = skip_stars iter"
| "skip_stars iter = iter"

text \<open>The two loops and what follows them: the result and the iterator they leave.\<close>

definition match_loops :: "string \<Rightarrow> token list \<Rightarrow> (WildMatchResult \<times> token list) option" where
  "match_loops name iter =
     (case match_prefix name iter of
        (False, _, iter') \<Rightarrow> Some (FAILED, iter')
      | (True, name', iter') \<Rightarrow>
          (case match_rest name' iter' [] [] of
             None \<Rightarrow> None
           | Some (Inl iter'') \<Rightarrow> Some (MATCHED, iter'')
           | Some (Inr iter'') \<Rightarrow>
               (let end_iter = skip_stars iter'' in
                Some (if isEndOrSep end_iter then MATCHED else FAILED, end_iter))))"

definition wild_match ::
  "GlobMatchOption set \<Rightarrow> string \<Rightarrow> token list \<Rightarrow> (WildMatchResult \<times> token list) option"
where
  "wild_match opt name iter =
     (if name = ''.'' \<or> name = ''..'' then
        (case matchDots name iter of
           (r, iter') \<Rightarrow> Some (if r = 1 then DOT else if r = 2 then DOTDOT else FAILED, iter'))
      else if name \<noteq> [] \<and> hd name = CHR ''.'' \<and> \<not> isEndOrSep iter
          \<and> hd iter \<noteq> Lit CHR ''.'' \<and> DOTGLOB \<notin> opt then Some (FAILED, iter)
      else match_loops name iter)"

section \<open>The reference matcher\<close>

text \<open>
  What a pattern means, by recursion on its tokens. A component's pattern ends at a separator.
\<close>

fun matches :: "token list \<Rightarrow> string \<Rightarrow> bool" where
  "matches [] name \<longleftrightarrow> name = []"
| "matches (ZeroOrMore # pat) [] \<longleftrightarrow> matches pat []"
| "matches (ZeroOrMore # pat) (c # name) \<longleftrightarrow>
     matches pat (c # name) \<or> matches (ZeroOrMore # pat) name"
| "matches (t # pat) [] \<longleftrightarrow> False"
| "matches (t # pat) (c # name) \<longleftrightarrow> accepts t c \<and> matches pat name"

definition component :: "token list \<Rightarrow> token list" where
  "component iter = takeWhile (\<lambda>t. t \<noteq> Lit CHR ''/'') iter"

definition after_component :: "token list \<Rightarrow> token list" where
  "after_component iter = dropWhile (\<lambda>t. t \<noteq> Lit CHR ''/'') iter"

lemma isEndOrSep_component: "isEndOrSep iter \<longleftrightarrow> component iter = []"
  by (cases iter) (auto simp: isEndOrSep_def component_def)

lemma component_Cons: "\<not> isEndOrSep iter \<Longrightarrow> component iter = hd iter # component (tl iter)"
  by (cases iter) (auto simp: isEndOrSep_def component_def)

lemma after_component_tl: "\<not> isEndOrSep iter \<Longrightarrow> after_component (tl iter) = after_component iter"
  by (cases iter) (auto simp: isEndOrSep_def after_component_def)

lemma after_component_end: "isEndOrSep iter \<Longrightarrow> after_component iter = iter"
  by (cases iter) (auto simp: isEndOrSep_def after_component_def)

lemma star_suffix: "matches (ZeroOrMore # pat) name \<longleftrightarrow> (\<exists>k \<le> length name. matches pat (drop k name))"
proof (induction name)
  case (Cons c name)
  have "(\<exists>k \<le> length (c # name). matches pat (drop k (c # name))) \<longleftrightarrow>
      matches pat (c # name) \<or> (\<exists>k \<le> length name. matches pat (drop k name))"
  proof (intro iffI; elim disjE exE conjE)
    fix k assume "k \<le> length (c # name)" "matches pat (drop k (c # name))"
    then show "matches pat (c # name) \<or> (\<exists>k \<le> length name. matches pat (drop k name))"
      by (cases k) auto
  next
    fix k assume "k \<le> length name" "matches pat (drop k name)"
    then show "\<exists>k \<le> length (c # name). matches pat (drop k (c # name))"
      by (intro exI [of _ "Suc k"]) simp
  qed auto
  with Cons show ?case by simp
qed simp

text \<open>A pattern without \<open>ZeroOrMore\<close> in front consumes exactly its length.\<close>

lemma matches_token:
  "t \<noteq> ZeroOrMore \<Longrightarrow> matches (t # pat) name \<longleftrightarrow> name \<noteq> [] \<and> accepts t (hd name) \<and> matches pat (tl name)"
  by (cases t; cases name) auto

lemma matches_append:
  "ZeroOrMore \<notin> set ts \<Longrightarrow> matches (ts @ pat) name \<Longrightarrow>
   length ts \<le> length name \<and> matches pat (drop (length ts) name)"
proof (induction ts arbitrary: name)
  case (Cons t ts)
  then have t: "name \<noteq> [] \<and> matches (ts @ pat) (tl name)" using matches_token [of t "ts @ pat" name] by auto
  with Cons.IH [of "tl name"] Cons.prems show ?case by (cases name) auto
qed simp

text \<open>
  The state of the second loop after a \<open>ZeroOrMore\<close>: the pattern after it has been compared
  over the tokens \<open>ts\<close> with the name from \<open>start\<close>. A later occurrence of
  the whole pattern then also puts a later occurrence of what follows another \<open>ZeroOrMore\<close>.
\<close>

lemma later_star:
  assumes "ZeroOrMore \<notin> set ts" "matches (ZeroOrMore # ts @ ZeroOrMore # pat) (drop j start)"
  shows "matches (ZeroOrMore # pat) (drop (length ts) start)"
proof -
  obtain k where k: "matches (ts @ ZeroOrMore # pat) (drop k (drop j start))"
    using assms(2) unfolding star_suffix by blast
  then obtain l where l: "matches pat (drop l (drop (length ts) (drop k (drop j start))))"
    using matches_append [OF assms(1) k] star_suffix by blast
  define x where "x = drop (length ts) start"
  have "drop l (drop (length ts) (drop k (drop j start))) = drop (l + k + j) x"
    by (simp add: x_def algebra_simps)
  with l have "matches pat (drop (l + k + j) x)" by simp
  then have "matches pat (drop (min (l + k + j) (length x)) x)"
    by (cases "l + k + j \<le> length x") (simp_all add: min_def)
  then have "matches (ZeroOrMore # pat) x"
    unfolding star_suffix by (intro exI [of _ "min (l + k + j) (length x)"]) simp
  then show ?thesis by (simp add: x_def)
qed

abbreviation alternatives :: "token list \<Rightarrow> string \<Rightarrow> token list \<Rightarrow> string \<Rightarrow> bool" where
  "alternatives iter name oldIter cp \<equiv>
     matches (component iter) name \<or> matches (ZeroOrMore # component oldIter) cp"

definition rest_result ::
  "token list \<Rightarrow> bool \<Rightarrow> token list + token list \<Rightarrow> bool" where
  "rest_result iter possible r \<longleftrightarrow>
     (case r of
        Inl it \<Rightarrow> isEndOrSep it \<and> it = after_component iter \<and> possible
      | Inr it \<Rightarrow> (matches (component it) [] \<longleftrightarrow> possible) \<and> after_component it = after_component iter)"

lemma rest_result_cong:
  "after_component iter = after_component iter' \<Longrightarrow> possible = possible' \<Longrightarrow>
   rest_result iter possible r = rest_result iter' possible' r"
  by (simp add: rest_result_def split: sum.splits)

lemma star_tl: "matches (ZeroOrMore # pat) name \<longleftrightarrow> matches pat name \<or> matches (ZeroOrMore # pat) (tl name)"
  by (cases name) auto

lemma component_append: "Lit CHR ''/'' \<notin> set ts \<Longrightarrow> component (ts @ iter) = ts @ component iter"
  unfolding component_def by (rule takeWhile_append2) auto

lemma after_component_append: "Lit CHR ''/'' \<notin> set ts \<Longrightarrow> after_component (ts @ iter) = after_component iter"
  unfolding after_component_def by (rule dropWhile_append2) auto

lemma lex3_wf: "wf (less_than <*lex*> less_than <*lex*> less_than)"
  by (intro wf_lex_prod wf_less_than)

lemma match_rest_correct:
  assumes "oldIter = ts @ iter" "ZeroOrMore \<notin> set ts" "Lit CHR ''/'' \<notin> set ts"
    "name = drop (length ts) start" "length ts \<le> length start" "cp = tl start"
  shows "\<exists>r. match_rest name iter cp oldIter = Some r
    \<and> rest_result iter (alternatives iter name oldIter cp) r"
  using assms
proof (induction "(length oldIter, length start, length iter)" arbitrary: oldIter start iter ts name cp
    rule: wf_induct_rule [OF lex3_wf])
  case 1
  note IH = 1(1)
  note comp = component_append [OF 1(4), of iter] after_component_append [OF 1(4), of iter]
  note step = match_rest.simps [of name iter cp oldIter]
  show ?case
  proof (cases "name = []")
    case True
    then have l: "length ts = length start" using 1(2-7) by simp
    have "matches (ZeroOrMore # component oldIter) cp \<Longrightarrow> matches (component iter) []"
    proof -
      assume "matches (ZeroOrMore # component oldIter) cp"
      then obtain k where k: "matches (ts @ component iter) (drop k cp)"
        unfolding star_suffix comp(1) [folded 1(2)] by blast
      from matches_append [OF 1(3) k] l 1(7) have "start = []" by (cases start) auto
      with l matches_append [OF 1(3) k] 1(7) show "matches (component iter) []" by simp
    qed
    then show ?thesis using step True by (auto simp: rest_result_def)
  next
    case name: False
    then have start: "start \<noteq> []" using 1(2-7) by auto
    have backtrack: "\<exists>r. match_rest name iter cp oldIter = Some r
        \<and> rest_result iter (alternatives iter name oldIter cp) r"
      if "match_rest name iter cp oldIter = match_rest cp oldIter (tl cp) oldIter"
        "\<not> matches (component iter) name"
    proof -
      have "\<exists>r. match_rest cp oldIter (tl cp) oldIter = Some r
          \<and> rest_result oldIter (alternatives oldIter cp oldIter (tl cp)) r"
        using start 1(7) by (intro IH [where start = "tl start" and ts = "[]"]) auto
      moreover have "rest_result oldIter (alternatives oldIter cp oldIter (tl cp)) r =
          rest_result iter (alternatives iter name oldIter cp) r" for r
        using that comp(2) 1(2) star_tl [of "component oldIter" cp] by (intro rest_result_cong) auto
      ultimately show ?thesis using that by simp
    qed
    consider (stop) "isEndOrSep iter" | (accept) "\<not> isEndOrSep iter" "accepts (hd iter) (hd name)"
      | (last) "\<not> isEndOrSep iter" "hd iter = ZeroOrMore" "isEndOrSep (tl iter)"
      | (star) "\<not> isEndOrSep iter" "hd iter = ZeroOrMore" "\<not> isEndOrSep (tl iter)"
      | (clash) "\<not> isEndOrSep iter" "\<not> accepts (hd iter) (hd name)" "hd iter \<noteq> ZeroOrMore"
      by blast
    then show ?thesis
    proof cases
      case stop
      then show ?thesis using step name by (intro backtrack) (simp_all add: isEndOrSep_component)
    next
      case clash
      then show ?thesis using step name
        by (intro backtrack) (simp_all add: component_Cons matches_token)
    next
      case accept
      then have hd: "hd iter \<noteq> ZeroOrMore" "hd iter \<noteq> Lit CHR ''/''" "iter \<noteq> []"
        by (auto simp: accepts_def isEndOrSep_def)
      have "\<exists>r. match_rest (tl name) (tl iter) cp oldIter = Some r
          \<and> rest_result (tl iter) (alternatives (tl iter) (tl name) oldIter cp) r"
        using hd name 1(2-7)
        by (intro IH [where start = start and ts = "ts @ [hd iter]"])
          (auto simp: drop_Suc tl_drop Suc_le_eq)
      moreover have "rest_result (tl iter) (alternatives (tl iter) (tl name) oldIter cp) r =
          rest_result iter (alternatives iter name oldIter cp) r" for r
        using name accept hd
        by (intro rest_result_cong) (auto simp: component_Cons matches_token after_component_tl)
      ultimately show ?thesis using step name accept by simp
    next
      case last
      then have "component iter = [ZeroOrMore]"
        by (simp add: component_Cons isEndOrSep_component)
      then have "matches (component iter) name" by (auto simp: star_suffix)
      then show ?thesis using last step name
        by (auto simp: rest_result_def accepts_def after_component_tl [symmetric] after_component_end)
    next
      case star
      have iter: "iter \<noteq> []" "component iter = ZeroOrMore # component (tl iter)"
        using star by (auto simp: isEndOrSep_def component_Cons)
      have "\<exists>r. match_rest name (tl iter) (tl name) (tl iter) = Some r
          \<and> rest_result (tl iter) (alternatives (tl iter) name (tl iter) (tl name)) r"
        using iter(1) 1(2) by (intro IH [where start = name and ts = "[]"]) (cases iter, auto)
      moreover have "matches (ZeroOrMore # component oldIter) cp \<Longrightarrow> matches (component iter) name"
        using later_star [OF 1(3), of "component (tl iter)" 1 start] 1(5,7) comp(1) 1(2) iter(2)
        by (simp add: drop_Suc)
      then have "rest_result (tl iter) (alternatives (tl iter) name (tl iter) (tl name)) r =
          rest_result iter (alternatives iter name oldIter cp) r" for r
        using star iter star_tl [of "component (tl iter)" name]
        by (intro rest_result_cong) (auto simp: after_component_tl)
      ultimately show ?thesis using step name star by (simp add: accepts_def)
    qed
  qed
qed

lemma match_prefix_correct:
  "match_prefix name iter = (b, name', iter') \<Longrightarrow>
   (if b then (matches (component iter) name \<longleftrightarrow> matches (component iter') name')
      \<and> after_component iter' = after_component iter
      \<and> (name' = [] \<or> \<not> isEndOrSep iter' \<and> hd iter' = ZeroOrMore)
    else \<not> matches (component iter) name)"
proof (induction name iter rule: match_prefix.induct)
  case (2 c name iter)
  consider "isEndOrSep iter" | "\<not> isEndOrSep iter" "hd iter = ZeroOrMore"
    | "\<not> isEndOrSep iter" "hd iter \<noteq> ZeroOrMore" "\<not> accepts (hd iter) c"
    | (go) "\<not> isEndOrSep iter" "hd iter \<noteq> ZeroOrMore" "accepts (hd iter) c" by blast
  then show ?case
  proof cases
    case go
    then show ?thesis using 2
      by (simp add: component_Cons [of iter] matches_token after_component_tl)
  next
    case 1
    then show ?thesis using 2 by (auto simp: isEndOrSep_component)
  next
    case 3
    then have "\<not> matches (component iter) (c # name)" by (simp add: component_Cons matches_token)
    with 3 2 show ?thesis by auto
  qed (use 2 in auto)
qed auto

lemma skip_stars_component:
  "after_component (skip_stars iter) = after_component iter
   \<and> (matches (component iter) [] \<longleftrightarrow> isEndOrSep (skip_stars iter))"
proof (induction iter rule: skip_stars.induct)
  case (1 iter)
  then show ?case by (simp add: after_component_def component_def)
qed (auto simp: component_def isEndOrSep_def)

lemma match_rest_start:
  assumes "name = [] \<or> \<not> isEndOrSep iter \<and> hd iter = ZeroOrMore"
  shows "\<exists>r. match_rest name iter [] [] = Some r
    \<and> rest_result iter (matches (component iter) name) r"
proof -
  note step = match_rest.simps [of name iter "[]" "[]"]
  consider "name = []" | "name \<noteq> []" "isEndOrSep (tl iter)" | "name \<noteq> []" "\<not> isEndOrSep (tl iter)"
    by blast
  then show ?thesis
  proof cases
    case 1
    then show ?thesis using step by (simp add: rest_result_def)
  next
    case 2
    with assms have "component iter = [ZeroOrMore]"
      by (simp add: component_Cons isEndOrSep_component)
    then have "matches (component iter) name" by (auto simp: star_suffix)
    with 2 assms step show ?thesis
      by (auto simp: rest_result_def accepts_def after_component_tl [symmetric] after_component_end)
  next
    case 3
    then have "\<exists>r. match_rest name (tl iter) (tl name) (tl iter) = Some r
        \<and> rest_result (tl iter) (alternatives (tl iter) name (tl iter) (tl name)) r"
      by (intro match_rest_correct [where start = name and ts = "[]"]) auto
    moreover have "rest_result (tl iter) (alternatives (tl iter) name (tl iter) (tl name)) r =
        rest_result iter (matches (component iter) name) r" for r
      using 3 assms star_tl [of "component (tl iter)" name]
      by (intro rest_result_cong) (auto simp: after_component_tl component_Cons)
    ultimately show ?thesis using 3 assms step by (simp add: accepts_def)
  qed
qed

section \<open>The matcher implements the reference\<close>

text \<open>
  The contract: the special names match only themselves, a leading dot must be matched by a dot
  of the pattern unless \<open>DOTGLOB\<close> is set, and otherwise the component's meaning decides.
\<close>

definition wild_spec :: "GlobMatchOption set \<Rightarrow> string \<Rightarrow> token list \<Rightarrow> WildMatchResult" where
  "wild_spec opt name pat =
     (if name = ''.'' then (if pat = [Lit CHR ''.''] then DOT else FAILED)
      else if name = ''..'' then
        (if pat = [Lit CHR ''.'', Lit CHR ''.''] then DOTDOT else FAILED)
      else if name \<noteq> [] \<and> hd name = CHR ''.'' \<and> pat \<noteq> [] \<and> hd pat \<noteq> Lit CHR ''.'' \<and> DOTGLOB \<notin> opt
        then FAILED
      else if matches pat name then MATCHED else FAILED)"

lemma component_single:
  "component iter = t # pat \<longleftrightarrow> iter \<noteq> [] \<and> hd iter = t \<and> t \<noteq> Lit CHR ''/'' \<and> component (tl iter) = pat"
  by (cases iter) (auto simp: component_def)

lemma at_dot_component:
  "component iter = Lit CHR ''.'' # pat \<longleftrightarrow> at_dot iter \<and> component (tl iter) = pat"
  by (auto simp: component_single at_dot_def)

lemma at_dot_after: "at_dot iter \<Longrightarrow> after_component iter = after_component (tl iter)"
  by (cases iter) (auto simp: at_dot_def after_component_def)

lemma matchDots_spec:
  "matchDots ''.'' iter =
     (if component iter = [Lit CHR ''.''] then (1, after_component iter) else (0, iter))"
  "matchDots ''..'' iter =
     (if component iter = [Lit CHR ''.'', Lit CHR ''.''] then (2, after_component iter) else (0, iter))"
proof -
  show "matchDots ''.'' iter =
      (if component iter = [Lit CHR ''.''] then (1, after_component iter) else (0, iter))"
    using after_component_end [of "tl iter"] at_dot_after [of iter]
    by (simp add: matchDots_def at_dot_component isEndOrSep_component [symmetric])
  show "matchDots ''..'' iter =
      (if component iter = [Lit CHR ''.'', Lit CHR ''.''] then (2, after_component iter) else (0, iter))"
    using after_component_end [of "tl (tl iter)"] at_dot_after [of iter] at_dot_after [of "tl iter"]
    by (simp add: matchDots_def at_dot_component Let_def isEndOrSep_component [symmetric])
qed

lemma match_loops_correct:
  "\<exists>iter'. match_loops name iter = Some (if matches (component iter) name then MATCHED else FAILED, iter')
     \<and> (iter' = after_component iter \<or> \<not> matches (component iter) name)"
proof -
  obtain b name' iter' where p: "match_prefix name iter = (b, name', iter')" by (metis prod_cases3)
  note P = match_prefix_correct [OF p]
  show ?thesis
  proof (cases b)
    case False
    then show ?thesis using P p by (auto simp: match_loops_def)
  next
    case True
    then obtain r where r: "match_rest name' iter' [] [] = Some r"
      "rest_result iter' (matches (component iter') name') r"
      using match_rest_start [of name' iter'] P by auto
    show ?thesis
    proof (cases r)
      case (Inl it)
      then show ?thesis using True P p r by (auto simp: match_loops_def rest_result_def)
    next
      case (Inr it)
      then show ?thesis using True P p r skip_stars_component [of it]
          after_component_end [of "skip_stars it"]
        by (auto simp: match_loops_def rest_result_def Let_def)
    qed
  qed
qed

lemma wild_match_spec:
  "\<exists>iter'. wild_match opt name iter = Some (wild_spec opt name (component iter), iter')
     \<and> (iter' = after_component iter \<or> wild_spec opt name (component iter) = FAILED)"
proof -
  consider (dots) "name = ''.'' \<or> name = ''..''"
    | (hidden) "name \<noteq> ''.''" "name \<noteq> ''..''" "name \<noteq> []" "hd name = CHR ''.''"
        "\<not> isEndOrSep iter" "hd iter \<noteq> Lit CHR ''.''" "DOTGLOB \<notin> opt"
    | (other) "name \<noteq> ''.''" "name \<noteq> ''..''"
        "\<not> (name \<noteq> [] \<and> hd name = CHR ''.'' \<and> \<not> isEndOrSep iter
            \<and> hd iter \<noteq> Lit CHR ''.'' \<and> DOTGLOB \<notin> opt)"
    by blast
  then show ?thesis
  proof cases
    case dots
    then show ?thesis by (auto simp: wild_match_def wild_spec_def matchDots_spec)
  next
    case hidden
    then have "wild_spec opt name (component iter) = FAILED"
      by (simp add: wild_spec_def isEndOrSep_component component_Cons)
    with hidden show ?thesis by (auto simp: wild_match_def)
  next
    case other
    then have spec: "wild_spec opt name (component iter) =
        (if matches (component iter) name then MATCHED else FAILED)"
      by (auto simp: wild_spec_def isEndOrSep_component component_Cons)
    have "wild_match opt name iter = match_loops name iter"
      unfolding wild_match_def using other by (simp only: if_False simp_thms)
    with spec match_loops_correct [of name iter] show ?thesis by auto
  qed
qed

text \<open>
  [C9] The backtracking matcher always returns (its loops end), its result is the one of the
  recursive reference matcher on the pattern's first component, and after a success its
  iterator stands at the end of that component.
\<close>

theorem wild_match_reference:
  "\<exists>iter'. wild_match opt name iter = Some (wild_spec opt name (component iter), iter')
     \<and> (iter' = after_component iter \<or> wild_spec opt name (component iter) = FAILED)"
  by (rule wild_match_spec)

lemma wild_match_example:
  "wild_match {} ''abcbcd'' [Lit CHR ''a'', ZeroOrMore, Lit CHR ''b'', AnyChar, Lit CHR ''d'', Lit CHR ''/''] =
     Some (MATCHED, [Lit CHR ''/''])"
  by (simp add: wild_match_def match_loops_def match_rest.simps isEndOrSep_def accepts_def)

end
