(* ===== verification/Glob.thy ===== *)
theory Glob
  imports Wildcard
begin

text \<open>
  Path name expansion (\<open>GlobMatcher\<close> in \<open>misc/glob.hpp\<close>). The directory tree is a parameter:
  \<open>opendir\<close>/\<open>readdir\<close> as the list of entries of a directory, if it can be opened, and the two
  tests on paths. The appender is a parameter too, a function on its own state that returns
  false to stop the search. A search returns its code, 0, -1 (limit) or -2 (restart from the
  parent directory with a shorter pattern), the iterator, the appender's state and the number
  of matches.
\<close>

record Filesystem =
  fs_opendir :: "string \<Rightarrow> string list option"
  fs_isDirectory :: "string \<Rightarrow> bool"
  fs_isSameFile :: "string \<Rightarrow> string \<Rightarrow> bool"

text \<open>
  \<open>std::equal\<close> with three iterators compares only as many characters as the last component
  has, so that the branch for \<open>..\<close> is also taken for \<open>.\<close> and for a trailing separator.
\<close>

definition popDir :: "string \<Rightarrow> string" where
  "popDir path =
     (if path = ''.'' then ''..''
      else if path = ''..'' then path @ ''/..''
      else if CHR ''/'' \<notin> set path then ''.''
      else let index = length path - 1 - length (takeWhile (\<lambda>c. c \<noteq> CHR ''/'') (rev path)) in
        if index = 0 then ''/''
        else if take (length path - (index + 1)) ''..'' = drop (index + 1) path then path @ ''/../''
        else take index path)"

text \<open>The first loop of \<open>resolveBaseDir\<close>; \<open>latestSep\<close> is the iterator at the last separator.\<close>

fun resolve_loop :: "token list \<Rightarrow> string \<Rightarrow> token list option \<Rightarrow> string \<times> token list option" where
  "resolve_loop [] baseDir latestSep = (baseDir, latestSep)"
| "resolve_loop (ZeroOrMore # iter) baseDir latestSep = (baseDir, latestSep)"
| "resolve_loop (AnyChar # iter) baseDir latestSep = (baseDir, latestSep)"
| "resolve_loop (Lit c # iter) baseDir latestSep =
     (if c = CHR ''/'' then
        if baseDir \<noteq> [] \<and> last baseDir = CHR ''/'' then
          resolve_loop iter baseDir (Some (Lit c # iter))
        else resolve_loop iter (baseDir @ [c]) (Some (Lit c # iter))
      else resolve_loop iter (baseDir @ [c]) latestSep)"

definition pop_to_sep :: "string \<Rightarrow> string" where
  "pop_to_sep baseDir = rev (dropWhile (\<lambda>c. c \<noteq> CHR ''/'') (rev baseDir))"

definition resolveBaseDir ::
  "(string \<Rightarrow> string) \<Rightarrow> GlobMatchOption set \<Rightarrow> string option \<Rightarrow> token list \<Rightarrow> string \<times> token list"
where
  "resolveBaseDir preExpand opt base old =
     (let (baseDir, iter) =
        (case resolve_loop old [] None of
           (_, None) \<Rightarrow> (''.'', old)
         | (baseDir, Some latestSep) \<Rightarrow>
             (let baseDir = pop_to_sep baseDir in
              (if TILDE \<in> opt then preExpand baseDir else baseDir, tl latestSep)))
      in case base of
           Some b \<Rightarrow>
             if b \<noteq> [] \<and> hd b = CHR ''/'' \<and> \<not> (baseDir \<noteq> [] \<and> hd baseDir = CHR ''/'')
             then (b @ ''/'' @ baseDir, iter) else (baseDir, iter)
         | None \<Rightarrow> (baseDir, iter))"

text \<open>\<open>while (true)\<close> over the separators and \<open>.\<close> components behind a directory's name.\<close>

lemma consumeSeps_length: "length (snd (consumeSeps iter)) \<le> length iter"
  by (induction iter) (auto split: prod.splits)

lemma consumeDot_length: "fst (consumeDot iter) \<Longrightarrow> length (snd (consumeDot iter)) < length iter"
  by (auto simp: consumeDot_def split: if_splits)

function consume_dots :: "string \<Rightarrow> token list \<Rightarrow> string \<times> token list" where
  "consume_dots name iter =
     (let (count, iter1) = consumeSeps iter;
          name1 = (if count > 0 then name @ ''/'' else name);
          (dot, iter2) = consumeDot iter1
      in if dot then consume_dots (name1 @ ''.'') iter2 else (name1, iter2))"
  by pat_completeness auto
termination
proof (relation "measure (length \<circ> snd)", goal_cases)
  case (2 name iter x count iter1 name1 y dot iter2)
  then show ?case
    using consumeSeps_length [of iter] consumeDot_length [of iter1]
    by (cases "consumeSeps iter"; cases "consumeDot iter1") auto
qed simp

declare consume_dots.simps [simp del]

definition ignored :: "Filesystem \<Rightarrow> GlobMatchOption set \<Rightarrow> string \<Rightarrow> bool" where
  "ignored fs opt baseDir \<longleftrightarrow>
     IGNORE_SYS_DIR \<in> opt \<and> (\<exists>i \<in> set [''/dev'', ''/proc'', ''/sys'']. fs_isSameFile fs i baseDir)"

text \<open>The entries that the search of a directory reads, none when it is skipped.\<close>

definition dir_entries :: "Filesystem \<Rightarrow> GlobMatchOption set \<Rightarrow> string \<Rightarrow> string list" where
  "dir_entries fs opt baseDir =
     (if ignored fs opt baseDir then []
      else case fs_opendir fs baseDir of None \<Rightarrow> [] | Some entries \<Rightarrow> entries)"

definition entry_name :: "string \<Rightarrow> string \<Rightarrow> string" where
  "entry_name baseDir d_name =
     (let name = (if baseDir \<noteq> ''.'' then baseDir else []) in
      (if name \<noteq> [] \<and> last name \<noteq> CHR ''/'' then name @ ''/'' else name) @ d_name)"

definition enter_directory :: "Filesystem \<Rightarrow> string \<Rightarrow> token list \<Rightarrow> string \<times> token list" where
  "enter_directory fs name iter =
     (if fs_isDirectory fs name then consume_dots name iter else (name, iter))"

text \<open>
  The end of the \<open>readdir\<close> loop's body: append a full match, and stop after \<open>.\<close> or \<open>..\<close>.
  \<open>Inl\<close> leaves the loop, \<open>Inr\<close> goes on with the next entry.
\<close>

type_synonym 's search = "int \<times> token list \<times> 's \<times> nat"

definition finish_entry ::
  "('s \<Rightarrow> string \<Rightarrow> bool \<times> 's) \<Rightarrow> token list \<Rightarrow> WildMatchResult \<Rightarrow> string \<Rightarrow> token list \<Rightarrow> 's \<Rightarrow> nat \<Rightarrow>
   's search + 's \<times> nat"
where
  "finish_entry appender iter ret name it st count =
     (let (ok, st', count') =
        (if it = [] then (let (ok, st') = appender st name in (ok, st', if ok then count + 1 else count))
         else (True, st, count))
      in if \<not> ok then Inl (-1, iter, st', count')
         else if ret = DOT \<or> ret = DOTDOT then Inl (0, iter, st', count')
         else Inr (st', count'))"

text \<open>
  \<open>match\<close>: the \<open>readdir\<close> loop over the entries that are left; a search of a sub-directory is
  the same loop over all entries of that directory.
\<close>

partial_function (option) match_entries ::
  "Filesystem \<Rightarrow> ('s \<Rightarrow> string \<Rightarrow> bool \<times> 's) \<Rightarrow> GlobMatchOption set \<Rightarrow> string \<Rightarrow>
   string list \<Rightarrow> token list \<Rightarrow> 's \<Rightarrow> nat \<Rightarrow> 's search option"
where
  "match_entries fs appender opt baseDir entries iter st count =
     (case entries of
        [] \<Rightarrow> Some (0, iter, st, count)
      | d_name # entries' \<Rightarrow>
          (case wild_match opt d_name iter of
             None \<Rightarrow> None
           | Some (ret, it) \<Rightarrow>
          (if ret = FAILED then match_entries fs appender opt baseDir entries' iter st count
           else
             (let path = entry_name baseDir d_name;
                  name = fst (enter_directory fs path it);
                  it' = snd (enter_directory fs path it)
              in if fs_isDirectory fs path \<and> it' \<noteq> [] then
                   (if ret = DOTDOT \<and> FASTGLOB \<in> opt then Some (-2, it', st, count)
                    else
                     Option.bind (match_entries fs appender opt name (dir_entries fs opt name) it' st count)
                       (\<lambda>(s, next, st', count').
                           if s = -1 then Some (-1, iter, st', count')
                           else if s = -2 then
                             match_entries fs appender opt baseDir (dir_entries fs opt baseDir) next st' count'
                           else (case finish_entry appender iter ret name it' st' count' of
                               Inl r \<Rightarrow> Some r
                             | Inr (st'', count'') \<Rightarrow>
                                 match_entries fs appender opt baseDir entries' iter st'' count'')))
                 else (case finish_entry appender iter ret name it' st count of
                     Inl r \<Rightarrow> Some r
                   | Inr (st'', count'') \<Rightarrow>
                       match_entries fs appender opt baseDir entries' iter st'' count'')))))"

datatype GlobMatchResult = MATCH | NOMATCH | LIMIT

partial_function (option) invoke_loop ::
  "Filesystem \<Rightarrow> ('s \<Rightarrow> string \<Rightarrow> bool \<times> 's) \<Rightarrow> GlobMatchOption set \<Rightarrow> string \<Rightarrow> token list \<Rightarrow> 's \<Rightarrow>
   nat \<Rightarrow> (int \<times> 's \<times> nat) option"
where
  "invoke_loop fs appender opt baseDir iter st count =
     Option.bind (match_entries fs appender opt baseDir (dir_entries fs opt baseDir) iter st count)
       (\<lambda>(s, iter', st', count').
          if s = -2 then invoke_loop fs appender opt (popDir baseDir) iter' st' count'
          else Some (s, st', count'))"

definition invoke ::
  "Filesystem \<Rightarrow> ('s \<Rightarrow> string \<Rightarrow> bool \<times> 's) \<Rightarrow> GlobMatchOption set \<Rightarrow> string \<Rightarrow> token list \<Rightarrow> 's \<Rightarrow>
   (GlobMatchResult \<times> 's \<times> nat) option"
where
  "invoke fs appender opt baseDir iter st =
     (case invoke_loop fs appender opt baseDir iter st 0 of
        None \<Rightarrow> None
      | Some (s, st', count) \<Rightarrow>
          Some (if s = -1 then LIMIT else if count > 0 then MATCH else NOMATCH, st', count))"

text \<open>\<open>operator()\<close> of \<open>GlobMatcher\<close>.\<close>

definition glob_search ::
  "Filesystem \<Rightarrow> (string \<Rightarrow> string) \<Rightarrow> ('s \<Rightarrow> string \<Rightarrow> bool \<times> 's) \<Rightarrow> GlobMatchOption set \<Rightarrow>
   string option \<Rightarrow> token list \<Rightarrow> 's \<Rightarrow> (GlobMatchResult \<times> 's \<times> nat) option"
where
  "glob_search fs preExpand appender opt base pattern st =
     (let (baseDir, iter) = resolveBaseDir preExpand opt base pattern in
      invoke fs appender opt baseDir iter st)"

section \<open>Every search ends\<close>

lemma consume_dots_unfold:
  assumes "consumeSeps iter = (count, iter1)"
  shows "consume_dots name iter =
    (let name1 = (if count > 0 then name @ ''/'' else name) in
     if fst (consumeDot iter1) then consume_dots (name1 @ ''.'') (snd (consumeDot iter1))
     else (name1, iter1))"
  using assms by (subst consume_dots.simps) (auto simp: Let_def consumeDot_def)

lemma consume_dots_length: "length (snd (consume_dots name iter)) \<le> length iter"
proof (induction iter arbitrary: name rule: measure_induct_rule [where f = length])
  case (less iter)
  obtain count iter1 where c: "consumeSeps iter = (count, iter1)" by fastforce
  have 1: "length iter1 \<le> length iter" using consumeSeps_length [of iter] c by simp
  show ?case
  proof (cases "fst (consumeDot iter1)")
    case True
    define iter2 where "iter2 = snd (consumeDot iter1)"
    have 2: "length iter2 < length iter1" using consumeDot_length [OF True] by (simp add: iter2_def)
    have "length (snd (consume_dots n iter2)) \<le> length iter2" for n
      using 1 2 by (intro less) simp
    with 1 2 show ?thesis
      by (simp add: consume_dots_unfold [OF c] True Let_def flip: iter2_def) (meson le_trans less_imp_le)
  qed (simp add: consume_dots_unfold [OF c] 1 Let_def)
qed

lemma consume_dots_progress:
  assumes "isEndOrSep iter" "iter \<noteq> []"
  shows "length (snd (consume_dots name iter)) < length iter"
proof -
  obtain rest where iter: "iter = Lit CHR ''/'' # rest"
    using assms by (cases iter) (auto simp: isEndOrSep_def)
  obtain count iter1 where c: "consumeSeps iter = (count, iter1)" by fastforce
  have 1: "length iter1 < length iter"
    using c consumeSeps_length [of rest] by (auto simp: iter split: prod.splits)
  define iter2 where "iter2 = snd (consumeDot iter1)"
  have "length (snd (consume_dots n iter2)) < length iter" if "fst (consumeDot iter1)" for n
    using consume_dots_length [of n iter2] consumeDot_length [OF that] 1 by (simp add: iter2_def)
  with 1 show ?thesis by (simp add: consume_dots_unfold [OF c] Let_def flip: iter2_def)
qed

lemma after_component_length: "length (after_component iter) \<le> length iter"
  by (simp add: after_component_def length_dropWhile_le)

lemma after_component_sep: "isEndOrSep (after_component iter)"
  by (induction iter) (auto simp: after_component_def isEndOrSep_def)

text \<open>What a directory leaves of the pattern is shorter.\<close>

lemma enter_directory_shorter:
  assumes "fs_isDirectory fs path" "snd (enter_directory fs path (after_component iter)) \<noteq> []"
  shows "length (snd (enter_directory fs path (after_component iter))) < length iter"
proof (cases "after_component iter = []")
  case True
  then show ?thesis using assms consume_dots_length [of path "[]"] by (simp add: enter_directory_def)
next
  case False
  then show ?thesis
    using assms consume_dots_progress [OF after_component_sep False, of path] after_component_length [of iter]
    by (simp add: enter_directory_def)
qed

lemma wild_match_cases:
  obtains (failed) it where "wild_match opt d iter = Some (FAILED, it)"
      "wild_spec opt d (component iter) = FAILED"
  | (found) ret where "wild_match opt d iter = Some (ret, after_component iter)" "ret \<noteq> FAILED"
      "wild_spec opt d (component iter) = ret"
  using wild_match_spec [of opt d iter] by metis

definition search_result :: "token list \<Rightarrow> (int \<times> token list \<times> 's \<times> nat) option \<Rightarrow> bool" where
  "search_result iter r \<longleftrightarrow>
     (\<exists>s it st n. r = Some (s, it, st, n) \<and> length it \<le> length iter
        \<and> (s = -2 \<longrightarrow> length it < length iter) \<and> s \<in> {0, -1, -2})"

lemma search_result_mono:
  "search_result it r \<Longrightarrow> length it \<le> length iter \<Longrightarrow> search_result iter r"
  by (auto simp: search_result_def)

lemma lex2_wf: "wf (less_than <*lex*> less_than)"
  by (intro wf_lex_prod wf_less_than)

lemma search_resultI:
  "s \<in> {0, -1} \<Longrightarrow> search_result iter (Some (s, iter, st, n))"
  by (auto simp: search_result_def)

lemma finish_entry_cases:
  obtains (stop) s st' n where "finish_entry appender iter ret name it st count = Inl (s, iter, st', n)"
      "s \<in> {0, -1}"
  | (go_on) st' n where "finish_entry appender iter ret name it st count = Inr (st', n)"
proof -
  obtain ok st1 where "appender st name = (ok, st1)" by fastforce
  then have "(\<exists>s st' n. finish_entry appender iter ret name it st count = Inl (s, iter, st', n) \<and> s \<in> {0, -1})
      \<or> (\<exists>st' n. finish_entry appender iter ret name it st count = Inr (st', n))"
    by (simp add: finish_entry_def)
  then show thesis using stop go_on by blast
qed

lemma match_entries_Nil [simp]:
  "match_entries fs appender opt baseDir [] iter st count = Some (0, iter, st, count)"
  by (subst match_entries.simps) simp

lemma match_entries_failed [simp]:
  "wild_spec opt d (component iter) = FAILED \<Longrightarrow>
   match_entries fs appender opt baseDir (d # entries) iter st count =
   match_entries fs appender opt baseDir entries iter st count"
  by (rule wild_match_cases [of opt d iter]) (subst match_entries.simps; simp)+

text \<open>A matching entry that is no directory, or that uses up the pattern, and one to descend into.\<close>

definition next_entry ::
  "Filesystem \<Rightarrow> ('s \<Rightarrow> string \<Rightarrow> bool \<times> 's) \<Rightarrow> GlobMatchOption set \<Rightarrow> string \<Rightarrow> string list \<Rightarrow>
   token list \<Rightarrow> 's search + 's \<times> nat \<Rightarrow> 's search option"
where
  "next_entry fs appender opt baseDir entries iter f =
     (case f of
        Inl r \<Rightarrow> Some r
      | Inr (st, count) \<Rightarrow> match_entries fs appender opt baseDir entries iter st count)"

lemma match_entries_found:
  assumes "wild_spec opt d (component iter) = ret" "ret \<noteq> FAILED"
    "enter_directory fs (entry_name baseDir d) (after_component iter) = (name, it)"
  shows "match_entries fs appender opt baseDir (d # entries) iter st count =
    (if fs_isDirectory fs (entry_name baseDir d) \<and> it \<noteq> [] then
       if ret = DOTDOT \<and> FASTGLOB \<in> opt then Some (-2, it, st, count)
       else Option.bind (match_entries fs appender opt name (dir_entries fs opt name) it st count)
         (\<lambda>(s, next, st', count').
            if s = -1 then Some (-1, iter, st', count')
            else if s = -2 then
              match_entries fs appender opt baseDir (dir_entries fs opt baseDir) next st' count'
            else next_entry fs appender opt baseDir entries iter
              (finish_entry appender iter ret name it st' count'))
     else next_entry fs appender opt baseDir entries iter (finish_entry appender iter ret name it st count))"
proof -
  have "wild_match opt d iter = Some (ret, after_component iter)"
    using assms(1,2) by (rule_tac wild_match_cases [of opt d iter]) auto
  with assms(2) show ?thesis
    unfolding match_entries.simps [of fs appender opt baseDir "d # entries"]
    by (simp only: list.case option.case prod.case if_False Let_def assms(3) fst_conv snd_conv next_entry_def)
qed

lemma match_entries_ends:
  "search_result iter (match_entries fs appender opt baseDir entries iter st count)"
proof (induction "(length iter, length entries)" arbitrary: baseDir entries iter st count
    rule: wf_induct_rule [OF lex2_wf])
  case 1
  note IH = 1
  show ?case
  proof (cases entries)
    case Nil
    then show ?thesis by (simp add: search_resultI)
  next
    case (Cons d entries')
    let ?path = "entry_name baseDir d"
    obtain name it where e: "enter_directory fs ?path (after_component iter) = (name, it)" by fastforce
    define ret where "ret = wild_spec opt d (component iter)"
    note found = match_entries_found [OF ret_def [symmetric] _ e, where appender = appender]
    have rest: "search_result iter (match_entries fs appender opt baseDir entries' iter st' n)" for st' n
      using IH Cons by simp
    have finish: "search_result iter (next_entry fs appender opt baseDir entries' iter
        (finish_entry appender iter ret name it st' n))" for st' n
      by (cases rule: finish_entry_cases [of appender iter ret name it st' n])
        (simp_all add: next_entry_def rest search_resultI)
    consider "ret = FAILED" | "ret \<noteq> FAILED" "\<not> (fs_isDirectory fs ?path \<and> it \<noteq> [])"
      | (sub) "ret \<noteq> FAILED" "fs_isDirectory fs ?path \<and> it \<noteq> []" by blast
    then show ?thesis
    proof cases
      case sub
      then have less: "length it < length iter"
        using enter_directory_shorter [of fs ?path iter] e by simp
      have "search_result it (match_entries fs appender opt name (dir_entries fs opt name) it st count)"
        using IH less by simp
      then obtain s nxt st' n where r:
        "match_entries fs appender opt name (dir_entries fs opt name) it st count = Some (s, nxt, st', n)"
        "length nxt \<le> length it" by (auto simp: search_result_def)
      have "search_result nxt (match_entries fs appender opt baseDir (dir_entries fs opt baseDir) nxt st' n)"
        using IH less r by simp
      then have "search_result iter (match_entries fs appender opt baseDir (dir_entries fs opt baseDir) nxt st' n)"
        using less r by (auto intro: search_result_mono)
      with sub less r finish show ?thesis
        by (auto simp: Cons found search_resultI search_result_def [of _ "Some (-2, it, st, count)"])
    qed (use Cons rest finish found in \<open>auto simp: ret_def\<close>)
  qed
qed

lemma invoke_loop_ends:
  "\<exists>s st' n. invoke_loop fs appender opt baseDir iter st count = Some (s, st', n) \<and> s \<in> {0, -1}"
proof (induction iter arbitrary: baseDir st count rule: measure_induct_rule [where f = length])
  case (less iter)
  obtain s it st' n where m:
    "match_entries fs appender opt baseDir (dir_entries fs opt baseDir) iter st count = Some (s, it, st', n)"
    "s = -2 \<Longrightarrow> length it < length iter" "s \<in> {0, -1, -2}"
    using match_entries_ends [of iter fs appender opt baseDir "dir_entries fs opt baseDir" st count]
    by (auto simp: search_result_def)
  have step: "invoke_loop fs appender opt baseDir iter st count =
      (if s = -2 then invoke_loop fs appender opt (popDir baseDir) it st' n else Some (s, st', n))"
    by (subst invoke_loop.simps) (simp add: m(1))
  show ?case using less [of it "popDir baseDir" st' n] m(2,3) by (auto simp: step)
qed

section \<open>What a search finds\<close>

text \<open>
  The reference, for the searches without \<open>FASTGLOB\<close>: the paths of a directory for a pattern, by
  recursion on the components of the pattern. Of a directory's entries, those behind the first
  match of \<open>.\<close> or \<open>..\<close> are not looked at.
\<close>

fun up_to_dots :: "GlobMatchOption set \<Rightarrow> token list \<Rightarrow> string list \<Rightarrow> string list" where
  "up_to_dots opt pat [] = []"
| "up_to_dots opt pat (d # entries) =
     (if wild_spec opt d pat = DOT \<or> wild_spec opt d pat = DOTDOT then [d]
      else d # up_to_dots opt pat entries)"

function paths :: "Filesystem \<Rightarrow> GlobMatchOption set \<Rightarrow> string \<Rightarrow> token list \<Rightarrow> string list" where
  "paths fs opt baseDir iter =
     concat (map (\<lambda>d.
       let path = entry_name baseDir d;
           name = fst (enter_directory fs path (after_component iter));
           rest = snd (enter_directory fs path (after_component iter))
       in if wild_spec opt d (component iter) = FAILED then []
          else if rest = [] then [name]
          else if fs_isDirectory fs path then paths fs opt name rest
          else [])
       (up_to_dots opt (component iter) (dir_entries fs opt baseDir)))"
  by pat_completeness auto
termination
  by (relation "measure (\<lambda>(fs, opt, baseDir, iter). length iter)") (use enter_directory_shorter in \<open>auto simp: case_prod_beta\<close>)

declare paths.simps [simp del]

definition entry_paths ::
  "Filesystem \<Rightarrow> GlobMatchOption set \<Rightarrow> string \<Rightarrow> token list \<Rightarrow> string \<Rightarrow> string list" where
  "entry_paths fs opt baseDir iter d =
     (let path = entry_name baseDir d;
          name = fst (enter_directory fs path (after_component iter));
          rest = snd (enter_directory fs path (after_component iter))
      in if wild_spec opt d (component iter) = FAILED then []
         else if rest = [] then [name]
         else if fs_isDirectory fs path then paths fs opt name rest
         else [])"

lemma paths_entries:
  "paths fs opt baseDir iter =
   concat (map (entry_paths fs opt baseDir iter)
     (up_to_dots opt (component iter) (dir_entries fs opt baseDir)))"
  by (subst paths.simps) (auto intro!: arg_cong [where f = concat] map_cong simp: entry_paths_def Let_def)

text \<open>The appender is fed with the paths in order, until it returns false.\<close>

fun feed :: "('s \<Rightarrow> string \<Rightarrow> bool \<times> 's) \<Rightarrow> string list \<Rightarrow> 's \<Rightarrow> nat \<Rightarrow> int \<times> 's \<times> nat" where
  "feed appender [] st count = (0, st, count)"
| "feed appender (p # ps) st count =
     (let (ok, st') = appender st p in
      if ok then feed appender ps st' (count + 1) else (-1, st', count))"

lemma feed_append:
  "feed appender (ps @ qs) st count =
   (case feed appender ps st count of
      (s, st', n) \<Rightarrow> if s = 0 then feed appender qs st' n else (s, st', n))"
  by (induction ps arbitrary: st count) (auto split: prod.splits)

lemma feed_code: "feed appender ps st count = (s, st', n) \<Longrightarrow> s = 0 \<or> s = -1"
  by (induction ps arbitrary: st count) (auto split: prod.splits if_splits)

definition fed :: "token list \<Rightarrow> int \<times> 's \<times> nat \<Rightarrow> 's search" where
  "fed iter r = (case r of (s, st, n) \<Rightarrow> (s, iter, st, n))"

lemma finish_entry_feed:
  "next_entry fs appender opt baseDir entries iter (finish_entry appender iter ret name it st count) =
   (case feed appender (if it = [] then [name] else []) st count of
      (s, st', n) \<Rightarrow>
        if s = 0 \<and> ret \<noteq> DOT \<and> ret \<noteq> DOTDOT
        then match_entries fs appender opt baseDir entries iter st' n
        else Some (s, iter, st', n))"
  by (auto simp: finish_entry_def next_entry_def split: prod.splits)

lemma match_entries_paths:
  assumes "FASTGLOB \<notin> opt"
  shows "match_entries fs appender opt baseDir entries iter st count =
    Some (fed iter (feed appender
      (concat (map (entry_paths fs opt baseDir iter) (up_to_dots opt (component iter) entries))) st count))"
proof (induction "(length iter, length entries)" arbitrary: baseDir entries iter st count
    rule: wf_induct_rule [OF lex2_wf])
  case 1
  note IH = 1
  show ?case
  proof (cases entries)
    case Nil
    then show ?thesis by (simp add: fed_def)
  next
    case (Cons d entries')
    let ?path = "entry_name baseDir d"
    obtain name it where e: "enter_directory fs ?path (after_component iter) = (name, it)" by fastforce
    define ret where "ret = wild_spec opt d (component iter)"
    note found = match_entries_found [OF ret_def [symmetric] _ e, where appender = appender]
    have rest: "match_entries fs appender opt baseDir entries' iter st' n =
        Some (fed iter (feed appender (concat (map (entry_paths fs opt baseDir iter)
          (up_to_dots opt (component iter) entries'))) st' n))" for st' n
      using IH Cons by simp
    consider "ret = FAILED" | (plain) "ret \<noteq> FAILED" "\<not> (fs_isDirectory fs ?path \<and> it \<noteq> [])"
      | (sub) "ret \<noteq> FAILED" "fs_isDirectory fs ?path \<and> it \<noteq> []" by blast
    then show ?thesis
    proof cases
      case 1
      then show ?thesis using rest by (simp add: Cons ret_def entry_paths_def)
    next
      case plain
      then have d: "entry_paths fs opt baseDir iter d = (if it = [] then [name] else [])"
        using e by (auto simp: entry_paths_def ret_def)
      show ?thesis
        unfolding Cons found [OF plain(1)] if_not_P [OF plain(2)] finish_entry_feed
        using plain(1) feed_code
        by (auto simp: d rest ret_def [symmetric] feed_append fed_def split: prod.splits)
    next
      case sub
      then have "length it < length iter"
        using enter_directory_shorter [of fs ?path iter] e by simp
      then have m: "match_entries fs appender opt name (dir_entries fs opt name) it st count =
          Some (fed it (feed appender (paths fs opt name it) st count))"
        using IH by (simp add: paths_entries)
      have d: "entry_paths fs opt baseDir iter d = paths fs opt name it"
        using e sub by (auto simp: entry_paths_def ret_def)
      show ?thesis
        unfolding Cons found [OF sub(1)] if_P [OF sub(2)] m
        using sub assms feed_code [of appender "paths fs opt name it" st count]
        by (auto simp: d rest ret_def [symmetric] feed_append fed_def finish_entry_feed split: prod.splits)
    qed
  qed
qed

text \<open>
  [C10] Every path name expansion returns: for any finite directory contents (links and cycles
  of directories included), any pattern, appender and options the search and the restarts
  from parent directories that \<open>FASTGLOB\<close> makes come to an end, with a definite result.
\<close>

theorem glob_search_ends:
  "\<exists>r st' n. glob_search fs preExpand appender opt base pattern st = Some (r, st', n)"
proof -
  obtain baseDir iter where "resolveBaseDir preExpand opt base pattern = (baseDir, iter)" by fastforce
  then show ?thesis
    using invoke_loop_ends [of fs appender opt baseDir iter st 0]
    by (auto simp: glob_search_def invoke_def)
qed

text \<open>
  [C11] Without \<open>FASTGLOB\<close> the search hands the appender the paths of the reference \<open>paths\<close>, in
  its order, until the appender refuses one (\<open>LIMIT\<close>); otherwise the result says whether there
  was any.
\<close>

theorem glob_search_paths:
  assumes "FASTGLOB \<notin> opt"
  shows "glob_search fs preExpand appender opt base pattern st =
    (case resolveBaseDir preExpand opt base pattern of (baseDir, iter) \<Rightarrow>
     case feed appender (paths fs opt baseDir iter) st 0 of (s, st', n) \<Rightarrow>
       Some (if s = -1 then LIMIT else if n > 0 then MATCH else NOMATCH, st', n))"
proof -
  obtain baseDir iter where b: "resolveBaseDir preExpand opt base pattern = (baseDir, iter)" by fastforce
  obtain s st' n where f: "feed appender (paths fs opt baseDir iter) st 0 = (s, st', n)"
    by (metis prod_cases3)
  have "invoke_loop fs appender opt baseDir iter st 0 = Some (s, st', n)"
    using feed_code [OF f] f
    by (subst invoke_loop.simps) (auto simp: match_entries_paths [OF assms] paths_entries fed_def)
  with b f show ?thesis by (simp add: glob_search_def invoke_def)
qed

definition one_dir :: Filesystem where
  "one_dir = \<lparr>fs_opendir = [''.'' \<mapsto> [''.'', ''..'', ''ab'', ''b'']], fs_isDirectory = (\<lambda>p. p \<in> {''.'', ''..''}),
     fs_isSameFile = (=)\<rparr>"

theorem glob_search_paths_witness:
  "glob_search one_dir id (\<lambda>ps p. (True, ps @ [p])) {} None [ZeroOrMore, Lit CHR ''b''] [] =
     Some (MATCH, [''ab'', ''b''], 2)"
  by (subst glob_search_paths)
    (simp_all add: one_dir_def resolveBaseDir_def paths.simps dir_entries_def ignored_def wild_spec_def
      component_def entry_name_def enter_directory_def after_component_def accepts_def)

end
