(* ===== verification/Type_Pool.thy ===== *)
theory Type_Pool
  imports Prelude
begin

text \<open>
  The types of the shell language and the pool that interns them (\<open>type.h\<close>, \<open>type.cpp\<close>,
  \<open>type_pool.h\<close>, \<open>type_pool.cpp\<close>). A pointer to a type is its index in the type table. The
  table of native methods and the \<open>info_*\<close> functions are generated by the build; they are the
  parameter \<open>Natives\<close>.
\<close>

datatype type_enum =
  T_ProcGuard | T_Root | T_Any | T_Void | T_Nothing | T_Value | T_Int | T_Float | T_Boolean | T_String
| T_Regex | T_Signal | T_Signals | T_Error | T_Job | T_Func | T_StringIter | T_UnixFD | T_StringArray
| T_ArithmeticError | T_OutOfRangeError | T_KeyNotFoundError | T_TypeCastError | T_SystemError
| T_StackOverflowError | T_RegexSyntaxError | T_GlobbingError | T_UnwrappingError
| T_IllegalAccessError | T_InvalidOperationError | T_InternalStatus | T_ShellExit | T_AssertFail

primrec type_id :: "type_enum \<Rightarrow> nat" where
  "type_id T_ProcGuard = 0" | "type_id T_Root = 1" | "type_id T_Any = 2" | "type_id T_Void = 3"
| "type_id T_Nothing = 4" | "type_id T_Value = 5" | "type_id T_Int = 6" | "type_id T_Float = 7"
| "type_id T_Boolean = 8" | "type_id T_String = 9" | "type_id T_Regex = 10" | "type_id T_Signal = 11"
| "type_id T_Signals = 12" | "type_id T_Error = 13" | "type_id T_Job = 14" | "type_id T_Func = 15"
| "type_id T_StringIter = 16" | "type_id T_UnixFD = 17" | "type_id T_StringArray = 18"
| "type_id T_ArithmeticError = 19" | "type_id T_OutOfRangeError = 20"
| "type_id T_KeyNotFoundError = 21" | "type_id T_TypeCastError = 22" | "type_id T_SystemError = 23"
| "type_id T_StackOverflowError = 24" | "type_id T_RegexSyntaxError = 25"
| "type_id T_GlobbingError = 26" | "type_id T_UnwrappingError = 27"
| "type_id T_IllegalAccessError = 28" | "type_id T_InvalidOperationError = 29"
| "type_id T_InternalStatus = 30" | "type_id T_ShellExit = 31" | "type_id T_AssertFail = 32"

datatype TypeAttr = EXTENDIBLE | FUNC_TYPE | RECORD_TYPE | REIFIED_TYPE | OPTION_TYPE | MODULE_TYPE

primrec type_attr_bits :: "TypeAttr \<Rightarrow> u32" where
  "type_attr_bits EXTENDIBLE = 1"
| "type_attr_bits FUNC_TYPE = 2"
| "type_attr_bits RECORD_TYPE = 4"
| "type_attr_bits REIFIED_TYPE = 8"
| "type_attr_bits OPTION_TYPE = 16"
| "type_attr_bits MODULE_TYPE = 32"

text \<open>Attributes of variables and fields, a 16-bit flag set.\<close>

type_synonym FieldAttribute = u16

definition READ_ONLY :: FieldAttribute where "READ_ONLY = 1"
definition GLOBAL_ATTR :: FieldAttribute where "GLOBAL_ATTR = 2"
definition ENV_ATTR :: FieldAttribute where "ENV_ATTR = 4"
definition FUNC_HANDLE :: FieldAttribute where "FUNC_HANDLE = 8"
definition RANDOM_ATTR :: FieldAttribute where "RANDOM_ATTR = 16"
definition SECONDS_ATTR :: FieldAttribute where "SECONDS_ATTR = 32"
definition MOD_CONST :: FieldAttribute where "MOD_CONST = 64"
definition ALIAS :: FieldAttribute where "ALIAS = 128"
definition NAMED_MOD :: FieldAttribute where "NAMED_MOD = 256"
definition GLOBAL_MOD :: FieldAttribute where "GLOBAL_MOD = 512"

definition hasFlag :: "'a::len word \<Rightarrow> 'a word \<Rightarrow> bool" where
  "hasFlag fs flag \<longleftrightarrow> fs AND flag = flag"

definition setFlag :: "'a::len word \<Rightarrow> 'a word \<Rightarrow> 'a word" where
  "setFlag fs flag = fs OR flag"

definition unsetFlag :: "'a::len word \<Rightarrow> 'a word \<Rightarrow> 'a word" where
  "unsetFlag fs flag = fs AND NOT flag"

record FieldHandle =
  commitID :: nat
  typeID :: nat
  fieldIndex :: nat
  fieldAttr :: FieldAttribute
  modID :: nat

record native_type_info =
  offset :: nat
  methodSize :: nat

text \<open>An entry of \<open>ModType\<close>'s children: bit 31 marks a globally imported module.\<close>

type_synonym ImportedModEntry = u32

definition entry_isGlobal :: "ImportedModEntry \<Rightarrow> bool" where
  "entry_isGlobal e \<longleftrightarrow> sint e < 0"

definition entry_typeId :: "ImportedModEntry \<Rightarrow> nat" where
  "entry_typeId e = unat (e AND 0x7FFFFFFF)"

text \<open>The sub-classes of \<open>DSType\<close> with their members.\<close>

datatype type_members =
  BuiltinType native_type_info
| ErrorType
| FunctionType nat "nat list"
| ReifiedType native_type_info "nat list"
| TupleType native_type_info "nat list" "(string \<times> FieldHandle) list"
| ModType nat nat "ImportedModEntry list" "(string \<times> FieldHandle) list"

record DSType =
  nameRef :: string
  tag :: u32
  superType :: "nat option"
  class_of :: type_members

definition make_tag :: "u32 \<Rightarrow> nat \<Rightarrow> u32" where
  "make_tag attribute i = push_bit 24 attribute OR of_nat i"

definition typeId :: "DSType \<Rightarrow> nat" where
  "typeId t = unat (tag t AND 0xFFFFFF)"

definition attr :: "DSType \<Rightarrow> u32" where
  "attr t = drop_bit 24 (tag t)"

definition is_type :: "DSType \<Rightarrow> type_enum \<Rightarrow> bool" where
  "is_type t ty \<longleftrightarrow> typeId t = type_id ty"

definition isVoidType :: "DSType \<Rightarrow> bool" where
  "isVoidType t \<longleftrightarrow> is_type t T_Void"

definition isNothingType :: "DSType \<Rightarrow> bool" where
  "isNothingType t \<longleftrightarrow> is_type t T_Nothing"

definition isFuncType :: "DSType \<Rightarrow> bool" where
  "isFuncType t \<longleftrightarrow> hasFlag (attr t) (type_attr_bits FUNC_TYPE)"

definition isReifiedType :: "DSType \<Rightarrow> bool" where
  "isReifiedType t \<longleftrightarrow> hasFlag (attr t) (type_attr_bits REIFIED_TYPE)"

definition isOptionType :: "DSType \<Rightarrow> bool" where
  "isOptionType t \<longleftrightarrow> hasFlag (attr t) (type_attr_bits OPTION_TYPE)"

definition isModType :: "DSType \<Rightarrow> bool" where
  "isModType t \<longleftrightarrow> hasFlag (attr t) (type_attr_bits MODULE_TYPE)"

definition isExtendible :: "DSType \<Rightarrow> bool" where
  "isExtendible t \<longleftrightarrow> hasFlag (attr t) (type_attr_bits EXTENDIBLE)"

definition getNumTypeIndex :: "DSType \<Rightarrow> int" where
  "getNumTypeIndex t =
     (if typeId t \<ge> type_id T_Int \<and> typeId t \<le> type_id T_Float
      then int (typeId t) - int (type_id T_Int) else -1)"

fun elementTypes :: "type_members \<Rightarrow> nat list" where
  "elementTypes (ReifiedType info ts) = ts"
| "elementTypes (TupleType info ts handles) = ts"
| "elementTypes _ = []"

type_synonym type_table = "DSType list"

text \<open>
  Sub-typing. The recursion follows the target's super types and the element type of an option;
  nothing in its text bounds it, so that it is a partial function here.
\<close>

partial_function (option) isSameOrBaseTypeOf :: "type_table \<Rightarrow> nat \<Rightarrow> nat \<Rightarrow> bool option" where
  "isSameOrBaseTypeOf tbl this target =
     (if this = target then Some True
      else if isNothingType (tbl ! target) then Some True
      else if isOptionType (tbl ! this) then
        isSameOrBaseTypeOf tbl (elementTypes (class_of (tbl ! this)) ! 0) target
      else (case superType (tbl ! target) of
          None \<Rightarrow> Some False
        | Some s \<Rightarrow> isSameOrBaseTypeOf tbl this s))"

section \<open>The pool\<close>

datatype TypeLookupError =
  ElementLimit | UndefinedType string | NotTemplate string | InvalidElement string
| UnmatchElement string nat nat | TypeIdLimit

record TypeTemplate =
  temp_name :: string
  acceptableTypes :: "nat list"
  temp_info :: native_type_info

record MethodHandle =
  methodId :: nat
  methodIndex :: nat
  paramTypes :: "nat list"
  returnType :: nat
  recvType :: nat

datatype MethodValue = MIndex nat | MHandle MethodHandle

datatype HandleInfo =
  H_Type type_enum | H_Array | H_Map | H_Tuple | H_Option | H_Func | H_Num nat | H_T0 | H_T1

record NativeFuncInfo =
  funcName :: string
  handleInfo :: "HandleInfo list"

text \<open>What the build generates: the table of native methods, and the \<open>info_*\<close> of each name.\<close>

record Natives =
  nativeFuncInfoTable :: "NativeFuncInfo list"
  info_of :: "string \<Rightarrow> native_type_info"

record TypePool =
  methodIdCount :: nat
  typeTable :: type_table
  nameMap :: "string \<rightharpoonup> nat"
  methodMap :: "(nat \<times> string) \<rightharpoonup> MethodValue"

type_synonym 'a pool_result = "TypePool \<times> (TypeLookupError + 'a)"

definition MAX_TYPE_NUM :: nat where "MAX_TYPE_NUM = 0xFFFFFF"
definition SYS_LIMIT_TUPLE_NUM :: nat where "SYS_LIMIT_TUPLE_NUM = 255"
definition SYS_LIMIT_FUNC_PARAM_NUM :: nat where "SYS_LIMIT_FUNC_PARAM_NUM = 255"

abbreviation TYPE_ARRAY :: string where "TYPE_ARRAY \<equiv> ''Array''"
abbreviation TYPE_MAP :: string where "TYPE_MAP \<equiv> ''Map''"
abbreviation TYPE_TUPLE :: string where "TYPE_TUPLE \<equiv> ''Tuple''"
abbreviation TYPE_OPTION :: string where "TYPE_OPTION \<equiv> ''Option''"

definition arrayTemplate :: "Natives \<Rightarrow> TypeTemplate" where
  "arrayTemplate N = \<lparr>temp_name = TYPE_ARRAY, acceptableTypes = [type_id T_Any],
     temp_info = info_of N ''info_ArrayType''\<rparr>"

definition mapTemplate :: "Natives \<Rightarrow> TypeTemplate" where
  "mapTemplate N = \<lparr>temp_name = TYPE_MAP, acceptableTypes = [type_id T_Value, type_id T_Any],
     temp_info = info_of N ''info_MapType''\<rparr>"

definition tupleTemplate :: "Natives \<Rightarrow> TypeTemplate" where
  "tupleTemplate N = \<lparr>temp_name = TYPE_TUPLE, acceptableTypes = [],
     temp_info = info_of N ''info_TupleType''\<rparr>"

definition optionTemplate :: "Natives \<Rightarrow> TypeTemplate" where
  "optionTemplate N = \<lparr>temp_name = TYPE_OPTION, acceptableTypes = [],
     temp_info = info_of N ''info_OptionType''\<rparr>"

definition getTypeTemplate :: "Natives \<Rightarrow> string \<Rightarrow> TypeLookupError + TypeTemplate" where
  "getTypeTemplate N typeName =
     (if typeName = TYPE_ARRAY then Inr (arrayTemplate N)
      else if typeName = TYPE_MAP then Inr (mapTemplate N)
      else if typeName = TYPE_TUPLE then Inr (tupleTemplate N)
      else if typeName = TYPE_OPTION then Inr (optionTemplate N)
      else Inl (NotTemplate typeName))"

definition getType :: "TypePool \<Rightarrow> string \<Rightarrow> TypeLookupError + nat" where
  "getType pool typeName =
     (case nameMap pool typeName of None \<Rightarrow> Inl (UndefinedType typeName) | Some t \<Rightarrow> Inr t)"

text \<open>\<open>newType\<close> and \<open>addType\<close>; reaching the limit ends the process.\<close>

definition newType ::
  "TypePool \<Rightarrow> string \<Rightarrow> u32 \<Rightarrow> nat option \<Rightarrow> type_members \<Rightarrow> nat pool_result"
where
  "newType pool name attribute super cls =
     (let i = length (typeTable pool);
          t = \<lparr>nameRef = name, tag = make_tag attribute i, superType = super, class_of = cls\<rparr>;
          pool' = pool\<lparr>typeTable := typeTable pool @ [t],
                       nameMap := (case nameMap pool name of
                           None \<Rightarrow> (nameMap pool)(name \<mapsto> typeId t) | Some _ \<Rightarrow> nameMap pool)\<rparr>
      in (pool', if length (typeTable pool') = MAX_TYPE_NUM then Inl TypeIdLimit else Inr i))"

definition registerHandle :: "TypePool \<Rightarrow> nat \<Rightarrow> string \<Rightarrow> nat \<Rightarrow> TypePool" where
  "registerHandle pool recv name index =
     (case methodMap pool (recv, name) of
        None \<Rightarrow> pool\<lparr>methodMap := (methodMap pool)((recv, name) \<mapsto> MIndex index)\<rparr>
      | Some _ \<Rightarrow> pool)"

definition registerHandles :: "Natives \<Rightarrow> TypePool \<Rightarrow> nat \<Rightarrow> native_type_info \<Rightarrow> TypePool" where
  "registerHandles N pool recv info =
     foldl (\<lambda>pool i.
         let methodIndex = offset info + i in
         registerHandle pool recv (funcName (nativeFuncInfoTable N ! methodIndex)) methodIndex)
       pool [0..<methodSize info]"

section \<open>Type names\<close>

fun join_names :: "string \<Rightarrow> string list \<Rightarrow> string" where
  "join_names sep [] = []"
| "join_names sep [n] = n"
| "join_names sep (n # ns) = n @ sep @ join_names sep ns"

text \<open>The names as functions of the element types' names; \<open>funcs\<close> tells the function types.\<close>

definition arrayTypeName :: "string \<Rightarrow> string" where
  "arrayTypeName n = ''['' @ n @ '']''"

definition mapTypeName :: "string \<Rightarrow> string \<Rightarrow> string" where
  "mapTypeName k v = ''['' @ k @ '' : '' @ v @ '']''"

definition optionTypeName :: "bool \<Rightarrow> string \<Rightarrow> string" where
  "optionTypeName is_func n =
     (if is_func then ''('' else []) @ n @ (if is_func then '')'' else []) @ ''!''"

definition tupleTypeName :: "string list \<Rightarrow> string" where
  "tupleTypeName ns =
     ''('' @ join_names '', '' ns @ (if length ns = 1 then '','' else []) @ '')''"

definition functionTypeName :: "string \<Rightarrow> string list \<Rightarrow> string" where
  "functionTypeName r ns = ''('' @ join_names '', '' ns @ '') -> '' @ r"

definition type_name :: "TypePool \<Rightarrow> nat \<Rightarrow> string" where
  "type_name pool t = nameRef (typeTable pool ! t)"

definition toReifiedTypeName :: "TypePool \<Rightarrow> TypeTemplate \<Rightarrow> nat list \<Rightarrow> string" where
  "toReifiedTypeName pool template ts =
     (if temp_name template = TYPE_ARRAY then arrayTypeName (type_name pool (ts ! 0))
      else if temp_name template = TYPE_MAP then
        mapTypeName (type_name pool (ts ! 0)) (type_name pool (ts ! 1))
      else if temp_name template = TYPE_OPTION then
        optionTypeName (isFuncType (typeTable pool ! (ts ! 0))) (type_name pool (ts ! 0))
      else temp_name template @ ''<'' @ join_names '','' (map (type_name pool) ts) @ ''>'')"

definition toTupleTypeName :: "TypePool \<Rightarrow> nat list \<Rightarrow> string" where
  "toTupleTypeName pool ts = tupleTypeName (map (type_name pool) ts)"

definition toFunctionTypeName :: "TypePool \<Rightarrow> nat \<Rightarrow> nat list \<Rightarrow> string" where
  "toFunctionTypeName pool r ts = functionTypeName (type_name pool r) (map (type_name pool) ts)"

definition toModTypeName :: "nat \<Rightarrow> string" where
  "toModTypeName i = ''%mod'' @ show_nat i"

section \<open>Creating types\<close>

definition checkElementTypes_limit :: "TypePool \<Rightarrow> nat list \<Rightarrow> nat \<Rightarrow> TypeLookupError option" where
  "checkElementTypes_limit pool ts limit =
     (if length ts > limit then Some ElementLimit
      else map_option (\<lambda>t. InvalidElement (type_name pool t))
        (find (\<lambda>t. isVoidType (typeTable pool ! t) \<or> isNothingType (typeTable pool ! t)) ts))"

definition acceptable :: "TypePool \<Rightarrow> nat \<Rightarrow> nat \<Rightarrow> bool" where
  "acceptable pool acceptType t \<longleftrightarrow>
     isSameOrBaseTypeOf (typeTable pool) acceptType t = Some True \<and> \<not> isNothingType (typeTable pool ! t)
     \<or> is_type (typeTable pool ! acceptType) T_Any \<and> isOptionType (typeTable pool ! t)"

definition checkElementTypes :: "TypePool \<Rightarrow> TypeTemplate \<Rightarrow> nat list \<Rightarrow> TypeLookupError option" where
  "checkElementTypes pool template ts =
     (if length (acceptableTypes template) \<noteq> length ts then
        Some (UnmatchElement (temp_name template) (length (acceptableTypes template)) (length ts))
      else map_option (\<lambda>i. InvalidElement (type_name pool (ts ! i)))
        (find (\<lambda>i. \<not> acceptable pool (acceptableTypes template ! i) (ts ! i)) [0..<length ts]))"

text \<open>
  The fields before a tuple's own; the super type is always \<open>Any\<close>, whose chain has no tuple. The
  test \<open>s < t\<close>, which holds in every pool, makes the recursion total.
\<close>

function getFieldSize :: "type_table \<Rightarrow> nat \<Rightarrow> nat" where
  "getFieldSize tbl t =
     (case class_of (tbl ! t) of
        TupleType info ts handles \<Rightarrow> length ts
      | _ \<Rightarrow> (case superType (tbl ! t) of
            None \<Rightarrow> 0
          | Some s \<Rightarrow> if s < t then getFieldSize tbl s else 0))"
  by pat_completeness auto
termination by (relation "measure snd") auto

declare getFieldSize.simps [simp del]

definition tuple_handles :: "nat \<Rightarrow> nat list \<Rightarrow> (string \<times> FieldHandle) list" where
  "tuple_handles baseIndex ts =
     map (\<lambda>i. (''_'' @ show_nat i,
        \<lparr>commitID = 0, typeID = ts ! i, fieldIndex = i + baseIndex, fieldAttr = 0, modID = 0\<rparr>))
       [0..<length ts]"

text \<open>Looking a name up and, when it is new, adding the type and registering its methods.\<close>

definition internType ::
  "Natives \<Rightarrow> TypePool \<Rightarrow> string \<Rightarrow> u32 \<Rightarrow> nat option \<Rightarrow> type_members \<Rightarrow> native_type_info \<Rightarrow> nat pool_result"
where
  "internType N pool typeName attribute super cls info =
     (case nameMap pool typeName of
        Some t \<Rightarrow> (pool, Inr t)
      | None \<Rightarrow>
          (case newType pool typeName attribute super cls of
             (pool', Inl e) \<Rightarrow> (pool', Inl e)
           | (pool', Inr t) \<Rightarrow> (registerHandles N pool' t info, Inr t)))"

definition createTupleType :: "Natives \<Rightarrow> TypePool \<Rightarrow> nat list \<Rightarrow> nat pool_result" where
  "createTupleType N pool ts =
     (case checkElementTypes_limit pool ts SYS_LIMIT_TUPLE_NUM of
        Some e \<Rightarrow> (pool, Inl e)
      | None \<Rightarrow>
          internType N pool (toTupleTypeName pool ts) (type_attr_bits REIFIED_TYPE) (Some (type_id T_Any))
            (TupleType (temp_info (tupleTemplate N)) ts
              (tuple_handles (getFieldSize (typeTable pool) (type_id T_Any)) ts))
            (temp_info (tupleTemplate N)))"

definition createReifiedType ::
  "Natives \<Rightarrow> TypePool \<Rightarrow> TypeTemplate \<Rightarrow> nat list \<Rightarrow> nat pool_result"
where
  "createReifiedType N pool template ts =
     (let is_option = (temp_name template = TYPE_OPTION);
          t0 = typeTable pool ! (ts ! 0)
      in if temp_name template = TYPE_TUPLE then createTupleType N pool ts
         else if is_option \<and> (isVoidType t0 \<or> isNothingType t0) then (pool, Inl (InvalidElement (nameRef t0)))
         else if is_option \<and> isOptionType t0 then (pool, Inr (ts ! 0))
         else case (if is_option then None else checkElementTypes pool template ts) of
           Some e \<Rightarrow> (pool, Inl e)
         | None \<Rightarrow>
             internType N pool (toReifiedTypeName pool template ts)
               (setFlag (if is_option then type_attr_bits OPTION_TYPE else 0) (type_attr_bits REIFIED_TYPE))
               (if is_option then None else Some (type_id T_Any))
               (ReifiedType (temp_info template) ts) (temp_info template))"

definition createFuncType :: "TypePool \<Rightarrow> nat \<Rightarrow> nat list \<Rightarrow> nat pool_result" where
  "createFuncType pool ret ts =
     (case checkElementTypes_limit pool ts SYS_LIMIT_FUNC_PARAM_NUM of
        Some e \<Rightarrow> (pool, Inl e)
      | None \<Rightarrow>
          (let typeName = toFunctionTypeName pool ret ts in
           case nameMap pool typeName of
             Some t \<Rightarrow> (pool, Inr t)
           | None \<Rightarrow> newType pool typeName (type_attr_bits FUNC_TYPE) (Some (type_id T_Func))
               (FunctionType ret ts)))"

definition createModType ::
  "TypePool \<Rightarrow> nat \<Rightarrow> (string \<times> FieldHandle) list \<Rightarrow> ImportedModEntry list \<Rightarrow> nat \<Rightarrow> nat pool_result"
where
  "createModType pool mod_id handles children index =
     (case nameMap pool (toModTypeName mod_id) of
        Some t \<Rightarrow> (pool, Inr t)
      | None \<Rightarrow> newType pool (toModTypeName mod_id) (type_attr_bits MODULE_TYPE) (Some (type_id T_Any))
          (ModType mod_id index children handles))"

section \<open>Building the pool\<close>

definition initBuiltinType ::
  "Natives \<Rightarrow> TypePool \<Rightarrow> string \<Rightarrow> bool \<Rightarrow> type_enum option \<Rightarrow> string \<Rightarrow> TypePool"
where
  "initBuiltinType N pool typeName extendible super info =
     (case newType pool typeName (if extendible then type_attr_bits EXTENDIBLE else 0)
         (map_option type_id super) (BuiltinType (info_of N info)) of
        (pool', Inr t) \<Rightarrow> registerHandles N pool' t (info_of N info)
      | (pool', Inl e) \<Rightarrow> pool')"

definition initErrorType :: "TypePool \<Rightarrow> string \<Rightarrow> TypePool" where
  "initErrorType pool typeName =
     fst (newType pool typeName (type_attr_bits EXTENDIBLE) (Some (type_id T_Error)) ErrorType)"

definition builtin_types :: "(string \<times> bool \<times> type_enum option \<times> string) list" where
  "builtin_types =
     [(''process guard%%'', False, None, ''info_Dummy''),
      (''pseudo top%%'', False, Some T_ProcGuard, ''info_Dummy''),
      (''Any'', True, Some T_Root, ''info_AnyType''),
      (''Void'', False, None, ''info_Dummy''),
      (''Nothing'', False, None, ''info_Dummy''),
      (''Value%%'', True, Some T_Any, ''info_Dummy''),
      (''Int'', False, Some T_Value, ''info_IntType''),
      (''Float'', False, Some T_Value, ''info_FloatType''),
      (''Boolean'', False, Some T_Value, ''info_BooleanType''),
      (''String'', False, Some T_Value, ''info_StringType''),
      (''Regex'', False, Some T_Any, ''info_RegexType''),
      (''Signal'', False, Some T_Value, ''info_SignalType''),
      (''Signals'', False, Some T_Any, ''info_SignalsType''),
      (''Error'', True, Some T_Any, ''info_ErrorType''),
      (''Job'', False, Some T_Any, ''info_JobType''),
      (''Func'', False, Some T_Any, ''info_Dummy''),
      (''StringIter%%'', False, Some T_Any, ''info_StringIterType''),
      (''UnixFD'', False, Some T_Any, ''info_UnixFDType'')]"

definition error_types :: "string list" where
  "error_types =
     [''ArithmeticError'', ''OutOfRangeError'', ''KeyNotFoundError'', ''TypeCastError'', ''SystemError'',
      ''StackOverflowError'', ''RegexSyntaxError'', ''GlobbingError'', ''UnwrappingError'',
      ''IllegalAccessError'', ''InvalidOperationError'']"

definition status_types :: "(string \<times> bool \<times> type_enum option \<times> string) list" where
  "status_types =
     [(''internal status%%'', False, Some T_Root, ''info_Dummy''),
      (''Shell Exit'', False, Some T_InternalStatus, ''info_Dummy''),
      (''Assertion Error'', False, Some T_InternalStatus, ''info_Dummy'')]"

definition init_builtins ::
  "Natives \<Rightarrow> TypePool \<Rightarrow> (string \<times> bool \<times> type_enum option \<times> string) list \<Rightarrow> TypePool"
where
  "init_builtins N = foldl (\<lambda>pool (name, ext, super, info). initBuiltinType N pool name ext super info)"

definition empty_pool :: TypePool where
  "empty_pool = \<lparr>methodIdCount = 0, typeTable = [], nameMap = Map.empty, methodMap = Map.empty\<rparr>"

definition TypePool_init :: "Natives \<Rightarrow> TypePool" where
  "TypePool_init N =
     (let pool = init_builtins N empty_pool builtin_types;
          pool = fst (createReifiedType N pool (arrayTemplate N) [type_id T_String]);
          pool = foldl initErrorType pool error_types
      in init_builtins N pool status_types)"

section \<open>Tags\<close>

lemma typeId_make_tag:
  assumes "i < 2 ^ 24"
  shows "unat (make_tag a i AND 0xFFFFFF) = i"
proof -
  have "make_tag a i AND 0xFFFFFF = take_bit 24 (make_tag a i)"
    by (simp add: take_bit_eq_mask mask_eq_exp_minus_1)
  also have "\<dots> = take_bit 24 (of_nat i)"
    by (simp add: make_tag_def take_bit_push_bit)
  also have "\<dots> = of_nat i"
    using assms by (simp add: take_bit_of_nat take_bit_nat_eq_self)
  finally show ?thesis
    using assms by (simp add: unsigned_of_nat take_bit_nat_eq_self)
qed

lemma attr_make_tag:
  assumes "i < 2 ^ 24" "a < 256"
  shows "drop_bit 24 (make_tag a i) = a"
proof (rule bit_word_eqI)
  fix n assume n: "n < LENGTH(32)"
  have i: "i < 2 ^ (24 + n)"
    using assms(1) power_increasing [of 24 "24 + n" "2 :: nat"] by simp
  then have "\<not> bit i (24 + n)" by (simp add: bit_iff_odd)
  moreover have "\<not> bit a n" if "\<not> n < 8"
  proof -
    have "unat a < 2 ^ 8" using assms(2) by (simp add: word_less_nat_alt)
    also have "(2 :: nat) ^ 8 \<le> 2 ^ n" using that by (intro power_increasing) auto
    finally have "\<not> bit (unat a) n" by (simp add: bit_iff_odd)
    then show ?thesis by (simp add: bit_unsigned_iff)
  qed
  ultimately show "bit (drop_bit 24 (make_tag a i)) n = bit a n"
    using n by (auto simp: make_tag_def bit_drop_bit_eq bit_or_iff bit_push_bit_iff bit_of_nat_iff add.commute)
qed

end
