(* ===== verification/Type_Order.thy ===== *)
theory Type_Order
  imports Type_Pool
begin

text \<open>
  The well-formedness of a type pool, its preservation by every operation that creates types,
  and sub-typing: on a well-formed table \<open>isSameOrBaseTypeOf\<close> returns, and it is a partial order
  with \<open>Nothing\<close> at the bottom.
\<close>

section \<open>Well-formed tables\<close>

fun type_refs :: "type_members \<Rightarrow> nat list" where
  "type_refs (FunctionType r ts) = r # ts"
| "type_refs (ReifiedType info ts) = ts"
| "type_refs (TupleType info ts handles) = ts"
| "type_refs _ = []"

definition wf_super :: "type_table \<Rightarrow> nat \<Rightarrow> nat option \<Rightarrow> bool" where
  "wf_super tbl i super \<longleftrightarrow>
     (case super of None \<Rightarrow> True
      | Some s \<Rightarrow> s < i \<and> \<not> isOptionType (tbl ! s) \<and> s \<noteq> type_id T_Nothing)"

fun option_element :: "type_members \<Rightarrow> nat option" where
  "option_element (ReifiedType info [e]) = Some e"
| "option_element _ = None"

definition plain_element :: "type_table \<Rightarrow> nat option \<Rightarrow> bool" where
  "plain_element tbl e \<longleftrightarrow>
     e \<noteq> None \<and> \<not> isOptionType (tbl ! the e) \<and> the e \<noteq> type_id T_Void \<and> the e \<noteq> type_id T_Nothing"

definition wf_option :: "type_table \<Rightarrow> DSType \<Rightarrow> bool" where
  "wf_option tbl t \<longleftrightarrow>
     (isOptionType t \<longrightarrow> superType t = None \<and> plain_element tbl (option_element (class_of t)))"

definition wf_entry :: "type_table \<Rightarrow> nat \<Rightarrow> bool" where
  "wf_entry tbl i \<longleftrightarrow>
     typeId (tbl ! i) = i \<and> wf_super tbl i (superType (tbl ! i))
     \<and> (\<forall>r \<in> set (type_refs (class_of (tbl ! i))). r < i) \<and> wf_option tbl (tbl ! i)"

definition base_types :: "type_table \<Rightarrow> bool" where
  "base_types tbl \<longleftrightarrow>
     33 \<le> length tbl \<and> (\<forall>i < 33. \<not> isOptionType (tbl ! i)) \<and> superType (tbl ! type_id T_Nothing) = None"

definition wf_table :: "type_table \<Rightarrow> bool" where
  "wf_table tbl \<longleftrightarrow> base_types tbl \<and> (\<forall>i < length tbl. wf_entry tbl i)"

definition names_ok :: "TypePool \<Rightarrow> bool" where
  "names_ok pool \<longleftrightarrow>
     (\<forall>name i. nameMap pool name = Some i \<longleftrightarrow>
        i < length (typeTable pool) \<and> nameRef (typeTable pool ! i) = name)"

text \<open>
  A method that was never looked up is an index into the native table, which fits the 16 bits of
  \<open>MethodHandle::methodIndex\<close>; a method handle has an id below the pool's counter.
\<close>

definition info_small :: "native_type_info \<Rightarrow> bool" where
  "info_small info \<longleftrightarrow> offset info + methodSize info \<le> 65536"

definition natives_small :: "Natives \<Rightarrow> bool" where
  "natives_small N \<longleftrightarrow> (\<forall>name. info_small (info_of N name))"

fun method_below :: "nat \<Rightarrow> MethodValue \<Rightarrow> bool" where
  "method_below n (MIndex k) \<longleftrightarrow> k < 65536"
| "method_below n (MHandle h) \<longleftrightarrow> methodId h < n"

definition methods_ok :: "TypePool \<Rightarrow> bool" where
  "methods_ok pool \<longleftrightarrow>
     (\<forall>i name v. methodMap pool (i, name) = Some v \<longrightarrow> 
        i < length (typeTable pool) \<and> method_below (methodIdCount pool) v)"

definition wf_pool :: "TypePool \<Rightarrow> bool" where
  "wf_pool pool \<longleftrightarrow>
     wf_table (typeTable pool) \<and> names_ok pool \<and> methods_ok pool
     \<and> length (typeTable pool) \<le> MAX_TYPE_NUM"

lemma option_element_ref: "option_element c = Some e \<Longrightarrow> e \<in> set (type_refs c)"
  by (cases c rule: option_element.cases) auto

lemma plain_element_append:
  "(\<And>e. el = Some e \<Longrightarrow> e < length tbl) \<Longrightarrow> plain_element (tbl @ ts) el \<longleftrightarrow> plain_element tbl el"
  by (auto simp: plain_element_def nth_append)

lemma wf_entry_append:
  assumes "i < length tbl"
  shows "wf_entry (tbl @ ts) i \<longleftrightarrow> wf_entry tbl i"
proof -
  have super: "wf_super (tbl @ ts) i super \<longleftrightarrow> wf_super tbl i super" for super
    using assms by (auto simp: wf_super_def nth_append split: option.splits)
  have option: "\<forall>r \<in> set (type_refs (class_of (tbl ! i))). r < i \<Longrightarrow>
      wf_option (tbl @ ts) (tbl ! i) \<longleftrightarrow> wf_option tbl (tbl ! i)"
    using assms plain_element_append [of "option_element (class_of (tbl ! i))" tbl ts]
    by (fastforce simp: wf_option_def dest: option_element_ref)
  show ?thesis using assms super option by (auto simp: wf_entry_def nth_append)
qed

lemma base_types_append: "base_types tbl \<Longrightarrow> base_types (tbl @ ts)"
  by (auto simp: base_types_def nth_append)

section \<open>Adding a type\<close>

lemma newType_simps:
  assumes "nameMap pool name = None"
  shows "typeTable (fst (newType pool name a super c)) =
      typeTable pool @ [\<lparr>nameRef = name, tag = make_tag a (length (typeTable pool)), superType = super,
        class_of = c\<rparr>]"
    and "methodMap (fst (newType pool name a super c)) = methodMap pool"
    and "methodIdCount (fst (newType pool name a super c)) = methodIdCount pool"
    and "snd (newType pool name a super c) = Inr i \<Longrightarrow> i = length (typeTable pool)"
  using assms by (auto simp: newType_def Let_def split: if_splits)

lemma newType_names:
  assumes ok: "names_ok pool" and fresh: "nameMap pool name = None" and "length (typeTable pool) < 2 ^ 24"
  shows "names_ok (fst (newType pool name a super c))"
proof -
  let ?tbl = "typeTable pool" and ?pool = "fst (newType pool name a super c)"
  have map: "nameMap ?pool = (nameMap pool)(name \<mapsto> length ?tbl)"
    using fresh assms(3) by (simp add: newType_def Let_def typeId_def typeId_make_tag)
  have old: "nameRef (?tbl ! i) \<noteq> name" if "i < length ?tbl" for i
    using ok fresh that by (metis names_ok_def option.distinct(1))
  have "nameMap ?pool n = Some i \<longleftrightarrow>
      i < length (typeTable ?pool) \<and> nameRef (typeTable ?pool ! i) = n" for n i
  proof (cases "i < length ?tbl")
    case True
    then show ?thesis using ok old [OF True]
      by (auto simp: names_ok_def map newType_simps(1) [OF fresh] nth_append)
  next
    case False
    then have "nameMap pool n \<noteq> Some i" using ok by (auto simp: names_ok_def)
    with False show ?thesis
      by (auto simp: map newType_simps(1) [OF fresh] nth_append)
  qed
  then show ?thesis by (simp add: names_ok_def)
qed

definition new_entry_ok :: "type_table \<Rightarrow> u32 \<Rightarrow> nat option \<Rightarrow> type_members \<Rightarrow> bool" where
  "new_entry_ok tbl a super c \<longleftrightarrow>
     a < 256 \<and> wf_super tbl (length tbl) super \<and> (\<forall>r \<in> set (type_refs c). r < length tbl)
     \<and> (hasFlag a (type_attr_bits OPTION_TYPE) \<longrightarrow> super = None \<and> plain_element tbl (option_element c))"

lemma wf_entry_new:
  assumes "new_entry_ok tbl a super c" "length tbl < 2 ^ 24"
  shows "wf_entry (tbl @ [\<lparr>nameRef = name, tag = make_tag a (length tbl), superType = super,
    class_of = c\<rparr>]) (length tbl)"
  using assms plain_element_append [of "option_element c" tbl]
  by (auto simp: option_element_ref wf_entry_def new_entry_ok_def typeId_def typeId_make_tag wf_super_def wf_option_def
      isOptionType_def attr_def attr_make_tag nth_append split: option.splits)

lemma newType_wf:
  assumes wf: "wf_pool pool" and room: "length (typeTable pool) < MAX_TYPE_NUM"
    and "nameMap pool name = None" "new_entry_ok (typeTable pool) a super c"
  shows "wf_pool (fst (newType pool name a super c))"
proof -
  have small: "length (typeTable pool) < 2 ^ 24" using room by (simp add: MAX_TYPE_NUM_def)
  note new = newType_simps [OF assms(3), of a super c]
  have "wf_table (typeTable (fst (newType pool name a super c)))"
    using wf wf_entry_new [OF assms(4) small] wf_entry_append base_types_append
    by (auto simp: wf_pool_def wf_table_def new(1) less_Suc_eq)
  moreover have "names_ok (fst (newType pool name a super c))"
    using wf assms(3) small by (intro newType_names) (auto simp: wf_pool_def)
  moreover have "methods_ok (fst (newType pool name a super c))"
    using wf by (auto simp: wf_pool_def methods_ok_def new(1-3) intro: less_SucI)
  ultimately show ?thesis using room by (simp add: wf_pool_def new(1))
qed

lemma registerHandle_simps [simp]:
  "typeTable (registerHandle pool t name i) = typeTable pool"
  "nameMap (registerHandle pool t name i) = nameMap pool"
  "methodIdCount (registerHandle pool t name i) = methodIdCount pool"
  by (auto simp: registerHandle_def split: option.splits)

lemma registerHandle_wf:
  "wf_pool pool \<Longrightarrow> t < length (typeTable pool) \<Longrightarrow> i < 65536 \<Longrightarrow> wf_pool (registerHandle pool t name i)"
  by (auto simp: wf_pool_def names_ok_def methods_ok_def registerHandle_def split: option.splits)

lemma registerHandles_simps [simp]:
  "typeTable (registerHandles N pool t info) = typeTable pool"
  "nameMap (registerHandles N pool t info) = nameMap pool"
  "methodIdCount (registerHandles N pool t info) = methodIdCount pool"
proof -
  have "typeTable (foldl (\<lambda>pool i. registerHandle pool t (f i) (g i)) pool xs) = typeTable pool \<and>
      nameMap (foldl (\<lambda>pool i. registerHandle pool t (f i) (g i)) pool xs) = nameMap pool \<and>
      methodIdCount (foldl (\<lambda>pool i. registerHandle pool t (f i) (g i)) pool xs) = methodIdCount pool"
    for f g and xs :: "nat list" by (induction xs arbitrary: pool) simp_all
  then show "typeTable (registerHandles N pool t info) = typeTable pool"
    "nameMap (registerHandles N pool t info) = nameMap pool"
    "methodIdCount (registerHandles N pool t info) = methodIdCount pool"
    by (simp_all add: registerHandles_def Let_def)
qed

lemma registerHandles_induct:
  assumes "P pool" "\<And>pool name i. P pool \<Longrightarrow> i < 65536 \<Longrightarrow> P (registerHandle pool t name i)" "info_small info"
  shows "P (registerHandles N pool t info)"
proof -
  have "P (foldl (\<lambda>pool i. registerHandle pool t (f i) (offset info + i)) pool xs)"
    if "\<forall>i \<in> set xs. i < methodSize info" for f and xs :: "nat list"
    using assms(1) that
  proof (induction xs arbitrary: pool)
    case (Cons i xs)
    then show ?case using assms(2) [of pool "offset info + i"] assms(3) by (auto simp: info_small_def)
  qed simp
  then show ?thesis by (simp add: registerHandles_def Let_def)
qed

lemma registerHandles_wf:
  assumes "wf_pool pool" "t < length (typeTable pool)" "info_small info"
  shows "wf_pool (registerHandles N pool t info)"
  using registerHandles_induct [of "\<lambda>pool. wf_pool pool \<and> t < length (typeTable pool)" pool t info N] assms
  by (auto simp: registerHandle_wf)

section \<open>Sub-typing is a partial order\<close>

text \<open>
  The reference: a type conforms to itself and to what its super type conforms to, \<open>Nothing\<close>
  conforms to everything, and what conforms to a type conforms to its option.
\<close>

inductive conforms :: "type_table \<Rightarrow> nat \<Rightarrow> nat \<Rightarrow> bool" for tbl where
  conforms_refl: "conforms tbl t t"
| conforms_nothing: "conforms tbl (type_id T_Nothing) s"
| conforms_up: "superType (tbl ! t) = Some u \<Longrightarrow> conforms tbl u s \<Longrightarrow> conforms tbl t s"
| conforms_option: "isOptionType (tbl ! s) \<Longrightarrow> option_element (class_of (tbl ! s)) = Some e \<Longrightarrow>
    conforms tbl t e \<Longrightarrow> conforms tbl t s"

lemma conforms_nothing_id [intro]: "conforms tbl 4 s"
  using conforms_nothing [of tbl s] by simp

lemma wf_tableD:
  assumes "wf_table tbl" "i < length tbl"
  shows "typeId (tbl ! i) = i"
    and "superType (tbl ! i) = Some u \<Longrightarrow> u < i \<and> \<not> isOptionType (tbl ! u) \<and> u \<noteq> type_id T_Nothing"
    and "r \<in> set (type_refs (class_of (tbl ! i))) \<Longrightarrow> r < i"
    and "isOptionType (tbl ! i) \<Longrightarrow> superType (tbl ! i) = None"
    and "isOptionType (tbl ! i) \<Longrightarrow>
      \<exists>info e. class_of (tbl ! i) = ReifiedType info [e] \<and> e < i \<and> \<not> isOptionType (tbl ! e)
        \<and> e \<noteq> type_id T_Nothing"
proof -
  have wf: "wf_entry tbl i" using assms by (simp add: wf_table_def)
  show "typeId (tbl ! i) = i" and "r \<in> set (type_refs (class_of (tbl ! i))) \<Longrightarrow> r < i"
    and "superType (tbl ! i) = Some u \<Longrightarrow> u < i \<and> \<not> isOptionType (tbl ! u) \<and> u \<noteq> type_id T_Nothing"
    and "isOptionType (tbl ! i) \<Longrightarrow> superType (tbl ! i) = None"
    using wf by (auto simp: wf_entry_def wf_super_def wf_option_def)
  assume "isOptionType (tbl ! i)"
  then have p: "plain_element tbl (option_element (class_of (tbl ! i)))"
    using wf by (simp add: wf_entry_def wf_option_def)
  then obtain e where e: "option_element (class_of (tbl ! i)) = Some e" by (auto simp: plain_element_def)
  then obtain info where c: "class_of (tbl ! i) = ReifiedType info [e]"
    by (cases "class_of (tbl ! i)" rule: option_element.cases) auto
  with wf p e show "\<exists>info e. class_of (tbl ! i) = ReifiedType info [e] \<and> e < i
      \<and> \<not> isOptionType (tbl ! e) \<and> e \<noteq> type_id T_Nothing"
    by (auto simp: wf_entry_def plain_element_def)
qed

lemma wf_table_nothing:
  assumes "wf_table tbl"
  shows "type_id T_Nothing < length tbl" "superType (tbl ! type_id T_Nothing) = None"
    "\<not> isOptionType (tbl ! type_id T_Nothing)"
  using assms by (auto simp: wf_table_def base_types_def)

lemma isNothingType_id: "wf_table tbl \<Longrightarrow> t < length tbl \<Longrightarrow> isNothingType (tbl ! t) \<longleftrightarrow> t = type_id T_Nothing"
  by (simp add: isNothingType_def is_type_def wf_tableD(1))

lemma conforms_to_option:
  assumes "conforms tbl t s" "wf_table tbl" "t < length tbl" "isOptionType (tbl ! s)"
    "option_element (class_of (tbl ! s)) = Some e"
  shows "t = s \<or> conforms tbl t e"
  using assms
proof (induction rule: conforms.induct)
  case (conforms_up t u s)
  then have "u < t" "u \<noteq> s" using wf_tableD(2) [of tbl t u] by auto
  with conforms_up have "conforms tbl u e" by auto
  with conforms_up show ?case by (blast intro: conforms.conforms_up)
qed (auto intro: conforms.intros)

lemma option_conforms:
  assumes "conforms tbl t s" "wf_table tbl" "t < length tbl" "isOptionType (tbl ! t)" "s < length tbl"
  shows "s = t"
  using assms
proof (induction rule: conforms.induct)
  case (conforms_nothing s)
  then show ?case using wf_table_nothing by blast
next
  case (conforms_up t u s)
  then show ?case using wf_tableD(4) [of tbl t] by simp
next
  case (conforms_option s e t)
  obtain info e' where "class_of (tbl ! s) = ReifiedType info [e']" "e' < s" "\<not> isOptionType (tbl ! e')"
    using wf_tableD(5) [of tbl s] conforms_option by blast
  with conforms_option show ?case by auto
qed simp

lemma conforms_nothingD:
  assumes "conforms tbl t s" "wf_table tbl" "t < length tbl" "s = type_id T_Nothing"
  shows "t = type_id T_Nothing"
  using assms
proof (induction rule: conforms.induct)
  case (conforms_up t u s)
  then show ?case using wf_tableD(2) [of tbl t u] by auto
next
  case (conforms_option s e t)
  then show ?case using wf_table_nothing(3) by blast
qed auto

lemma conforms_trans:
  assumes "conforms tbl a b" "conforms tbl b c" "wf_table tbl" "a < length tbl" "b < length tbl" "c < length tbl"
  shows "conforms tbl a c"
  using assms
proof (induction rule: conforms.induct)
  case (conforms_up t u s)
  then show ?case using wf_tableD(2) [of tbl t u] by (auto intro: conforms.conforms_up)
next
  case (conforms_option s e t)
  then have "c = s" using option_conforms [of tbl s c] by simp
  with conforms_option show ?case by (auto intro: conforms.conforms_option)
qed (auto intro: conforms.intros)

lemma conforms_below:
  assumes "conforms tbl t s" "wf_table tbl" "t < length tbl"
  shows "t = s \<or> t = type_id T_Nothing \<or> s < t \<or> isOptionType (tbl ! s)"
  using assms
proof (induction rule: conforms.induct)
  case (conforms_up t u s)
  then show ?case using wf_tableD(2) [of tbl t u] by auto
qed auto

lemma conforms_antisym:
  assumes "conforms tbl a b" "conforms tbl b a" "wf_table tbl" "a < length tbl" "b < length tbl"
  shows "a = b"
proof (cases "isOptionType (tbl ! a) \<or> isOptionType (tbl ! b)")
  case True
  then show ?thesis using assms option_conforms [of tbl] by metis
next
  case False
  then show ?thesis
    using assms conforms_below [of tbl a b] conforms_below [of tbl b a] conforms_nothingD [of tbl] by auto
qed

lemma isSameOrBaseTypeOf_conforms:
  assumes "wf_table tbl" "this < length tbl" "target < length tbl"
  shows "isSameOrBaseTypeOf tbl this target = Some (conforms tbl target this)"
  using assms(2,3)
proof (induction "this + target" arbitrary: this target rule: less_induct)
  case less
  note wf = assms(1)
  note step = isSameOrBaseTypeOf.simps [of tbl this target]
  consider "this = target" | "this \<noteq> target" "target = type_id T_Nothing"
    | (option) "this \<noteq> target" "target \<noteq> type_id T_Nothing" "isOptionType (tbl ! this)"
    | (super) "this \<noteq> target" "target \<noteq> type_id T_Nothing" "\<not> isOptionType (tbl ! this)" by blast
  then show ?case
  proof cases
    case option
    then obtain info e where e: "class_of (tbl ! this) = ReifiedType info [e]" "e < this"
      using wf_tableD(5) [OF wf less.prems(1)] by blast
    have "isSameOrBaseTypeOf tbl e target = Some (conforms tbl target e)"
      using e less.prems by (intro less.hyps) auto
    moreover have "conforms tbl target e \<longleftrightarrow> conforms tbl target this"
      using option e conforms_to_option [of tbl target this e] less.prems wf
      by (auto intro: conforms_option)
    ultimately show ?thesis using option e less.prems step isNothingType_id [OF wf] by simp
  next
    case super
    show ?thesis
    proof (cases "superType (tbl ! target)")
      case None
      then have "\<not> conforms tbl target this"
        using super by (auto elim: conforms.cases)
      then show ?thesis using None super less.prems step isNothingType_id [OF wf] by simp
    next
      case (Some u)
      then have u: "u < target" using wf_tableD(2) [OF wf less.prems(2)] by blast
      have "isSameOrBaseTypeOf tbl this u = Some (conforms tbl u this)"
        using u less.prems by (intro less.hyps) auto
      moreover have "conforms tbl u this \<longleftrightarrow> conforms tbl target this"
        using super Some by (auto elim: conforms.cases intro: conforms_up)
      ultimately show ?thesis using Some super less.prems step isNothingType_id [OF wf] by simp
    qed
  qed (use step isNothingType_id [OF wf] less.prems in \<open>auto intro: conforms.intros\<close>)
qed

section \<open>Every operation keeps the pool well-formed\<close>

definition live :: "TypePool \<Rightarrow> nat \<Rightarrow> bool" where
  "live pool t \<longleftrightarrow> t < length (typeTable pool)"

text \<open>
  What the creation of types may do to a pool: keep it well-formed, add types at the end and
  methods of the new types.
\<close>

definition extends :: "TypePool \<Rightarrow> TypePool \<Rightarrow> bool" where
  "extends pool pool' \<longleftrightarrow>
     wf_pool pool' \<and> (\<exists>ts. typeTable pool' = typeTable pool @ ts) \<and> methodIdCount pool' = methodIdCount pool
     \<and> (\<forall>i name. i < length (typeTable pool) \<longrightarrow> methodMap pool' (i, name) = methodMap pool (i, name))"

definition has_room :: "TypePool \<Rightarrow> bool" where
  "has_room pool \<longleftrightarrow> length (typeTable pool) < MAX_TYPE_NUM"

definition result_ok :: "TypePool \<Rightarrow> nat pool_result \<Rightarrow> bool" where
  "result_ok pool res \<longleftrightarrow>
     extends pool (fst res) \<and> (\<forall>t. snd res = Inr t \<longrightarrow> live (fst res) t)
     \<and> (snd res \<noteq> Inl TypeIdLimit \<longrightarrow> has_room (fst res))"

lemma result_ok_same: "wf_pool pool \<Longrightarrow> has_room pool \<Longrightarrow> (\<And>t. r = Inr t \<Longrightarrow> live pool t) \<Longrightarrow> result_ok pool (pool, r)"
  by (auto simp: result_ok_def extends_def)

lemma wf_pool_name_live: "wf_pool pool \<Longrightarrow> nameMap pool name = Some t \<Longrightarrow> live pool t"
  by (auto simp: wf_pool_def names_ok_def live_def)

lemma newType_ok:
  assumes "wf_pool pool" "has_room pool" "nameMap pool name = None" "new_entry_ok (typeTable pool) a super c"
  shows "result_ok pool (newType pool name a super c)"
proof -
  have "length (typeTable (fst (newType pool name a super c))) \<noteq> MAX_TYPE_NUM"
    if "snd (newType pool name a super c) \<noteq> Inl TypeIdLimit"
    using that by (auto simp: newType_def Let_def split: if_splits)
  with assms newType_wf [of pool name a super c] newType_simps [OF assms(3)] show ?thesis
    by (auto simp: result_ok_def extends_def has_room_def live_def)
qed

lemma internType_ok:
  assumes "wf_pool pool" "has_room pool" "info_small info"
    and "nameMap pool name = None \<Longrightarrow> new_entry_ok (typeTable pool) a super c"
  shows "result_ok pool (internType N pool name a super c info)"
proof (cases "nameMap pool name")
  case None
  then have new: "result_ok pool (newType pool name a super c)"
    using assms by (intro newType_ok) auto
  obtain pool' r where r: "newType pool name a super c = (pool', r)" by fastforce
  have other: "\<forall>name. i \<noteq> t \<longrightarrow>
      methodMap (registerHandles N pool' t info) (i, name) = methodMap pool' (i, name)" for i t
    by (rule registerHandles_induct [OF _ _ assms(3)]) (auto simp: registerHandle_def split: option.splits)
  have t: "r = Inr t \<Longrightarrow> t = length (typeTable pool)" for t
    using newType_simps(4) [OF None] r by (metis snd_conv)
  show ?thesis
    using new None r registerHandles_wf [of pool'] assms(3) other t
    by (cases r) (auto simp: internType_def result_ok_def extends_def live_def has_room_def)
next
  case (Some t)
  then show ?thesis using assms(1,2) wf_pool_name_live [OF assms(1) Some]
    by (auto simp: internType_def intro: result_ok_same)
qed

lemma base_ids:
  assumes "wf_pool pool"
  shows "wf_super (typeTable pool) (length (typeTable pool)) (Some (type_id T_Any))"
    "wf_super (typeTable pool) (length (typeTable pool)) (Some (type_id T_Func))"
  using assms by (auto simp: wf_pool_def wf_table_def base_types_def wf_super_def)

lemma createTupleType_ok:
  assumes "wf_pool pool" "has_room pool" "\<forall>t \<in> set ts. live pool t" "natives_small N"
  shows "result_ok pool (createTupleType N pool ts)"
proof -
  have "new_entry_ok (typeTable pool) (type_attr_bits REIFIED_TYPE) (Some (type_id T_Any)) (TupleType info ts hs)"
    for info hs
    using assms base_ids(1) [OF assms(1)] by (auto simp: new_entry_ok_def live_def hasFlag_def)
  then show ?thesis
    using assms(1,2,4)
    by (auto simp: createTupleType_def tupleTemplate_def natives_small_def
        intro: internType_ok result_ok_same split: option.splits)
qed

lemma createFuncType_ok:
  assumes "wf_pool pool" "has_room pool" "\<forall>t \<in> set (ret # ts). live pool t"
  shows "result_ok pool (createFuncType pool ret ts)"
proof -
  have "result_ok pool (newType pool name (type_attr_bits FUNC_TYPE) (Some (type_id T_Func)) (FunctionType ret ts))"
    if "nameMap pool name = None" for name
    using assms that base_ids(2) [OF assms(1)]
    by (intro newType_ok) (auto simp: new_entry_ok_def live_def hasFlag_def)
  then show ?thesis
    using assms(1,2) wf_pool_name_live [OF assms(1)]
    by (auto simp: createFuncType_def Let_def intro: result_ok_same split: option.splits)
qed

lemma createModType_ok:
  assumes "wf_pool pool" "has_room pool"
  shows "result_ok pool (createModType pool mod_id handles children index)"
proof -
  have "result_ok pool (newType pool name (type_attr_bits MODULE_TYPE) (Some (type_id T_Any))
      (ModType mod_id index children handles))"
    if "nameMap pool name = None" for name
    using assms that base_ids(1) [OF assms(1)]
    by (intro newType_ok) (auto simp: new_entry_ok_def live_def hasFlag_def)
  then show ?thesis
    using assms(1,2) wf_pool_name_live [OF assms(1)]
    by (auto simp: createModType_def Let_def intro: result_ok_same split: option.splits)
qed

lemma wf_pool_ids:
  assumes "wf_pool pool" "live pool t"
  shows "isNothingType (typeTable pool ! t) \<longleftrightarrow> t = type_id T_Nothing"
    "isVoidType (typeTable pool ! t) \<longleftrightarrow> t = type_id T_Void"
  using assms wf_tableD(1) [of "typeTable pool" t]
  by (auto simp: wf_pool_def live_def isNothingType_def isVoidType_def is_type_def)

text \<open>An option is asked for with one element type, as the code reads the first one unchecked.\<close>

lemma createReifiedType_ok:
  assumes "wf_pool pool" "has_room pool" "\<forall>t \<in> set ts. live pool t"
    and "temp_name template = TYPE_OPTION \<Longrightarrow> length ts = 1" "natives_small N" "info_small (temp_info template)"
  shows "result_ok pool (createReifiedType N pool template ts)"
proof -
  have plain: "new_entry_ok (typeTable pool) (setFlag 0 (type_attr_bits REIFIED_TYPE))
      (Some (type_id T_Any)) (ReifiedType info ts)" for info
    using assms base_ids(1) [OF assms(1)]
    by (auto simp: new_entry_ok_def live_def hasFlag_def setFlag_def)
  have option: "new_entry_ok (typeTable pool)
      (setFlag (type_attr_bits OPTION_TYPE) (type_attr_bits REIFIED_TYPE)) None (ReifiedType info ts)"
    if "ts = [e]" "\<not> isOptionType (typeTable pool ! e)"
      "\<not> isVoidType (typeTable pool ! e)" "\<not> isNothingType (typeTable pool ! e)" for info e
    using assms(1-3) that wf_pool_ids [OF assms(1), of e]
    by (auto simp: new_entry_ok_def live_def hasFlag_def setFlag_def wf_super_def plain_element_def)
  have same: "result_ok pool (pool, Inl e)" "live pool t \<Longrightarrow> result_ok pool (pool, Inr t)" for e t
    using assms(1,2) by (auto intro: result_ok_same)
  show ?thesis
  proof (cases "temp_name template = TYPE_OPTION")
    case True
    then obtain e where e: "ts = [e]" using assms(4) by (cases ts) auto
    show ?thesis
      using True e same assms option [OF e]
      by (auto simp: createReifiedType_def Let_def intro: internType_ok)
  next
    case False
    with plain show ?thesis
      using createTupleType_ok [OF assms(1-3,5)] same assms(1,2,6)
      by (cases "checkElementTypes pool template ts")
        (auto simp: createReifiedType_def Let_def intro: internType_ok)
  qed
qed

section \<open>The initial pool\<close>

definition builtin_entry :: "Natives \<Rightarrow> nat \<times> string \<times> bool \<times> type_enum option \<times> string \<Rightarrow> DSType" where
  "builtin_entry N e = (case e of (i, name, ext, super, info) \<Rightarrow>
     \<lparr>nameRef = name, tag = make_tag (if ext then type_attr_bits EXTENDIBLE else 0) i,
      superType = map_option type_id super, class_of = BuiltinType (info_of N info)\<rparr>)"

definition error_entry :: "nat \<times> string \<Rightarrow> DSType" where
  "error_entry e = \<lparr>nameRef = snd e, tag = make_tag (type_attr_bits EXTENDIBLE) (fst e),
     superType = Some (type_id T_Error), class_of = ErrorType\<rparr>"

definition tables_ok :: "TypePool \<Rightarrow> bool" where
  "tables_ok pool \<longleftrightarrow> names_ok pool \<and> methods_ok pool"

lemma fresh_name:
  assumes "names_ok pool" "name \<notin> nameRef ` set (typeTable pool)"
  shows "nameMap pool name = None"
proof (rule ccontr)
  assume "nameMap pool name \<noteq> None"
  then obtain i where "i < length (typeTable pool)" "nameRef (typeTable pool ! i) = name"
    using assms(1) by (auto simp: names_ok_def)
  with assms(2) show False by auto
qed

lemma registerHandles_tables_ok:
  assumes "tables_ok pool" "t < length (typeTable pool)" "info_small info"
  shows "tables_ok (registerHandles N pool t info)"
proof -
  have one: "tables_ok (registerHandle pool t name i)"
    if "tables_ok pool" "t < length (typeTable pool)" "i < 65536" for pool name i
    using that by (auto simp: tables_ok_def names_ok_def methods_ok_def registerHandle_def split: option.splits)
  show ?thesis
    using registerHandles_induct [of "\<lambda>pool. tables_ok pool \<and> t < length (typeTable pool)" pool t info N] assms
    by (auto simp: one)
qed

lemma newType_tables_ok:
  assumes "tables_ok pool" "nameMap pool name = None" "length (typeTable pool) < 2 ^ 24"
  shows "tables_ok (fst (newType pool name a super c))"
  using assms newType_names [of pool name a super c] newType_simps [OF assms(2), of a super c]
  by (auto simp: tables_ok_def methods_ok_def intro: less_SucI)

lemma initBuiltinType_table:
  assumes "tables_ok pool" "name \<notin> nameRef ` set (typeTable pool)" "length (typeTable pool) + 1 < MAX_TYPE_NUM"
    "natives_small N"
  shows "typeTable (initBuiltinType N pool name ext super info) =
      typeTable pool @ [builtin_entry N (length (typeTable pool), name, ext, super, info)]"
    and "tables_ok (initBuiltinType N pool name ext super info)"
proof -
  let ?r = "newType pool name (if ext then type_attr_bits EXTENDIBLE else 0) (map_option type_id super)
    (BuiltinType (info_of N info))"
  have fresh: "nameMap pool name = None" using assms by (simp add: fresh_name tables_ok_def)
  have r: "snd ?r = Inr (length (typeTable pool))"
    using assms(3) fresh by (simp add: newType_def Let_def)
  then have i: "initBuiltinType N pool name ext super info =
      registerHandles N (fst ?r) (length (typeTable pool)) (info_of N info)"
    by (cases ?r) (simp add: initBuiltinType_def)
  then show "typeTable (initBuiltinType N pool name ext super info) =
      typeTable pool @ [builtin_entry N (length (typeTable pool), name, ext, super, info)]"
    by (simp add: newType_simps(1) [OF fresh] builtin_entry_def)
  have "tables_ok (fst ?r)"
    using assms fresh by (intro newType_tables_ok) (simp_all add: MAX_TYPE_NUM_def)
  then show "tables_ok (initBuiltinType N pool name ext super info)"
    unfolding i using assms(4)
    by (intro registerHandles_tables_ok) (simp_all add: newType_simps(1) [OF fresh] natives_small_def)
qed

lemma init_builtins_table:
  assumes "tables_ok pool" "distinct (map nameRef (typeTable pool) @ map fst l)"
    "length (typeTable pool) + length l < MAX_TYPE_NUM" "natives_small N"
  shows "typeTable (init_builtins N pool l) =
      typeTable pool @ map (builtin_entry N) (enumerate (length (typeTable pool)) l)
    \<and> tables_ok (init_builtins N pool l)"
  using assms
proof (induction l arbitrary: pool)
  case (Cons e l)
  obtain name ext super info where e: "e = (name, ext, super, info)" by (cases e)
  let ?pool = "initBuiltinType N pool name ext super info"
  have "name \<notin> nameRef ` set (typeTable pool)" "length (typeTable pool) + 1 < MAX_TYPE_NUM"
    using Cons.prems e by auto
  note step = initBuiltinType_table [OF Cons.prems(1) this assms(4), of ext super info]
  have "typeTable (init_builtins N ?pool l) =
      typeTable ?pool @ map (builtin_entry N) (enumerate (length (typeTable ?pool)) l)
    \<and> tables_ok (init_builtins N ?pool l)"
    using Cons.prems e step by (intro Cons.IH) (auto simp: builtin_entry_def)
  then show ?case using step e by (simp add: init_builtins_def)
qed (simp add: init_builtins_def)

lemma init_errors_table:
  assumes "tables_ok pool" "distinct (map nameRef (typeTable pool) @ l)"
    "length (typeTable pool) + length l < MAX_TYPE_NUM"
  shows "typeTable (foldl initErrorType pool l) =
      typeTable pool @ map error_entry (enumerate (length (typeTable pool)) l)
    \<and> tables_ok (foldl initErrorType pool l)"
  using assms
proof (induction l arbitrary: pool)
  case (Cons name l)
  let ?pool = "initErrorType pool name"
  have fresh: "nameMap pool name = None"
    using Cons.prems by (auto simp: tables_ok_def intro: fresh_name)
  have "tables_ok ?pool"
    unfolding initErrorType_def
    using Cons.prems fresh by (intro newType_tables_ok) (simp_all add: MAX_TYPE_NUM_def)
  moreover have t: "typeTable ?pool = typeTable pool @ [error_entry (length (typeTable pool), name)]"
    by (simp add: initErrorType_def newType_simps(1) [OF fresh] error_entry_def)
  ultimately have "typeTable (foldl initErrorType ?pool l) =
      typeTable ?pool @ map error_entry (enumerate (length (typeTable ?pool)) l)
    \<and> tables_ok (foldl initErrorType ?pool l)"
    using Cons.prems by (intro Cons.IH) (auto simp: error_entry_def)
  then show ?case using t by simp
qed simp

definition string_array_entry :: "Natives \<Rightarrow> DSType" where
  "string_array_entry N = \<lparr>nameRef = ''[String]'', tag = make_tag (type_attr_bits REIFIED_TYPE) 18,
     superType = Some (type_id T_Any),
     class_of = ReifiedType (info_of N ''info_ArrayType'') [type_id T_String]\<rparr>"

definition first_table :: "Natives \<Rightarrow> type_table" where
  "first_table N = map (builtin_entry N) (enumerate 0 builtin_types)"

lemma tables_ok_empty: "tables_ok empty_pool"
  by (simp add: tables_ok_def names_ok_def methods_ok_def empty_pool_def)

lemma first_stage:
  assumes "natives_small N"
  shows "typeTable (init_builtins N empty_pool builtin_types) = first_table N
   \<and> tables_ok (init_builtins N empty_pool builtin_types)"
proof -
  have "distinct (map nameRef (typeTable empty_pool) @ map fst builtin_types)"
    "length (typeTable empty_pool) + length builtin_types < MAX_TYPE_NUM"
    by (simp_all add: empty_pool_def builtin_types_def MAX_TYPE_NUM_def)
  from init_builtins_table [OF tables_ok_empty this assms] show ?thesis
    by (simp add: first_table_def empty_pool_def)
qed

lemma first_table_nth:
  "first_table N ! 2 = builtin_entry N (2, ''Any'', True, Some T_Root, ''info_AnyType'')"
  "first_table N ! 5 = builtin_entry N (5, ''Value%%'', True, Some T_Any, ''info_Dummy'')"
  "first_table N ! 9 = builtin_entry N (9, ''String'', False, Some T_Value, ''info_StringType'')"
  "length (first_table N) = 18" "map nameRef (first_table N) = map fst builtin_types"
  by (simp_all add: first_table_def builtin_types_def builtin_entry_def eval_nat_numeral del: of_nat_Suc)

lemma entry_id: "i < 2 ^ 24 \<Longrightarrow> typeId (builtin_entry N (i, e)) = i"
  by (cases e) (simp add: builtin_entry_def typeId_def typeId_make_tag)

lemma entry_attr: "i < 2 ^ 24 \<Longrightarrow> \<not> isOptionType (builtin_entry N (i, name, ext, super, info))"
  by (simp add: builtin_entry_def isOptionType_def attr_def attr_make_tag hasFlag_def)

lemma string_array_created:
  assumes "typeTable pool = first_table N" "tables_ok pool" "natives_small N"
  shows "typeTable (fst (createReifiedType N pool (arrayTemplate N) [type_id T_String])) =
      first_table N @ [string_array_entry N]
    \<and> tables_ok (fst (createReifiedType N pool (arrayTemplate N) [type_id T_String]))"
proof -
  have 1: "isSameOrBaseTypeOf (first_table N) 2 9 = Some True"
    by (subst isSameOrBaseTypeOf.simps, simp add: first_table_nth entry_attr isNothingType_def is_type_def
        entry_id builtin_entry_def [of N "(9, _)"])
      (subst isSameOrBaseTypeOf.simps, simp add: first_table_nth entry_attr isNothingType_def is_type_def
        entry_id builtin_entry_def [of N "(5, _)"],
       simp add: isSameOrBaseTypeOf.simps)
  have "acceptable pool 2 9"
    using assms(1) 1 by (simp add: acceptable_def first_table_nth isNothingType_def is_type_def entry_id)
  then have check: "checkElementTypes pool (arrayTemplate N) [type_id T_String] = None"
    by (simp add: checkElementTypes_def arrayTemplate_def)
  have fresh: "nameMap pool ''[String]'' = None"
  proof (rule fresh_name)
    show "names_ok pool" using assms(2) by (simp add: tables_ok_def)
    have "nameRef ` set (typeTable pool) = set (map fst builtin_types)"
      using arg_cong [OF first_table_nth(5) [of N], of set] by (simp add: assms(1))
    then show "''[String]'' \<notin> nameRef ` set (typeTable pool)" by (simp add: builtin_types_def)
  qed
  have name: "toReifiedTypeName pool (arrayTemplate N) [type_id T_String] = ''[String]''"
    using assms(1) by (simp add: toReifiedTypeName_def arrayTemplate_def arrayTypeName_def type_name_def
        first_table_nth builtin_entry_def)
  let ?r = "newType pool ''[String]'' (type_attr_bits REIFIED_TYPE) (Some (type_id T_Any))
      (ReifiedType (info_of N ''info_ArrayType'') [type_id T_String])"
  have r: "snd ?r = Inr 18"
    using assms(1) fresh by (simp add: newType_def Let_def first_table_nth MAX_TYPE_NUM_def)
  have c: "createReifiedType N pool (arrayTemplate N) [type_id T_String] =
      (registerHandles N (fst ?r) 18 (info_of N ''info_ArrayType''), Inr 18)"
    using r check name fresh
    by (cases ?r) (simp add: createReifiedType_def internType_def arrayTemplate_def setFlag_def)
  have t: "typeTable (fst ?r) = first_table N @ [string_array_entry N]"
    by (simp add: newType_simps(1) [OF fresh] assms(1) first_table_nth string_array_entry_def)
  have "tables_ok (fst ?r)"
    using assms fresh by (intro newType_tables_ok) (simp_all add: first_table_nth)
  then show ?thesis
    unfolding c using t assms(3)
    by (auto simp: first_table_nth natives_small_def intro: registerHandles_tables_ok)
qed

definition initial_table :: "Natives \<Rightarrow> type_table" where
  "initial_table N = first_table N @ [string_array_entry N] @ map error_entry (enumerate 19 error_types)
     @ map (builtin_entry N) (enumerate 30 status_types)"

lemma TypePool_init_table:
  assumes "natives_small N"
  shows "typeTable (TypePool_init N) = initial_table N \<and> tables_ok (TypePool_init N)"
proof -
  define p1 where "p1 = init_builtins N empty_pool builtin_types"
  define p2 where "p2 = fst (createReifiedType N p1 (arrayTemplate N) [type_id T_String])"
  define p3 where "p3 = foldl initErrorType p2 error_types"
  have p1: "typeTable p1 = first_table N" "tables_ok p1" using first_stage [OF assms] by (simp_all add: p1_def)
  have p2: "typeTable p2 = first_table N @ [string_array_entry N]" "tables_ok p2"
    using string_array_created [OF p1 assms] by (simp_all add: p2_def)
  have n2: "map nameRef (typeTable p2) = map fst builtin_types @ [''[String]'']"
    by (simp add: p2(1) first_table_nth string_array_entry_def)
  have "typeTable p3 = typeTable p2 @ map error_entry (enumerate 19 error_types) \<and> tables_ok p3"
    using init_errors_table [OF p2(2), of error_types] unfolding p3_def n2
    by (simp add: p2(1) first_table_nth error_types_def builtin_types_def MAX_TYPE_NUM_def)
  then have p3: "typeTable p3 = typeTable p2 @ map error_entry (enumerate 19 error_types)" "tables_ok p3"
    by blast+
  have n3: "map nameRef (typeTable p3) = map fst builtin_types @ [''[String]''] @ error_types"
    unfolding p3 map_append n2 by (simp add: error_entry_def o_def)
  have "length (typeTable p3) = 30" by (simp add: p3 p2 first_table_nth error_types_def)
  then have "typeTable (init_builtins N p3 status_types) =
      typeTable p3 @ map (builtin_entry N) (enumerate 30 status_types)
    \<and> tables_ok (init_builtins N p3 status_types)"
    using init_builtins_table [OF p3(2), of status_types N] assms unfolding n3
    by (simp add: status_types_def error_types_def builtin_types_def MAX_TYPE_NUM_def)
  moreover have "TypePool_init N = init_builtins N p3 status_types"
    by (simp add: TypePool_init_def p1_def p2_def p3_def Let_def)
  ultimately show ?thesis by (simp add: p3 p2 initial_table_def)
qed

lemma error_id: "i < 2 ^ 24 \<Longrightarrow> typeId (error_entry (i, name)) = i"
  by (simp add: error_entry_def typeId_def typeId_make_tag)

lemma string_array_id: "typeId (string_array_entry N) = 18"
  by (simp add: string_array_entry_def typeId_def typeId_make_tag)

lemma attr_not_option: "i < 2 ^ 24 \<Longrightarrow> a \<in> {0, 1, 2, 8} \<Longrightarrow> \<not> isOptionType \<lparr>nameRef = n, tag = make_tag a i, superType = su, class_of = c\<rparr>"
  by (auto simp: isOptionType_def attr_def attr_make_tag hasFlag_def)

lemma initial_table_wf: "wf_table (initial_table N)"
proof -
  have len: "length (initial_table N) = 33"
    by (simp add: initial_table_def first_table_nth error_types_def status_types_def)
  have opt: "list_all (\<lambda>t. \<not> isOptionType t) (initial_table N)"
    by (simp add: initial_table_def first_table_def builtin_types_def error_types_def status_types_def
        builtin_entry_def error_entry_def string_array_entry_def attr_not_option)
  then have opt': "\<not> isOptionType (initial_table N ! i)" if "i < 33" for i
    using that len by (simp add: list_all_length)
  have "list_all (\<lambda>(i, t). typeId t = i \<and> (case superType t of None \<Rightarrow> True | Some s \<Rightarrow> s < i \<and> s \<noteq> 4)
      \<and> list_all (\<lambda>r. r < i) (type_refs (class_of t))) (enumerate 0 (initial_table N))"
    by (simp add: initial_table_def first_table_def builtin_types_def error_types_def status_types_def
        builtin_entry_def error_entry_def string_array_entry_def typeId_def typeId_make_tag)
  then have entry: "typeId (initial_table N ! i) = i \<and>
      (case superType (initial_table N ! i) of None \<Rightarrow> True | Some s \<Rightarrow> s < i \<and> s \<noteq> 4)
      \<and> list_all (\<lambda>r. r < i) (type_refs (class_of (initial_table N ! i)))" if "i < 33" for i
    using that len by (auto simp: list_all_length nth_enumerate_eq)
  have "wf_entry (initial_table N) i" if "i < 33" for i
    using entry [OF that] opt' that
    by (auto simp: wf_entry_def wf_super_def wf_option_def list_all_iff split: option.splits)
  moreover have "superType (initial_table N ! 4) = None"
    by (simp add: initial_table_def first_table_def builtin_types_def builtin_entry_def eval_nat_numeral)
  ultimately show ?thesis
    using opt len by (auto simp: wf_table_def base_types_def list_all_length)
qed

lemma TypePool_init_wf:
  assumes "natives_small N"
  shows "wf_pool (TypePool_init N)"
proof -
  have "length (initial_table N) = 33"
    by (simp add: initial_table_def first_table_nth error_types_def status_types_def)
  then show ?thesis
    using TypePool_init_table [OF assms] initial_table_wf [of N]
    by (simp add: wf_pool_def tables_ok_def MAX_TYPE_NUM_def)
qed

lemma subtyping_partial_order:
  assumes "wf_table tbl" "a < length tbl" "b < length tbl" "c < length tbl"
  shows "isSameOrBaseTypeOf tbl a b \<noteq> None"
    and "isSameOrBaseTypeOf tbl a a = Some True"
    and "isSameOrBaseTypeOf tbl a (type_id T_Nothing) = Some True"
    and "isSameOrBaseTypeOf tbl a b = Some True \<Longrightarrow> isSameOrBaseTypeOf tbl b c = Some True \<Longrightarrow>
      isSameOrBaseTypeOf tbl a c = Some True"
    and "isSameOrBaseTypeOf tbl a b = Some True \<Longrightarrow> isSameOrBaseTypeOf tbl b a = Some True \<Longrightarrow> a = b"
  using assms conforms_trans [of tbl c b a] conforms_antisym [of tbl a b]
    wf_table_nothing(1) [OF assms(1)]
  by (auto simp: isSameOrBaseTypeOf_conforms intro: conforms_refl)

end
