(* ===== verification/Rollback.thy ===== *)
theory Rollback
  imports Prelude
begin

text \<open>
  The contract of the components that a failed compilation rolls back (\<open>DiscardPoint\<close> in
  \<open>scope.h\<close>): the type pool, the scope of a module and the module loader. Each takes a point of
  its state, only adds to the state in its steps, and gets back what can be seen of the state at
  the point by discarding to it.
\<close>

locale rollback =
  fixes ok closed :: "'s \<Rightarrow> bool"
    and step grown :: "'s \<Rightarrow> 's \<Rightarrow> bool"
    and point :: "'s \<Rightarrow> 'p"
    and discard :: "'s \<Rightarrow> 'p \<Rightarrow> 's"
    and view :: "'s \<Rightarrow> 'v"
  assumes grown_refl: "ok s \<Longrightarrow> grown s s"
    and grown_trans: "grown s t \<Longrightarrow> grown t u \<Longrightarrow> grown s u"
    and grown_ok: "ok s \<Longrightarrow> grown s t \<Longrightarrow> ok t"
    and step_grown: "ok s \<Longrightarrow> step s t \<Longrightarrow> grown s t"
    and discard_grown: "ok s \<Longrightarrow> grown s t \<Longrightarrow> closed t \<Longrightarrow> view (discard t (point s)) = view s"
begin

lemma run_grown: "step\<^sup>*\<^sup>* s t \<Longrightarrow> ok s \<Longrightarrow> grown s t"
  by (induction rule: rtranclp_induct) (auto intro: grown_refl grown_trans step_grown dest: grown_ok)

lemma run_ok: "step\<^sup>*\<^sup>* s t \<Longrightarrow> ok s \<Longrightarrow> ok t"
  using run_grown grown_ok by blast

lemma discard_run: "step\<^sup>*\<^sup>* s t \<Longrightarrow> ok s \<Longrightarrow> closed t \<Longrightarrow> view (discard t (point s)) = view s"
  using run_grown discard_grown by blast

end

end
