(* ===== verification/Type_Methods.thy ===== *)
theory Type_Methods
  imports Type_Order Rollback
begin

text \<open>
  Method handles and the pool's rollback: the decoder of the serialized method signatures
  (\<open>TypeDecoder\<close>), \<open>allocMethodHandle\<close> and \<open>lookupMethod\<close>, which instantiate a native method on
  first use and may create types on the way, and \<open>discard\<close>, which takes the pool back to an
  earlier point.
\<close>

section \<open>Decoding signatures\<close>

text \<open>
  A decoding step returns the pool, the cursor and the result. \<open>None\<close> stands for a
  malformed signature, which the code excludes by assertions and \<open>fatal\<close>. A call consumes
  an element of the cursor, so that its length is enough fuel.
\<close>

type_synonym 'a decoded = "(TypePool \<times> HandleInfo list \<times> (TypeLookupError + 'a)) option"

definition and_then ::
  "'a decoded \<Rightarrow> (TypePool \<Rightarrow> HandleInfo list \<Rightarrow> 'a \<Rightarrow> 'b decoded) \<Rightarrow> 'b decoded"
where
  "and_then m f =
     (case m of
        None \<Rightarrow> None
      | Some (pool, cur, Inl e) \<Rightarrow> Some (pool, cur, Inl e)
      | Some (pool, cur, Inr x) \<Rightarrow> f pool cur x)"

definition created :: "HandleInfo list \<Rightarrow> nat pool_result \<Rightarrow> nat decoded" where
  "created cur res = Some (fst res, cur, snd res)"

fun decodeNum :: "HandleInfo list \<Rightarrow> (nat \<times> HandleInfo list) option" where
  "decodeNum (H_Num n # cur) = Some (n, cur)"
| "decodeNum _ = None"

fun decode :: "nat \<Rightarrow> Natives \<Rightarrow> nat list \<Rightarrow> TypePool \<Rightarrow> HandleInfo list \<Rightarrow> nat decoded"
  and decode_list :: "nat \<Rightarrow> Natives \<Rightarrow> nat list \<Rightarrow> TypePool \<Rightarrow> HandleInfo list \<Rightarrow> nat \<Rightarrow> nat list decoded"
where
  "decode 0 N types pool cur = None"
| "decode (Suc fuel) N types pool [] = None"
| "decode (Suc fuel) N types pool (h # cur) =
     (case h of
        H_Type t \<Rightarrow> Some (pool, cur, Inr (type_id t))
      | H_Array \<Rightarrow>
          (case decodeNum cur of
             Some (n, cur) \<Rightarrow>
               if n = 1 then and_then (decode_list fuel N types pool cur n)
                 (\<lambda>pool cur ts. created cur (createReifiedType N pool (arrayTemplate N) ts))
               else None
           | None \<Rightarrow> None)
      | H_Map \<Rightarrow>
          (case decodeNum cur of
             Some (n, cur) \<Rightarrow>
               if n = 2 then and_then (decode_list fuel N types pool cur n)
                 (\<lambda>pool cur ts. created cur (createReifiedType N pool (mapTemplate N) ts))
               else None
           | None \<Rightarrow> None)
      | H_Tuple \<Rightarrow>
          (case decodeNum cur of
             Some (n, cur) \<Rightarrow>
               if n = 0 then created cur (createTupleType N pool types)
               else and_then (decode_list fuel N types pool cur n)
                 (\<lambda>pool cur ts. created cur (createTupleType N pool ts))
           | None \<Rightarrow> None)
      | H_Option \<Rightarrow>
          (case decodeNum cur of
             Some (n, cur) \<Rightarrow>
               if n = 1 then and_then (decode_list fuel N types pool cur n)
                 (\<lambda>pool cur ts. created cur (createReifiedType N pool (optionTemplate N) ts))
               else None
           | None \<Rightarrow> None)
      | H_Func \<Rightarrow>
          and_then (decode fuel N types pool cur)
            (\<lambda>pool cur ret.
               (case decodeNum cur of
                  Some (n, cur) \<Rightarrow> and_then (decode_list fuel N types pool cur n)
                    (\<lambda>pool cur ts. created cur (createFuncType pool ret ts))
                | None \<Rightarrow> None))
      | H_Num n \<Rightarrow> None
      | H_T0 \<Rightarrow> if 0 < length types then Some (pool, cur, Inr (types ! 0)) else None
      | H_T1 \<Rightarrow> if 1 < length types then Some (pool, cur, Inr (types ! 1)) else None)"
| "decode_list fuel N types pool cur 0 = Some (pool, cur, Inr [])"
| "decode_list 0 N types pool cur (Suc n) = None"
| "decode_list (Suc fuel) N types pool cur (Suc n) =
     and_then (decode fuel N types pool cur)
       (\<lambda>pool cur t. and_then (decode_list fuel N types pool cur n)
          (\<lambda>pool cur ts. Some (pool, cur, Inr (t # ts))))"

text \<open>The loop over the type parameter constraints; false when one is not met.\<close>

fun check_constraints ::
  "nat \<Rightarrow> Natives \<Rightarrow> nat list \<Rightarrow> TypePool \<Rightarrow> HandleInfo list \<Rightarrow> nat \<Rightarrow> bool decoded"
where
  "check_constraints fuel N types pool cur 0 = Some (pool, cur, Inr True)"
| "check_constraints fuel N types pool cur (Suc n) =
     and_then (decode fuel N types pool cur)
       (\<lambda>pool cur typeParam. and_then (decode fuel N types pool cur)
          (\<lambda>pool cur reqType.
             if isSameOrBaseTypeOf (typeTable pool) reqType typeParam \<noteq> Some True
             then Some (pool, cur, Inr False)
             else check_constraints fuel N types pool cur n))"

text \<open>
  \<open>allocMethodHandle\<close>: the pool and whether the method was allocated. The new handle's index is
  an \<open>unsigned short\<close>.
\<close>

definition alloc_params ::
  "nat \<Rightarrow> Natives \<Rightarrow> nat list \<Rightarrow> nat \<Rightarrow> nat \<times> string \<Rightarrow> TypePool \<Rightarrow> HandleInfo list \<Rightarrow> bool decoded"
where
  "alloc_params fuel N types index key pool cur =
     and_then (decode fuel N types pool cur) (\<lambda>pool cur ret.
       (case decodeNum cur of
          Some (paramSize, cur) \<Rightarrow>
            if paramSize = 0 then None
            else and_then (decode fuel N types pool cur) (\<lambda>pool cur recv.
              (let i = methodIdCount pool;
                   pool = pool\<lparr>methodIdCount := i + 1\<rparr>
               in and_then (decode_list fuel N types pool cur (paramSize - 1)) (\<lambda>pool cur params.
                 (let handle = \<lparr>methodId = i, methodIndex = index mod 65536, paramTypes = params,
                        returnType = ret, recvType = recv\<rparr>
                  in Some (pool\<lparr>methodMap := (methodMap pool)(key \<mapsto> MHandle handle)\<rparr>, cur, Inr True)))))
        | None \<Rightarrow> None))"

fun finish_alloc :: "bool decoded \<Rightarrow> (TypePool \<times> bool) option" where
  "finish_alloc None = None"
| "finish_alloc (Some (pool, cur, Inl e)) = Some (pool, False)"
| "finish_alloc (Some (pool, cur, Inr ok)) = Some (pool, ok)"

definition allocMethodHandle ::
  "Natives \<Rightarrow> TypePool \<Rightarrow> nat \<Rightarrow> string \<Rightarrow> nat \<Rightarrow> (TypePool \<times> bool) option"
where
  "allocMethodHandle N pool recv name index =
     (let t = typeTable pool ! recv;
          types = (if isReifiedType t then elementTypes (class_of t) else []);
          infos = handleInfo (nativeFuncInfoTable N ! index);
          fuel = Suc (length infos);
          res = (case decodeNum infos of
               None \<Rightarrow> None
             | Some (constraintSize, cur) \<Rightarrow>
                 and_then (check_constraints fuel N types pool cur constraintSize)
                   (\<lambda>pool cur ok. if ok then alloc_params fuel N types index (recv, name) pool cur
                                  else Some (pool, cur, Inr False)))
      in finish_alloc res)"

text \<open>\<open>lookupMethod\<close>: the walk up the super types, and the handle found, if any.\<close>

partial_function (option) lookupMethod ::
  "Natives \<Rightarrow> TypePool \<Rightarrow> nat \<Rightarrow> string \<Rightarrow> (TypePool \<times> MethodHandle option) option"
where
  "lookupMethod N pool recv methodName =
     (case methodMap pool (recv, methodName) of
        Some (MHandle h) \<Rightarrow> Some (pool, Some h)
      | Some (MIndex index) \<Rightarrow>
          (case allocMethodHandle N pool recv methodName index of
             None \<Rightarrow> None
           | Some (pool', ok) \<Rightarrow>
               if \<not> ok then Some (pool', None)
               else (case methodMap pool' (recv, methodName) of
                   Some (MHandle h) \<Rightarrow> Some (pool', Some h)
                 | _ \<Rightarrow> Some (pool', None)))
      | None \<Rightarrow>
          (case superType (typeTable pool ! recv) of
             None \<Rightarrow> Some (pool, None)
           | Some s \<Rightarrow> lookupMethod N pool s methodName))"

section \<open>Discarding\<close>

record TypeDiscardPoint =
  typeIdOffset :: nat
  methodIdOffset :: nat

definition getDiscardPoint :: "TypePool \<Rightarrow> TypeDiscardPoint" where
  "getDiscardPoint pool = \<lparr>typeIdOffset = length (typeTable pool), methodIdOffset = methodIdCount pool\<rparr>"

definition discard_method :: "TypeDiscardPoint \<Rightarrow> MethodValue \<Rightarrow> MethodValue" where
  "discard_method point v =
     (case v of
        MHandle h \<Rightarrow> if methodId h \<ge> methodIdOffset point then MIndex (methodIndex h) else v
      | MIndex k \<Rightarrow> v)"

definition discard :: "TypePool \<Rightarrow> TypeDiscardPoint \<Rightarrow> TypePool" where
  "discard pool point =
     pool\<lparr>typeTable := take (typeIdOffset point) (typeTable pool),
          nameMap := (\<lambda>name. case nameMap pool name of
             Some i \<Rightarrow> if i \<ge> typeIdOffset point then None else Some i
           | None \<Rightarrow> None),
          methodIdCount := methodIdOffset point,
          methodMap := (\<lambda>(i, name). if i \<ge> typeIdOffset point then None
             else map_option (discard_method point) (methodMap pool (i, name)))\<rparr>"

section \<open>Growth\<close>

text \<open>
  What any sequence of operations does to a pool: the types and methods it had stay, except that
  an index of a native method may have become a handle with a new id.
\<close>

definition later :: "nat \<Rightarrow> MethodValue option \<Rightarrow> MethodValue option \<Rightarrow> bool" where
  "later n old new \<longleftrightarrow>
     new = old \<or> (\<exists>k h. old = Some (MIndex k) \<and> new = Some (MHandle h) \<and> methodIndex h = k \<and> n \<le> methodId h)"

definition grown :: "TypePool \<Rightarrow> TypePool \<Rightarrow> bool" where
  "grown pool pool' \<longleftrightarrow>
     wf_pool pool' \<and> (\<exists>ts. typeTable pool' = typeTable pool @ ts)
     \<and> methodIdCount pool \<le> methodIdCount pool'
     \<and> (\<forall>i name. i < length (typeTable pool) \<longrightarrow>
          later (methodIdCount pool) (methodMap pool (i, name)) (methodMap pool' (i, name)))"

lemma grown_refl: "wf_pool pool \<Longrightarrow> grown pool pool"
  by (simp add: grown_def later_def)

lemma grown_trans: "grown p q \<Longrightarrow> grown q r \<Longrightarrow> grown p r"
proof -
  assume pq: "grown p q" and qr: "grown q r"
  have "later (methodIdCount p) (methodMap p (i, name)) (methodMap r (i, name))"
    if "i < length (typeTable p)" for i name
  proof -
    have "later (methodIdCount p) (methodMap p (i, name)) (methodMap q (i, name))"
      "later (methodIdCount q) (methodMap q (i, name)) (methodMap r (i, name))"
      "methodIdCount p \<le> methodIdCount q"
      using pq qr that by (auto simp: grown_def)
    then show ?thesis by (auto simp: later_def)
  qed
  with pq qr show ?thesis by (auto simp: grown_def)
qed

lemma extends_grown: "extends pool pool' \<Longrightarrow> grown pool pool'"
  by (auto simp: extends_def grown_def later_def)

lemma grown_live: "grown p q \<Longrightarrow> live p t \<Longrightarrow> live q t"
  by (auto simp: grown_def live_def)

text \<open>What holds of a decoding step that starts from \<open>pool\<close>; \<open>P\<close> of its value.\<close>

definition decoded_ok :: "TypePool \<Rightarrow> (TypePool \<Rightarrow> 'a \<Rightarrow> bool) \<Rightarrow> 'a decoded \<Rightarrow> bool" where
  "decoded_ok pool P m \<longleftrightarrow>
     (\<forall>pool' cur r. m = Some (pool', cur, r) \<longrightarrow>
        grown pool pool' \<and> (r \<noteq> Inl TypeIdLimit \<longrightarrow> has_room pool') \<and> (\<forall>x. r = Inr x \<longrightarrow> P pool' x))"

lemma decoded_ok_None [simp]: "decoded_ok pool P None"
  by (simp add: decoded_ok_def)

lemma decoded_ok_value:
  "wf_pool pool \<Longrightarrow> has_room pool \<Longrightarrow> P pool x \<Longrightarrow> decoded_ok pool P (Some (pool, cur, Inr x))"
  by (simp add: decoded_ok_def grown_refl)

lemma decoded_ok_created:
  "result_ok pool res \<Longrightarrow> decoded_ok pool live (created cur res)"
  by (auto simp: decoded_ok_def created_def result_ok_def extends_grown)

lemma decoded_ok_and_then:
  assumes "decoded_ok pool P m"
    and "\<And>pool' cur x. grown pool pool' \<Longrightarrow> has_room pool' \<Longrightarrow> P pool' x \<Longrightarrow> decoded_ok pool' Q (f pool' cur x)"
  shows "decoded_ok pool Q (and_then m f)"
proof -
  have "decoded_ok pool Q (f pool' cur x)" if "m = Some (pool', cur, Inr x)" for pool' cur x
  proof -
    have g: "grown pool pool'" "has_room pool'" "P pool' x"
      using assms(1) that by (auto simp: decoded_ok_def)
    then show ?thesis
      using assms(2) [OF g, of cur] grown_trans [OF g(1)] by (auto simp: decoded_ok_def)
  qed
  then show ?thesis
    using assms(1) by (auto simp: and_then_def decoded_ok_def split: option.splits sum.splits)
qed

lemma grown_wf: "grown p q \<Longrightarrow> wf_pool q"
  by (simp add: grown_def)

lemma wf_pool_builtin_live: "wf_pool pool \<Longrightarrow> live pool (type_id t)"
  by (cases t) (auto simp: live_def wf_pool_def wf_table_def base_types_def)

definition all_live :: "TypePool \<Rightarrow> nat list \<Rightarrow> bool" where
  "all_live pool ts \<longleftrightarrow> (\<forall>t \<in> set ts. live pool t)"

lemma grown_all_live: "grown p q \<Longrightarrow> all_live p ts \<Longrightarrow> all_live q ts"
  by (auto simp: all_live_def grown_live)

lemma created_reified_ok:
  assumes "natives_small N" "wf_pool pool" "has_room pool" "all_live pool ts \<and> length ts = n"
    "temp_name template = TYPE_OPTION \<longrightarrow> n = 1" "info_small (temp_info template)"
  shows "decoded_ok pool live (created cur (createReifiedType N pool template ts))"
  using assms by (intro decoded_ok_created createReifiedType_ok) (auto simp: all_live_def)

lemma templates_small:
  assumes "natives_small N"
  shows "info_small (temp_info (arrayTemplate N))" "info_small (temp_info (mapTemplate N))"
    "info_small (temp_info (optionTemplate N))"
  using assms by (simp_all add: natives_small_def arrayTemplate_def mapTemplate_def optionTemplate_def)

definition ready :: "Natives \<Rightarrow> nat list \<Rightarrow> TypePool \<Rightarrow> bool" where
  "ready N types pool \<longleftrightarrow> natives_small N \<and> wf_pool pool \<and> has_room pool \<and> all_live pool types"

lemma ready_grown: "ready N types p \<Longrightarrow> grown p q \<Longrightarrow> has_room q \<Longrightarrow> ready N types q"
  by (auto simp: ready_def grown_all_live dest: grown_wf)

text \<open>Sequencing of steps, each of which finds a pool that is ready again.\<close>

lemma and_then_ok:
  assumes "ready N types pool" "decoded_ok pool P m"
    and "\<And>p cur x. ready N types p \<Longrightarrow> grown pool p \<Longrightarrow> P p x \<Longrightarrow> decoded_ok p Q (f p cur x)"
  shows "decoded_ok pool Q (and_then m f)"
  using assms by (auto intro!: decoded_ok_and_then intro: ready_grown)

lemma created_ok:
  assumes "ready N types pool" "all_live pool ts \<and> length ts = n"
  shows "decoded_ok pool live (created cur (createTupleType N pool ts))"
    and "info_small (temp_info template) \<Longrightarrow> temp_name template = TYPE_OPTION \<longrightarrow> n = 1 \<Longrightarrow>
      decoded_ok pool live (created cur (createReifiedType N pool template ts))"
    and "live pool ret \<Longrightarrow> decoded_ok pool live (created cur (createFuncType pool ret ts))"
  using assms created_reified_ok [of N pool ts n template cur]
    createTupleType_ok [of pool ts N] createFuncType_ok [of pool ret ts]
  by (auto simp: ready_def all_live_def intro: decoded_ok_created)

lemma decode_ok:
  "(\<forall>N types pool cur. ready N types pool \<longrightarrow> decoded_ok pool live (decode fuel N types pool cur)) \<and>
   (\<forall>N types pool cur n. ready N types pool \<longrightarrow>
      decoded_ok pool (\<lambda>p ts. all_live p ts \<and> length ts = n) (decode_list fuel N types pool cur n))"
proof (induction fuel)
  case 0
  have "ready N types pool \<Longrightarrow>
      decoded_ok pool (\<lambda>p ts. all_live p ts \<and> length ts = n) (decode_list 0 N types pool cur n)"
    for N types pool cur n
    by (cases n) (auto simp: ready_def all_live_def intro: decoded_ok_value)
  then show ?case by simp
next
  case (Suc fuel)
  have D: "decoded_ok pool live (decode fuel N types pool cur)"
    and L: "decoded_ok pool (\<lambda>p ts. all_live p ts \<and> length ts = n) (decode_list fuel N types pool cur n)"
    if "ready N types pool" for N types pool cur n
    using Suc that by blast+
  have V: "decoded_ok pool live (Some (pool, cur, Inr t))" if "ready N types pool" "live pool t" for N types pool cur t
    using that by (auto simp: ready_def intro: decoded_ok_value)
  have A: "decoded_ok pool live (and_then (decode_list fuel N types pool cur n) f)"
    if "ready N types pool" "\<And>p cur ts. ready N types p \<Longrightarrow> grown pool p \<Longrightarrow> all_live p ts \<and> length ts = n \<Longrightarrow>
      decoded_ok p live (f p cur ts)" for N types pool cur n f
    by (rule and_then_ok [OF that(1) L [OF that(1)]]) (rule that(2))
  have "decoded_ok pool live (decode (Suc fuel) N types pool cur)" if r: "ready N types pool" for N types pool cur
  proof (cases cur)
    case (Cons h cur')
    have small: "info_small (temp_info (arrayTemplate N))" "info_small (temp_info (mapTemplate N))"
      "info_small (temp_info (optionTemplate N))"
      using r templates_small by (simp_all add: ready_def)
    have names: "temp_name (arrayTemplate N) \<noteq> TYPE_OPTION" "temp_name (mapTemplate N) \<noteq> TYPE_OPTION"
      by (simp_all add: arrayTemplate_def mapTemplate_def)
    have types: "live pool (types ! i)" if "i < length types" for i
      using r that by (simp add: ready_def all_live_def)
    show ?thesis
    proof (cases h)
      case (H_Type t)
      then show ?thesis using r Cons wf_pool_builtin_live [of pool t] by (auto simp: ready_def intro: V [OF r])
    next
      case H_Tuple
      then show ?thesis using r Cons created_ok(1) [OF r, of types]
        by (auto simp: ready_def intro: A [OF r] created_ok(1) split: option.splits)
    next
      case H_Func
      then show ?thesis using Cons
        by (auto intro!: and_then_ok [OF r D [OF r]] A created_ok(3) intro: grown_live split: option.splits)
    next
      case H_Option
      have "decoded_ok pool live (and_then (decode_list fuel N types pool c 1)
          (\<lambda>pool cur ts. created cur (createReifiedType N pool (optionTemplate N) ts)))" for c
        by (rule A [OF r]) (rule created_ok(2) [where n = 1], auto simp: small)
      then show ?thesis using Cons H_Option by (auto split: option.splits)
    qed (use r Cons small names types in \<open>auto intro: A [OF r] created_ok(2) V [OF r] split: option.splits\<close>)
  qed simp
  moreover have "decoded_ok pool (\<lambda>p ts. all_live p ts \<and> length ts = n) (decode_list (Suc fuel) N types pool cur n)"
    if r: "ready N types pool" for N types pool cur n
  proof (cases n)
    case 0
    then show ?thesis using r by (auto simp: ready_def all_live_def intro: decoded_ok_value)
  next
    case (Suc k)
    have "decoded_ok p (\<lambda>p ts. all_live p ts \<and> length ts = n)
        (and_then (decode_list fuel N types p cur k) (\<lambda>pool cur ts. Some (pool, cur, Inr (t # ts))))"
      if "ready N types p" "live p t" for p cur t
    proof (rule and_then_ok [OF that(1) L [OF that(1)]], elim conjE)
      fix q cur x assume q: "ready N types q" "grown p q" "all_live q x" "length x = k"
      then have "live q t" using that(2) by (auto intro: grown_live)
      with q show "decoded_ok q (\<lambda>p ts. all_live p ts \<and> length ts = n) (Some (q, cur, Inr (t # x)))"
        by (intro decoded_ok_value) (auto simp: Suc ready_def all_live_def)
    qed
    then show ?thesis unfolding Suc decode_list.simps
      by (intro and_then_ok [OF r D [OF r]]) (auto simp: Suc)
  qed
  ultimately show ?case by blast
qed

section \<open>Allocating and looking up methods\<close>

lemma grown_count:
  "wf_pool pool \<Longrightarrow> has_room pool \<Longrightarrow> grown pool (pool\<lparr>methodIdCount := methodIdCount pool + 1\<rparr>)"
proof -
  assume wf: "wf_pool pool"
  have "method_below n v \<Longrightarrow> method_below (n + 1) v" for n v by (cases v) auto
  then have "wf_pool (pool\<lparr>methodIdCount := methodIdCount pool + 1\<rparr>)"
    using wf by (auto simp: wf_pool_def names_ok_def methods_ok_def)
  then show ?thesis by (simp add: grown_def later_def)
qed

lemma wf_pool_method_live: "wf_pool pool \<Longrightarrow> methodMap pool (i, name) = Some v \<Longrightarrow> i < length (typeTable pool)"
  unfolding wf_pool_def methods_ok_def by blast

lemma grown_handle:
  assumes "methodMap pool0 (recv, name) = Some (MIndex index)" "wf_pool pool0" "grown pool0 pool"
    "methodIdCount pool0 \<le> methodId h" "methodId h < methodIdCount pool" "methodIndex h = index mod 65536"
  shows "grown pool0 (pool\<lparr>methodMap := (methodMap pool)((recv, name) \<mapsto> MHandle h)\<rparr>)"
proof -
  have m: "recv < length (typeTable pool0)" "index < 65536"
    using assms(1,2) by (fastforce simp: wf_pool_def methods_ok_def)+
  then have "recv < length (typeTable pool)" using assms(3) by (auto simp: grown_def)
  then have "wf_pool (pool\<lparr>methodMap := (methodMap pool)((recv, name) \<mapsto> MHandle h)\<rparr>)"
    using assms by (auto simp: wf_pool_def names_ok_def methods_ok_def grown_def)
  with assms m show ?thesis by (auto simp: grown_def later_def)
qed

lemma decoded_ok_since:
  "grown pool0 pool \<Longrightarrow> decoded_ok pool P m \<Longrightarrow> decoded_ok pool0 P m"
  by (auto simp: decoded_ok_def intro: grown_trans)

lemma decoded_ok_count:
  "decoded_ok pool P m \<Longrightarrow> decoded_ok pool (\<lambda>p x. methodIdCount pool \<le> methodIdCount p) m"
  by (auto simp: decoded_ok_def grown_def)

lemma and_then_since:
  assumes m: "decoded_ok pool0 P m"
    and f: "\<And>p cur x. grown pool0 p \<Longrightarrow> has_room p \<Longrightarrow> P p x \<Longrightarrow> decoded_ok pool0 Q (f p cur x)"
  shows "decoded_ok pool0 Q (and_then m f)"
proof (cases m)
  case (Some t)
  obtain p cur r where t: "t = (p, cur, r)" by (cases t)
  show ?thesis
  proof (cases r)
    case (Inl e)
    then show ?thesis using m Some t by (simp add: decoded_ok_def and_then_def)
  next
    case (Inr x)
    then have "grown pool0 p" "has_room p" "P p x" using m Some t by (simp_all add: decoded_ok_def)
    from f [OF this] show ?thesis using Some t Inr by (simp add: and_then_def)
  qed
qed (simp add: and_then_def)

lemma check_constraints_ok:
  "ready N types pool \<Longrightarrow> decoded_ok pool (\<lambda>p ok. True) (check_constraints fuel N types pool cur n)"
proof (induction n arbitrary: pool cur)
  case 0
  then show ?case by (auto simp: ready_def intro: decoded_ok_value)
next
  case (Suc n)
  have D: "decoded_ok p live (decode fuel N types p c)" if "ready N types p" for p c
    using decode_ok that by blast
  have V: "decoded_ok p (\<lambda>p ok. True) (Some (p, c, Inr (b :: bool)))" if "ready N types p" for p c b
    using that by (auto simp: ready_def intro: decoded_ok_value)
  have step: "decoded_ok p (\<lambda>p ok. True) (if b then Some (p, c, Inr False) else check_constraints fuel N types p c n)"
    if "ready N types p" for p c b
    using V [OF that] Suc.IH [OF that] by simp
  show ?case unfolding check_constraints.simps
    by (rule and_then_ok [OF Suc.prems D [OF Suc.prems]], rule and_then_ok [OF _ D])
      (assumption | rule step)+
qed

lemma alloc_params_ok:
  assumes "ready N types pool0" "methodMap pool0 (recv, name) = Some (MIndex index)"
    "grown pool0 pool" "has_room pool"
  shows "decoded_ok pool0 (\<lambda>p ok. True) (alloc_params fuel N types index (recv, name) pool cur)"
proof -
  have D: "decoded_ok pool0 live (decode fuel N types p c)"
    and L: "decoded_ok pool0 (\<lambda>p' ts. all_live p' ts \<and> length ts = n) (decode_list fuel N types p c n)"
    if "grown pool0 p" "has_room p" for p c n
    using decode_ok ready_grown [OF assms(1) that] decoded_ok_since [OF that(1)] by blast+
  have wf0: "wf_pool pool0" using assms(1) by (simp add: ready_def)
  have count: "grown pool0 (p\<lparr>methodIdCount := methodIdCount p + 1\<rparr>)"
    if "grown pool0 p" "has_room p" for p
    using grown_trans [OF that(1) grown_count] that grown_wf by blast
  have room: "has_room (p\<lparr>methodIdCount := n\<rparr>) = has_room p" "has_room (p\<lparr>methodMap := mm\<rparr>) = has_room p" for p n mm
    by (simp_all add: has_room_def)
  have final: "decoded_ok pool0 (\<lambda>p ok. True)
      (and_then (decode_list fuel N types (p\<lparr>methodIdCount := methodIdCount p + 1\<rparr>) c n)
        (\<lambda>q cur params. Some (q\<lparr>methodMap := (methodMap q)((recv, name) \<mapsto>
           MHandle \<lparr>methodId = methodIdCount p, methodIndex = index mod 65536, paramTypes = params,
             returnType = ret, recvType = rv\<rparr>)\<rparr>, cur, Inr True)))"
    if "grown pool0 p" "has_room p" for p c n ret rv
  proof -
    let ?p = "p\<lparr>methodIdCount := methodIdCount p + 1\<rparr>"
    have p: "grown pool0 ?p" "has_room ?p" "methodIdCount pool0 \<le> methodIdCount p"
      using count [OF that] that by (auto simp: room grown_def)
    have "ready N types ?p" using ready_grown [OF assms(1) p(1,2)] .
    then have l: "decoded_ok ?p (\<lambda>p' ts. all_live p' ts \<and> length ts = n) (decode_list fuel N types ?p c n)"
      using decode_ok by blast
    show ?thesis
    proof (rule and_then_since [OF decoded_ok_since [OF p(1) decoded_ok_count [OF l]]])
      fix q c params assume q: "grown pool0 q" "has_room q" "methodIdCount ?p \<le> methodIdCount q"
      show "decoded_ok pool0 (\<lambda>p ok. True) (Some (q\<lparr>methodMap := (methodMap q)((recv, name) \<mapsto>
           MHandle \<lparr>methodId = methodIdCount p, methodIndex = index mod 65536, paramTypes = params,
             returnType = ret, recvType = rv\<rparr>)\<rparr>, c, Inr True))"
        using grown_handle [OF assms(2) wf0 q(1)] p(3) q(2,3) by (simp add: decoded_ok_def room)
    qed
  qed
  show ?thesis unfolding alloc_params_def
    by (intro and_then_since [OF D [OF assms(3,4)]])
      (auto simp: Let_def split: option.splits intro!: and_then_since [OF D] final [simplified])
qed

lemma finish_alloc_pool: "finish_alloc m = Some (pool, ok) \<Longrightarrow> \<exists>c r. m = Some (pool, c, r)"
  by (cases m rule: finish_alloc.cases) auto

abbreviation receiver_types :: "TypePool \<Rightarrow> nat \<Rightarrow> nat list" where
  "receiver_types pool recv \<equiv>
     (if isReifiedType (typeTable pool ! recv) then elementTypes (class_of (typeTable pool ! recv)) else [])"

lemma elementTypes_refs: "set (elementTypes c) \<subseteq> set (type_refs c)"
  by (cases c) auto

lemma receiver_types_live:
  assumes "wf_pool pool" "live pool recv"
  shows "all_live pool (receiver_types pool recv)"
proof -
  have recv: "recv < length (typeTable pool)" using assms(2) by (simp add: live_def)
  have "\<forall>r \<in> set (type_refs (class_of (typeTable pool ! recv))). r < recv"
    using assms(1) recv by (simp add: wf_pool_def wf_table_def wf_entry_def)
  then have "\<forall>t \<in> set (elementTypes (class_of (typeTable pool ! recv))). t < length (typeTable pool)"
    using recv elementTypes_refs [of "class_of (typeTable pool ! recv)"] by (meson less_trans subsetD)
  then show ?thesis by (simp add: all_live_def live_def)
qed

lemma alloc_ok:
  assumes r: "ready N types pool" and m: "methodMap pool (recv, name) = Some (MIndex index)"
  shows "decoded_ok pool (\<lambda>p ok. True)
      (and_then (check_constraints fuel N types pool cur n)
        (\<lambda>p cur ok. if ok then alloc_params fuel N types index (recv, name) p cur
          else Some (p, cur, Inr False)))"
proof (rule and_then_since [OF check_constraints_ok [OF r]])
  fix p cur ok assume p: "grown pool p" "has_room p"
  show "decoded_ok pool (\<lambda>p ok. True)
      (if ok then alloc_params fuel N types index (recv, name) p cur else Some (p, cur, Inr False))"
  proof (cases ok)
    case True
    then show ?thesis using alloc_params_ok [OF r m p] by simp
  qed (use p in \<open>simp add: decoded_ok_def\<close>)
qed

lemma allocMethodHandle_ok:
  assumes "natives_small N" "wf_pool pool" "has_room pool" "methodMap pool (recv, name) = Some (MIndex index)"
    "allocMethodHandle N pool recv name index = Some (pool', ok)"
  shows "grown pool pool'"
proof -
  let ?types = "receiver_types pool recv" and ?infos = "handleInfo (nativeFuncInfoTable N ! index)"
  have "live pool recv" unfolding live_def by (rule wf_pool_method_live [OF assms(2,4)])
  from receiver_types_live [OF assms(2) this] have r: "ready N ?types pool"
    using assms(1-3) unfolding ready_def by blast
  show ?thesis
  proof (cases "decodeNum ?infos")
    case None
    have "finish_alloc None = Some (pool', ok)"
      using assms(5) unfolding allocMethodHandle_def Let_def None option.case .
    then show ?thesis by simp
  next
    case (Some nc)
    obtain n cur where nc: "nc = (n, cur)" by fastforce
    have "finish_alloc (and_then (check_constraints (Suc (length ?infos)) N ?types pool cur n)
        (\<lambda>p cur ok. if ok then alloc_params (Suc (length ?infos)) N ?types index (recv, name) p cur
          else Some (p, cur, Inr False))) = Some (pool', ok)"
      using assms(5) unfolding allocMethodHandle_def Let_def Some nc option.case prod.case .
    from finish_alloc_pool [OF this] alloc_ok [OF r assms(4)]
    show ?thesis unfolding decoded_ok_def by blast
  qed
qed

lemma lookupMethod_ok:
  assumes "natives_small N" "wf_pool pool" "has_room pool" "live pool recv"
    "lookupMethod N pool recv methodName = Some (pool', h)"
  shows "grown pool pool'"
  using assms(4,5)
proof (induction recv rule: less_induct)
  case (less recv)
  note step = lookupMethod.simps [of N pool recv methodName]
  show ?case
  proof (cases "methodMap pool (recv, methodName)")
    case None
    show ?thesis
    proof (cases "superType (typeTable pool ! recv)")
      case None
      with less.prems step \<open>methodMap pool _ = None\<close> assms(2) show ?thesis by (simp add: grown_refl)
    next
      case (Some u)
      have "u < recv" using wf_tableD(2) [of "typeTable pool" recv u] assms(2) less.prems Some
        by (simp add: wf_pool_def live_def)
      then show ?thesis
        using less step Some \<open>methodMap pool _ = None\<close> by (auto simp: live_def)
    qed
  next
    case (Some v)
    show ?thesis
    proof (cases v)
      case (MHandle h)
      with Some less.prems step assms(2) show ?thesis by (simp add: grown_refl)
    next
      case (MIndex index)
      with Some less.prems step obtain ok where "allocMethodHandle N pool recv methodName index = Some (pool', ok)"
        by (auto split: option.splits if_splits MethodValue.splits)
      then show ?thesis using allocMethodHandle_ok [OF assms(1-3)] Some MIndex by blast
    qed
  qed
qed

section \<open>The life of a pool\<close>

text \<open>The operations that the rest of the program performs on a pool that is not full.\<close>

inductive pool_step :: "Natives \<Rightarrow> TypePool \<Rightarrow> TypePool \<Rightarrow> bool" for N where
  step_reified: "has_room pool \<Longrightarrow> \<forall>t \<in> set ts. live pool t \<Longrightarrow> getTypeTemplate N name = Inr template \<Longrightarrow>
    (name = TYPE_OPTION \<longrightarrow> length ts = 1) \<Longrightarrow> pool_step N pool (fst (createReifiedType N pool template ts))"
| step_tuple: "has_room pool \<Longrightarrow> \<forall>t \<in> set ts. live pool t \<Longrightarrow>
    pool_step N pool (fst (createTupleType N pool ts))"
| step_func: "has_room pool \<Longrightarrow> \<forall>t \<in> set (ret # ts). live pool t \<Longrightarrow>
    pool_step N pool (fst (createFuncType pool ret ts))"
| step_mod: "has_room pool \<Longrightarrow>
    pool_step N pool (fst (createModType pool mod_id handles children index))"
| step_lookup: "has_room pool \<Longrightarrow> live pool recv \<Longrightarrow> lookupMethod N pool recv name = Some (pool', h) \<Longrightarrow>
    pool_step N pool pool'"

lemma template_of_name:
  assumes "getTypeTemplate N name = Inr template" "natives_small N"
  shows "info_small (temp_info template)" "temp_name template = TYPE_OPTION \<longleftrightarrow> name = TYPE_OPTION"
  using assms by (auto simp: getTypeTemplate_def arrayTemplate_def mapTemplate_def tupleTemplate_def
      optionTemplate_def natives_small_def split: if_splits)

lemma result_ok_grown: "result_ok pool res \<Longrightarrow> grown pool (fst res)"
  by (simp add: result_ok_def extends_grown)

lemma pool_step_grown:
  assumes "pool_step N p q" "natives_small N" "wf_pool p"
  shows "grown p q"
  using assms
proof cases
  case (step_reified ts name template)
  then have "result_ok p (createReifiedType N p template ts)"
    using assms template_of_name [of N name template] by (intro createReifiedType_ok) auto
  with step_reified show ?thesis by (simp add: result_ok_grown)
qed (use assms createTupleType_ok createFuncType_ok createModType_ok lookupMethod_ok in
    \<open>auto intro!: result_ok_grown\<close>)

lemma discard_grown:
  assumes "grown p q" "wf_pool p"
  shows "discard q (getDiscardPoint p) = p"
proof -
  let ?n = "length (typeTable p)"
  have point: "typeIdOffset (getDiscardPoint p) = ?n" "methodIdOffset (getDiscardPoint p) = methodIdCount p"
    by (simp_all add: getDiscardPoint_def)
  obtain ts where ts: "typeTable q = typeTable p @ ts" using assms(1) by (auto simp: grown_def)
  have names: "names_ok p" "names_ok q" and wfm: "methods_ok p"
    using assms by (auto simp: grown_def wf_pool_def)
  have "(case nameMap q name of Some i \<Rightarrow> if i \<ge> ?n then None else Some i | None \<Rightarrow> None) = nameMap p name"
    for name
  proof (cases "nameMap p name")
    case None
    then have "\<not> (i < ?n \<and> nameRef (typeTable p ! i) = name)" for i
      using names(1) by (metis names_ok_def option.distinct(1))
    then have "i \<ge> ?n" if "nameMap q name = Some i" for i
      using names(2) that ts by (metis names_ok_def not_le nth_append)
    with None show ?thesis by (auto split: option.splits)
  next
    case (Some i)
    then have "i < ?n" "nameRef (typeTable p ! i) = name" using names(1) by (auto simp: names_ok_def)
    then have "nameMap q name = Some i" using names(2) ts by (simp add: names_ok_def nth_append)
    with Some \<open>i < ?n\<close> show ?thesis by simp
  qed
  moreover have "(if i \<ge> ?n then None
      else map_option (discard_method (getDiscardPoint p)) (methodMap q (i, name))) = methodMap p (i, name)"
    for i name
  proof (cases "i < ?n")
    case True
    then have l: "later (methodIdCount p) (methodMap p (i, name)) (methodMap q (i, name))"
      using assms(1) by (simp add: grown_def)
    have "methodId h < methodIdCount p" if "methodMap p (i, name) = Some (MHandle h)" for h
      using wfm that unfolding methods_ok_def by fastforce
    then have keep: "map_option (discard_method (getDiscardPoint p)) (methodMap p (i, name)) = methodMap p (i, name)"
      by (cases "methodMap p (i, name)")
        (fastforce simp: discard_method_def getDiscardPoint_def split: MethodValue.splits)+
    from l consider "methodMap q (i, name) = methodMap p (i, name)"
      | k h where "methodMap p (i, name) = Some (MIndex k)" "methodMap q (i, name) = Some (MHandle h)"
          "methodIndex h = k" "methodIdCount p \<le> methodId h"
      unfolding later_def by blast
    then show ?thesis
      using True keep by cases (simp_all add: discard_method_def getDiscardPoint_def)
  next
    case False
    then have "methodMap p (i, name) = None"
      using wfm unfolding methods_ok_def by (metis option.exhaust)
    with False show ?thesis by simp
  qed
  ultimately show ?thesis
    by (intro TypePool.equality)
      (simp_all add: discard_def point ts fun_eq_iff cong: option.case_cong)
qed

interpretation pool: rollback "\<lambda>p. wf_pool p \<and> natives_small N" "\<lambda>p. True" "pool_step N" grown
  getDiscardPoint discard "\<lambda>p. p" for N
  by unfold_locales (auto intro: grown_refl grown_trans pool_step_grown discard_grown dest: grown_wf)

lemma pool_run_grown:
  assumes "(pool_step N)\<^sup>*\<^sup>* p q" "natives_small N" "wf_pool p"
  shows "grown p q"
  using pool.run_grown [OF assms(1)] assms(2,3) by blast

definition reachable_pool :: "Natives \<Rightarrow> TypePool \<Rightarrow> bool" where
  "reachable_pool N pool \<longleftrightarrow> (pool_step N)\<^sup>*\<^sup>* (TypePool_init N) pool"

lemma reachable_wf: "reachable_pool N pool \<Longrightarrow> natives_small N \<Longrightarrow> wf_pool pool"
  using pool_run_grown [of N "TypePool_init N" pool] TypePool_init_wf [of N]
  by (simp add: reachable_pool_def grown_wf)

lemma grown_name:
  "grown p q \<Longrightarrow> wf_pool p \<Longrightarrow> nameMap p name = Some t \<Longrightarrow> nameMap q name = Some t"
  by (auto simp: grown_def wf_pool_def names_ok_def nth_append)

lemma checkElementTypes_limit_cong:
  assumes "\<forall>x \<in> set ts. typeTable q ! x = typeTable p ! x"
  shows "checkElementTypes_limit q ts n = checkElementTypes_limit p ts n"
proof -
  have "map_option (\<lambda>t. InvalidElement (type_name q t)) (find P ts) = map_option (\<lambda>t. InvalidElement (type_name p t)) (find P ts)"
    for P
    using assms by (induction ts) (auto simp: type_name_def)
  then show ?thesis using assms by (simp add: checkElementTypes_limit_def cong: find_cong)
qed

lemma internType_name:
  assumes "internType N pool name a super c info = (pool', Inr t)" "wf_pool pool" "has_room pool"
  shows "nameMap pool' name = Some t"
proof (cases "nameMap pool name")
  case None
  have len: "length (typeTable pool) < 2 ^ 24" using assms(3) by (simp add: has_room_def MAX_TYPE_NUM_def)
  have "names_ok (fst (newType pool name a super c))"
    using newType_names [OF _ None len] assms(2) by (simp add: wf_pool_def)
  then show ?thesis
    using None assms(1) newType_simps(1,4) [OF None, of a super c]
    by (auto simp: internType_def names_ok_def split: prod.splits sum.splits)
qed (use assms(1) in \<open>simp add: internType_def\<close>)

section \<open>Properties\<close>

text \<open>The pool without native methods, after one tuple type was created, for the witnesses.\<close>

definition no_natives :: Natives where
  "no_natives = \<lparr>nativeFuncInfoTable = [], info_of = (\<lambda>name. \<lparr>offset = 0, methodSize = 0\<rparr>)\<rparr>"

abbreviation first_pool :: TypePool where
  "first_pool \<equiv> TypePool_init no_natives"

abbreviation tuple_pool :: TypePool where
  "tuple_pool \<equiv> fst (createTupleType no_natives first_pool [type_id T_Int])"

lemma no_natives_small: "natives_small no_natives"
  by (simp add: natives_small_def info_small_def no_natives_def)

lemma first_pool_size: "length (typeTable first_pool) = 33"
  using TypePool_init_table [OF no_natives_small]
  by (simp add: initial_table_def first_table_def builtin_types_def error_types_def status_types_def)

lemma first_pool_reachable: "reachable_pool no_natives first_pool"
  by (simp add: reachable_pool_def)

lemma first_pool_live: "t < 33 \<Longrightarrow> live first_pool t"
  by (simp add: live_def first_pool_size)

lemma first_pool_room: "has_room first_pool"
  by (simp add: has_room_def first_pool_size MAX_TYPE_NUM_def)

lemma tuple_pool_step: "pool_step no_natives first_pool tuple_pool"
  by (rule step_tuple) (simp_all add: first_pool_room first_pool_live)

lemma tuple_pool_reachable: "reachable_pool no_natives tuple_pool"
  using tuple_pool_step by (simp add: reachable_pool_def r_into_rtranclp)

text \<open>
  [C13] In every pool that a sequence of type creations and method lookups reaches, a type's id is
  its position in the table, looking its name up gives that position, and its super type and the
  types it is built from come before it.
\<close>

theorem pool_interns_names:
  assumes "natives_small N" "reachable_pool N pool" "t < length (typeTable pool)"
  shows "typeId (typeTable pool ! t) = t \<and> getType pool (nameRef (typeTable pool ! t)) = Inr t
    \<and> set_option (superType (typeTable pool ! t)) \<union> set (type_refs (class_of (typeTable pool ! t))) \<subseteq> {..<t}"
proof -
  have wf: "wf_pool pool" using assms(1,2) by (simp add: reachable_wf)
  then have "wf_entry (typeTable pool) t" using assms(3) by (simp add: wf_pool_def wf_table_def)
  moreover have "nameMap pool (nameRef (typeTable pool ! t)) = Some t"
    using wf assms(3) unfolding wf_pool_def names_ok_def by blast
  ultimately show ?thesis
    by (auto simp: wf_entry_def wf_super_def getType_def split: option.splits)
qed

lemma pool_interns_names_witness:
  "typeId (typeTable tuple_pool ! 6) = 6 \<and> getType tuple_pool (nameRef (typeTable tuple_pool ! 6)) = Inr 6
    \<and> set_option (superType (typeTable tuple_pool ! 6)) \<union> set (type_refs (class_of (typeTable tuple_pool ! 6))) \<subseteq> {..<6}"
proof (rule pool_interns_names [OF no_natives_small tuple_pool_reachable])
  have "grown first_pool tuple_pool"
    using pool_step_grown [OF tuple_pool_step no_natives_small TypePool_init_wf [OF no_natives_small]] .
  then show "6 < length (typeTable tuple_pool)" by (auto simp: grown_def first_pool_size)
qed

text \<open>
  [C14] Sub-typing between the types of a reachable pool always gives an answer, and it is a partial
  order: reflexive, transitive and antisymmetric.
\<close>

theorem pool_subtyping_order:
  assumes "natives_small N" "reachable_pool N pool" "live pool a" "live pool b" "live pool c"
  shows "isSameOrBaseTypeOf (typeTable pool) a b \<noteq> None
    \<and> isSameOrBaseTypeOf (typeTable pool) a a = Some True
    \<and> (isSameOrBaseTypeOf (typeTable pool) a b = Some True \<and> isSameOrBaseTypeOf (typeTable pool) b c = Some True
       \<longrightarrow> isSameOrBaseTypeOf (typeTable pool) a c = Some True)
    \<and> (isSameOrBaseTypeOf (typeTable pool) a b = Some True \<and> isSameOrBaseTypeOf (typeTable pool) b a = Some True
       \<longrightarrow> a = b)"
proof -
  have wf: "wf_table (typeTable pool)"
    using reachable_wf [OF assms(2,1)] unfolding wf_pool_def by blast
  from subtyping_partial_order [OF wf assms(3-5) [unfolded live_def]] show ?thesis by blast
qed

lemma pool_subtyping_order_witness:
  "isSameOrBaseTypeOf (typeTable first_pool) 2 6 \<noteq> None
    \<and> isSameOrBaseTypeOf (typeTable first_pool) 2 2 = Some True"
  using pool_subtyping_order [OF no_natives_small first_pool_reachable, of 2 6 4]
  by (simp add: first_pool_live)

text \<open>
  [C12] Rolling a pool back to a discard point gives the pool of that point: whatever types were
  created and methods instantiated since, \<open>discard\<close> removes exactly them.
\<close>

theorem discard_restores:
  assumes "natives_small N" "reachable_pool N pool" "(pool_step N)\<^sup>*\<^sup>* pool pool'"
  shows "discard pool' (getDiscardPoint pool) = pool"
  using pool.discard_run [OF assms(3)] assms(1) reachable_wf [OF assms(2,1)] by blast

lemma discard_restores_witness:
  "discard tuple_pool (getDiscardPoint first_pool) = first_pool"
  using discard_restores [OF no_natives_small first_pool_reachable r_into_rtranclp [of "pool_step no_natives", OF tuple_pool_step]] .

text \<open>
  A tuple type is created once: as long as it is not discarded, asking for the same element
  types again gives the same type and leaves the pool as it is.
\<close>

theorem createTupleType_stable:
  assumes "natives_small N" "reachable_pool N pool" "has_room pool" "\<forall>t \<in> set ts. live pool t"
    "createTupleType N pool ts = (pool1, Inr t)" "(pool_step N)\<^sup>*\<^sup>* pool1 pool2"
  shows "createTupleType N pool2 ts = (pool2, Inr t)"
proof -
  have wf: "wf_pool pool" using assms(1,2) by (simp add: reachable_wf)
  have r: "result_ok pool (pool1, Inr t)"
    using createTupleType_ok [where N = N and pool = pool and ts = ts] assms(1,3-5) wf by (simp add: natives_small_def)
  have g: "grown pool pool1" using result_ok_grown [OF r] by simp
  have g2: "grown pool1 pool2" using pool_run_grown [OF assms(6,1)] g by (blast dest: grown_wf)
  have names: "map (type_name pool2) ts = map (type_name pool) ts"
    "\<forall>x \<in> set ts. typeTable pool2 ! x = typeTable pool ! x"
    using grown_trans [OF g g2] assms(4) by (auto simp: grown_def live_def type_name_def nth_append)
  have check: "checkElementTypes_limit pool2 ts n = checkElementTypes_limit pool ts n" for n
    by (rule checkElementTypes_limit_cong [OF names(2)])
  have none: "checkElementTypes_limit pool ts SYS_LIMIT_TUPLE_NUM = None"
    using assms(5) by (auto simp: createTupleType_def split: option.splits)
  have "nameMap pool1 (toTupleTypeName pool ts) = Some t"
    using assms(5) none wf assms(3) by (auto simp: createTupleType_def intro: internType_name)
  then have "nameMap pool2 (toTupleTypeName pool2 ts) = Some t"
    using grown_name [OF g2 grown_wf [OF g]] unfolding toTupleTypeName_def names(1) by blast
  then show ?thesis
    using none check by (simp add: createTupleType_def internType_def)
qed

lemma createTupleType_stable_witness:
  "\<exists>t. createTupleType no_natives tuple_pool [type_id T_Int] = (tuple_pool, Inr t)"
proof -
  have "\<exists>t. createTupleType no_natives first_pool [type_id T_Int] = (tuple_pool, Inr t)"
  proof -
    have wf: "wf_table (typeTable first_pool)"
      using TypePool_init_wf [OF no_natives_small] by (simp add: wf_pool_def)
    have "typeId (typeTable first_pool ! 6) = 6"
      using wf first_pool_size by (simp add: wf_table_def wf_entry_def)
    then have "checkElementTypes_limit first_pool [type_id T_Int] SYS_LIMIT_TUPLE_NUM = None"
      by (simp add: checkElementTypes_limit_def SYS_LIMIT_TUPLE_NUM_def isVoidType_def isNothingType_def is_type_def)
    then show ?thesis
      using first_pool_size
      by (auto simp: createTupleType_def internType_def newType_def Let_def MAX_TYPE_NUM_def split: option.splits)
  qed
  then obtain t where "createTupleType no_natives first_pool [type_id T_Int] = (tuple_pool, Inr t)" ..
  from createTupleType_stable [OF no_natives_small first_pool_reachable first_pool_room _ this rtranclp.rtrancl_refl]
  show ?thesis by (auto simp: first_pool_live)
qed

end
