(* ===== verification/Scope.thy ===== *)
theory Scope
  imports Type_Methods Binary_Search
begin

text \<open>
  Name scopes and the module loader (\<open>scope.h\<close>, \<open>scope.cpp\<close>, the symbol names of
  \<open>constant.h\<close>). A scope and its parents are a list, the outermost first; the operations work on
  its last element, which is the \<open>this\<close> of the code. A reference to a counter is the place of
  the counter: the loader's count of global variables or the local index of a scope of the list.
\<close>

section \<open>Names of symbols\<close>

definition starts_with :: "string \<Rightarrow> string \<Rightarrow> bool" where
  "starts_with s p \<longleftrightarrow> take (length p) s = p"

definition ends_with :: "string \<Rightarrow> string \<Rightarrow> bool" where
  "ends_with s p \<longleftrightarrow> length p \<le> length s \<and> drop (length s - length p) s = p"

abbreviation CMD_SYMBOL_SUFFIX :: string where "CMD_SYMBOL_SUFFIX \<equiv> ''%c''"
abbreviation TYPE_ALIAS_SYMBOL_SUFFIX :: string where "TYPE_ALIAS_SYMBOL_SUFFIX \<equiv> ''%t''"
abbreviation MOD_HOLDER_SYMBOL_SUFFIX :: string where "MOD_HOLDER_SYMBOL_SUFFIX \<equiv> ''%m''"

definition toCmdFullName :: "string \<Rightarrow> string" where
  "toCmdFullName n = n @ CMD_SYMBOL_SUFFIX"

definition toTypeAliasFullName :: "string \<Rightarrow> string" where
  "toTypeAliasFullName n = n @ TYPE_ALIAS_SYMBOL_SUFFIX"

definition toModHolderName :: "nat \<Rightarrow> bool \<Rightarrow> string" where
  "toModHolderName i global = (if global then ''_g'' else ''_n'') @ show_nat i @ MOD_HOLDER_SYMBOL_SUFFIX"

definition isCmdFullName :: "string \<Rightarrow> bool" where
  "isCmdFullName n \<longleftrightarrow> ends_with n CMD_SYMBOL_SUFFIX"

definition isTypeAliasFullName :: "string \<Rightarrow> bool" where
  "isTypeAliasFullName n \<longleftrightarrow> ends_with n TYPE_ALIAS_SYMBOL_SUFFIX"

definition isModHolderName :: "string \<Rightarrow> bool" where
  "isModHolderName n \<longleftrightarrow> ends_with n MOD_HOLDER_SYMBOL_SUFFIX"

definition isNamedModHolderName :: "string \<Rightarrow> bool" where
  "isNamedModHolderName n \<longleftrightarrow> starts_with n ''_n'' \<and> isModHolderName n"

definition isGlobalModHolderName :: "string \<Rightarrow> bool" where
  "isGlobalModHolderName n \<longleftrightarrow> starts_with n ''_g'' \<and> isModHolderName n"

definition isMagicMethodName :: "string \<Rightarrow> bool" where
  "isMagicMethodName n \<longleftrightarrow> starts_with n ''%''"

definition isVarName :: "string \<Rightarrow> bool" where
  "isVarName n \<longleftrightarrow> \<not> isCmdFullName n \<and> \<not> isTypeAliasFullName n \<and> \<not> isModHolderName n
     \<and> \<not> isMagicMethodName n"

section \<open>Scopes\<close>

datatype NameLookupError = DEFINED | LIMIT

datatype ScopeKind = GLOBAL | FUNC | BLOCK

datatype counter_ref = GvarCount | LocalIndexOf nat

record NameScope =
  kind :: ScopeKind
  modId :: nat
  curLocalIndex :: nat
  localSize :: nat
  maxVarCount :: counter_ref
  handles :: "(string \<times> FieldHandle) list"

record ModuleLoader =
  indexMap :: "(string \<times> nat) list"
  entries :: "nat list"
  gvarCount :: nat

record Scopes = ModuleLoader +
  chain :: "NameScope list"

definition SYS_LIMIT_LOCAL_NUM :: nat where "SYS_LIMIT_LOCAL_NUM = 255"

definition cur_pos :: "Scopes \<Rightarrow> nat" where
  "cur_pos st = length (chain st) - 1"

definition cur :: "Scopes \<Rightarrow> NameScope" where
  "cur st = chain st ! cur_pos st"

definition set_cur :: "NameScope \<Rightarrow> Scopes \<Rightarrow> Scopes" where
  "set_cur s st = st\<lparr>chain := (chain st)[cur_pos st := s]\<rparr>"

text \<open>Reading and writing through \<open>maxVarCount\<close>.\<close>

fun read_ref :: "Scopes \<Rightarrow> counter_ref \<Rightarrow> nat" where
  "read_ref st GvarCount = gvarCount st"
| "read_ref st (LocalIndexOf k) = curLocalIndex (chain st ! k)"

fun write_ref :: "counter_ref \<Rightarrow> nat \<Rightarrow> Scopes \<Rightarrow> Scopes" where
  "write_ref GvarCount v st = st\<lparr>gvarCount := v\<rparr>"
| "write_ref (LocalIndexOf k) v st = st\<lparr>chain := (chain st)[k := (chain st ! k)\<lparr>curLocalIndex := v\<rparr>]\<rparr>"

definition isGlobal :: "NameScope \<Rightarrow> bool" where
  "isGlobal s \<longleftrightarrow> kind s = GLOBAL"

definition getBaseIndex :: "NameScope \<Rightarrow> nat" where
  "getBaseIndex s = curLocalIndex s - localSize s"

definition getMaxGlobalVarIndex :: "Scopes \<Rightarrow> nat" where
  "getMaxGlobalVarIndex st = read_ref st (maxVarCount (cur st))"

definition getMaxLocalVarIndex :: "Scopes \<Rightarrow> nat" where
  "getMaxLocalVarIndex st =
     (if kind (cur st) = BLOCK then read_ref st (maxVarCount (cur st)) else curLocalIndex (cur st))"

definition scope_find :: "NameScope \<Rightarrow> string \<Rightarrow> FieldHandle option" where
  "scope_find s name = map_of (handles s) name"

definition commitId :: "NameScope \<Rightarrow> nat" where
  "commitId s = length (handles s)"

definition isAllowedScopePair :: "ScopeKind \<Rightarrow> ScopeKind \<Rightarrow> bool" where
  "isAllowedScopePair parent child \<longleftrightarrow>
     (parent, child) \<in> set [(GLOBAL, FUNC), (GLOBAL, BLOCK), (FUNC, BLOCK), (BLOCK, BLOCK)]"

definition new_scope :: "ScopeKind \<Rightarrow> nat \<Rightarrow> counter_ref \<Rightarrow> NameScope" where
  "new_scope k m r = \<lparr>kind = k, modId = m, curLocalIndex = 0, localSize = 0, maxVarCount = r, handles = []\<rparr>"

definition newModuleScope :: "nat \<Rightarrow> NameScope" where
  "newModuleScope m = new_scope GLOBAL m GvarCount"

definition enterScope :: "ScopeKind \<Rightarrow> Scopes \<Rightarrow> Scopes option" where
  "enterScope newKind st =
     (let this = cur st;
          push = (\<lambda>s. Some (st\<lparr>chain := chain st @ [s]\<rparr>))
      in if isAllowedScopePair (kind this) newKind then
           (if kind this = GLOBAL \<and> newKind = FUNC then
              push (new_scope newKind (modId this) (maxVarCount this))
            else if kind this = GLOBAL \<and> newKind = BLOCK then
              push (new_scope newKind (modId this) (LocalIndexOf (cur_pos st)))
            else if kind this = FUNC \<and> newKind = BLOCK then
              push (new_scope newKind (modId this) (LocalIndexOf (cur_pos st)))
            else if kind this = BLOCK \<and> newKind = BLOCK then
              push (new_scope newKind (modId this) (maxVarCount this)\<lparr>curLocalIndex := curLocalIndex this\<rparr>)
            else None)
         else None)"

definition exitScope :: "Scopes \<Rightarrow> Scopes" where
  "exitScope st = st\<lparr>chain := butlast (chain st)\<rparr>"

definition clearLocalSize :: "Scopes \<Rightarrow> Scopes" where
  "clearLocalSize st = set_cur ((cur st)\<lparr>curLocalIndex := 0, localSize := 0\<rparr>) st"

type_synonym define_result = "Scopes \<times> (NameLookupError + FieldHandle)"

text \<open>\<open>add\<close>: the counters are written through the reference, which may be the scope's parent.\<close>

definition scope_add :: "Scopes \<Rightarrow> string \<Rightarrow> FieldHandle \<Rightarrow> define_result" where
  "scope_add st name handle =
     (let this = cur st; a = fieldAttr handle in
      if \<not> hasFlag a ALIAS \<and> \<not> hasFlag a GLOBAL_ATTR \<and> curLocalIndex this = SYS_LIMIT_LOCAL_NUM then
        (st, Inl LIMIT)
      else if scope_find this name \<noteq> None then (st, Inl DEFINED)
      else
        (let this = this\<lparr>handles := handles this @ [(name, handle)]\<rparr>;
             st = set_cur this st
         in (if hasFlag a ALIAS then st
             else if hasFlag a GLOBAL_ATTR then
               write_ref (maxVarCount this) (read_ref st (maxVarCount this) + 1) st
             else
               (let this = this\<lparr>curLocalIndex := curLocalIndex this + 1, localSize := localSize this + 1\<rparr>;
                    st = set_cur this st
                in if curLocalIndex this > read_ref st (maxVarCount this) then
                     write_ref (maxVarCount this) (curLocalIndex this) st
                   else st),
             Inr handle)))"

definition addNewHandle :: "Scopes \<Rightarrow> string \<Rightarrow> nat \<Rightarrow> FieldAttribute \<Rightarrow> define_result" where
  "addNewHandle st name ty a =
     (let this = cur st;
          a = (if isGlobal this then setFlag a GLOBAL_ATTR else unsetFlag a GLOBAL_ATTR);
          index = (if isGlobal this then getMaxGlobalVarIndex st else curLocalIndex this)
      in scope_add st name
           \<lparr>commitID = commitId this, typeID = ty, fieldIndex = index, fieldAttr = a, modID = modId this\<rparr>)"

definition addNewAlias :: "Scopes \<Rightarrow> string \<Rightarrow> FieldHandle \<Rightarrow> define_result" where
  "addNewAlias st name h =
     scope_add st name (h\<lparr>commitID := commitId (cur st), fieldAttr := setFlag (fieldAttr h) ALIAS,
       modID := modId (cur st)\<rparr>)"

definition addNewForeignHandle :: "Scopes \<Rightarrow> string \<Rightarrow> FieldHandle \<Rightarrow> define_result" where
  "addNewForeignHandle st name h =
     scope_add st name (h\<lparr>commitID := commitId (cur st), fieldAttr := setFlag (fieldAttr h) ALIAS\<rparr>)"

definition definedInBuiltin :: "Scopes \<Rightarrow> string \<Rightarrow> bool" where
  "definedInBuiltin st name \<longleftrightarrow>
     isGlobal (cur st) \<and> 1 < length (chain st) \<and>
     (let parent = chain st ! (length (chain st) - 2)
      in modId parent = 0 \<and> scope_find parent name \<noteq> None)"

definition defineHandle :: "Scopes \<Rightarrow> string \<Rightarrow> nat \<Rightarrow> FieldAttribute \<Rightarrow> define_result" where
  "defineHandle st name ty a =
     (if definedInBuiltin st name then (st, Inl DEFINED) else addNewHandle st name ty a)"

definition defineAlias :: "Scopes \<Rightarrow> string \<Rightarrow> FieldHandle \<Rightarrow> define_result" where
  "defineAlias st name h =
     (if definedInBuiltin st name then (st, Inl DEFINED) else addNewAlias st name h)"

definition defineTypeAlias :: "TypePool \<Rightarrow> Scopes \<Rightarrow> string \<Rightarrow> nat \<Rightarrow> define_result" where
  "defineTypeAlias pool st name ty =
     (if isGlobal (cur st) \<and> \<not> isl (getType pool name) then (st, Inl DEFINED)
      else defineAlias st (toTypeAliasFullName name)
        \<lparr>commitID = 0, typeID = ty, fieldIndex = 0, fieldAttr = 0, modID = 0\<rparr>)"

section \<open>Modules\<close>

text \<open>The members of a module type, as the accessors of \<open>ModType\<close> read them.\<close>

fun mod_id :: "type_members \<Rightarrow> nat" where
  "mod_id (ModType i index children hs) = i" | "mod_id _ = 0"

fun mod_index :: "type_members \<Rightarrow> nat" where
  "mod_index (ModType i index children hs) = index" | "mod_index _ = 0"

fun getHandleMap :: "type_members \<Rightarrow> (string \<times> FieldHandle) list" where
  "getHandleMap (ModType i index children hs) = hs" | "getHandleMap _ = []"

fun mod_children :: "type_members \<Rightarrow> ImportedModEntry list" where
  "mod_children (ModType i index children hs) = children" | "mod_children _ = []"

definition toModHolder :: "DSType \<Rightarrow> bool \<Rightarrow> FieldHandle" where
  "toModHolder t global =
     \<lparr>commitID = 0, typeID = typeId t, fieldIndex = mod_index (class_of t),
      fieldAttr = READ_ONLY OR GLOBAL_ATTR OR (if global then GLOBAL_MOD else NAMED_MOD),
      modID = mod_id (class_of t)\<rparr>"

definition toModEntry :: "DSType \<Rightarrow> bool \<Rightarrow> ImportedModEntry" where
  "toModEntry t global = (let v = of_nat (typeId t) in if global then v OR push_bit 31 1 else v)"

text \<open>The symbols of a globally imported module, up to the first conflict.\<close>

fun import_symbols :: "Scopes \<Rightarrow> (string \<times> FieldHandle) list \<Rightarrow> Scopes \<times> string" where
  "import_symbols st [] = (st, [])"
| "import_symbols st ((name, handle) # hs) =
     (if starts_with name ''_'' then import_symbols st hs
      else (case addNewForeignHandle st name handle of
          (st, Inr h) \<Rightarrow> import_symbols st hs
        | (st, Inl e) \<Rightarrow>
            (st, if isCmdFullName name then take (length name - length CMD_SYMBOL_SUFFIX) name
                 else if isTypeAliasFullName name then take (length name - length TYPE_ALIAS_SYMBOL_SUFFIX) name
                 else name)))"

definition importForeignHandles :: "Scopes \<Rightarrow> DSType \<Rightarrow> bool \<Rightarrow> Scopes \<times> string" where
  "importForeignHandles st t global =
     (let holderName = toModHolderName (mod_id (class_of t)) global in
      if scope_find (cur st) holderName \<noteq> None then (st, [])
      else
        (let st = fst (addNewAlias st holderName (toModHolder t global))
         in if \<not> global then (st, []) else import_symbols st (getHandleMap (class_of t))))"

text \<open>Re-creating the scope of a compiled module: its own handles, then the modules it imports.\<close>

definition fromModType :: "type_table \<Rightarrow> Scopes \<Rightarrow> DSType \<Rightarrow> Scopes" where
  "fromModType tbl st t =
     (let st = st\<lparr>chain := [newModuleScope (mod_id (class_of t))]\<rparr>;
          st = foldl (\<lambda>st (name, h). fst (addNewAlias st name h)) st (getHandleMap (class_of t))
      in foldl (\<lambda>st e. fst (importForeignHandles st (tbl ! entry_typeId e) (entry_isGlobal e)))
           st (mod_children (class_of t)))"

definition tryInsertByAscendingOrder ::
  "ImportedModEntry list \<Rightarrow> ImportedModEntry \<Rightarrow> ImportedModEntry list"
where
  "tryInsertByAscendingOrder children entry =
     (let i = lower_bound (\<lambda>x. entry_typeId x < entry_typeId entry) children in
      if i < length children \<and> entry_typeId (children ! i) = entry_typeId entry then
        (if entry_isGlobal entry then children[i := entry] else children)
      else take i children @ [entry] @ drop i children)"

definition isModHolder :: "FieldHandle \<Rightarrow> bool" where
  "isModHolder h \<longleftrightarrow> fieldAttr h AND (GLOBAL_MOD OR NAMED_MOD) \<noteq> 0"

definition collect_children :: "type_table \<Rightarrow> (string \<times> FieldHandle) list \<Rightarrow> ImportedModEntry list" where
  "collect_children tbl hs =
     foldl (\<lambda>children (name, h).
         if isModHolder h then
           tryInsertByAscendingOrder children (toModEntry (tbl ! typeID h) (hasFlag (fieldAttr h) GLOBAL_MOD))
         else children)
       [] hs"

definition own_handles :: "NameScope \<Rightarrow> (string \<times> FieldHandle) list" where
  "own_handles s = filter (\<lambda>(name, h). \<not> isModHolder h \<and> modID h = modId s) (handles s)"

definition toModType :: "TypePool \<Rightarrow> Scopes \<Rightarrow> nat pool_result" where
  "toModType pool st =
     createModType pool (modId (cur st)) (own_handles (cur st))
       (collect_children (typeTable pool) (handles (cur st))) (getMaxGlobalVarIndex st)"

section \<open>Lookup\<close>

primrec lookup_from :: "NameScope list \<Rightarrow> string \<Rightarrow> nat \<Rightarrow> FieldHandle option" where
  "lookup_from ss name 0 = scope_find (ss ! 0) name"
| "lookup_from ss name (Suc k) =
     (case scope_find (ss ! Suc k) name of Some h \<Rightarrow> Some h | None \<Rightarrow> lookup_from ss name k)"

definition scope_lookup :: "Scopes \<Rightarrow> string \<Rightarrow> FieldHandle option" where
  "scope_lookup st name = lookup_from (chain st) name (cur_pos st)"

text \<open>\<open>lookupField\<close> of the types, and of a scope, which hides the private names of other modules.\<close>

function type_lookupField :: "type_table \<Rightarrow> nat \<Rightarrow> string \<Rightarrow> FieldHandle option" where
  "type_lookupField tbl t name =
     (case class_of (tbl ! t) of
        TupleType info ts hs \<Rightarrow>
          (case map_of hs name of
             Some h \<Rightarrow> Some h
           | None \<Rightarrow> (case superType (tbl ! t) of
                 None \<Rightarrow> None
               | Some s \<Rightarrow> if s < t then type_lookupField tbl s name else None))
      | ModType i index children hs \<Rightarrow> map_of hs name
      | _ \<Rightarrow> None)"
  by pat_completeness auto
termination by (relation "measure (\<lambda>(tbl, t, name). t)") auto

declare type_lookupField.simps [simp del]

definition scope_lookupField :: "type_table \<Rightarrow> Scopes \<Rightarrow> nat \<Rightarrow> string \<Rightarrow> FieldHandle option" where
  "scope_lookupField tbl st recv fieldName =
     (case type_lookupField tbl recv fieldName of
        Some h \<Rightarrow>
          if modID h = 0 \<or> modId (cur st) = modID h \<or> \<not> starts_with fieldName ''_'' then Some h else None
      | None \<Rightarrow> None)"

definition lookupVisibleSymbolAtModule :: "type_table \<Rightarrow> nat \<Rightarrow> string \<Rightarrow> FieldHandle option" where
  "lookupVisibleSymbolAtModule tbl t name =
     (case type_lookupField tbl t name of
        Some h \<Rightarrow> Some h
      | None \<Rightarrow>
          if name = [] \<or> hd name = CHR ''_'' then None
          else foldr (\<lambda>e rest. if entry_isGlobal e then
                (case type_lookupField tbl (entry_typeId e) name of Some h \<Rightarrow> Some h | None \<Rightarrow> rest)
              else rest)
            (mod_children (class_of (tbl ! t))) None)"

section \<open>Discarding\<close>

definition scope_getDiscardPoint :: "Scopes \<Rightarrow> nat" where
  "scope_getDiscardPoint st = commitId (cur st)"

definition scope_discard :: "Scopes \<Rightarrow> nat \<Rightarrow> Scopes" where
  "scope_discard st commitIdOffset =
     (let st = set_cur ((cur st)\<lparr>handles := filter (\<lambda>(name, h). \<not> commitID h \<ge> commitIdOffset) (handles (cur st))\<rparr>) st
      in if isGlobal (cur st) then clearLocalSize st else st)"

end
