(* ===== verification/Scope_Chain.thy ===== *)
theory Scope_Chain
  imports Scope
begin

text \<open>
  What the operations on scopes guarantee: the chain of scopes stays well-formed, so that local
  variables have distinct slots; definitions change the meaning of one name only; discarding
  restores a module's scope.
\<close>

section \<open>Well-formed chains of scopes\<close>

text \<open>
  The handles of a scope are numbered in the order of their definition; the local variables of a
  block have the slots from its base index up to its current index, in that order.
\<close>

definition numbered :: "(string \<times> FieldHandle) list \<Rightarrow> bool" where
  "numbered hs \<longleftrightarrow> map (commitID \<circ> snd) hs = [0..<length hs] \<and> distinct (map fst hs)"

definition is_local :: "FieldHandle \<Rightarrow> bool" where
  "is_local h \<longleftrightarrow> \<not> hasFlag (fieldAttr h) ALIAS \<and> \<not> hasFlag (fieldAttr h) GLOBAL_ATTR"

definition local_slots :: "NameScope \<Rightarrow> nat list" where
  "local_slots s = map (fieldIndex \<circ> snd) (filter (is_local \<circ> snd) (handles s))"

definition scope_ok :: "NameScope \<Rightarrow> bool" where
  "scope_ok s \<longleftrightarrow>
     numbered (handles s) \<and> curLocalIndex s \<le> SYS_LIMIT_LOCAL_NUM
     \<and> localSize s \<le> curLocalIndex s
     \<and> local_slots s = (if kind s = BLOCK then [getBaseIndex s..<curLocalIndex s] else [])"

fun nested_ok :: "nat \<Rightarrow> NameScope \<Rightarrow> NameScope \<Rightarrow> bool" where
  "nested_ok k parent s \<longleftrightarrow>
     (case kind s of
        GLOBAL \<Rightarrow> kind parent = GLOBAL
      | FUNC \<Rightarrow> kind parent = GLOBAL
      | BLOCK \<Rightarrow> maxVarCount s = (if kind parent = BLOCK then maxVarCount parent else LocalIndexOf k)
          \<and> getBaseIndex s = (if kind parent = BLOCK then curLocalIndex parent else 0))"

definition chain_ok :: "Scopes \<Rightarrow> bool" where
  "chain_ok st \<longleftrightarrow>
     chain st \<noteq> [] \<and> kind (chain st ! 0) = GLOBAL
     \<and> (\<forall>s \<in> set (chain st). scope_ok s \<and> (kind s \<noteq> BLOCK \<longrightarrow> maxVarCount s = GvarCount))
     \<and> (\<forall>k. Suc k < length (chain st) \<longrightarrow> nested_ok k (chain st ! k) (chain st ! Suc k))
     \<and> (\<forall>s \<in> set (chain st). kind s = BLOCK \<longrightarrow> curLocalIndex s \<le> read_ref st (maxVarCount s))"


lemma cur_pos_less [simp]: "chain st \<noteq> [] \<Longrightarrow> cur_pos st < length (chain st)"
  by (simp add: cur_pos_def)

lemma chain_ok_ne [simp]: "chain_ok st \<Longrightarrow> chain st \<noteq> []"
  by (simp add: chain_ok_def)

lemma cur_in: "chain_ok st \<Longrightarrow> cur st \<in> set (chain st)"
  by (simp add: cur_def)

lemma nested_block:
  "kind s = BLOCK \<Longrightarrow> nested_ok k p s \<longleftrightarrow>
     maxVarCount s = (if kind p = BLOCK then maxVarCount p else LocalIndexOf k)
     \<and> getBaseIndex s = (if kind p = BLOCK then curLocalIndex p else 0)"
  by simp

lemma nested_not_block: "kind s \<noteq> BLOCK \<Longrightarrow> nested_ok k p s \<longleftrightarrow> kind p = GLOBAL"
  by (cases "kind s") auto

declare nested_ok.simps [simp del]

text \<open>The counter of a block's frame is the local index of the scope below the outermost block.\<close>

lemma block_ref:
  assumes "chain_ok st"
  shows "j < length (chain st) \<Longrightarrow> kind (chain st ! j) = BLOCK \<Longrightarrow>
    \<exists>k < j. maxVarCount (chain st ! j) = LocalIndexOf k \<and> kind (chain st ! k) \<noteq> BLOCK"
proof (induction j)
  case 0
  then show ?case using assms by (simp add: chain_ok_def)
next
  case (Suc j)
  have n: "nested_ok j (chain st ! j) (chain st ! Suc j)"
    using assms Suc.prems by (simp add: chain_ok_def)
  show ?case
  proof (cases "kind (chain st ! j) = BLOCK")
    case True
    with Suc n show ?thesis by (auto simp: nested_block intro: less_SucI)
  next
    case False
    with Suc.prems n show ?thesis by (auto simp: nested_block)
  qed
qed

lemma length_set_cur [simp]: "length (chain (set_cur s st)) = length (chain st)"
  by (simp add: set_cur_def)

lemma cur_pos_set_cur [simp]: "cur_pos (set_cur s st) = cur_pos st"
  by (simp add: cur_pos_def)

lemma cur_set_cur: "chain st \<noteq> [] \<Longrightarrow> cur (set_cur s st) = s"
  by (simp add: cur_def) (simp add: set_cur_def)

lemma nth_set_cur: "k < cur_pos st \<Longrightarrow> chain (set_cur s st) ! k = chain st ! k"
  by (simp add: set_cur_def)

lemma chain_ok_set_cur:
  assumes ok: "chain_ok st"
    and s: "kind s = kind (cur st)" "maxVarCount s = maxVarCount (cur st)"
      "kind s = BLOCK \<Longrightarrow> getBaseIndex s = getBaseIndex (cur st)" "scope_ok s"
    and max: "kind s = BLOCK \<Longrightarrow> curLocalIndex s \<le> read_ref st (maxVarCount s)"
  shows "chain_ok (set_cur s st)"
proof -
  let ?st = "set_cur s st" and ?n = "cur_pos st"
  have ne: "chain st \<noteq> []" and n: "?n < length (chain st)" and last: "j < length (chain st) \<Longrightarrow> j \<le> ?n" for j
    using ok by (auto simp: cur_pos_def)
  note s = s [unfolded cur_def]
  have nth: "chain ?st ! j = (if j = ?n then s else chain st ! j)" if "j < length (chain st)" for j
    using that ne by (simp add: set_cur_def)
  have ref: "read_ref ?st (maxVarCount (chain st ! j)) = read_ref st (maxVarCount (chain st ! j))"
    if "j < length (chain st)" "kind (chain st ! j) = BLOCK" for j
  proof -
    from block_ref [OF ok that] obtain k where "k < j" "maxVarCount (chain st ! j) = LocalIndexOf k" by blast
    moreover have "k \<noteq> ?n" using last [OF that(1)] \<open>k < j\<close> by simp
    ultimately show ?thesis using that(1) by (simp add: nth)
  qed
  have all: "scope_ok (chain ?st ! j) \<and> (kind (chain ?st ! j) \<noteq> BLOCK \<longrightarrow> maxVarCount (chain ?st ! j) = GvarCount)"
    if "j < length (chain st)" for j
  proof (cases "j = ?n")
    case True
    have "kind (chain st ! ?n) \<noteq> BLOCK \<longrightarrow> maxVarCount (chain st ! ?n) = GvarCount"
      using ok n by (simp add: chain_ok_def)
    with True s that show ?thesis by (simp add: nth)
  next
    case False
    with that ok show ?thesis by (simp add: nth chain_ok_def)
  qed
  have step: "nested_ok j (chain ?st ! j) (chain ?st ! Suc j)" if "Suc j < length (chain st)" for j
  proof -
    have "nested_ok j (chain st ! j) (chain st ! Suc j)" using ok that by (simp add: chain_ok_def)
    moreover have "j \<noteq> ?n" using last [OF that] by simp
    ultimately show ?thesis using that s
      by (cases "kind (chain st ! Suc j) = BLOCK") (auto simp: nth nested_block nested_not_block)
  qed
  have below: "curLocalIndex (chain ?st ! j) \<le> read_ref ?st (maxVarCount (chain ?st ! j))"
    if "j < length (chain st)" "kind (chain ?st ! j) = BLOCK" for j
  proof (cases "j = ?n")
    case True
    have "read_ref ?st (maxVarCount (chain st ! ?n)) = read_ref st (maxVarCount (chain st ! ?n))"
      using ref [of ?n] that True s(1) n by (simp add: nth)
    then show ?thesis using True that max s n by (simp add: nth)
  next
    case False
    then show ?thesis using that ok ref [of j] by (simp add: nth chain_ok_def)
  qed
  have first: "kind (chain ?st ! 0) = GLOBAL"
    using ok s(1) ne nth [of 0] by (cases "?n = 0") (simp_all add: chain_ok_def)
  have "chain ?st \<noteq> []" using ne by (simp add: set_cur_def)
  with first all step below show ?thesis
    unfolding chain_ok_def all_set_conv_all_nth length_set_cur by blast
qed

lemma block_ref_local:
  assumes "chain_ok st" "s \<in> set (chain st)" "kind s = BLOCK"
  obtains k where "maxVarCount s = LocalIndexOf k" "k < length (chain st)" "kind (chain st ! k) \<noteq> BLOCK"
proof -
  from assms(2) obtain j where j: "j < length (chain st)" "s = chain st ! j"
    by (auto simp: in_set_conv_nth)
  from block_ref [OF assms(1) j(1)] assms(3) j that show ?thesis by auto
qed

lemma chain_ok_gvar:
  assumes "chain_ok st"
  shows "chain_ok (st\<lparr>gvarCount := v\<rparr>)"
proof -
  have "read_ref (st\<lparr>gvarCount := v\<rparr>) (maxVarCount s) = read_ref st (maxVarCount s)"
    if "s \<in> set (chain st)" "kind s = BLOCK" for s
    by (rule block_ref_local [OF assms that]) simp
  then show ?thesis using assms by (auto simp: chain_ok_def)
qed

text \<open>Raising the counter of the current block's frame.\<close>

lemma chain_ok_write_ref:
  assumes ok: "chain_ok st" and block: "kind (cur st) = BLOCK"
    and v: "read_ref st (maxVarCount (cur st)) \<le> v" "v \<le> SYS_LIMIT_LOCAL_NUM"
  shows "chain_ok (write_ref (maxVarCount (cur st)) v st)"
proof -
  obtain k where k: "maxVarCount (cur st) = LocalIndexOf k" "k < length (chain st)" "kind (chain st ! k) \<noteq> BLOCK"
    by (rule block_ref_local [OF ok cur_in [OF ok] block])
  let ?st = "write_ref (maxVarCount (cur st)) v st" and ?s = "(chain st ! k)\<lparr>curLocalIndex := v\<rparr>"
  have chain: "chain ?st = (chain st)[k := ?s]" by (simp add: k(1))
  have ne: "chain st \<noteq> []" using ok by (simp add: chain_ok_def)
  have nth: "chain ?st ! j = (if j = k then ?s else chain st ! j)" if "j < length (chain st)" for j
    using that k(2) by (simp add: chain)
  have sk: "scope_ok (chain st ! k)" using ok k(2) by (simp add: chain_ok_def)
  have vk: "curLocalIndex (chain st ! k) \<le> v" using v(1) k(1) by simp
  have all: "scope_ok (chain ?st ! j) \<and> (kind (chain ?st ! j) \<noteq> BLOCK \<longrightarrow> maxVarCount (chain ?st ! j) = GvarCount)"
    if j: "j < length (chain st)" for j
  proof (cases "j = k")
    case True
    have "maxVarCount (chain st ! k) = GvarCount" using ok k(2,3) by (simp add: chain_ok_def)
    then show ?thesis using True sk vk v(2) k(3) by (simp add: nth [OF k(2)] scope_ok_def local_slots_def)
  next
    case False
    then show ?thesis using ok j by (simp add: nth chain_ok_def)
  qed
  have step: "nested_ok j (chain ?st ! j) (chain ?st ! Suc j)" if "Suc j < length (chain st)" for j
  proof -
    have "nested_ok j (chain st ! j) (chain st ! Suc j)" using ok that by (simp add: chain_ok_def)
    then show ?thesis using that k(3)
      by (cases "kind (chain st ! Suc j) = BLOCK") (auto simp: nth nested_block nested_not_block)
  qed
  have ref: "read_ref st r \<le> read_ref ?st r" if "r = LocalIndexOf i" "i < length (chain st)" for r i
    using that vk by (simp add: nth)
  have below: "curLocalIndex (chain ?st ! j) \<le> read_ref ?st (maxVarCount (chain ?st ! j))"
    if j: "j < length (chain st)" "kind (chain ?st ! j) = BLOCK" for j
  proof -
    have jk: "j \<noteq> k" using j k(2,3) by (auto simp: nth)
    then have b: "kind (chain st ! j) = BLOCK" using j by (simp add: nth)
    then have "curLocalIndex (chain st ! j) \<le> read_ref st (maxVarCount (chain st ! j))"
      using ok j(1) by (simp add: chain_ok_def)
    also have "\<dots> \<le> read_ref ?st (maxVarCount (chain st ! j))"
      by (rule block_ref_local [OF ok nth_mem [OF j(1)] b]) (rule ref)
    finally show ?thesis using jk j(1) by (simp add: nth)
  qed
  have first: "kind (chain ?st ! 0) = GLOBAL"
    using ok ne nth [of 0] by (simp add: chain_ok_def)
  have len: "length (chain ?st) = length (chain st)" and ne': "chain ?st \<noteq> []"
    using ne by (simp_all add: chain)
  show ?thesis
    unfolding chain_ok_def all_set_conv_all_nth len using first all step below ne' by blast
qed

section \<open>Definitions keep the chain well-formed\<close>

lemma numbered_snoc:
  "numbered hs \<Longrightarrow> map_of hs name = None \<Longrightarrow> commitID h = length hs \<Longrightarrow> numbered (hs @ [(name, h)])"
  by (auto simp: numbered_def map_of_eq_None_iff)

lemma local_slots_snoc [simp]:
  "local_slots (s\<lparr>handles := hs @ [(name, h)]\<rparr>) =
     local_slots (s\<lparr>handles := hs\<rparr>) @ (if is_local h then [fieldIndex h] else [])"
  by (simp add: local_slots_def)

text \<open>What the callers of \<open>add\<close> guarantee of the new handle.\<close>

definition fits :: "NameScope \<Rightarrow> FieldHandle \<Rightarrow> bool" where
  "fits s h \<longleftrightarrow> commitID h = commitId s
     \<and> (is_local h \<longrightarrow> kind s = BLOCK \<and> fieldIndex h = curLocalIndex s)
     \<and> (hasFlag (fieldAttr h) GLOBAL_ATTR \<and> \<not> hasFlag (fieldAttr h) ALIAS \<longrightarrow> kind s = GLOBAL)"

lemma scope_ok_add_other:
  assumes "scope_ok s" "scope_find s name = None" "commitID h = commitId s" "\<not> is_local h"
  shows "scope_ok (s\<lparr>handles := handles s @ [(name, h)]\<rparr>)"
  using assms numbered_snoc [of "handles s" name h]
  by (simp add: scope_ok_def scope_find_def commitId_def getBaseIndex_def)

lemma scope_ok_add_local:
  assumes "scope_ok s" "scope_find s name = None" "fits s h" "is_local h" "curLocalIndex s < SYS_LIMIT_LOCAL_NUM"
  shows "scope_ok (s\<lparr>handles := handles s @ [(name, h)], curLocalIndex := curLocalIndex s + 1,
    localSize := localSize s + 1\<rparr>)"
  using assms numbered_snoc [of "handles s" name h]
  by (auto simp: scope_ok_def scope_find_def fits_def commitId_def getBaseIndex_def local_slots_def
      Suc_diff_le)


lemma chain_ok_scope: "chain_ok st \<Longrightarrow> s \<in> set (chain st) \<Longrightarrow> scope_ok s"
  unfolding chain_ok_def by blast

lemma set_cur_twice [simp]: "set_cur s (set_cur t st) = set_cur s st"
  by (simp add: set_cur_def cur_pos_def)

lemma set_cur_write:
  assumes "k < cur_pos st"
  shows "write_ref (LocalIndexOf k) v (set_cur s st) = set_cur s (write_ref (LocalIndexOf k) v st)"
    and "read_ref (set_cur s st) (LocalIndexOf k) = read_ref st (LocalIndexOf k)"
    and "write_ref (LocalIndexOf k) (curLocalIndex (chain st ! k)) st = st"
  using assms by (simp_all add: set_cur_def cur_pos_def list_update_swap)

lemma chain_ok_add:
  assumes ok: "chain_ok st" and fits: "fits (cur st) h"
  shows "chain_ok (fst (scope_add st name h))"
proof (cases "(is_local h \<and> curLocalIndex (cur st) = SYS_LIMIT_LOCAL_NUM) \<or> scope_find (cur st) name \<noteq> None")
  case True
  then show ?thesis using ok by (auto simp: scope_add_def is_local_def Let_def)
next
  case False
  let ?s = "cur st"
  let ?t = "?s\<lparr>handles := handles ?s @ [(name, h)]\<rparr>"
  have s: "scope_ok ?s" using ok cur_in [OF ok] by (simp add: chain_ok_def)
  have below: "kind ?s = BLOCK \<Longrightarrow> curLocalIndex ?s \<le> read_ref st (maxVarCount ?s)"
    using ok cur_in [OF ok] by (simp add: chain_ok_def)
  have c: "commitID h = commitId ?s" using fits by (simp add: fits_def)
  show ?thesis
  proof (cases "is_local h")
    case other: False
    have t: "chain_ok (set_cur ?t st)"
      using scope_ok_add_other [OF s _ c other] False below
      by (intro chain_ok_set_cur [OF ok]) (auto simp: getBaseIndex_def)
    have "fst (scope_add st name h) = set_cur ?t st \<or>
        (\<exists>v. fst (scope_add st name h) = write_ref (maxVarCount ?s) v (set_cur ?t st) \<and> \<not> hasFlag (fieldAttr h) ALIAS)"
      using False other by (auto simp: scope_add_def is_local_def Let_def)
    moreover have "maxVarCount ?s = GvarCount" if "\<not> hasFlag (fieldAttr h) ALIAS"
    proof -
      have "kind ?s = GLOBAL" using that other fits by (auto simp: fits_def is_local_def)
      then show ?thesis using ok cur_in [OF ok] by (simp add: chain_ok_def)
    qed
    ultimately show ?thesis using t chain_ok_gvar [OF t] by auto
  next
    case local: True
    define u where "u = ?t\<lparr>curLocalIndex := curLocalIndex ?s + 1, localSize := localSize ?s + 1\<rparr>"
    have block: "kind ?s = BLOCK" using fits local by (simp add: fits_def)
    have lt: "curLocalIndex ?s < SYS_LIMIT_LOCAL_NUM" using False local s by (auto simp: scope_ok_def)
    have u: "scope_ok u" using scope_ok_add_local [OF s _ fits local lt] False by (simp add: u_def)
    define v where "v = max (read_ref st (maxVarCount ?s)) (curLocalIndex ?s + 1)"
    let ?w = "write_ref (maxVarCount ?s) v st"
    obtain k where k: "maxVarCount ?s = LocalIndexOf k" "k < cur_pos st"
      using block_ref [OF ok, of "cur_pos st"] ok block by (auto simp: cur_def)
    have kl: "k < length (chain st)" using k(2) by (simp add: cur_pos_def)
    have limit: "read_ref st (maxVarCount ?s) \<le> SYS_LIMIT_LOCAL_NUM"
      using chain_ok_scope [OF ok nth_mem [OF kl]] unfolding k(1) read_ref.simps scope_ok_def by blast
    have w: "chain_ok ?w" using lt limit by (intro chain_ok_write_ref [OF ok block]) (auto simp: v_def)
    have cw: "cur ?w = ?s" using k by (simp add: cur_def cur_pos_def)
    have "curLocalIndex u \<le> read_ref ?w (maxVarCount u)" using kl by (simp add: u_def k(1) v_def)
    then have "chain_ok (set_cur u ?w)"
      using u by (intro chain_ok_set_cur [OF w]) (simp_all add: cw u_def getBaseIndex_def del: write_ref.simps read_ref.simps)
    moreover have "fst (scope_add st name h) = set_cur u ?w"
    proof -
      let ?r = "maxVarCount ?s"
      have "fst (scope_add st name h) =
          (if curLocalIndex ?s + 1 > read_ref (set_cur u st) ?r
           then write_ref ?r (curLocalIndex ?s + 1) (set_cur u st) else set_cur u st)"
        using False local by (simp add: scope_add_def is_local_def Let_def u_def del: read_ref.simps write_ref.simps)
      also have "\<dots> = set_cur u ?w"
      proof (cases "curLocalIndex ?s + 1 > read_ref st ?r")
        case True
        then show ?thesis unfolding k(1) set_cur_write [OF k(2)] by (simp add: v_def max_def k(1) del: write_ref.simps read_ref.simps)
      next
        case False
        have "write_ref ?r (read_ref st ?r) st = st" unfolding k(1) read_ref.simps set_cur_write(3) [OF k(2)] ..
        then show ?thesis using False unfolding k(1) set_cur_write(2) [OF k(2)] by (simp del: read_ref.simps write_ref.simps add: v_def max_def k(1))
      qed
      finally show ?thesis .
    qed
    ultimately show ?thesis by simp
  qed
qed


lemma setFlag_has [simp]: "hasFlag (setFlag a f) f"
  by (auto simp: hasFlag_def setFlag_def bit_eq_iff bit_simps)

lemma unsetFlag_has: "f \<noteq> 0 \<Longrightarrow> \<not> hasFlag (unsetFlag a f) f"
proof -
  have "(a AND NOT f) AND f = 0" by (auto simp: bit_eq_iff bit_simps)
  then show "f \<noteq> 0 \<Longrightarrow> ?thesis" by (simp add: hasFlag_def unsetFlag_def)
qed

lemma unsetFlag_global [simp]: "\<not> hasFlag (unsetFlag a GLOBAL_ATTR) GLOBAL_ATTR"
  by (rule unsetFlag_has) (simp add: GLOBAL_ATTR_def)

lemma hasFlag_other:
  assumes "f AND g = 0"
  shows "hasFlag (setFlag a g) f \<longleftrightarrow> hasFlag a f" "hasFlag (unsetFlag a g) f \<longleftrightarrow> hasFlag a f"
proof -
  have bits: "\<not> (bit f n \<and> bit g n)" for n using assms by (metis bit_0_eq bit_and_iff bot_apply bot_bool_def)
  then show "hasFlag (setFlag a g) f \<longleftrightarrow> hasFlag a f" "hasFlag (unsetFlag a g) f \<longleftrightarrow> hasFlag a f"
    by (auto simp: hasFlag_def setFlag_def unsetFlag_def bit_eq_iff bit_simps)
qed

lemma chain_ok_new_handle:
  "chain_ok st \<Longrightarrow> kind (cur st) \<noteq> FUNC \<Longrightarrow> chain_ok (fst (addNewHandle st name ty a))"
  unfolding addNewHandle_def Let_def
  by (rule chain_ok_add, assumption) (cases "kind (cur st)"; auto simp: fits_def is_local_def isGlobal_def)

lemma chain_ok_new_alias: "chain_ok st \<Longrightarrow> chain_ok (fst (addNewAlias st name h))"
  unfolding addNewAlias_def by (rule chain_ok_add) (simp_all add: fits_def is_local_def)

lemma chain_ok_new_foreign: "chain_ok st \<Longrightarrow> chain_ok (fst (addNewForeignHandle st name h))"
  unfolding addNewForeignHandle_def by (rule chain_ok_add) (simp_all add: fits_def is_local_def)

lemma chain_ok_define:
  "chain_ok st \<Longrightarrow> kind (cur st) \<noteq> FUNC \<Longrightarrow> chain_ok (fst (defineHandle st name ty a))"
  by (simp add: defineHandle_def chain_ok_new_handle)

lemma chain_ok_alias: "chain_ok st \<Longrightarrow> chain_ok (fst (defineAlias st name h))"
  by (simp add: defineAlias_def chain_ok_new_alias)

lemma chain_ok_type_alias: "chain_ok st \<Longrightarrow> chain_ok (fst (defineTypeAlias pool st name ty))"
  by (simp add: defineTypeAlias_def chain_ok_alias)

lemma chain_ok_import_symbols: "chain_ok st \<Longrightarrow> chain_ok (fst (import_symbols st hs))"
proof (induction st hs rule: import_symbols.induct)
  case (2 st name handle hs)
  then show ?case
    using chain_ok_new_foreign [OF "2.prems", of name handle]
    by (cases "addNewForeignHandle st name handle") (auto split: sum.splits)
qed simp

lemma chain_ok_import: "chain_ok st \<Longrightarrow> chain_ok (fst (importForeignHandles st t global))"
  by (simp add: importForeignHandles_def Let_def chain_ok_import_symbols chain_ok_new_alias)

lemma chain_ok_push:
  assumes ok: "chain_ok st" and s: "scope_ok s" "kind s \<noteq> BLOCK \<Longrightarrow> maxVarCount s = GvarCount"
    "nested_ok (cur_pos st) (cur st) s"
    "kind s = BLOCK \<Longrightarrow> curLocalIndex s \<le> read_ref st (maxVarCount s)"
    "\<And>k. maxVarCount s = LocalIndexOf k \<Longrightarrow> k < length (chain st)"
  shows "chain_ok (st\<lparr>chain := chain st @ [s]\<rparr>)"
proof -
  let ?st = "st\<lparr>chain := chain st @ [s]\<rparr>"
  have ne: "chain st \<noteq> []" using ok by simp
  have ref: "read_ref ?st (maxVarCount t) = read_ref st (maxVarCount t)"
    if "t \<in> set (chain st)" "kind t = BLOCK" for t
    by (rule block_ref_local [OF ok that]) (simp add: nth_append)
  have ref_s: "read_ref ?st (maxVarCount s) = read_ref st (maxVarCount s)"
    using s(5) by (cases "maxVarCount s") (simp_all add: nth_append)
  have "nested_ok k (chain ?st ! k) (chain ?st ! Suc k)" if "Suc k < Suc (length (chain st))" for k
  proof (cases "Suc k < length (chain st)")
    case True
    then show ?thesis using ok by (simp add: chain_ok_def nth_append)
  next
    case False
    then have "k = cur_pos st" "Suc k = length (chain st)" using that ne by (auto simp: cur_pos_def)
    then show ?thesis using s(3) ne by (simp add: nth_append cur_def)
  qed
  moreover have "kind (chain ?st ! 0) = GLOBAL" using ok ne by (simp add: chain_ok_def nth_append)
  moreover have "\<forall>t \<in> set (chain ?st). scope_ok t \<and> (kind t \<noteq> BLOCK \<longrightarrow> maxVarCount t = GvarCount)"
    using ok s(1,2) by (auto simp: chain_ok_def)
  moreover have "\<forall>t \<in> set (chain ?st). kind t = BLOCK \<longrightarrow> curLocalIndex t \<le> read_ref ?st (maxVarCount t)"
    using ok s(4) ref ref_s by (auto simp: chain_ok_def)
  ultimately show ?thesis unfolding chain_ok_def by simp
qed

lemma new_scope_ok: "n \<le> SYS_LIMIT_LOCAL_NUM \<Longrightarrow> scope_ok (new_scope k m r\<lparr>curLocalIndex := n\<rparr>)"
  by (simp add: scope_ok_def new_scope_def numbered_def local_slots_def getBaseIndex_def)

lemma chain_ok_enter:
  assumes ok: "chain_ok st" and e: "enterScope k st = Some st'"
  shows "chain_ok st'"
proof -
  let ?s = "cur st"
  have new: "scope_ok (new_scope k m r)" for m r
    using new_scope_ok [of 0 k m r] by (simp add: new_scope_def)
  have pos: "cur_pos st < length (chain st)" using ok by simp
  have s: "scope_ok ?s" "kind ?s = BLOCK \<Longrightarrow> curLocalIndex ?s \<le> read_ref st (maxVarCount ?s)"
    "kind ?s \<noteq> BLOCK \<Longrightarrow> maxVarCount ?s = GvarCount"
    using ok cur_in [OF ok] by (auto simp: chain_ok_def)
  have ref: "kind ?s = BLOCK \<Longrightarrow> maxVarCount ?s = LocalIndexOf i \<Longrightarrow> i < length (chain st)" for i
    by (rule block_ref_local [OF ok cur_in [OF ok]]) auto
  have lim: "curLocalIndex ?s \<le> SYS_LIMIT_LOCAL_NUM" using s(1) by (simp add: scope_ok_def)
  consider (func) "kind ?s = GLOBAL" "k = FUNC" | (top) "kind ?s = GLOBAL \<or> kind ?s = FUNC" "k = BLOCK"
    | (inner) "kind ?s = BLOCK" "k = BLOCK"
    using e by (auto simp: enterScope_def isAllowedScopePair_def Let_def split: if_splits)
  then show ?thesis
  proof cases
    case func
    then have st': "st' = st\<lparr>chain := chain st @ [new_scope k (modId ?s) (maxVarCount ?s)]\<rparr>"
      using e by (simp add: enterScope_def isAllowedScopePair_def Let_def)
    show ?thesis unfolding st'
      by (rule chain_ok_push [OF ok new]) (use func s(3) in \<open>simp_all add: new_scope_def nested_not_block\<close>)
  next
    case top
    then have st': "st' = st\<lparr>chain := chain st @ [new_scope k (modId ?s) (LocalIndexOf (cur_pos st))]\<rparr>"
      using e by (auto simp: enterScope_def isAllowedScopePair_def Let_def)
    show ?thesis unfolding st'
      by (rule chain_ok_push [OF ok new]) (use top pos in \<open>auto simp: new_scope_def nested_block getBaseIndex_def\<close>)
  next
    case inner
    then have st': "st' = st\<lparr>chain := chain st @ [new_scope k (modId ?s) (maxVarCount ?s)\<lparr>curLocalIndex := curLocalIndex ?s\<rparr>]\<rparr>"
      using e by (simp add: enterScope_def isAllowedScopePair_def Let_def)
    show ?thesis unfolding st'
      by (rule chain_ok_push [OF ok new_scope_ok [OF lim]])
        (use inner s(2) ref in \<open>auto simp: new_scope_def nested_block getBaseIndex_def\<close>)
  qed
qed

lemma chain_ok_exit:
  assumes ok: "chain_ok st" and "1 < length (chain st)"
  shows "chain_ok (exitScope st)"
proof -
  let ?st = "exitScope st"
  have nth: "chain ?st ! j = chain st ! j" if "j < length (chain st) - 1" for j
    using that by (simp add: exitScope_def nth_butlast)
  have len: "length (chain ?st) = length (chain st) - 1" by (simp add: exitScope_def)
  have ref: "read_ref ?st (maxVarCount (chain st ! j)) = read_ref st (maxVarCount (chain st ! j))"
    if j: "j < length (chain st) - 1" "kind (chain st ! j) = BLOCK" for j
  proof -
    have "j < length (chain st)" using j(1) by simp
    from block_ref [OF ok this j(2)] obtain k where "k < j" "maxVarCount (chain st ! j) = LocalIndexOf k" by blast
    then show ?thesis using j(1) nth [of k] by simp
  qed
  have "chain ?st \<noteq> []" using assms(2) len by auto
  moreover have "kind (chain ?st ! 0) = GLOBAL" using ok assms(2) nth [of 0] by (simp add: chain_ok_def)
  ultimately show ?thesis
    using ok ref nth unfolding chain_ok_def all_set_conv_all_nth len by auto
qed

lemma chain_ok_clear:
  assumes "chain_ok st" "kind (cur st) = GLOBAL"
  shows "chain_ok (clearLocalSize st)"
  unfolding clearLocalSize_def
  using assms chain_ok_scope [OF assms(1) cur_in [OF assms(1)]]
  by (intro chain_ok_set_cur) (simp_all add: scope_ok_def local_slots_def)


lemma numbered_filter:
  "numbered hs \<Longrightarrow> filter (\<lambda>(name, h). \<not> commitID h \<ge> n) hs = take n hs"
proof (induction hs rule: rev_induct)
  case (snoc x hs)
  then have "numbered hs" "commitID (snd x) = length hs" by (auto simp: numbered_def)
  with snoc.IH show ?case by (cases x) auto
qed simp

lemma numbered_take: "numbered hs \<Longrightarrow> numbered (take n hs)"
  by (auto simp: numbered_def take_map [symmetric] min_def intro: distinct_take)

lemma chain_ok_discard:
  assumes ok: "chain_ok st" and g: "kind (cur st) = GLOBAL"
  shows "chain_ok (scope_discard st n)"
proof -
  let ?s = "(cur st)\<lparr>handles := filter (\<lambda>(name, h). \<not> commitID h \<ge> n) (handles (cur st))\<rparr>"
  have s: "scope_ok (cur st)" by (rule chain_ok_scope [OF ok cur_in [OF ok]])
  then have "numbered (handles ?s)"
    using numbered_take [of "handles (cur st)" n] by (simp add: scope_ok_def numbered_filter)
  moreover have "local_slots ?s = []" using s g by (auto simp: scope_ok_def local_slots_def filter_empty_conv)
  ultimately have "scope_ok ?s" using s g by (simp add: scope_ok_def)
  then have t: "chain_ok (set_cur ?s st)" using g by (intro chain_ok_set_cur [OF ok]) simp_all
  have c: "cur (set_cur ?s st) = ?s" using ok by (simp add: cur_set_cur)
  show ?thesis
    using chain_ok_clear [OF t] t g unfolding scope_discard_def Let_def c isGlobal_def by simp
qed

section \<open>The life of a module's scope\<close>

inductive scope_step :: "Scopes \<Rightarrow> Scopes \<Rightarrow> bool" where
  step_define: "kind (cur st) \<noteq> FUNC \<Longrightarrow> scope_step st (fst (defineHandle st name ty a))"
| step_alias: "kind (cur st) \<noteq> FUNC \<Longrightarrow> scope_step st (fst (defineAlias st name h))"
| step_type_alias: "kind (cur st) \<noteq> FUNC \<Longrightarrow> scope_step st (fst (defineTypeAlias pool st name ty))"
| step_import: "kind (cur st) \<noteq> FUNC \<Longrightarrow> scope_step st (fst (importForeignHandles st t global))"
| step_enter: "enterScope k st = Some st' \<Longrightarrow> scope_step st st'"
| step_exit: "kind (cur st) \<noteq> GLOBAL \<Longrightarrow> scope_step st (exitScope st)"
| step_clear: "kind (cur st) = GLOBAL \<Longrightarrow> scope_step st (clearLocalSize st)"

inductive scope_reachable :: "Scopes \<Rightarrow> bool" where
  reach_module: "chain st = [newModuleScope m] \<Longrightarrow> scope_reachable st"
| reach_step: "scope_reachable st \<Longrightarrow> scope_step st st' \<Longrightarrow> scope_reachable st'"
| reach_discard: "scope_reachable st \<Longrightarrow> kind (cur st) = GLOBAL \<Longrightarrow> scope_reachable (scope_discard st n)"

lemma chain_ok_step: "scope_step st st' \<Longrightarrow> chain_ok st \<Longrightarrow> chain_ok st'"
proof (induction rule: scope_step.induct)
  case (step_exit st)
  have "1 < length (chain st)"
  proof (rule ccontr)
    assume "\<not> ?thesis"
    then have "cur st = chain st ! 0" by (simp add: cur_def cur_pos_def)
    then show False using step_exit by (simp add: chain_ok_def)
  qed
  then show ?case using step_exit chain_ok_exit by blast
qed (simp_all add: chain_ok_define chain_ok_alias chain_ok_type_alias chain_ok_import chain_ok_enter chain_ok_clear)

lemma reachable_chain_ok: "scope_reachable st \<Longrightarrow> chain_ok st"
proof (induction rule: scope_reachable.induct)
  case (reach_module st m)
  have "scope_ok (newModuleScope m)"
    by (simp add: newModuleScope_def new_scope_def scope_ok_def numbered_def local_slots_def)
  then show ?case using reach_module by (simp add: chain_ok_def newModuleScope_def new_scope_def)
qed (simp_all add: chain_ok_step chain_ok_discard)

lemma chain_ok_first: "chain_ok st \<Longrightarrow> kind (chain st ! 0) = GLOBAL"
  unfolding chain_ok_def by blast

lemma visible_slots:
  assumes "chain_ok st"
  shows "k < length (chain st) \<Longrightarrow> concat (map local_slots (take (Suc k) (chain st))) =
    (if kind (chain st ! k) = BLOCK then [0..<curLocalIndex (chain st ! k)] else [])"
proof (induction k)
  case 0
  have s: "scope_ok (chain st ! 0)" using chain_ok_scope [OF assms] assms by simp
  have "take (Suc 0) (chain st) = [chain st ! 0]" using 0 by (simp add: take_Suc_conv_app_nth)
  then show ?case using s chain_ok_first [OF assms] by (simp add: scope_ok_def)
next
  case (Suc k)
  have s: "scope_ok (chain st ! Suc k)" using chain_ok_scope [OF assms] Suc.prems by simp
  have n: "nested_ok k (chain st ! k) (chain st ! Suc k)" using assms Suc.prems by (simp add: chain_ok_def)
  have "take (Suc (Suc k)) (chain st) = take (Suc k) (chain st) @ [chain st ! Suc k]"
    using Suc.prems by (simp add: take_Suc_conv_app_nth)
  then have c: "concat (map local_slots (take (Suc (Suc k)) (chain st))) =
      (if kind (chain st ! k) = BLOCK then [0..<curLocalIndex (chain st ! k)] else []) @ local_slots (chain st ! Suc k)"
    using Suc by simp
  show ?case
  proof (cases "kind (chain st ! Suc k) = BLOCK")
    case True
    have "local_slots (chain st ! Suc k) = [getBaseIndex (chain st ! Suc k)..<curLocalIndex (chain st ! Suc k)]"
      "getBaseIndex (chain st ! Suc k) \<le> curLocalIndex (chain st ! Suc k)"
      using s True by (simp_all add: scope_ok_def getBaseIndex_def)
    then show ?thesis unfolding c
      using n True by (auto simp: nested_block) (metis le_add_diff_inverse upt_add_eq_append zero_le)
  next
    case False
    then show ?thesis unfolding c using n s by (auto simp: nested_not_block scope_ok_def)
  qed
qed

section \<open>What the steps keep of a module's scope\<close>

definition scope_extends :: "NameScope \<Rightarrow> NameScope \<Rightarrow> bool" where
  "scope_extends s t \<longleftrightarrow>
     kind t = kind s \<and> modId t = modId s \<and> maxVarCount t = maxVarCount s \<and> (\<exists>hs. handles t = handles s @ hs)"

definition head_extends :: "Scopes \<Rightarrow> Scopes \<Rightarrow> bool" where
  "head_extends st st' \<longleftrightarrow> chain st' \<noteq> [] \<and> scope_extends (chain st ! 0) (chain st' ! 0)"

lemma scope_extends_trans: "scope_extends s t \<Longrightarrow> scope_extends t u \<Longrightarrow> scope_extends s u"
  by (auto simp: scope_extends_def)

lemma head_extends_refl: "chain st \<noteq> [] \<Longrightarrow> head_extends st st"
  by (simp add: head_extends_def scope_extends_def)

lemma head_extends_trans [trans]: "head_extends s t \<Longrightarrow> head_extends t u \<Longrightarrow> head_extends s u"
  by (auto simp: head_extends_def intro: scope_extends_trans)

lemma head_extends_set_cur:
  "chain st \<noteq> [] \<Longrightarrow> scope_extends (cur st) s \<Longrightarrow> head_extends st (set_cur s st)"
  by (auto simp: head_extends_def scope_extends_def set_cur_def cur_def nth_list_update)

lemma head_extends_write: "chain st \<noteq> [] \<Longrightarrow> head_extends st (write_ref r v st)"
proof (cases r)
  case (LocalIndexOf k)
  then show "chain st \<noteq> [] \<Longrightarrow> ?thesis" by (cases k) (auto simp: head_extends_def scope_extends_def)
qed (simp add: head_extends_def scope_extends_def)

lemma head_extends_add:
  assumes "chain st \<noteq> []"
  shows "head_extends st (fst (scope_add st name h))"
proof -
  have upd: "head_extends st (set_cur s st)" "chain (set_cur s st) \<noteq> []" if "scope_extends (cur st) s" for s
    using head_extends_set_cur [OF assms that] by (auto simp: head_extends_def)
  have upd_ref: "head_extends st (write_ref r v (set_cur s st))" if "scope_extends (cur st) s" for r v s
    by (rule head_extends_trans [OF upd(1) [OF that] head_extends_write [OF upd(2) [OF that]]])
  show ?thesis
    using assms by (auto simp: scope_add_def Let_def scope_extends_def simp del: write_ref.simps
        intro!: upd upd_ref head_extends_refl)
qed

lemma head_extends_ne: "head_extends st st' \<Longrightarrow> chain st' \<noteq> []"
  by (simp add: head_extends_def)

lemma head_extends_adds:
  assumes "chain st \<noteq> []"
  shows "head_extends st (fst (addNewHandle st name ty a))" "head_extends st (fst (addNewAlias st name h))"
    "head_extends st (fst (addNewForeignHandle st name h))"
  using assms by (simp_all add: addNewHandle_def addNewAlias_def addNewForeignHandle_def Let_def head_extends_add)

lemma head_extends_defines:
  assumes "chain st \<noteq> []"
  shows "head_extends st (fst (defineHandle st name ty a))" "head_extends st (fst (defineAlias st name h))"
    "head_extends st (fst (defineTypeAlias pool st name ty))"
  using assms head_extends_adds [OF assms]
  by (simp_all add: defineHandle_def defineAlias_def defineTypeAlias_def head_extends_refl)

lemma head_extends_symbols: "chain st \<noteq> [] \<Longrightarrow> head_extends st (fst (import_symbols st hs))"
proof (induction st hs rule: import_symbols.induct)
  case (2 st name handle hs)
  have e: "head_extends st (fst (addNewForeignHandle st name handle))" by (rule head_extends_adds(3) [OF "2.prems"])
  then show ?case
    using 2 head_extends_trans [OF e]
    by (cases "addNewForeignHandle st name handle") (auto dest: head_extends_ne split: sum.splits)
qed (simp add: head_extends_refl)

lemma head_extends_import:
  assumes "chain st \<noteq> []"
  shows "head_extends st (fst (importForeignHandles st t global))"
proof -
  let ?st = "fst (addNewAlias st (toModHolderName (mod_id (class_of t)) global) (toModHolder t global))"
  have e: "head_extends st ?st" by (rule head_extends_adds(2) [OF assms])
  show ?thesis
    using assms e head_extends_trans [OF e head_extends_symbols [OF head_extends_ne [OF e]]]
    by (cases global) (simp_all add: importForeignHandles_def Let_def head_extends_refl)
qed

lemma head_extends_step:
  "scope_step st st' \<Longrightarrow> chain_ok st \<Longrightarrow> head_extends st st'"
proof (induction rule: scope_step.induct)
  case (step_enter k st st')
  then show ?case
    by (auto simp: enterScope_def Let_def head_extends_def scope_extends_def nth_append split: if_splits)
next
  case (step_exit st)
  then have ok: "chain_ok (exitScope st)" using chain_ok_step scope_step.step_exit by blast
  then have "0 < length (butlast (chain st))" using chain_ok_ne [OF ok] unfolding exitScope_def length_greater_0_conv by simp
  from nth_butlast [OF this] have "chain st ! 0 = chain (exitScope st) ! 0" by (simp add: exitScope_def)
  then show ?case using ok by (simp add: head_extends_def scope_extends_def)
next
  case (step_clear st)
  then show ?case unfolding clearLocalSize_def
    by (intro head_extends_set_cur) (simp_all add: scope_extends_def)
qed (simp_all add: head_extends_defines head_extends_import)

definition module_view :: "Scopes \<Rightarrow> NameScope" where
  "module_view st = (chain st ! 0)\<lparr>curLocalIndex := 0, localSize := 0\<rparr>"

lemma discard_module_scope:
  assumes s: "chain_ok s" and t: "chain_ok t" and ext: "head_extends s t" and one: "length (chain t) = 1"
  shows "chain (scope_discard t (commitId (chain s ! 0))) = [module_view s]"
proof -
  let ?s = "chain s ! 0"
  obtain u where u: "chain t = [u]" using one by (metis One_nat_def length_0_conv length_Suc_conv)
  obtain hs where e: "kind u = kind ?s" "modId u = modId ?s" "maxVarCount u = maxVarCount ?s" "handles u = handles ?s @ hs"
    using ext u by (auto simp: head_extends_def scope_extends_def)
  have "numbered (handles u)" using chain_ok_scope [OF t] u by (simp add: scope_ok_def)
  then have "filter (\<lambda>(name, h). \<not> commitID h \<ge> length (handles ?s)) (handles u) = handles ?s"
    using numbered_filter [of "handles u" "length (handles ?s)"] by (simp add: e(4) del: filter_append)
  then show ?thesis
    using e(1-3) chain_ok_first [OF s] u
    by (simp add: scope_discard_def module_view_def commitId_def clearLocalSize_def set_cur_def
        cur_def cur_pos_def isGlobal_def)
qed

lemma discard_module_view:
  assumes "chain_ok s" "chain_ok t" "head_extends s t" "length (chain t) = 1"
  shows "module_view (scope_discard t (commitId (chain s ! 0))) = module_view s"
  using discard_module_scope [OF assms] unfolding module_view_def by simp

interpretation scopes: rollback chain_ok "\<lambda>st. length (chain st) = 1" scope_step
  "\<lambda>s t. chain_ok t \<and> head_extends s t" "\<lambda>st. commitId (chain st ! 0)" scope_discard module_view
proof (unfold_locales, goal_cases)
  case (1 s)
  then show ?case by (simp add: head_extends_refl)
next
  case (2 s t u)
  then show ?case using head_extends_trans by blast
next
  case (4 s t)
  then show ?case using head_extends_step chain_ok_step by simp
next
  case (5 s t)
  then show ?case using discard_module_view by simp
qed simp

section \<open>Lookup after a definition\<close>

lemma lookup_from_handles:
  "map handles ss = map handles ts \<Longrightarrow> k < length ss \<Longrightarrow> lookup_from ss name k = lookup_from ts name k"
proof (induction k)
  case 0
  have "handles (ss ! 0) = handles (ts ! 0)" using 0 by (metis length_map nth_map)
  then show ?case by (simp add: scope_find_def)
next
  case (Suc k)
  have "handles (ss ! Suc k) = handles (ts ! Suc k)" using Suc.prems by (metis length_map nth_map)
  then show ?case using Suc by (simp add: scope_find_def split: option.splits)
qed

lemma lookup_from_below:
  "j < k \<Longrightarrow> lookup_from (ss[k := s]) name j = lookup_from ss name j"
  by (induction j) (simp_all cong: option.case_cong)

lemma write_ref_handles [simp]: "map handles (chain (write_ref r v st)) = map handles (chain st)"
proof (cases r)
  case (LocalIndexOf k)
  then show ?thesis
    by (cases "k < length (chain st)") (simp_all add: map_update list_update_same_conv list_update_beyond)
qed simp

lemma write_ref_length [simp]: "length (chain (write_ref r v st)) = length (chain st)"
  by (cases r) simp_all

lemma set_cur_handles:
  "map handles (chain (set_cur s st)) = (map handles (chain st))[cur_pos st := handles s]"
  by (simp add: set_cur_def map_update)

lemma scope_add_handles:
  assumes "scope_add st name h = (st', Inr h')"
  shows "h' = h \<and> scope_find (cur st) name = None
    \<and> map handles (chain st') = (map handles (chain st))[cur_pos st := handles (cur st) @ [(name, h)]]"
  using assms
  by (auto simp: scope_add_def Let_def set_cur_handles split: if_splits simp del: write_ref.simps read_ref.simps)

lemma scope_add_error: "scope_add st name h = (st', Inl e) \<Longrightarrow> st' = st"
  by (auto simp: scope_add_def Let_def split: if_splits)

lemma scope_add_lookup:
  assumes "scope_add st name h = (st', Inr h')" "chain st \<noteq> []"
  shows "scope_lookup st' n = (if n = name then Some h else scope_lookup st n)"
proof -
  let ?t = "(cur st)\<lparr>handles := handles (cur st) @ [(name, h)]\<rparr>"
  have maps: "map handles (chain st') = map handles ((chain st)[cur_pos st := ?t])"
    using scope_add_handles [OF assms(1)] by (simp add: map_update)
  then have len: "length (chain st') = length (chain st)" by (metis length_list_update length_map)
  have none: "scope_find (cur st) name = None" using scope_add_handles [OF assms(1)] by simp
  have "scope_lookup st' n = lookup_from ((chain st)[cur_pos st := ?t]) n (cur_pos st)"
    using lookup_from_handles [OF maps, of "cur_pos st" n] assms(2)
    by (simp add: scope_lookup_def cur_pos_def len)
  also have "\<dots> = (if n = name then Some h else scope_lookup st n)"
    using none cur_pos_less [OF assms(2)]
    by (cases "cur_pos st")
      (auto simp: scope_lookup_def scope_find_def cur_def map_add_def lookup_from_below split: option.splits)
  finally show ?thesis .
qed

section \<open>The imported modules of a module type\<close>

text \<open>The entries as a map from type ids to whether the module is imported globally.\<close>

definition import_map :: "ImportedModEntry list \<Rightarrow> (nat \<rightharpoonup> bool)" where
  "import_map cs = map_of (map (\<lambda>e. (entry_typeId e, entry_isGlobal e)) cs)"

definition by_type :: "ImportedModEntry list \<Rightarrow> bool" where
  "by_type cs \<longleftrightarrow> sorted_wrt (<) (map entry_typeId cs)"

lemma by_type_append:
  "by_type (xs @ ys) \<longleftrightarrow> by_type xs \<and> by_type ys \<and> (\<forall>x \<in> set xs. \<forall>y \<in> set ys. entry_typeId x < entry_typeId y)"
  by (auto simp: by_type_def sorted_wrt_append)

lemma by_type_Cons:
  "by_type (x # ys) \<longleftrightarrow> by_type ys \<and> (\<forall>y \<in> set ys. entry_typeId x < entry_typeId y)"
  by (auto simp: by_type_def)

lemma tryInsert_split:
  assumes "by_type cs"
  obtains A B where "cs = A @ B" "\<forall>x \<in> set A. entry_typeId x < entry_typeId e"
    "\<forall>x \<in> set B. entry_typeId e \<le> entry_typeId x"
    "tryInsertByAscendingOrder cs e =
      (case B of b # B' \<Rightarrow> if entry_typeId b = entry_typeId e then A @ (if entry_isGlobal e then e else b) # B'
                 else A @ e # B
       | [] \<Rightarrow> A @ [e])"
proof -
  let ?before = "\<lambda>x. entry_typeId x < entry_typeId e"
  define k where "k = lower_bound ?before cs"
  have less: "entry_typeId (cs ! i) < entry_typeId (cs ! j)" if "i < j" "j < length cs" for i j
    using assms that by (simp add: by_type_def sorted_wrt_iff_nth_less)
  have "entry_typeId (cs ! i) \<le> entry_typeId (cs ! j)" if "i \<le> j" "j < length cs" for i j
    using less [of i j] that by (cases "i = j") auto
  then have part: "partitioned ?before cs" by (fastforce simp: partitioned_def)
  have k: "k \<le> length cs" "\<And>i. i < length cs \<Longrightarrow> ?before (cs ! i) \<longleftrightarrow> i < k"
    using lower_bound_spec [OF part] unfolding k_def by blast+
  show ?thesis
  proof (rule that [of "take k cs" "drop k cs"])
    show "\<forall>x \<in> set (take k cs). entry_typeId x < entry_typeId e"
      using k by (auto simp: in_set_conv_nth)
    show "\<forall>x \<in> set (drop k cs). entry_typeId e \<le> entry_typeId x"
    proof
      fix x assume "x \<in> set (drop k cs)"
      then obtain i where "i < length (drop k cs)" "x = drop k cs ! i" by (metis in_set_conv_nth)
      then have "k + i < length cs" "x = cs ! (k + i)" by auto
      then show "entry_typeId e \<le> entry_typeId x" using k(2) [of "k + i"] by simp
    qed
    show "tryInsertByAscendingOrder cs e =
      (case drop k cs of b # B' \<Rightarrow> if entry_typeId b = entry_typeId e then take k cs @ (if entry_isGlobal e then e else b) # B'
                 else take k cs @ e # drop k cs
       | [] \<Rightarrow> take k cs @ [e])"
    proof (cases "k < length cs")
      case True
      then have d: "drop k cs = cs ! k # drop (Suc k) cs" by (simp add: Cons_nth_drop_Suc)
      have "cs[k := x] = take k cs @ x # drop (Suc k) cs" for x using True by (simp add: upd_conv_take_nth_drop)
      moreover have "cs = take k cs @ cs ! k # drop (Suc k) cs" using True by (simp add: id_take_nth_drop)
      ultimately show ?thesis
        using True unfolding tryInsertByAscendingOrder_def Let_def k_def [symmetric] d by simp
    qed (use k(1) in \<open>simp add: tryInsertByAscendingOrder_def k_def [symmetric]\<close>)
  qed simp
qed

lemma import_map_not_in: "i \<notin> entry_typeId ` set cs \<Longrightarrow> import_map cs i = None"
  by (auto simp: import_map_def map_of_eq_None_iff)

lemma tryInsert_spec:
  assumes "by_type cs"
  shows "by_type (tryInsertByAscendingOrder cs e)
    \<and> import_map (tryInsertByAscendingOrder cs e) =
        (import_map cs)(entry_typeId e \<mapsto> entry_isGlobal e \<or> import_map cs (entry_typeId e) = Some True)"
proof -
  obtain A B where AB: "cs = A @ B" "\<forall>x \<in> set A. entry_typeId x < entry_typeId e"
    "\<forall>x \<in> set B. entry_typeId e \<le> entry_typeId x"
    "tryInsertByAscendingOrder cs e =
      (case B of b # B' \<Rightarrow> if entry_typeId b = entry_typeId e then A @ (if entry_isGlobal e then e else b) # B'
                 else A @ e # B
       | [] \<Rightarrow> A @ [e])"
    by (rule tryInsert_split [OF assms])
  have app: "import_map (xs @ ys) = import_map ys ++ import_map xs" for xs ys
    by (simp add: import_map_def)
  have cons: "import_map (x # ys) = (import_map ys)(entry_typeId x \<mapsto> entry_isGlobal x)" for x ys
    by (simp add: import_map_def)
  have A: "import_map A (entry_typeId e) = None" using AB(2) import_map_not_in [of "entry_typeId e" A] by fastforce
  have nil: "import_map [] = Map.empty" by (simp add: import_map_def)
  have dom: "x \<in> dom (import_map A) \<Longrightarrow> x < entry_typeId e" for x
    using AB(2) import_map_not_in [of x A] by (fastforce simp: dom_def)
  show ?thesis
  proof (cases B)
    case Nil
    then show ?thesis using AB assms A
      by (auto simp: by_type_append by_type_Cons app cons nil fun_eq_iff map_add_def split: option.splits)
         (simp add: by_type_def)
  next
    case (Cons b B')
    have s: "by_type A" "by_type B'" "\<forall>y \<in> set B'. entry_typeId b < entry_typeId y"
      "\<forall>x \<in> set A. entry_typeId x < entry_typeId b \<and> (\<forall>y \<in> set B'. entry_typeId x < entry_typeId y)"
      using assms AB(1) Cons by (auto simp: by_type_append by_type_Cons)
    show ?thesis
    proof (cases "entry_typeId b = entry_typeId e")
      case True
      then show ?thesis using AB Cons s A
        by (auto simp: by_type_append by_type_Cons app cons fun_eq_iff map_add_def split: option.splits)
    next
      case False
      then have lt: "entry_typeId e < entry_typeId b" using AB(3) Cons by auto
      have B': "import_map B' (entry_typeId e) = None" using s(3) lt by (auto intro!: import_map_not_in)
      show ?thesis using AB Cons s A lt B' False
        by (auto simp: by_type_append by_type_Cons app cons fun_eq_iff map_add_def split: option.splits)
    qed
  qed
qed

lemma typeId_less: "typeId t < 2 ^ 24"
proof -
  have "tag t AND 0xFFFFFF = take_bit 24 (tag t)" by (simp add: take_bit_eq_mask mask_eq_exp_minus_1)
  then have "typeId t = take_bit 24 (unat (tag t))" by (simp add: typeId_def unsigned_take_bit_eq)
  then show ?thesis using take_bit_nat_less_exp [of 24 "unat (tag t)"] by simp
qed

lemma toModEntry_typeId: "entry_typeId (toModEntry t g) = typeId t"
proof -
  have "typeId t < 2 ^ 31" using typeId_less [of t] by simp
  then have t: "take_bit 31 (of_nat (typeId t) :: u32) = of_nat (typeId t)"
    by (simp add: take_bit_of_nat take_bit_nat_eq_self)
  have "take_bit 31 (push_bit 31 1 :: u32) = 0" by (simp add: take_bit_push_bit)
  then have "take_bit 31 (toModEntry t g) = of_nat (typeId t)"
    using t by (simp add: toModEntry_def Let_def)
  moreover have "toModEntry t g AND 0x7FFFFFFF = take_bit 31 (toModEntry t g)"
    by (simp add: take_bit_eq_mask mask_eq_exp_minus_1)
  ultimately show ?thesis
    using typeId_less [of t] by (simp add: entry_typeId_def unsigned_of_nat take_bit_nat_eq_self)
qed

lemma toModEntry_isGlobal: "entry_isGlobal (toModEntry t g) = g"
proof -
  have "\<not> bit (typeId t) 31" using typeId_less [of t] by (simp add: bit_iff_odd)
  then have "bit (toModEntry t g) 31 = g"
    by (auto simp: toModEntry_def Let_def bit_or_iff bit_push_bit_iff bit_of_nat_iff)
  then show ?thesis using bit_last_iff [of "toModEntry t g"] by (simp add: entry_isGlobal_def)
qed

lemma collect_children_snoc:
  "collect_children tbl (hs @ [(name, h)]) =
     (if isModHolder h then tryInsertByAscendingOrder (collect_children tbl hs)
        (toModEntry (tbl ! typeID h) (hasFlag (fieldAttr h) GLOBAL_MOD))
      else collect_children tbl hs)"
  by (simp add: collect_children_def)

section \<open>Properties\<close>

text \<open>A module scope, and the block with one local variable inside it, for the witnesses.\<close>

definition module_scopes :: Scopes where
  "module_scopes = \<lparr>indexMap = [], entries = [], gvarCount = 0, chain = [newModuleScope 1]\<rparr>"

definition block_scopes :: Scopes where
  "block_scopes = fst (defineHandle (the (enterScope BLOCK module_scopes)) ''x'' 6 0)"

lemma module_scopes_reachable: "scope_reachable module_scopes"
  by (rule reach_module) (simp add: module_scopes_def)

lemma block_scopes_run: "scope_step\<^sup>*\<^sup>* module_scopes block_scopes"
proof -
  let ?b = "the (enterScope BLOCK module_scopes)"
  have "enterScope BLOCK module_scopes = Some ?b \<and> kind (cur ?b) = BLOCK"
    by (simp add: module_scopes_def enterScope_def newModuleScope_def new_scope_def cur_def cur_pos_def
        isAllowedScopePair_def Let_def)
  then have e: "enterScope BLOCK module_scopes = Some ?b" and k: "kind (cur ?b) \<noteq> FUNC" by simp_all
  from step_enter [OF e] step_define [OF k] show ?thesis
    unfolding block_scopes_def by (rule converse_rtranclp_into_rtranclp [OF _ r_into_rtranclp])
qed

lemmas block_scopes_eval = block_scopes_def module_scopes_def enterScope_def newModuleScope_def new_scope_def
  cur_def cur_pos_def isAllowedScopePair_def Let_def defineHandle_def definedInBuiltin_def addNewHandle_def
  scope_add_def isGlobal_def scope_find_def SYS_LIMIT_LOCAL_NUM_def hasFlag_def unsetFlag_def ALIAS_def
  GLOBAL_ATTR_def set_cur_def commitId_def

lemma block_scopes_cur: "kind (cur block_scopes) = BLOCK" "length (chain block_scopes) = 2"
  by (simp_all add: block_scopes_eval)

text \<open>
  [C16] The local variables that are visible at one point of a function or block occupy the slots
  0, 1, 2, ... in the order of their definition, without a gap and without sharing, and there are
  at most as many as the frame size that is reserved for them, at most 255.
\<close>

theorem local_slots_consecutive:
  assumes "scope_reachable st" "kind (cur st) = BLOCK"
  shows "concat (map local_slots (chain st)) = [0..<curLocalIndex (cur st)]
    \<and> curLocalIndex (cur st) \<le> getMaxLocalVarIndex st \<and> getMaxLocalVarIndex st \<le> SYS_LIMIT_LOCAL_NUM"
proof -
  have ok: "chain_ok st" using assms(1) by (rule reachable_chain_ok)
  have pos: "cur_pos st < length (chain st)" "Suc (cur_pos st) = length (chain st)"
    using ok by (simp_all add: cur_pos_def)
  obtain k where k: "maxVarCount (cur st) = LocalIndexOf k" "k < length (chain st)"
    by (rule block_ref_local [OF ok cur_in [OF ok] assms(2)])
  have "curLocalIndex (chain st ! k) \<le> SYS_LIMIT_LOCAL_NUM"
    using chain_ok_scope [OF ok nth_mem [OF k(2)]] unfolding scope_ok_def by blast
  moreover have "curLocalIndex (cur st) \<le> read_ref st (maxVarCount (cur st))"
    using ok cur_in [OF ok] assms(2) unfolding chain_ok_def by blast
  ultimately show ?thesis
    using visible_slots [OF ok pos(1)] assms(2) k(1) pos(2)
    by (simp add: getMaxLocalVarIndex_def cur_def)
qed


lemma local_slots_consecutive_witness:
  "concat (map local_slots (chain block_scopes)) = [0..<curLocalIndex (cur block_scopes)]
    \<and> curLocalIndex (cur block_scopes) = 1"
proof -
  have "scope_reachable block_scopes"
    using block_scopes_run module_scopes_reachable by (induction rule: rtranclp_induct) (auto intro: reach_step)
  from local_slots_consecutive [OF this block_scopes_cur(1)]
  show ?thesis by (simp add: block_scopes_eval)
qed

text \<open>
  [C17] Discarding a module's scope to an earlier point forgets exactly the names that were defined
  since: after any definitions, imports, blocks and functions that are closed again, the scope is
  the one of that point with its local counters cleared.
\<close>

theorem scope_discard_restores:
  assumes "scope_reachable st" "chain st = [s]" "scope_step\<^sup>*\<^sup>* st st'" "length (chain st') = 1"
  shows "chain (scope_discard st' (scope_getDiscardPoint st)) = [s\<lparr>curLocalIndex := 0, localSize := 0\<rparr>]"
proof -
  have ok: "chain_ok st" using assms(1) by (rule reachable_chain_ok)
  have "chain_ok st' \<and> head_extends st st'" by (rule scopes.run_grown [OF assms(3) ok])
  with discard_module_scope [OF ok _ _ assms(4)] assms(2) show ?thesis
    by (simp add: scope_getDiscardPoint_def module_view_def cur_def cur_pos_def)
qed

lemma scope_discard_restores_witness:
  "chain (scope_discard (exitScope block_scopes) (scope_getDiscardPoint module_scopes))
    = [(newModuleScope 1)\<lparr>curLocalIndex := 0, localSize := 0\<rparr>]"
proof (rule scope_discard_restores [OF module_scopes_reachable])
  show "scope_step\<^sup>*\<^sup>* module_scopes (exitScope block_scopes)"
    using block_scopes_run step_exit [of block_scopes] block_scopes_cur by simp
qed (simp_all add: module_scopes_def exitScope_def block_scopes_cur)

text \<open>
  [C19] After a successful definition the name stands for the new handle in the current scope, with
  the next free slot of the scope's kind, and every other name means what it meant before.
\<close>

theorem defineHandle_lookup:
  assumes "chain st \<noteq> []" "defineHandle st name ty a = (st', Inr h)"
  shows "scope_lookup st' = (scope_lookup st)(name \<mapsto> h)
    \<and> typeID h = ty \<and> modID h = modId (cur st)
    \<and> fieldIndex h = (if isGlobal (cur st) then getMaxGlobalVarIndex st else curLocalIndex (cur st))
    \<and> (hasFlag (fieldAttr h) GLOBAL_ATTR \<longleftrightarrow> isGlobal (cur st))"
proof -
  obtain g where g: "scope_add st name g = (st', Inr h)" "typeID g = ty" "modID g = modId (cur st)"
    "fieldIndex g = (if isGlobal (cur st) then getMaxGlobalVarIndex st else curLocalIndex (cur st))"
    "hasFlag (fieldAttr g) GLOBAL_ATTR \<longleftrightarrow> isGlobal (cur st)"
    using assms(2) by (auto simp: defineHandle_def addNewHandle_def Let_def split: if_splits)
  have "h = g" using scope_add_handles [OF g(1)] by simp
  with g(2-) scope_add_lookup [OF g(1) assms(1)] show ?thesis by (auto simp: fun_eq_iff)
qed

lemma defineHandle_lookup_witness:
  "scope_lookup (fst (defineHandle module_scopes ''v'' 6 0)) ''v'' \<noteq> None"
proof -
  obtain st' h where d: "defineHandle module_scopes ''v'' 6 0 = (st', Inr h)"
    by (simp add: block_scopes_eval setFlag_def)
  have "chain module_scopes \<noteq> []" by (simp add: module_scopes_def)
  from defineHandle_lookup [OF this d] d show ?thesis by simp
qed

text \<open>
  [C20] A definition fails exactly when the name already exists in the scope or in the builtin
  module around it, or when the frame is full (255 local variables); it then changes nothing.
\<close>

theorem defineHandle_error:
  assumes "\<not> hasFlag a ALIAS"
  shows "defineHandle st name ty a = (st', Inl e) \<longleftrightarrow>
    st' = st \<and>
    (if definedInBuiltin st name then e = DEFINED
     else if \<not> isGlobal (cur st) \<and> curLocalIndex (cur st) = 255 then e = LIMIT
     else e = DEFINED \<and> name \<in> fst ` set (handles (cur st)))"
proof -
  have keeps: "hasFlag (setFlag a GLOBAL_ATTR) ALIAS \<longleftrightarrow> hasFlag a ALIAS"
    "hasFlag (unsetFlag a GLOBAL_ATTR) ALIAS \<longleftrightarrow> hasFlag a ALIAS"
    by (rule hasFlag_other, simp add: ALIAS_def GLOBAL_ATTR_def)+
  show ?thesis
    using assms keeps
    by (auto simp: defineHandle_def addNewHandle_def Let_def scope_add_def SYS_LIMIT_LOCAL_NUM_def
        scope_find_def map_of_eq_None_iff split: if_splits)
qed


lemma defineHandle_error_witness:
  "defineHandle block_scopes ''x'' 6 0 = (block_scopes, Inl DEFINED)"
proof -
  have "\<not> hasFlag 0 ALIAS" by (simp add: hasFlag_def ALIAS_def)
  from defineHandle_error [OF this, of block_scopes "''x''" 6 block_scopes DEFINED]
  show ?thesis by (simp add: block_scopes_eval)
qed

text \<open>
  The module type of a scope lists each module the scope imports once, in the order of the
  type ids, as a global import if any of the imports was global.
\<close>

theorem collect_children_spec:
  "sorted_wrt (<) (map entry_typeId (collect_children tbl hs))
   \<and> (\<forall>i. import_map (collect_children tbl hs) i =
        (let holders = {h \<in> snd ` set hs. isModHolder h \<and> typeId (tbl ! typeID h) = i}
         in if holders = {} then None else Some (\<exists>h \<in> holders. hasFlag (fieldAttr h) GLOBAL_MOD)))"
proof (induction hs rule: rev_induct)
  case Nil
  show ?case by (simp add: collect_children_def import_map_def)
next
  case (snoc x hs)
  obtain name h where x: "x = (name, h)" by fastforce
  show ?case
  proof (cases "isModHolder h")
    case False
    then have "{g \<in> snd ` set (hs @ [x]). isModHolder g \<and> typeId (tbl ! typeID g) = i} =
        {g \<in> snd ` set hs. isModHolder g \<and> typeId (tbl ! typeID g) = i}" for i
      by (auto simp: x)
    with snoc False show ?thesis by (simp add: x collect_children_snoc)
  next
    case True
    let ?i = "typeId (tbl ! typeID h)"
    have H: "{g \<in> snd ` set (hs @ [x]). isModHolder g \<and> typeId (tbl ! typeID g) = i} =
        (if i = ?i then insert h else (\<lambda>S. S)) {g \<in> snd ` set hs. isModHolder g \<and> typeId (tbl ! typeID g) = i}" for i
      using True by (auto simp: x)
    have s: "by_type (collect_children tbl hs)" using snoc by (simp add: by_type_def)
    show ?thesis
      using snoc tryInsert_spec [OF s, of "toModEntry (tbl ! typeID h) (hasFlag (fieldAttr h) GLOBAL_MOD)"] True
      unfolding H Let_def
      by (auto simp: x collect_children_snoc by_type_def toModEntry_typeId toModEntry_isGlobal Let_def split: if_splits)
  qed
qed


end
