(* ===== verification/Module_Loader.thy ===== *)
theory Module_Loader
  imports Scope_Chain
begin

text \<open>
  The module loader (\<open>ModuleLoaderBase\<close>, \<open>ModuleLoader\<close> and \<open>discardAll\<close> of \<open>scope.h\<close>,
  \<open>scope.cpp\<close>): where a module is searched, the table of loaded modules with its detection of
  circular imports, and the rollback of a failed compilation. The file system and the two module
  directories outside the repository are parameters.
\<close>

section \<open>The table of modules\<close>

definition SYS_LIMIT_MOD_ID :: nat where "SYS_LIMIT_MOD_ID = 65535"

datatype ModResult = ModPath string | ModTypeId nat | ModLoadingError nat

definition isCircularLoad :: "ModResult \<Rightarrow> bool" where
  "isCircularLoad r \<longleftrightarrow> r = ModLoadingError 0"

definition modSize :: "'a ModuleLoader_scheme \<Rightarrow> nat" where
  "modSize ld = length (indexMap ld)"

definition isSealed :: "nat \<Rightarrow> bool" where
  "isSealed t \<longleftrightarrow> t > 0"

text \<open>\<open>None\<close> is the end of the process when the module ids run out.\<close>

definition addNewModEntry :: "'a ModuleLoader_scheme \<Rightarrow> string \<Rightarrow> ('a ModuleLoader_scheme \<times> ModResult) option" where
  "addNewModEntry ld path =
     (case map_of (indexMap ld) path of
        Some i \<Rightarrow>
          (let t = entries ld ! i in Some (ld, if isSealed t then ModTypeId t else ModLoadingError 0))
      | None \<Rightarrow>
          (let ld = ld\<lparr>indexMap := indexMap ld @ [(path, length (indexMap ld))], entries := entries ld @ [0]\<rparr>
           in if length (indexMap ld) = SYS_LIMIT_MOD_ID then None else Some (ld, ModPath path)))"

text \<open>\<open>createModType\<close> after the scope's own \<open>toModType\<close>: a slot for the module object, and the seal.\<close>

definition seal :: "'a ModuleLoader_scheme \<Rightarrow> string \<Rightarrow> nat \<Rightarrow> 'a ModuleLoader_scheme option" where
  "seal ld fullpath t =
     (let ld = ld\<lparr>gvarCount := gvarCount ld + 1\<rparr> in
      case map_of (indexMap ld) fullpath of
        None \<Rightarrow> None
      | Some i \<Rightarrow>
          if isSealed (entries ld ! i) then None else Some (ld\<lparr>entries := (entries ld)[i := t]\<rparr>))"

definition loader_createModType ::
  "TypePool \<Rightarrow> Scopes \<Rightarrow> string \<Rightarrow> (TypePool \<times> Scopes \<times> nat) option"
where
  "loader_createModType pool st fullpath =
     (case toModType pool st of
        (pool, Inl e) \<Rightarrow> None
      | (pool, Inr t) \<Rightarrow> map_option (\<lambda>st. (pool, st, t)) (seal st fullpath t))"

definition createGlobalScopeFromFullpath :: "Scopes \<Rightarrow> string \<Rightarrow> DSType \<Rightarrow> Scopes option" where
  "createGlobalScopeFromFullpath st fullpath modType =
     (case map_of (indexMap st) fullpath of
        None \<Rightarrow> None
      | Some i \<Rightarrow> Some (fst (importForeignHandles (st\<lparr>chain := [newModuleScope i]\<rparr>) modType True)))"

definition createGlobalScope :: "Scopes \<Rightarrow> string \<Rightarrow> DSType option \<Rightarrow> Scopes option" where
  "createGlobalScope st name modType =
     (case addNewModEntry st name of
        Some (st, ModPath path) \<Rightarrow>
          (case modType of
             Some t \<Rightarrow> createGlobalScopeFromFullpath st path t
           | None \<Rightarrow> Some (st\<lparr>chain := [newModuleScope 0]\<rparr>))
      | _ \<Rightarrow> None)"

record ModDiscardPoint =
  idCount :: nat
  gvarOffset :: nat

definition loader_getDiscardPoint :: "'a ModuleLoader_scheme \<Rightarrow> ModDiscardPoint" where
  "loader_getDiscardPoint ld = \<lparr>idCount = modSize ld, gvarOffset = gvarCount ld\<rparr>"

definition loader_discard :: "'a ModuleLoader_scheme \<Rightarrow> ModDiscardPoint \<Rightarrow> 'a ModuleLoader_scheme" where
  "loader_discard ld p =
     (if idCount p \<ge> modSize ld then ld
      else ld\<lparr>entries := take (idCount p) (entries ld),
              indexMap := filter (\<lambda>(path, i). \<not> i \<ge> idCount p) (indexMap ld),
              gvarCount := gvarOffset p\<rparr>)"

record DiscardPoint =
  mod_point :: ModDiscardPoint
  scope_point :: nat
  type_point :: TypeDiscardPoint

definition discardAll :: "Scopes \<Rightarrow> TypePool \<Rightarrow> DiscardPoint \<Rightarrow> Scopes \<times> TypePool" where
  "discardAll st pool p = (scope_discard (loader_discard st (mod_point p)) (scope_point p), discard pool (type_point p))"

section \<open>Searching a module\<close>

record file_stat =
  is_dir :: bool
  is_reg :: bool
  st_size :: nat

record ModFs =
  mod_open :: "string \<Rightarrow> nat + file_stat"
  realpath :: "string \<Rightarrow> string option"

abbreviation "EISDIR \<equiv> (21 :: nat)"
abbreviation "EFBIG \<equiv> (27 :: nat)"
abbreviation "EINVAL \<equiv> (22 :: nat)"
abbreviation "ENOENT \<equiv> (2 :: nat)"

definition concatPath :: "string option \<Rightarrow> string \<Rightarrow> string" where
  "concatPath baseDir path =
     (if path = [] then []
      else case baseDir of
        None \<Rightarrow> path
      | Some d \<Rightarrow> if hd path = CHR ''/'' then path else d @ ''/'' @ path)"

definition tryToRealpath :: "ModFs \<Rightarrow> string \<Rightarrow> string" where
  "tryToRealpath fs path = (case realpath fs path of Some p \<Rightarrow> p | None \<Rightarrow> path)"

definition checkFileType :: "file_stat \<Rightarrow> bool \<Rightarrow> nat" where
  "checkFileType st ignore_non_reg =
     (if is_dir st then EISDIR
      else if is_reg st then (if st_size st > 0xFFFFFFFF div 4 then EFBIG else 0)
      else if ignore_non_reg then EINVAL else 0)"

definition loadImpl ::
  "ModFs \<Rightarrow> bool \<Rightarrow> 'a ModuleLoader_scheme \<Rightarrow> string option \<Rightarrow> string \<Rightarrow> ('a ModuleLoader_scheme \<times> ModResult) option"
where
  "loadImpl fs option ld scriptDir modPath =
     (let str = concatPath scriptDir modPath in
      if str = [] then Some (ld, ModLoadingError ENOENT)
      else case mod_open fs str of
        Inl errno \<Rightarrow> Some (ld, ModLoadingError errno)
      | Inr st \<Rightarrow>
          (let s = checkFileType st option in
           if s \<noteq> 0 then Some (ld, ModLoadingError s)
           else addNewModEntry ld (tryToRealpath fs str)))"

definition isFileNotFound :: "ModResult \<Rightarrow> bool" where
  "isFileNotFound r \<longleftrightarrow> r = ModLoadingError ENOENT"

definition load_module ::
  "ModFs \<Rightarrow> string \<Rightarrow> string \<Rightarrow> bool \<Rightarrow> 'a ModuleLoader_scheme \<Rightarrow> string option \<Rightarrow> string
     \<Rightarrow> ('a ModuleLoader_scheme \<times> ModResult) option"
where
  "load_module fs localModDir systemModDir option ld scriptDir path =
     (case loadImpl fs option ld scriptDir path of
        None \<Rightarrow> None
      | Some (ld, ret) \<Rightarrow>
          (case scriptDir of
             None \<Rightarrow> Some (ld, ret)
           | Some dir \<Rightarrow>
               if starts_with path ''/'' \<or> \<not> starts_with dir ''/'' then Some (ld, ret)
               else if dir = systemModDir then Some (ld, ret)
               else if isFileNotFound ret then
                 (case (if dir \<noteq> localModDir then loadImpl fs option ld (Some localModDir) path
                        else Some (ld, ret)) of
                    None \<Rightarrow> None
                  | Some (ld, ret) \<Rightarrow>
                      if isFileNotFound ret then loadImpl fs option ld (Some systemModDir) path
                      else Some (ld, ret))
               else Some (ld, ret)))"

section \<open>The table stays consistent\<close>

text \<open>A module's id is its position, in the index and in the entries.\<close>

definition loader_ok :: "'a ModuleLoader_scheme \<Rightarrow> bool" where
  "loader_ok ld \<longleftrightarrow>
     map snd (indexMap ld) = [0..<length (indexMap ld)] \<and> distinct (map fst (indexMap ld))
     \<and> length (entries ld) = length (indexMap ld)"

lemma loader_ok_index:
  assumes "loader_ok ld" "map_of (indexMap ld) path = Some i"
  shows "i < length (indexMap ld)" "i < length (entries ld)" "fst (indexMap ld ! i) = path"
proof -
  from map_of_SomeD [OF assms(2)] obtain k where k: "k < length (indexMap ld)" "indexMap ld ! k = (path, i)"
    by (auto simp: in_set_conv_nth)
  then have "map snd (indexMap ld) ! k = i" by simp
  moreover have "map snd (indexMap ld) ! k = k" using assms(1) k(1) by (simp add: loader_ok_def del: nth_map)
  ultimately have "k = i" by simp
  then show "i < length (indexMap ld)" "i < length (entries ld)" "fst (indexMap ld ! i) = path"
    using k assms(1) by (simp_all add: loader_ok_def)
qed

lemma addNewModEntry_ok:
  "loader_ok ld \<Longrightarrow> addNewModEntry ld path = Some (ld', r) \<Longrightarrow> loader_ok ld'"
  by (auto simp: addNewModEntry_def loader_ok_def map_of_eq_None_iff Let_def split: option.splits if_splits)

lemma seal_ok: "loader_ok ld \<Longrightarrow> seal ld path t = Some ld' \<Longrightarrow> loader_ok ld'"
  by (auto simp: seal_def loader_ok_def Let_def split: option.splits if_splits)


section \<open>Steps of the loader\<close>

inductive loader_step :: "'a ModuleLoader_scheme \<Rightarrow> 'a ModuleLoader_scheme \<Rightarrow> bool" where
  step_add: "addNewModEntry ld path = Some (ld', r) \<Longrightarrow> loader_step ld ld'"
| step_seal: "seal ld path t = Some ld' \<Longrightarrow> loader_step ld ld'"

text \<open>A step adds modules at the end and may seal one that was not; a sealed module stays.\<close>

definition same_or_unsealed :: "nat \<Rightarrow> nat \<Rightarrow> bool" where
  "same_or_unsealed e e' \<longleftrightarrow> e' = e \<or> e = 0"

definition loader_grown :: "'a ModuleLoader_scheme \<Rightarrow> 'a ModuleLoader_scheme \<Rightarrow> bool" where
  "loader_grown ld ld' \<longleftrightarrow>
     loader_ok ld' \<and> (\<exists>ms. indexMap ld' = indexMap ld @ ms)
     \<and> list_all2 same_or_unsealed (entries ld) (take (length (entries ld)) (entries ld'))
     \<and> gvarCount ld \<le> gvarCount ld'"

lemma same_or_unsealed_trans: "same_or_unsealed a b \<Longrightarrow> same_or_unsealed b c \<Longrightarrow> same_or_unsealed a c"
  by (auto simp: same_or_unsealed_def)

lemma same_or_unsealed_refl [simp]: "same_or_unsealed e e"
  by (simp add: same_or_unsealed_def)

lemma loader_grown_refl: "loader_ok ld \<Longrightarrow> loader_grown ld ld"
  by (simp add: loader_grown_def list_all2_refl)

lemma loader_grown_length: "loader_grown ld ld' \<Longrightarrow> length (entries ld) \<le> length (entries ld')"
  by (auto simp: loader_grown_def dest!: list_all2_lengthD)

lemma loader_grown_trans:
  assumes "loader_grown a b" "loader_grown b c"
  shows "loader_grown a c"
proof -
  let ?n = "length (entries a)"
  have A: "list_all2 same_or_unsealed (entries a) (take ?n (entries b))"
    using assms(1) by (simp add: loader_grown_def)
  have "list_all2 same_or_unsealed (take ?n (entries b)) (take ?n (take (length (entries b)) (entries c)))"
    using assms(2) unfolding loader_grown_def by (blast intro: list_all2_takeI)
  then have B: "list_all2 same_or_unsealed (take ?n (entries b)) (take ?n (entries c))"
    using loader_grown_length [OF assms(1)] by (simp add: min_def)
  have "list_all2 same_or_unsealed (entries a) (take ?n (entries c))"
    by (rule list_all2_trans [OF same_or_unsealed_trans A B])
  then show ?thesis using assms by (auto simp: loader_grown_def)
qed

lemma loader_step_grown: "loader_step ld ld' \<Longrightarrow> loader_ok ld \<Longrightarrow> loader_grown ld ld'"
proof (induction rule: loader_step.induct)
  case (step_add ld path ld' r)
  then show ?case using addNewModEntry_ok [OF step_add(2,1)]
    by (auto simp: addNewModEntry_def loader_grown_def list_all2_refl Let_def split: option.splits if_splits)
next
  case (step_seal ld path t ld')
  then obtain i where i: "map_of (indexMap ld) path = Some i" "\<not> isSealed (entries ld ! i)"
    "ld' = ld\<lparr>gvarCount := gvarCount ld + 1, entries := (entries ld)[i := t]\<rparr>"
    by (auto simp: seal_def Let_def split: option.splits if_splits)
  have "list_all2 same_or_unsealed (entries ld) ((entries ld)[i := t])"
    using i(2) loader_ok_index(2) [OF step_seal(2) i(1)]
    by (auto simp: list_all2_conv_all_nth nth_list_update same_or_unsealed_def isSealed_def)
  then show ?case using seal_ok [OF step_seal(2,1)] i(3) by (simp add: loader_grown_def)
qed

lemma loader_index_filter:
  assumes "loader_ok ld'" "indexMap ld' = xs @ ms"
  shows "filter (\<lambda>(path, i). \<not> i \<ge> length xs) (indexMap ld') = xs"
proof -
  have "map snd (xs @ ms) = [0..<length xs] @ [length xs..<length (xs @ ms)]"
    using assms by (simp add: loader_ok_def upt_add_eq_append [of 0, symmetric] flip: upt_add_eq_append)
  then have "map snd xs = [0..<length xs]" "map snd ms = [length xs..<length (xs @ ms)]"
    by (simp_all add: append_eq_append_conv)
  then have "\<forall>i \<in> snd ` set xs. i < length xs" "\<forall>i \<in> snd ` set ms. \<not> i < length xs"
    by (metis atLeastLessThan_iff list.set_map set_upt, metis atLeastLessThan_iff list.set_map set_upt not_less)
  then have "filter (\<lambda>(path, i). \<not> i \<ge> length xs) xs = xs" "filter (\<lambda>(path, i). \<not> i \<ge> length xs) ms = []"
    by (fastforce intro!: filter_True filter_False)+
  then show ?thesis using assms(2) by simp
qed

lemma loader_discard_grown:
  assumes "loader_ok ld" "loader_grown ld ld'"
  shows "indexMap (loader_discard ld' (loader_getDiscardPoint ld)) = indexMap ld"
proof -
  obtain ms where ms: "indexMap ld' = indexMap ld @ ms" "loader_ok ld'" using assms(2) by (auto simp: loader_grown_def)
  from loader_index_filter [OF ms(2,1)] ms(1) show ?thesis
    by (auto simp: loader_discard_def loader_getDiscardPoint_def modSize_def simp del: filter_append)
qed

interpretation loader: rollback loader_ok "\<lambda>ld. True" loader_step loader_grown loader_getDiscardPoint loader_discard indexMap
proof (unfold_locales, goal_cases)
  case (3 s t)
  then show ?case by (simp add: loader_grown_def)
qed (blast intro: loader_grown_refl loader_grown_trans loader_step_grown loader_discard_grown)+

section \<open>Operations on scopes leave the table of modules alone\<close>

definition same_table :: "Scopes \<Rightarrow> Scopes \<Rightarrow> bool" where
  "same_table st st' \<longleftrightarrow> indexMap st' = indexMap st \<and> entries st' = entries st"

lemma same_table_refl [simp]: "same_table st st"
  by (simp add: same_table_def)

lemma same_table_trans: "same_table a b \<Longrightarrow> same_table b c \<Longrightarrow> same_table a c"
  by (simp add: same_table_def)

lemma same_table_set_cur [simp]: "same_table st (set_cur s st') \<longleftrightarrow> same_table st st'"
  by (simp add: same_table_def set_cur_def)

lemma same_table_write [simp]: "same_table st (write_ref r v st') \<longleftrightarrow> same_table st st'"
  by (cases r) (simp_all add: same_table_def)

lemma same_table_add [simp]: "same_table st (fst (scope_add st name h))"
  by (simp add: scope_add_def Let_def del: write_ref.simps read_ref.simps)

lemma same_table_defines [simp]:
  "same_table st (fst (addNewForeignHandle st name h))" "same_table st (fst (addNewAlias st name h))"
  "same_table st (fst (defineHandle st name ty a))" "same_table st (fst (defineAlias st name h))"
  "same_table st (fst (defineTypeAlias pool st name ty))"
  by (simp_all add: addNewForeignHandle_def addNewAlias_def defineHandle_def defineAlias_def defineTypeAlias_def
      addNewHandle_def Let_def)

lemma same_table_symbols: "same_table st (fst (import_symbols st hs))"
proof (induction st hs rule: import_symbols.induct)
  case (2 st name handle hs)
  have "same_table st (fst (addNewForeignHandle st name handle))" by simp
  with 2 show ?case
    by (cases "addNewForeignHandle st name handle") (auto intro: same_table_trans split: sum.splits)
qed simp

lemma same_table_import: "same_table st (fst (importForeignHandles st t global))"
  unfolding importForeignHandles_def Let_def
  by (auto intro: same_table_trans [OF _ same_table_symbols])

lemma same_table_step: "scope_step st st' \<Longrightarrow> same_table st st'"
proof (induction rule: scope_step.induct)
  case (step_enter k st st')
  then show ?case by (auto simp: enterScope_def Let_def same_table_def split: if_splits)
next
  case (step_exit st)
  then show ?case by (simp add: exitScope_def same_table_def)
next
  case (step_clear st)
  then show ?case by (simp add: clearLocalSize_def)
qed (simp_all add: same_table_import)

section \<open>A compilation\<close>

text \<open>
  What compiling the root module does to the three components: operations on its scope, creation
  of types, loading and sealing of modules, and new global variables of the modules it loads.
\<close>

inductive compile_step :: "Natives \<Rightarrow> Scopes \<times> TypePool \<Rightarrow> Scopes \<times> TypePool \<Rightarrow> bool" for N where
  compile_scope: "scope_step st st' \<Longrightarrow> compile_step N (st, pool) (st', pool)"
| compile_pool: "pool_step N pool pool' \<Longrightarrow> compile_step N (st, pool) (st, pool')"
| compile_load: "loader_step st st' \<Longrightarrow> compile_step N (st, pool) (st', pool)"
| compile_module: "compile_step N (st, pool) (st\<lparr>gvarCount := gvarCount st + n\<rparr>, pool)"

definition compile_ok :: "Natives \<Rightarrow> Scopes \<times> TypePool \<Rightarrow> bool" where
  "compile_ok N s \<longleftrightarrow> chain_ok (fst s) \<and> loader_ok (fst s) \<and> wf_pool (snd s) \<and> natives_small N"

definition table_grown :: "'a ModuleLoader_scheme \<Rightarrow> 'a ModuleLoader_scheme \<Rightarrow> bool" where
  "table_grown ld ld' \<longleftrightarrow>
     loader_ok ld' \<and> (\<exists>ms. indexMap ld' = indexMap ld @ ms)
     \<and> list_all2 same_or_unsealed (entries ld) (take (length (entries ld)) (entries ld'))"

definition compile_grown :: "Scopes \<times> TypePool \<Rightarrow> Scopes \<times> TypePool \<Rightarrow> bool" where
  "compile_grown s t \<longleftrightarrow>
     chain_ok (fst t) \<and> head_extends (fst s) (fst t) \<and> table_grown (fst s) (fst t) \<and> grown (snd s) (snd t)"

lemma table_grown_trans: "table_grown a b \<Longrightarrow> table_grown b c \<Longrightarrow> table_grown a c"
  using loader_grown_trans [of "a\<lparr>gvarCount := 0\<rparr>" "b\<lparr>gvarCount := 0\<rparr>" "c\<lparr>gvarCount := 0\<rparr>"]
  by (simp add: table_grown_def loader_grown_def loader_ok_def)

lemma loader_grown_table: "loader_grown a b \<Longrightarrow> table_grown a b"
  by (simp add: table_grown_def loader_grown_def)

lemma same_table_grown: "same_table a b \<Longrightarrow> loader_ok a \<Longrightarrow> table_grown a b"
  by (simp add: table_grown_def same_table_def loader_ok_def list_all2_refl)

lemma loader_step_chain: "loader_step st st' \<Longrightarrow> chain st' = chain (st :: Scopes)"
  by (induction rule: loader_step.induct)
    (auto simp: addNewModEntry_def seal_def Let_def split: option.splits if_splits)

lemma chain_ok_same_chain: "chain_ok st \<Longrightarrow> chain st' = chain st \<Longrightarrow> chain_ok st'"
proof -
  assume ok: "chain_ok st" and eq: "chain st' = chain st"
  have "st' = st\<lparr>gvarCount := gvarCount st', indexMap := indexMap st', entries := entries st'\<rparr>" using eq by simp
  moreover have "chain_ok (st\<lparr>gvarCount := g, indexMap := i, entries := e\<rparr>)" for g i e
  proof -
    have "read_ref (st\<lparr>gvarCount := g, indexMap := i, entries := e\<rparr>) r = read_ref (st\<lparr>gvarCount := g\<rparr>) r" for r
      by (cases r) simp_all
    then show ?thesis using chain_ok_gvar [OF ok, of g] by (simp add: chain_ok_def)
  qed
  ultimately show ?thesis by metis
qed

lemma head_extends_same_chain: "chain_ok st \<Longrightarrow> chain st' = chain st \<Longrightarrow> head_extends st st'"
  by (simp add: head_extends_def scope_extends_def)

lemma compile_step_grown:
  assumes "compile_ok N s" "compile_step N s t"
  shows "compile_grown s t"
  using assms(2)
proof cases
  case (compile_scope st st' pool)
  then show ?thesis using assms(1) head_extends_step chain_ok_step same_table_grown [OF same_table_step]
    by (simp add: compile_grown_def compile_ok_def grown_refl)
next
  case (compile_pool pool pool' st)
  then show ?thesis using assms(1) pool_step_grown
    by (simp add: compile_grown_def compile_ok_def head_extends_refl same_table_grown)
next
  case (compile_load st st' pool)
  then show ?thesis
    using assms(1) chain_ok_same_chain [of st st'] head_extends_same_chain [of st st'] loader_step_chain [of st st']
      loader_grown_table [OF loader_step_grown, of st st']
    by (simp add: compile_grown_def compile_ok_def grown_refl)
next
  case (compile_module st pool n)
  then show ?thesis using assms(1) chain_ok_gvar head_extends_same_chain [of st]
    by (simp add: compile_grown_def compile_ok_def grown_refl table_grown_def loader_ok_def list_all2_refl)
qed

lemma compile_grown_ok: "compile_ok N s \<Longrightarrow> compile_grown s t \<Longrightarrow> compile_ok N t"
  using grown_wf [of "snd s" "snd t"] by (simp add: compile_ok_def compile_grown_def table_grown_def)

lemma compile_grown_refl: "compile_ok N s \<Longrightarrow> compile_grown s s"
  by (simp add: compile_ok_def compile_grown_def grown_refl head_extends_refl same_table_grown)

lemma compile_grown_trans: "compile_grown s t \<Longrightarrow> compile_grown t u \<Longrightarrow> compile_grown s u"
  unfolding compile_grown_def using head_extends_trans table_grown_trans grown_trans by blast

definition discard_point :: "Scopes \<times> TypePool \<Rightarrow> DiscardPoint" where
  "discard_point s =
     \<lparr>mod_point = loader_getDiscardPoint (fst s), scope_point = commitId (chain (fst s) ! 0),
      type_point = getDiscardPoint (snd s)\<rparr>"

definition compile_view :: "Scopes \<times> TypePool \<Rightarrow> (string \<times> nat) list \<times> NameScope \<times> TypePool" where
  "compile_view s = (indexMap (fst s), module_view (fst s), snd s)"

lemma table_discard:
  assumes "loader_ok ld" "table_grown ld ld'"
  shows "indexMap (loader_discard ld' (loader_getDiscardPoint ld)) = indexMap ld"
    and "list_all2 same_or_unsealed (entries ld) (entries (loader_discard ld' (loader_getDiscardPoint ld)))"
proof -
  obtain ms where ms: "indexMap ld' = indexMap ld @ ms" "loader_ok ld'" using assms(2) by (auto simp: table_grown_def)
  from loader_index_filter [OF ms(2,1)] ms(1)
  show "indexMap (loader_discard ld' (loader_getDiscardPoint ld)) = indexMap ld"
    by (auto simp: loader_discard_def loader_getDiscardPoint_def modSize_def simp del: filter_append)
  have len: "length (entries ld') = length (indexMap ld @ ms)" "length (entries ld) = length (indexMap ld)"
    using ms assms(1) by (simp_all add: loader_ok_def)
  have "list_all2 same_or_unsealed (entries ld) (take (length (entries ld)) (entries ld'))"
    using assms(2) by (simp add: table_grown_def)
  then show "list_all2 same_or_unsealed (entries ld) (entries (loader_discard ld' (loader_getDiscardPoint ld)))"
    using len ms(1) by (auto simp: loader_discard_def loader_getDiscardPoint_def modSize_def)
qed

lemma loader_discard_chain [simp]: "chain (loader_discard st p) = chain (st :: Scopes)"
  by (simp add: loader_discard_def)

lemma scope_discard_table [simp]:
  "indexMap (scope_discard st n) = indexMap st" "entries (scope_discard st n) = entries st"
  "gvarCount (scope_discard st n) = gvarCount st"
  by (simp_all add: scope_discard_def clearLocalSize_def set_cur_def Let_def)

lemma discardAll_compiled:
  assumes "compile_ok N s" "compile_grown s t" "length (chain (fst t)) = 1"
  shows "compile_view (discardAll (fst t) (snd t) (discard_point s)) = compile_view s
    \<and> chain (fst (discardAll (fst t) (snd t) (discard_point s))) = [module_view (fst s)]"
proof -
  let ?t = "loader_discard (fst t) (loader_getDiscardPoint (fst s))"
  have t: "chain_ok ?t" "head_extends (fst s) ?t"
    using assms(2) chain_ok_same_chain [of "fst t" ?t] by (simp_all add: compile_grown_def head_extends_def)
  have "chain (scope_discard ?t (commitId (chain (fst s) ! 0))) = [module_view (fst s)]"
    by (rule discard_module_scope [OF _ t]) (use assms in \<open>simp_all add: compile_ok_def\<close>)
  moreover have "indexMap ?t = indexMap (fst s)"
    by (rule table_discard(1)) (use assms in \<open>simp_all add: compile_ok_def compile_grown_def\<close>)
  moreover have "discard (snd t) (getDiscardPoint (snd s)) = snd s"
    by (rule discard_grown) (use assms in \<open>simp_all add: compile_ok_def compile_grown_def\<close>)
  ultimately show ?thesis
    by (simp add: compile_view_def discardAll_def discard_point_def module_view_def)
qed

interpretation compilation: rollback "compile_ok N" "\<lambda>s. length (chain (fst s)) = 1" "compile_step N" compile_grown
  discard_point "\<lambda>s. discardAll (fst s) (snd s)" compile_view for N
proof (unfold_locales, goal_cases)
  case (1 s)
  then show ?case by (rule compile_grown_refl)
next
  case (2 s t u)
  then show ?case by (rule compile_grown_trans)
next
  case (3 s t)
  then show ?case by (rule compile_grown_ok)
next
  case (4 s t)
  then show ?case by (rule compile_step_grown)
next
  case (5 s t)
  then show ?case using discardAll_compiled by blast
qed

section \<open>Properties\<close>


lemma scope_run_compiles: "scope_step\<^sup>*\<^sup>* st st' \<Longrightarrow> (compile_step N)\<^sup>*\<^sup>* (st, pool) (st', pool)"
  by (induction rule: rtranclp_induct) (auto intro: rtranclp.rtrancl_into_rtrancl compile_scope)


lemma add_after_growth:
  assumes "loader_ok ld" "loader_grown ld ld'" "map_of (indexMap ld) path = Some i"
  shows "map_of (indexMap ld') path = Some i" "same_or_unsealed (entries ld ! i) (entries ld' ! i)"
proof -
  have i: "i < length (entries ld)" by (rule loader_ok_index(2) [OF assms(1,3)])
  show "map_of (indexMap ld') path = Some i" using assms(2,3) by (auto simp: loader_grown_def map_add_def)
  have "list_all2 same_or_unsealed (entries ld) (take (length (entries ld)) (entries ld'))"
    using assms(2) by (simp add: loader_grown_def)
  from list_all2_nthD [OF this i] show "same_or_unsealed (entries ld ! i) (entries ld' ! i)" using i by simp
qed



text \<open>
  The reference for the search: the directories in the order in which they are tried, and the
  first result that is not "file not found".
\<close>

definition search_dirs :: "string \<Rightarrow> string \<Rightarrow> string option \<Rightarrow> string \<Rightarrow> string option list" where
  "search_dirs localModDir systemModDir scriptDir path =
     scriptDir # (case scriptDir of
         None \<Rightarrow> []
       | Some dir \<Rightarrow>
           if starts_with path ''/'' \<or> \<not> starts_with dir ''/'' \<or> dir = systemModDir then []
           else filter (\<lambda>d. d \<noteq> scriptDir) [Some localModDir] @ [Some systemModDir])"

fun first_found ::
  "ModFs \<Rightarrow> bool \<Rightarrow> 'a ModuleLoader_scheme \<Rightarrow> string \<Rightarrow> string option list \<Rightarrow> ('a ModuleLoader_scheme \<times> ModResult) option"
where
  "first_found fs opt ld path [] = None"
| "first_found fs opt ld path [d] = loadImpl fs opt ld d path"
| "first_found fs opt ld path (d # ds) =
     (case loadImpl fs opt ld d path of
        None \<Rightarrow> None
      | Some (ld', ret) \<Rightarrow> if isFileNotFound ret then first_found fs opt ld' path ds else Some (ld', ret))"

text \<open>
  A module is searched in the directory of the script, then the user's module directory, then
  the system's, each tried once; an absolute path, a script without an absolute directory and the
  system's own modules are looked up in one place only.
\<close>

theorem load_module_search:
  "load_module fs localModDir systemModDir opt ld scriptDir path =
     first_found fs opt ld path (search_dirs localModDir systemModDir scriptDir path)"
proof (cases scriptDir)
  case None
  then show ?thesis by (simp add: load_module_def search_dirs_def split: option.splits prod.splits)
next
  case (Some dir)
  then show ?thesis
    by (cases "starts_with path ''/'' \<or> \<not> starts_with dir ''/'' \<or> dir = systemModDir"; cases "dir = localModDir")
      (auto simp: load_module_def search_dirs_def split: option.splits prod.splits)
qed

end
