(* ===== verification/String_Ref.thy ===== *)
theory String_Ref
  imports Prelude "HOL-Library.List_Lexorder" "HOL-Library.Sublist"
begin

text \<open>
  Views of byte strings (\<open>StringRefBase\<close>, \<open>src/misc/string_ref.hpp\<close>). A view is the list of its
  bytes; the position \<open>npos\<close> is \<open>None\<close>. \<open>memcmp\<close> and \<open>memmem\<close> are the functions of the C library.
\<close>

type_synonym bytes = "byte list"

fun memcmp :: "bytes \<Rightarrow> bytes \<Rightarrow> int" where
  "memcmp (a # s) (b # t) = (if a \<noteq> b then uint a - uint b else memcmp s t)"
| "memcmp _ _ = 0"

fun memmem :: "bytes \<Rightarrow> bytes \<Rightarrow> nat option" where
  "memmem hay needle =
     (if prefix needle hay then Some 0
      else case hay of [] \<Rightarrow> None | _ # rest \<Rightarrow> map_option Suc (memmem rest needle))"

declare memmem.simps [simp del]

definition compare_ref :: "bytes \<Rightarrow> bytes \<Rightarrow> int" where
  "compare_ref s t =
     (let n = min (length s) (length t);
          ret = memcmp (take n s) (take n t)
      in if ret \<noteq> 0 then ret
         else if length s < length t then -1
         else if length s = length t then 0 else 1)"

definition eq_ref :: "bytes \<Rightarrow> bytes \<Rightarrow> bool" where
  "eq_ref s t \<longleftrightarrow> length s = length t \<and> memcmp s t = 0"

definition substr_ref :: "bytes \<Rightarrow> nat \<Rightarrow> nat option \<Rightarrow> bytes" where
  "substr_ref s pos n =
     take (case n of Some n \<Rightarrow> min (length s - pos) n | None \<Rightarrow> length s - pos) (drop pos s)"

definition slice_ref :: "bytes \<Rightarrow> nat \<Rightarrow> nat option \<Rightarrow> bytes" where
  "slice_ref s startIndex stopIndex =
     substr_ref s startIndex (map_option (\<lambda>stop. stop - startIndex) stopIndex)"

definition removePrefix :: "bytes \<Rightarrow> nat \<Rightarrow> bytes" where
  "removePrefix s n = drop n s"

definition removeSuffix :: "bytes \<Rightarrow> nat \<Rightarrow> bytes" where
  "removeSuffix s n = take (length s - n) s"

definition find_ref :: "bytes \<Rightarrow> bytes \<Rightarrow> nat \<Rightarrow> nat option" where
  "find_ref s ref pos =
     (if pos > length s then None
      else if length ref = 0 then Some pos
      else map_option (\<lambda>i. pos + i) (memmem (drop pos s) ref))"

definition contains_ref :: "bytes \<Rightarrow> bytes \<Rightarrow> bool" where
  "contains_ref s ref \<longleftrightarrow> find_ref s ref 0 \<noteq> None"

definition hasNullChar :: "bytes \<Rightarrow> bool" where
  "hasNullChar s \<longleftrightarrow> contains_ref s [0]"

definition indexOf :: "bytes \<Rightarrow> bytes \<Rightarrow> nat option" where
  "indexOf s ref = find_ref s ref 0"

text \<open>
  The loop of \<open>lastIndexOf\<close>, which tries every start position in turn. Its counter stops it at the
  end of the string; on the empty string it runs past the end, where \<open>find\<close> gives \<open>npos\<close>.
\<close>

function lastIndexOf_loop :: "bytes \<Rightarrow> bytes \<Rightarrow> nat option \<Rightarrow> nat \<Rightarrow> nat option" where
  "lastIndexOf_loop s ref ret pos =
     (case find_ref s ref pos of
        None \<Rightarrow> ret
      | Some tmp \<Rightarrow>
          if pos + 1 \<noteq> length s then lastIndexOf_loop s ref (Some tmp) (pos + 1) else Some tmp)"
  by pat_completeness auto
termination
  by (relation "measure (\<lambda>(s, ref, ret, pos). Suc (length s) - pos)")
    (auto simp: find_ref_def split: if_splits)

declare lastIndexOf_loop.simps [simp del]

definition lastIndexOf :: "bytes \<Rightarrow> bytes \<Rightarrow> nat option" where
  "lastIndexOf s ref = lastIndexOf_loop s ref None 0"

definition startsWith :: "bytes \<Rightarrow> bytes \<Rightarrow> bool" where
  "startsWith s ref \<longleftrightarrow> length s \<ge> length ref \<and> memcmp (take (length ref) s) ref = 0"

definition endsWith :: "bytes \<Rightarrow> bytes \<Rightarrow> bool" where
  "endsWith s ref \<longleftrightarrow> length s \<ge> length ref \<and> memcmp (drop (length s - length ref) s) ref = 0"

section \<open>Comparison\<close>

lemma memcmp_zero: "length s = length t \<Longrightarrow> memcmp s t = 0 \<longleftrightarrow> s = t"
  by (induction s t rule: list_induct2) (auto simp: byte_eq_uint)

lemma eq_ref_iff [simp]: "eq_ref s t \<longleftrightarrow> s = t"
  by (auto simp: eq_ref_def memcmp_zero)

lemma startsWith_iff: "startsWith s ref \<longleftrightarrow> prefix ref s"
  by (auto simp: startsWith_def memcmp_zero take_is_prefix prefix_def) (metis append_take_drop_id)

lemma endsWith_iff: "endsWith s ref \<longleftrightarrow> suffix ref s"
  by (auto simp: endsWith_def memcmp_zero suffix_def) (metis append_take_drop_id)

lemma memcmp_less:
  "length s = length t \<Longrightarrow> memcmp s t < 0 \<longleftrightarrow> s < t"
proof (induction s t rule: list_induct2)
  case (Cons a s b t)
  then show ?case by (auto simp: word_less_def word_uint_eq_iff)
qed simp

lemma compare_ref_less: "compare_ref s t < 0 \<longleftrightarrow> s < t"
proof -
  define n where "n = min (length s) (length t)"
  have less: "memcmp (take n s) (take n t) < 0 \<longleftrightarrow> take n s < take n t"
    "memcmp (take n s) (take n t) = 0 \<longleftrightarrow> take n s = take n t"
    by (simp_all add: n_def memcmp_less memcmp_zero)
  have lex: "s < t \<longleftrightarrow> take n s < take n t \<or> take n s = take n t \<and> length s < length t"
    unfolding n_def
  proof (induction s arbitrary: t)
    case Nil
    then show ?case by (cases t) auto
  next
    case (Cons a s)
    then show ?case by (cases t) auto
  qed
  show ?thesis
    using less lex unfolding compare_ref_def Let_def n_def [symmetric] by auto
qed

lemma memcmp_swap: "length s = length t \<Longrightarrow> memcmp t s = - memcmp s t"
  by (induction s t rule: list_induct2) auto

lemma compare_ref_swap: "compare_ref t s = - compare_ref s t"
  by (auto simp: compare_ref_def Let_def min.commute memcmp_swap [of "take _ s"])

lemma compare_ref_eq: "compare_ref s t = 0 \<longleftrightarrow> s = t"
  by (auto simp: compare_ref_def Let_def memcmp_zero split: if_splits)

text \<open>The relational operators, as \<open>operator<\<close> and the others of the header define them.\<close>

definition less_ref :: "bytes \<Rightarrow> bytes \<Rightarrow> bool" where "less_ref s t \<longleftrightarrow> compare_ref s t < 0"
definition greater_ref :: "bytes \<Rightarrow> bytes \<Rightarrow> bool" where "greater_ref s t \<longleftrightarrow> compare_ref s t > 0"
definition less_eq_ref :: "bytes \<Rightarrow> bytes \<Rightarrow> bool" where "less_eq_ref s t \<longleftrightarrow> compare_ref s t \<le> 0"
definition greater_eq_ref :: "bytes \<Rightarrow> bytes \<Rightarrow> bool" where "greater_eq_ref s t \<longleftrightarrow> compare_ref s t \<ge> 0"

lemma refs_lexicographic:
  "less_ref s t \<longleftrightarrow> s < t" "greater_ref s t \<longleftrightarrow> t < s" "less_eq_ref s t \<longleftrightarrow> s \<le> t" "greater_eq_ref s t \<longleftrightarrow> t \<le> s"
  using compare_ref_less [of s t] compare_ref_less [of t s] compare_ref_swap [of s t] compare_ref_eq [of s t]
  by (auto simp: less_ref_def greater_ref_def less_eq_ref_def greater_eq_ref_def order.order_iff_strict)

section \<open>Search\<close>

definition occurs_at :: "bytes \<Rightarrow> bytes \<Rightarrow> nat \<Rightarrow> bool" where
  "occurs_at s ref i \<longleftrightarrow> i \<le> length s \<and> prefix ref (drop i s)"

lemma memmem_first:
  "memmem s ref = Some i \<longleftrightarrow> occurs_at s ref i \<and> (\<forall>j < i. \<not> occurs_at s ref j)"
proof (induction s arbitrary: i)
  case Nil
  show ?case by (subst memmem.simps) (auto simp: occurs_at_def)
next
  case (Cons a s)
  have shift: "occurs_at (a # s) ref (Suc j) \<longleftrightarrow> occurs_at s ref j" for j by (simp add: occurs_at_def)
  show ?case
  proof (cases "prefix ref (a # s)")
    case True
    then show ?thesis by (subst memmem.simps) (auto simp: occurs_at_def)
  next
    case False
    then have "\<not> occurs_at (a # s) ref 0" by (simp add: occurs_at_def)
    then show ?thesis
      using False Cons.IH
      by (subst memmem.simps) (cases i; auto simp: shift less_Suc_eq_0_disj)
  qed
qed

lemma all_nat_split: "(\<forall>i. P i) \<longleftrightarrow> P 0 \<and> (\<forall>i. P (Suc i))"
  by (metis not0_implies_Suc)

lemma memmem_none: "memmem s ref = None \<longleftrightarrow> (\<forall>i. \<not> occurs_at s ref i)"
proof (induction s)
  case Nil
  show ?case by (subst memmem.simps) (auto simp: occurs_at_def)
next
  case (Cons a s)
  have split: "(\<forall>i. \<not> occurs_at (a # s) ref i) \<longleftrightarrow> \<not> prefix ref (a # s) \<and> (\<forall>i. \<not> occurs_at s ref i)"
    by (subst all_nat_split) (simp add: occurs_at_def)
  show ?case
    unfolding split by (subst memmem.simps) (simp add: Cons.IH)
qed

lemma occurs_at_drop: "pos \<le> length s \<Longrightarrow> occurs_at (drop pos s) ref i \<longleftrightarrow> occurs_at s ref (pos + i)"
  by (auto simp: occurs_at_def add.commute)

lemma find_ref_first:
  "find_ref s ref pos = Some i \<longleftrightarrow> pos \<le> i \<and> occurs_at s ref i \<and> (\<forall>j. pos \<le> j \<and> j < i \<longrightarrow> \<not> occurs_at s ref j)"
proof (cases "pos > length s \<or> ref = []")
  case True
  then show ?thesis by (auto simp: find_ref_def occurs_at_def not_less)
next
  case False
  then have find: "find_ref s ref pos = Some i \<longleftrightarrow> (\<exists>k. i = pos + k \<and> memmem (drop pos s) ref = Some k)"
    by (auto simp: find_ref_def)
  also have "\<dots> \<longleftrightarrow> (\<exists>k. i = pos + k \<and> occurs_at s ref i \<and> (\<forall>j < k. \<not> occurs_at s ref (pos + j)))"
    using False by (auto simp: memmem_first occurs_at_drop)
  also have "\<dots> \<longleftrightarrow> pos \<le> i \<and> occurs_at s ref i \<and> (\<forall>j. pos \<le> j \<and> j < i \<longrightarrow> \<not> occurs_at s ref j)"
    by (auto simp: le_iff_add)
  finally show ?thesis .
qed

lemma find_ref_none: "find_ref s ref pos = None \<longleftrightarrow> (\<forall>i. pos \<le> i \<longrightarrow> \<not> occurs_at s ref i)"
proof (cases "pos > length s \<or> ref = []")
  case True
  then show ?thesis by (auto simp: find_ref_def occurs_at_def)
next
  case False
  then have "find_ref s ref pos = None \<longleftrightarrow> (\<forall>i. \<not> occurs_at s ref (pos + i))"
    by (simp add: find_ref_def memmem_none occurs_at_drop)
  then show ?thesis by (auto simp: le_iff_add)
qed

end
