(* ===== verification/Builtin_String.thy ===== *)
theory Builtin_String
  imports String_Ref Type_Pool Num_Util Grapheme
begin

text \<open>
  The methods of \<open>String\<close> (\<open>src/builtin.h\<close>). A method returns the error it raises, as the pair
  of its type and its message, or its value. Indexes are \<open>int64_t\<close>, sizes \<open>size_t\<close>: their sums wrap.
  \<open>ctype\<close> functions of the C library are those of the C locale on the ASCII bytes.
\<close>

type_synonym thrown = "type_enum \<times> bytes"

definition ascii :: "string \<Rightarrow> bytes" where
  "ascii s = map (\<lambda>c. of_nat (of_char c)) s"

definition chars_of :: "bytes \<Rightarrow> string" where
  "chars_of s = map (\<lambda>b. char_of (unat b)) s"

text \<open>\<open>std::to_string\<close> on a signed number.\<close>

definition show_int :: "int \<Rightarrow> string" where
  "show_int i = (if i < 0 then CHR ''-'' # show_nat (nat (- i)) else show_nat (nat i))"

definition to_int64 :: "nat option \<Rightarrow> 64 word" where
  "to_int64 index = (case index of None \<Rightarrow> -1 | Some i \<Rightarrow> of_nat i)"

section \<open>Relational operators, size and tests\<close>

definition string_eq :: "bytes \<Rightarrow> bytes \<Rightarrow> bool" where "string_eq left right = eq_ref left right"
definition string_ne :: "bytes \<Rightarrow> bytes \<Rightarrow> bool" where "string_ne left right = (\<not> eq_ref left right)"
definition string_lt :: "bytes \<Rightarrow> bytes \<Rightarrow> bool" where "string_lt left right = less_ref left right"
definition string_gt :: "bytes \<Rightarrow> bytes \<Rightarrow> bool" where "string_gt left right = greater_ref left right"
definition string_le :: "bytes \<Rightarrow> bytes \<Rightarrow> bool" where "string_le left right = less_eq_ref left right"
definition string_ge :: "bytes \<Rightarrow> bytes \<Rightarrow> bool" where "string_ge left right = greater_eq_ref left right"

definition string_size :: "bytes \<Rightarrow> 64 word" where "string_size s = of_nat (length s)"
definition string_empty :: "bytes \<Rightarrow> bool" where "string_empty s \<longleftrightarrow> s = []"

definition string_startsWith :: "bytes \<Rightarrow> bytes \<Rightarrow> bool" where
  "string_startsWith left right = startsWith left right"

definition string_endsWith :: "bytes \<Rightarrow> bytes \<Rightarrow> bool" where
  "string_endsWith left right = endsWith left right"

definition string_indexOf :: "bytes \<Rightarrow> bytes \<Rightarrow> 64 word" where
  "string_indexOf left right = to_int64 (indexOf left right)"

definition string_lastIndexOf :: "bytes \<Rightarrow> bytes \<Rightarrow> 64 word" where
  "string_lastIndexOf left right = to_int64 (lastIndexOf left right)"

section \<open>Indexes and ranges\<close>

text \<open>The resolved index, and whether it is in range.\<close>

definition resolveIndex :: "64 word \<Rightarrow> nat \<Rightarrow> nat \<times> bool" where
  "resolveIndex index size' =
     (let index = index + (if sint index < 0 then of_nat size' else 0)
      in (unat index, sint index > -1 \<and> index < of_nat size'))"

definition raiseOutOfRangeError :: "string \<Rightarrow> thrown" where
  "raiseOutOfRangeError message = (T_OutOfRangeError, ascii message)"

definition resolveIndex_ctx :: "64 word \<Rightarrow> nat \<Rightarrow> thrown + nat" where
  "resolveIndex_ctx index size' =
     (let ret = resolveIndex index size' in
      if snd ret then Inr (fst ret)
      else Inl (raiseOutOfRangeError
        (''size is '' @ show_nat size' @ '', but index is '' @ show_int (sint index))))"

definition string_get :: "bytes \<Rightarrow> 64 word \<Rightarrow> thrown + bytes" where
  "string_get ref index =
     (case resolveIndex_ctx index (length ref) of
        Inl e \<Rightarrow> Inl e
      | Inr i \<Rightarrow> Inr (substr_ref ref i (Some 1)))"

text \<open>The range check of the template \<open>slice\<close>, which passes the resolved range to \<open>sliceImpl\<close>.\<close>

definition slice_range :: "nat \<Rightarrow> 64 word \<Rightarrow> 64 word \<Rightarrow> thrown + nat \<times> nat" where
  "slice_range size' startIndex stopIndex =
     (let startIndex = (if sint startIndex < 0 then of_nat size' else 0) + startIndex;
          stopIndex = (if sint stopIndex < 0 then of_nat size' else 0) + stopIndex
      in if sint startIndex > sint stopIndex \<or> sint startIndex < 0 \<or> startIndex > of_nat size'
            \<or> sint stopIndex < 0 \<or> stopIndex > of_nat size'
         then Inl (raiseOutOfRangeError (''size is '' @ show_nat size' @ '', but range is [''
           @ show_int (sint startIndex) @ '', '' @ show_int (sint stopIndex) @ '')''))
         else Inr (unat startIndex, unat stopIndex))"

definition string_slice :: "bytes \<Rightarrow> 64 word \<Rightarrow> 64 word \<Rightarrow> thrown + bytes" where
  "string_slice ref startIndex stopIndex =
     (case slice_range (length ref) startIndex stopIndex of
        Inl e \<Rightarrow> Inl e
      | Inr (b, e) \<Rightarrow> Inr (slice_ref ref b (Some e)))"

definition string_sliceFrom :: "bytes \<Rightarrow> 64 word \<Rightarrow> thrown + bytes" where
  "string_sliceFrom ref startIndex = string_slice ref startIndex (of_nat (length ref))"

definition string_sliceTo :: "bytes \<Rightarrow> 64 word \<Rightarrow> thrown + bytes" where
  "string_sliceTo ref stopIndex = string_slice ref 0 stopIndex"

text \<open>The loop of \<open>charAt\<close> over the grapheme clusters, with fuel for the scanner.\<close>

fun charAt_loop ::
  "nat \<Rightarrow> GraphemeScanner \<Rightarrow> scan_result \<Rightarrow> nat \<Rightarrow> 64 word \<Rightarrow> scan_error + thrown + bytes"
where
  "charAt_loop 0 sc res count pos = Inl OutOfFuel"
| "charAt_loop (Suc fuel) sc res count pos =
     (case scan_next sc res of
        None \<Rightarrow> Inl TooManyCodePoints
      | Some (r, sc', res') \<Rightarrow>
          if r then
            if int count = sint pos then Inr (Inr (res_ref res'))
            else charAt_loop fuel sc' res' (count + 1) pos
          else Inr (Inl (raiseOutOfRangeError
            (''character count is '' @ show_nat count
              @ '', but character position is '' @ show_int (sint pos)))))"

definition string_charAt ::
  "nat \<Rightarrow> bytes \<Rightarrow> scan_result \<Rightarrow> 64 word \<Rightarrow> scan_error + thrown + bytes"
where
  "string_charAt fuel ref res pos = charAt_loop fuel (new_scanner ref) res 0 pos"

section \<open>Splitting and replacing\<close>

lemma find_ref_step:
  assumes "Some i = find_ref s d pos" "d \<noteq> []"
  shows "Suc (length s) - (i + length d) < Suc (length s) - pos"
proof -
  have "pos \<le> i" "i \<le> length s"
    using assms(1) find_ref_first [of s d pos i] by (auto simp: occurs_at_def)
  moreover have "0 < length d" using assms(2) by simp
  ultimately show ?thesis by linarith
qed

function split_from :: "bytes \<Rightarrow> bytes \<Rightarrow> nat \<Rightarrow> bytes list" where
  "split_from thisStr delimStr pos =
     (if delimStr = [] then [thisStr]
      else case find_ref thisStr delimStr pos of
             None \<Rightarrow> [slice_ref thisStr pos None]
           | Some ret \<Rightarrow>
               slice_ref thisStr pos (Some ret) # split_from thisStr delimStr (ret + length delimStr))"
  by pat_completeness auto
termination
  by (relation "measure (\<lambda>(s, d, pos). Suc (length s) - pos)") (simp_all add: find_ref_step)

declare split_from.simps [simp del]

definition string_split :: "bytes \<Rightarrow> bytes \<Rightarrow> bytes list" where
  "string_split thisStr delimStr = split_from thisStr delimStr 0"

definition STR_MAX :: nat where "STR_MAX = 2147483647"

text \<open>\<open>DSValue::appendAsStr\<close> on the bytes of the value, small or not.\<close>

definition appendAsStr :: "bytes \<Rightarrow> bytes \<Rightarrow> thrown + bytes" where
  "appendAsStr this value =
     (if (of_nat (length this) :: u64) > of_nat STR_MAX - of_nat (length value)
      then Inl (raiseOutOfRangeError ''reach String size limit'')
      else Inr (this @ value))"

function replace_from :: "bytes \<Rightarrow> bytes \<Rightarrow> bytes \<Rightarrow> bytes \<Rightarrow> nat \<Rightarrow> thrown + bytes" where
  "replace_from thisStr delimStr repStr buf pos =
     (if delimStr = [] then Inr thisStr
      else let ret = find_ref thisStr delimStr pos in
        case appendAsStr buf (slice_ref thisStr pos ret) of
          Inl e \<Rightarrow> Inl e
        | Inr buf \<Rightarrow>
            case ret of
              None \<Rightarrow> Inr buf
            | Some i \<Rightarrow>
                case appendAsStr buf repStr of
                  Inl e \<Rightarrow> Inl e
                | Inr buf \<Rightarrow> replace_from thisStr delimStr repStr buf (i + length delimStr))"
  by pat_completeness auto
termination
  by (relation "measure (\<lambda>(s, d, r, b, pos). Suc (length s) - pos)") (simp_all add: find_ref_step)

declare replace_from.simps [simp del]

definition string_replace :: "bytes \<Rightarrow> bytes \<Rightarrow> bytes \<Rightarrow> thrown + bytes" where
  "string_replace thisStr delimStr repStr = replace_from thisStr delimStr repStr [] 0"

section \<open>Conversion\<close>

definition string_toInt :: "bytes \<Rightarrow> 64 word option" where
  "string_toInt ref =
     (let ret = fromIntLiteral (chars_of ref) in if snd ret then Some (fst ret) else None)"

definition tolower :: "byte \<Rightarrow> byte" where
  "tolower b = (if 0x41 \<le> b \<and> b \<le> 0x5A then b + 0x20 else b)"

definition toupper :: "byte \<Rightarrow> byte" where
  "toupper b = (if 0x61 \<le> b \<and> b \<le> 0x7A then b - 0x20 else b)"

definition string_lower :: "bytes \<Rightarrow> bytes" where "string_lower s = map tolower s"
definition string_upper :: "bytes \<Rightarrow> bytes" where "string_upper s = map toupper s"

section \<open>Ranges\<close>

definition resolved :: "64 word \<Rightarrow> nat \<Rightarrow> int" where
  "resolved index n = (if sint index < 0 then sint index + int n else sint index)"

lemma sint_word_of_int_fits: "fits_signed TYPE(64) k \<Longrightarrow> sint (word_of_int k :: 64 word) = k"
  by (simp add: fits_signed_def sint_of_fits)

lemma sint_64: "- (2 ^ 63) \<le> sint (a :: 64 word)" "sint (a :: 64 word) < 2 ^ 63"
  using sint_ge [of a] sint_less [of a] by simp_all

lemma sint_resolve:
  assumes "n \<le> STR_MAX"
  shows "sint ((if sint a < 0 then of_nat n else 0) + a :: 64 word) = resolved a n"
proof -
  have "(if sint a < 0 then of_nat n else 0) + a = (word_of_int (resolved a n) :: 64 word)"
    by (simp add: resolved_def)
  moreover have "fits_signed TYPE(64) (resolved a n)"
    using assms sint_64 [of a] by (auto simp: resolved_def fits_signed_def STR_MAX_def)
  ultimately show ?thesis by (simp add: sint_word_of_int_fits)
qed

lemma unat_nonneg: "0 \<le> sint (a :: 64 word) \<Longrightarrow> unat a = nat (sint a)"
proof -
  assume "0 \<le> sint a"
  have "uint (word_of_int k :: 64 word) = k" if "0 \<le> k" "k < 2 ^ 63" for k
    using that by (simp add: uint_word_of_int_eq take_bit_int_eq_self)
  from this [OF \<open>0 \<le> sint a\<close> sint_64(2)] have "uint a = sint a" by simp
  then show ?thesis by (metis unat_eq_nat_uint)
qed

lemma less_of_nat:
  assumes "n \<le> STR_MAX" "0 \<le> sint (a :: 64 word)"
  shows "a < of_nat n \<longleftrightarrow> sint a < int n" "of_nat n < a \<longleftrightarrow> int n < sint a"
proof -
  have n: "unat (of_nat n :: 64 word) = n"
    using assms(1) by (simp add: STR_MAX_def unsigned_of_nat take_bit_nat_eq_self)
  have "a < of_nat n \<longleftrightarrow> nat (sint a) < n" "of_nat n < a \<longleftrightarrow> n < nat (sint a)"
    using assms(2) by (simp_all add: word_less_nat_alt n unat_nonneg)
  then show "a < of_nat n \<longleftrightarrow> sint a < int n" "of_nat n < a \<longleftrightarrow> int n < sint a"
    using assms(2) by linarith+
qed

text \<open>What the two tests of \<open>builtin.h\<close> check, on a size that an object can have.\<close>

lemma resolveIndex_spec:
  assumes "n \<le> STR_MAX"
  shows "snd (resolveIndex index n) \<longleftrightarrow> 0 \<le> resolved index n \<and> resolved index n < int n"
    and "snd (resolveIndex index n) \<Longrightarrow> fst (resolveIndex index n) = nat (resolved index n)"
proof -
  define a where "a = index + (if sint index < 0 then of_nat n else 0)"
  have a: "sint a = resolved index n"
    unfolding a_def using sint_resolve [OF assms, of index] by (simp only: add.commute)
  have r: "resolveIndex index n = (unat a, sint a > -1 \<and> a < of_nat n)"
    by (simp add: resolveIndex_def a_def Let_def)
  show iff: "snd (resolveIndex index n) \<longleftrightarrow> 0 \<le> resolved index n \<and> resolved index n < int n"
    using less_of_nat [OF assms, of a] by (auto simp: r a)
  show "snd (resolveIndex index n) \<Longrightarrow> fst (resolveIndex index n) = nat (resolved index n)"
    using iff unat_nonneg [of a] by (simp add: r a)
qed

lemma resolveIndex_ctx_spec:
  assumes "n \<le> STR_MAX"
  shows "resolveIndex_ctx index n =
    (if 0 \<le> resolved index n \<and> resolved index n < int n then Inr (nat (resolved index n))
     else Inl (raiseOutOfRangeError
       (''size is '' @ show_nat n @ '', but index is '' @ show_int (sint index))))"
  using resolveIndex_spec [OF assms, of index] by (simp add: resolveIndex_ctx_def Let_def)

lemma slice_range_spec:
  assumes "n \<le> STR_MAX"
  shows "slice_range n startIndex stopIndex =
    (let b = resolved startIndex n; e = resolved stopIndex n in
     if 0 \<le> b \<and> b \<le> e \<and> e \<le> int n then Inr (nat b, nat e)
     else Inl (raiseOutOfRangeError (''size is '' @ show_nat n @ '', but range is [''
           @ show_int b @ '', '' @ show_int e @ '')'')))"
proof -
  define b where "b = (if sint startIndex < 0 then of_nat n else 0) + startIndex"
  define e where "e = (if sint stopIndex < 0 then of_nat n else 0) + stopIndex"
  have be: "sint b = resolved startIndex n" "sint e = resolved stopIndex n"
    unfolding b_def e_def using sint_resolve [OF assms] by simp_all
  have ok: "\<not> (sint b > sint e \<or> sint b < 0 \<or> b > of_nat n \<or> sint e < 0 \<or> e > of_nat n)
    \<longleftrightarrow> 0 \<le> sint b \<and> sint b \<le> sint e \<and> sint e \<le> int n"
    using less_of_nat(2) [OF assms, of b] less_of_nat(2) [OF assms, of e] by linarith
  show ?thesis
    unfolding slice_range_def Let_def b_def [symmetric] e_def [symmetric] be [symmetric]
    using ok by (auto simp: unat_nonneg)
qed

section \<open>Pieces\<close>

text \<open>The pieces with the delimiter between them, as \<open>Array#join\<close> of strings puts it.\<close>

fun join_pieces :: "bytes \<Rightarrow> bytes list \<Rightarrow> bytes" where
  "join_pieces d [] = []"
| "join_pieces d [p] = p"
| "join_pieces d (p # ps) = p @ d @ join_pieces d ps"

lemma join_pieces_Cons: "ps \<noteq> [] \<Longrightarrow> join_pieces d (p # ps) = p @ d @ join_pieces d ps"
  by (cases ps) auto

lemma split_from_ne [simp]: "split_from s d pos \<noteq> []"
  by (subst split_from.simps) (simp split: option.splits)

lemma slice_ref_to: "slice_ref s pos None = drop pos s" "slice_ref s pos (Some i) = take (i - pos) (drop pos s)"
  by (simp_all add: slice_ref_def substr_ref_def min_def)

lemma find_ref_split:
  assumes "find_ref s d pos = Some i"
  shows "drop pos s = slice_ref s pos (Some i) @ d @ drop (i + length d) s"
proof -
  have i: "pos \<le> i" "i \<le> length s" "prefix d (drop i s)"
    using assms by (auto simp: find_ref_first occurs_at_def)
  from i(3) obtain r where r: "drop i s = d @ r" by (auto simp: prefix_def)
  then have "drop (i + length d) s = r" by (metis add.commute append_eq_conv_conj drop_drop)
  moreover have "drop pos s = take (i - pos) (drop pos s) @ drop i s"
    using i(1) by (metis append_take_drop_id drop_drop le_add_diff_inverse2)
  ultimately show ?thesis using r by (simp add: slice_ref_to)
qed

lemma split_from_join: "d \<noteq> [] \<Longrightarrow> join_pieces d (split_from s d pos) = drop pos s"
proof (induction s d pos rule: split_from.induct)
  case (1 s d pos)
  show ?case
  proof (cases "find_ref s d pos")
    case None
    then show ?thesis using 1(2) by (subst split_from.simps) (simp add: slice_ref_to)
  next
    case (Some i)
    then show ?thesis
      using 1 find_ref_split [OF Some] by (subst split_from.simps) (simp add: join_pieces_Cons)
  qed
qed

lemma occurs_in_slice:
  assumes "occurs_at (take k (drop pos s)) d j" "d \<noteq> []"
  shows "occurs_at s d (pos + j)" "j < k" "pos \<le> length s"
proof -
  have p: "prefix d (take (k - j) (drop (pos + j) s))"
    using assms(1) by (simp add: occurs_at_def drop_take add.commute)
  then have ne: "take (k - j) (drop (pos + j) s) \<noteq> []" using assms(2) by auto
  then show "j < k" "pos \<le> length s" by auto
  show "occurs_at s d (pos + j)"
    using ne prefix_order.trans [OF p take_is_prefix] by (auto simp: occurs_at_def)
qed

lemma piece_free:
  assumes "d \<noteq> []" "\<And>j. pos \<le> j \<Longrightarrow> j < pos + k \<Longrightarrow> \<not> occurs_at s d j"
  shows "\<not> contains_ref (take k (drop pos s)) d"
  using assms occurs_in_slice [of k pos s d] unfolding contains_ref_def find_ref_none [of _ d 0]
  by (metis le_add1 nat_add_left_cancel_less not_None_eq find_ref_none)

lemma split_from_free: "d \<noteq> [] \<Longrightarrow> p \<in> set (split_from s d pos) \<Longrightarrow> \<not> contains_ref p d"
proof (induction s d pos rule: split_from.induct)
  case (1 s d pos)
  show ?case
  proof (cases "find_ref s d pos")
    case None
    then have "p = take (length s) (drop pos s)"
      using 1(2,3) by (subst (asm) split_from.simps) (simp add: slice_ref_to)
    then show ?thesis using None 1(2) piece_free [of d pos "length s" s] by (simp only: find_ref_none) blast
  next
    case (Some i)
    then have "\<not> contains_ref (take (i - pos) (drop pos s)) d"
      using 1(2) by (intro piece_free) (auto simp: find_ref_first)
    then show ?thesis
      using 1 Some by (subst (asm) (2) split_from.simps) (auto simp: slice_ref_to)
  qed
qed

section \<open>Sizes\<close>

lemma appendAsStr_spec:
  assumes "length buf \<le> STR_MAX" "length v \<le> STR_MAX"
  shows "appendAsStr buf v =
    (if length buf + length v \<le> STR_MAX then Inr (buf @ v)
     else Inl (raiseOutOfRangeError ''reach String size limit''))"
proof -
  have "unat (of_nat STR_MAX - of_nat (length v) :: u64) = STR_MAX - length v"
    using assms(2) by (simp add: STR_MAX_def unat_sub word_le_nat_alt unsigned_of_nat take_bit_nat_eq_self)
  moreover have "unat (of_nat (length buf) :: u64) = length buf"
    using assms(1) by (simp add: STR_MAX_def unsigned_of_nat take_bit_nat_eq_self)
  ultimately show ?thesis
    using assms(2) by (auto simp: appendAsStr_def word_less_nat_alt)
qed

lemma replace_from_spec:
  assumes "d \<noteq> []" "length s \<le> STR_MAX" "length rep \<le> STR_MAX" "length buf \<le> STR_MAX"
  shows "replace_from s d rep buf pos =
    (let r = buf @ join_pieces rep (split_from s d pos) in
     if length r \<le> STR_MAX then Inr r else Inl (raiseOutOfRangeError ''reach String size limit''))"
  using assms(4)
proof (induction "Suc (length s) - pos" arbitrary: buf pos rule: less_induct)
  case less
  let ?p = "slice_ref s pos (find_ref s d pos)"
  have p: "length ?p \<le> STR_MAX"
    using assms(2) by (cases "find_ref s d pos") (auto simp: slice_ref_to min_def)
  show ?case
  proof (cases "find_ref s d pos")
    case None
    then show ?thesis
      using assms(1) p less.prems
      by (subst replace_from.simps, subst split_from.simps) (simp add: appendAsStr_spec Let_def)
  next
    case (Some i)
    let ?q = "i + length d"
    have split: "split_from s d pos = slice_ref s pos (Some i) # split_from s d ?q"
      using assms(1) Some by (subst split_from.simps) simp
    have join: "join_pieces rep (split_from s d pos)
      = slice_ref s pos (Some i) @ rep @ join_pieces rep (split_from s d ?q)"
      unfolding split by (rule join_pieces_Cons) simp
    have IH: "length b \<le> STR_MAX \<Longrightarrow> replace_from s d rep b ?q =
      (let r = b @ join_pieces rep (split_from s d ?q) in
       if length r \<le> STR_MAX then Inr r else Inl (raiseOutOfRangeError ''reach String size limit''))" for b
      by (rule less.hyps [OF find_ref_step [OF Some [symmetric] assms(1)]])
    show ?thesis
      using assms(1,3) p less.prems Some
      by (subst replace_from.simps) (auto simp: appendAsStr_spec Let_def join IH)
  qed
qed

section \<open>Last occurrence\<close>

lemma lastIndexOf_loop_spec:
  assumes "ref \<noteq> []" "pos < length s"
  shows "lastIndexOf_loop s ref ret pos =
    (if \<exists>i \<ge> pos. occurs_at s ref i then Some (GREATEST i. occurs_at s ref i) else ret)"
  using assms(2)
proof (induction "length s - pos" arbitrary: pos ret rule: less_induct)
  case less
  have bound: "occurs_at s ref i \<Longrightarrow> i < length s" for i
    using assms(1) by (cases "i = length s") (auto simp: occurs_at_def)
  show ?case
  proof (cases "find_ref s ref pos")
    case None
    have "\<forall>i \<ge> pos. \<not> occurs_at s ref i" using None by (simp add: find_ref_none)
    then show ?thesis by (subst lastIndexOf_loop.simps) (auto simp: None)
  next
    case (Some i)
    then have i: "pos \<le> i" "occurs_at s ref i" by (auto simp: find_ref_first)
    show ?thesis
    proof (cases "pos + 1 = length s")
      case True
      have "(GREATEST j. occurs_at s ref j) = i"
        using i bound True by (intro Greatest_equality) force+
      then show ?thesis
        using Some i True by (subst lastIndexOf_loop.simps) auto
    next
      case False
      have later: "(\<exists>j \<ge> pos + 1. occurs_at s ref j) \<or> (GREATEST j. occurs_at s ref j) = i"
      proof (cases "\<exists>j \<ge> pos + 1. occurs_at s ref j")
        case False
        then have "i = pos" using i by (metis Suc_eq_plus1 Suc_leI le_neq_implies_less)
        moreover have "j \<le> i" if "occurs_at s ref j" for j
          using that False \<open>i = pos\<close> by (metis Suc_eq_plus1 not_less_eq_eq)
        ultimately show ?thesis using i by (intro disjI2 Greatest_equality) auto
      qed simp
      have "lastIndexOf_loop s ref ret pos = lastIndexOf_loop s ref (Some i) (pos + 1)"
        using Some False by (subst lastIndexOf_loop.simps) simp
      also have "\<dots> = (if \<exists>j \<ge> pos + 1. occurs_at s ref j then Some (GREATEST j. occurs_at s ref j) else Some i)"
        using less.prems False by (intro less.hyps) auto
      finally show ?thesis using later i by auto
    qed
  qed
qed

section \<open>Properties\<close>

text \<open>
  The six relational operators on strings are those of the lexicographic order on the bytes,
  read as unsigned numbers, in which a proper prefix comes first.
\<close>

theorem string_order:
  "string_eq s t = (s = t) \<and> string_ne s t = (s \<noteq> t) \<and> string_lt s t = (s < t)
   \<and> string_gt s t = (t < s) \<and> string_le s t = (s \<le> t) \<and> string_ge s t = (t \<le> s)"
  by (simp add: string_eq_def string_ne_def string_lt_def string_gt_def string_le_def string_ge_def
      refs_lexicographic)

text \<open>
  On strings that an object can hold, \<open>indexOf\<close> gives the first and \<open>lastIndexOf\<close> the last
  position at which the other string occurs, both -1 when it does not occur; a non-empty needle
  is assumed, since the loop of \<open>lastIndexOf\<close> stops before the end.
\<close>

theorem string_index_first_last:
  assumes "length s \<le> STR_MAX" "t \<noteq> []"
  shows "(sint (string_indexOf s t) = -1 \<longleftrightarrow> \<not> contains_ref s t)
    \<and> (sint (string_lastIndexOf s t) = -1 \<longleftrightarrow> \<not> contains_ref s t)
    \<and> (contains_ref s t \<longrightarrow>
        sint (string_indexOf s t) = int (LEAST i. occurs_at s t i)
      \<and> sint (string_lastIndexOf s t) = int (GREATEST i. occurs_at s t i)
      \<and> occurs_at s t (nat (sint (string_indexOf s t)))
      \<and> occurs_at s t (nat (sint (string_lastIndexOf s t))))"
proof (cases "find_ref s t 0")
  case None
  then have no: "\<not> occurs_at s t i" for i by (simp add: find_ref_none)
  have "lastIndexOf s t = None"
  proof (cases "s = []")
    case True
    then show ?thesis using None by (subst lastIndexOf_def, subst lastIndexOf_loop.simps) simp
  next
    case False
    then show ?thesis using lastIndexOf_loop_spec [OF assms(2), of 0 s None] no by (simp add: lastIndexOf_def)
  qed
  then show ?thesis
    using None by (simp add: string_indexOf_def string_lastIndexOf_def indexOf_def to_int64_def contains_ref_def)
next
  case (Some i)
  then have i: "occurs_at s t i" "\<And>j. j < i \<Longrightarrow> \<not> occurs_at s t j" by (auto simp: find_ref_first)
  have bound: "occurs_at s t j \<Longrightarrow> j < length s" for j
    using assms(2) by (cases "j = length s") (auto simp: occurs_at_def)
  define m where "m = (GREATEST j. occurs_at s t j)"
  have m: "occurs_at s t m" unfolding m_def
    by (rule GreatestI_nat [where P = "occurs_at s t" and k = i and b = "length s"])
      (auto simp: i(1) bound less_imp_le)
  have least: "(LEAST j. occurs_at s t j) = i" using i by (intro Least_equality) (auto simp: not_less [symmetric])
  have last: "lastIndexOf s t = Some m"
  proof -
    have "0 < length s" "\<exists>j. occurs_at s t j" using bound [OF i(1)] i(1) by auto
    then show ?thesis
      using lastIndexOf_loop_spec [OF assms(2), of 0 s None] by (simp add: lastIndexOf_def m_def)
  qed
  have sint: "sint (of_nat j :: 64 word) = int j" if "j < length s" for j
    using that assms(1) sint_word_of_int_fits [of "int j"] by (simp add: STR_MAX_def fits_signed_def)
  show ?thesis
    using Some i(1) m least last bound [OF i(1)] bound [OF m] sint
    by (simp add: string_indexOf_def string_lastIndexOf_def indexOf_def to_int64_def contains_ref_def m_def [symmetric])
qed

theorem string_index_first_last_witness:
  "sint (string_indexOf [1, 2, 1, 2] [1, 2]) = int (LEAST i. occurs_at [1, 2, 1, 2] [1, 2] i)"
proof -
  have "contains_ref [1, 2, 1, 2] [1, 2]" by (simp add: contains_ref_def find_ref_def memmem.simps)
  then show ?thesis
    using string_index_first_last [of "[1, 2, 1, 2]" "[1, 2]"] by (simp add: STR_MAX_def)
qed

text \<open>
  [C22] Splitting a string at a non-empty delimiter loses nothing: the pieces with the delimiter
  between them are the string again, and no piece contains the delimiter.
\<close>

theorem split_join_roundtrip:
  assumes "d \<noteq> []"
  shows "join_pieces d (string_split s d) = s
    \<and> set (string_split s d) \<subseteq> {p. \<not> contains_ref p d}"
  using split_from_join [OF assms, of s 0] split_from_free [OF assms, of _ s 0]
  by (auto simp: string_split_def)

theorem split_join_roundtrip_witness: "join_pieces [44] (string_split [97, 44, 44, 98] [44]) = [97, 44, 44, 98]"
  using split_join_roundtrip [of "[44]" "[97, 44, 44, 98]"] by simp

text \<open>
  [C23] \<open>replace\<close> is splitting at the target and joining with the replacement, as long as the result
  is within the size limit of a string; otherwise it is the size limit error, whatever part of
  the result exceeded it. An empty target gives the string unchanged.
\<close>

theorem string_replace_spec:
  assumes "length s \<le> STR_MAX" "length rep \<le> STR_MAX"
  shows "string_replace s d rep =
    (if d = [] then Inr s
     else if length (join_pieces rep (string_split s d)) \<le> STR_MAX
     then Inr (join_pieces rep (string_split s d))
     else Inl (raiseOutOfRangeError ''reach String size limit''))"
proof (cases "d = []")
  case True
  then show ?thesis unfolding string_replace_def by (subst replace_from.simps) simp
next
  case False
  then show ?thesis
    using replace_from_spec [OF False assms, of "[]" 0]
    by (simp add: string_replace_def string_split_def Let_def)
qed

theorem string_replace_spec_witness: "\<exists>r. string_replace [97, 44, 98] [44] [45, 45] = Inr r"
  using string_replace_spec [of "[97, 44, 98]" "[45, 45]" "[44]"]
  by (simp add: STR_MAX_def string_split_def split_from.simps find_ref_def memmem.simps slice_ref_to)

text \<open>
  [C21] A slice of a string is the bytes from the first index up to the second, negative indexes
  counting from the end, when the range lies in the string; otherwise it is an
  \<open>OutOfRangeError\<close>. \<open>from\<close> and \<open>to\<close> are the slices up to the end and from the start, and the
  two together give the string back.
\<close>

theorem string_slices:
  assumes "length s \<le> STR_MAX"
  shows "string_slice s i j =
      (let b = resolved i (length s); e = resolved j (length s) in
       if 0 \<le> b \<and> b \<le> e \<and> e \<le> int (length s) then Inr (take (nat e - nat b) (drop (nat b) s))
       else Inl (raiseOutOfRangeError (''size is '' @ show_nat (length s) @ '', but range is [''
           @ show_int b @ '', '' @ show_int e @ '')'')))
    \<and> (0 \<le> resolved i (length s) \<and> resolved i (length s) \<le> int (length s) \<longrightarrow>
        string_sliceTo s i = Inr (take (nat (resolved i (length s))) s)
      \<and> string_sliceFrom s i = Inr (drop (nat (resolved i (length s))) s))"
proof -
  have "sint (of_nat (length s) :: 64 word) = int (length s)"
    using assms sint_word_of_int_fits [of "int (length s)"] by (simp add: STR_MAX_def fits_signed_def)
  then have r: "resolved (of_nat (length s)) (length s) = int (length s)" "resolved 0 (length s) = 0"
    by (simp_all add: resolved_def)
  have slice: "string_slice s i j =
      (let b = resolved i (length s); e = resolved j (length s) in
       if 0 \<le> b \<and> b \<le> e \<and> e \<le> int (length s) then Inr (take (nat e - nat b) (drop (nat b) s))
       else Inl (raiseOutOfRangeError (''size is '' @ show_nat (length s) @ '', but range is [''
           @ show_int b @ '', '' @ show_int e @ '')'')))" for i j
    using slice_range_spec [OF assms, of i j] by (simp add: string_slice_def Let_def slice_ref_to)
  show ?thesis
    using slice [of i j] slice [of 0 i] slice [of i "of_nat (length s)"]
    by (simp add: string_sliceFrom_def string_sliceTo_def r Let_def)
qed

theorem string_slices_witness: "string_slice [1, 2, 3] (- 2) 3 = Inr [2, 3]"
  using string_slices [of "[1, 2, 3]" "- 2" 3] by (simp add: STR_MAX_def resolved_def)

text \<open>
  \<open>charAt\<close> gives the grapheme cluster of \<open>chars\<close> at the position, and an \<open>OutOfRangeError\<close> that
  names the count of clusters when there is none; it runs within the fuel of \<open>chars\<close>.
\<close>

lemma charAt_loop_chars:
  "string_chars fuel sc res = Inr cs \<Longrightarrow>
   charAt_loop fuel sc res count pos =
     Inr (if int count \<le> sint pos \<and> sint pos < int (count + length cs)
          then Inr (cs ! nat (sint pos - int count))
          else Inl (raiseOutOfRangeError
            (''character count is '' @ show_nat (count + length cs)
              @ '', but character position is '' @ show_int (sint pos))))"
proof (induction fuel arbitrary: sc res count cs)
  case (Suc fuel)
  then obtain r sc' res' where next': "scan_next sc res = Some (r, sc', res')"
    by (auto split: option.splits)
  show ?case
  proof (cases r)
    case False
    then show ?thesis using Suc.prems next' by simp
  next
    case True
    then obtain cs' where cs': "string_chars fuel sc' res' = Inr cs'" "cs = res_ref res' # cs'"
      using Suc.prems next' by (auto split: sum.splits)
    have suc: "nat (1 + int count) = Suc count" by simp
    show ?thesis
      using True next' cs' Suc.IH [OF cs'(1), of "count + 1"]
      by (auto simp: nth_Cons' nat_diff_distrib' algebra_simps suc)
  qed
qed simp

end
