(* ===== verification/Builtin_Number.thy ===== *)
theory Builtin_Number
  imports Builtin_String "HOL-Library.Signed_Division"
begin

text \<open>
  The methods of \<open>Int\<close>, \<open>Float\<close> and \<open>Boolean\<close> (\<open>src/builtin.h\<close>). An \<open>int64_t\<close> is a 64-bit word
  read by \<open>sint\<close>. Where the C++ standard leaves a result undefined (a quotient or a conversion that
  does not fit) the method has no outcome, \<open>None\<close>.
\<close>

type_synonym int64 = "64 word"

definition arithmetic_error :: "string \<Rightarrow> thrown" where
  "arithmetic_error message = (T_ArithmeticError, ascii message)"

text \<open>The result of a signed operation that must fit its type.\<close>

definition defined_int :: "int \<Rightarrow> int64 option" where
  "defined_int k = (if fits_signed TYPE(64) k then Some (word_of_int k) else None)"

section \<open>Int\<close>

definition int_plus :: "int64 \<Rightarrow> int64" where "int_plus v = v"
definition int_minus :: "int64 \<Rightarrow> int64 option" where "int_minus v = defined_int (- sint v)"
definition int_not :: "int64 \<Rightarrow> int64" where "int_not v = NOT v"

definition int_2_int_add :: "int64 \<Rightarrow> int64 \<Rightarrow> thrown + int64" where
  "int_2_int_add left right =
     (let (overflow, ret) = sadd_overflow left right in
      if overflow then Inl (arithmetic_error ''integer overflow'') else Inr ret)"

definition int_2_int_sub :: "int64 \<Rightarrow> int64 \<Rightarrow> thrown + int64" where
  "int_2_int_sub left right =
     (let (overflow, ret) = ssub_overflow left right in
      if overflow then Inl (arithmetic_error ''integer overflow'') else Inr ret)"

definition int_2_int_mul :: "int64 \<Rightarrow> int64 \<Rightarrow> thrown + int64" where
  "int_2_int_mul left right =
     (let (overflow, ret) = smul_overflow left right in
      if overflow then Inl (arithmetic_error ''integer overflow'') else Inr ret)"

definition int_2_int_div :: "int64 \<Rightarrow> int64 \<Rightarrow> (thrown + int64) option" where
  "int_2_int_div left right =
     (if right = 0 then Some (Inl (arithmetic_error ''zero division''))
      else map_option Inr (defined_int (sint left sdiv sint right)))"

text \<open>The remainder is undefined when the quotient is.\<close>

definition int_2_int_mod :: "int64 \<Rightarrow> int64 \<Rightarrow> (thrown + int64) option" where
  "int_2_int_mod left right =
     (if right = 0 then Some (Inl (arithmetic_error ''zero modulo''))
      else map_option (\<lambda>_. Inr (word_of_int (sint left smod sint right)))
        (defined_int (sint left sdiv sint right)))"

definition int_2_int_eq :: "int64 \<Rightarrow> int64 \<Rightarrow> bool" where "int_2_int_eq left right \<longleftrightarrow> left = right"
definition int_2_int_ne :: "int64 \<Rightarrow> int64 \<Rightarrow> bool" where "int_2_int_ne left right \<longleftrightarrow> left \<noteq> right"
definition int_2_int_lt :: "int64 \<Rightarrow> int64 \<Rightarrow> bool" where "int_2_int_lt left right \<longleftrightarrow> sint left < sint right"
definition int_2_int_gt :: "int64 \<Rightarrow> int64 \<Rightarrow> bool" where "int_2_int_gt left right \<longleftrightarrow> sint left > sint right"
definition int_2_int_le :: "int64 \<Rightarrow> int64 \<Rightarrow> bool" where "int_2_int_le left right \<longleftrightarrow> sint left \<le> sint right"
definition int_2_int_ge :: "int64 \<Rightarrow> int64 \<Rightarrow> bool" where "int_2_int_ge left right \<longleftrightarrow> sint left \<ge> sint right"

definition int_2_int_and :: "int64 \<Rightarrow> int64 \<Rightarrow> int64" where "int_2_int_and left right = left AND right"
definition int_2_int_or :: "int64 \<Rightarrow> int64 \<Rightarrow> int64" where "int_2_int_or left right = left OR right"
definition int_2_int_xor :: "int64 \<Rightarrow> int64 \<Rightarrow> int64" where "int_2_int_xor left right = left XOR right"

definition int_abs :: "int64 \<Rightarrow> int64 option" where "int_abs v = defined_int \<bar>sint v\<bar>"

section \<open>Float\<close>

text \<open>
  A \<open>double\<close> is its 64 bits (IEEE 754 binary64): the sign, 11 bits of exponent and 52 of mantissa.
  Every finite value is a multiple of the smallest one, \<open>2^-1074\<close>; \<open>f_val\<close> is that multiple, and the
  same formula puts the infinities beyond all finite values.
\<close>

type_synonym double = u64

definition f_sign :: "double \<Rightarrow> bool" where "f_sign d = bit d 63"
definition f_exp :: "double \<Rightarrow> nat" where "f_exp d = unat (take_bit 11 (drop_bit 52 d))"
definition f_mant :: "double \<Rightarrow> nat" where "f_mant d = unat (take_bit 52 d)"

definition f_mag :: "double \<Rightarrow> nat" where
  "f_mag d = (if f_exp d = 0 then f_mant d else (2 ^ 52 + f_mant d) * 2 ^ (f_exp d - 1))"

definition f_val :: "double \<Rightarrow> int" where
  "f_val d = (if f_sign d then - int (f_mag d) else int (f_mag d))"

definition float_isNan :: "double \<Rightarrow> bool" where "float_isNan d \<longleftrightarrow> f_exp d = 2047 \<and> f_mant d \<noteq> 0"
definition float_isInf :: "double \<Rightarrow> bool" where "float_isInf d \<longleftrightarrow> f_exp d = 2047 \<and> f_mant d = 0"
definition float_isFinite :: "double \<Rightarrow> bool" where "float_isFinite d \<longleftrightarrow> f_exp d \<noteq> 2047"
definition float_isNormal :: "double \<Rightarrow> bool" where "float_isNormal d \<longleftrightarrow> f_exp d \<noteq> 2047 \<and> f_exp d \<noteq> 0"

definition ordered :: "double \<Rightarrow> double \<Rightarrow> bool" where
  "ordered left right \<longleftrightarrow> \<not> float_isNan left \<and> \<not> float_isNan right"

definition float_2_float_eq :: "double \<Rightarrow> double \<Rightarrow> bool" where
  "float_2_float_eq left right \<longleftrightarrow> ordered left right \<and> f_val left = f_val right"
definition float_2_float_ne :: "double \<Rightarrow> double \<Rightarrow> bool" where
  "float_2_float_ne left right \<longleftrightarrow> \<not> float_2_float_eq left right"
definition float_2_float_lt :: "double \<Rightarrow> double \<Rightarrow> bool" where
  "float_2_float_lt left right \<longleftrightarrow> ordered left right \<and> f_val left < f_val right"
definition float_2_float_gt :: "double \<Rightarrow> double \<Rightarrow> bool" where
  "float_2_float_gt left right \<longleftrightarrow> ordered left right \<and> f_val left > f_val right"
definition float_2_float_le :: "double \<Rightarrow> double \<Rightarrow> bool" where
  "float_2_float_le left right \<longleftrightarrow> ordered left right \<and> f_val left \<le> f_val right"
definition float_2_float_ge :: "double \<Rightarrow> double \<Rightarrow> bool" where
  "float_2_float_ge left right \<longleftrightarrow> ordered left right \<and> f_val left \<ge> f_val right"

definition float_plus :: "double \<Rightarrow> double" where "float_plus d = d"
definition float_minus :: "double \<Rightarrow> double" where "float_minus d = flip_bit 63 d"
definition float_abs :: "double \<Rightarrow> double" where "float_abs d = unset_bit 63 d"

text \<open>\<open>static_cast<double>\<close> of the two limits: the upper one is rounded to \<open>2^63\<close>.\<close>

definition INT64_MAX_double :: double where "INT64_MAX_double = 0x43E0000000000000"
definition INT64_MIN_double :: double where "INT64_MIN_double = 0xC3E0000000000000"

definition cast_int64 :: "double \<Rightarrow> int64 option" where
  "cast_int64 d = defined_int (f_val d sdiv 2 ^ 1074)"

definition float_toInt :: "double \<Rightarrow> int64 option" where
  "float_toInt d =
     (if float_isNan d then Some 0
      else if \<not> float_isInf d \<and> float_2_float_le d INT64_MAX_double \<and> float_2_float_ge d INT64_MIN_double
      then cast_int64 d
      else if float_2_float_lt d INT64_MIN_double then Some signed_min
      else if float_2_float_gt d INT64_MAX_double then Some signed_max
      else None)"

section \<open>Boolean\<close>

definition boolean_not :: "bool \<Rightarrow> bool" where "boolean_not b \<longleftrightarrow> \<not> b"
definition boolean_eq :: "bool \<Rightarrow> bool \<Rightarrow> bool" where "boolean_eq a b \<longleftrightarrow> a = b"
definition boolean_ne :: "bool \<Rightarrow> bool \<Rightarrow> bool" where "boolean_ne a b \<longleftrightarrow> a \<noteq> b"

section \<open>Properties of Int\<close>

lemma defined_int_iff: "defined_int k = Some w \<longleftrightarrow> fits_signed TYPE(64) k \<and> sint w = k"
  by (auto simp: defined_int_def sint_word_of_int_fits intro: sint_eqI)

lemma defined_int_none: "defined_int k = None \<longleftrightarrow> \<not> fits_signed TYPE(64) k"
  by (simp add: defined_int_def)

lemma sint_eq_0 [simp]: "sint (w :: int64) = 0 \<longleftrightarrow> w = 0"
  by (metis sint_0 sint_eqI)

lemma quotient_fits:
  "right \<noteq> 0 \<Longrightarrow> fits_signed TYPE(64) (sint left sdiv sint right)
    \<longleftrightarrow> \<not> (sint left = - (2 ^ 63) \<and> sint (right :: int64) = -1)"
  for left :: int64
proof -
  assume r0: "right \<noteq> 0"
  define l r where "l = sint left" and "r = sint right"
  have b: "- (2 ^ 63) \<le> l" "l < 2 ^ 63" "r \<noteq> 0"
    using sint_64 [of left] r0 by (simp_all add: l_def r_def)
  have abs_q: "\<bar>l sdiv r\<bar> = \<bar>l\<bar> div \<bar>r\<bar>"
    by (cases "l = 0") (simp_all add: signed_divide_int_def abs_mult abs_sgn_eq pos_imp_zdiv_nonneg_iff b)
  show ?thesis
    unfolding l_def [symmetric] r_def [symmetric]
  proof (cases "r = -1")
    case True
    then have "l sdiv r = - l" by (simp add: signed_divide_int_def abs_sgn)
    then show "fits_signed TYPE(64) (l sdiv r) \<longleftrightarrow> \<not> (l = - (2 ^ 63) \<and> r = -1)"
      using b True by (auto simp: fits_signed_def)
  next
    case False
    have "fits_signed TYPE(64) (l sdiv r)"
    proof (cases "r = 1")
      case True
      then have "l sdiv r = l" by (simp add: signed_divide_int_def abs_sgn)
      then show ?thesis using b by (simp add: fits_signed_def)
    next
      case one: False
      then have "2 \<le> \<bar>r\<bar>" using False b by linarith
      then have "\<bar>l\<bar> div \<bar>r\<bar> \<le> \<bar>l\<bar> div 2" by (intro zdiv_mono2) auto
      also have "\<bar>l\<bar> div 2 \<le> 2 ^ 62"
      proof -
        have "\<bar>l\<bar> \<le> 2 * 2 ^ 62" using b by (simp add: abs_le_iff)
        then show ?thesis by linarith
      qed
      finally show ?thesis using abs_q by (auto simp: fits_signed_def)
    qed
    then show "fits_signed TYPE(64) (l sdiv r) \<longleftrightarrow> \<not> (l = - (2 ^ 63) \<and> r = -1)" using False by simp
  qed
qed

lemma exact_results:
  "int_2_int_add l r = Inr w \<longleftrightarrow> sint w = sint l + sint r"
  "int_2_int_sub l r = Inr w \<longleftrightarrow> sint w = sint l - sint r"
  "int_2_int_mul l r = Inr w \<longleftrightarrow> sint w = sint l * sint r"
proof -
  have fits: "fits_signed TYPE(64) (sint w)" for w :: int64
    using sint_64 [of w] by (simp add: fits_signed_def)
  have iff: "(if \<not> fits_signed TYPE(64) k then Inl e else Inr (word_of_int k)) = Inr w \<longleftrightarrow> sint w = k"
    for k e and w :: int64
    using fits [of w] by (auto simp: sint_word_of_int_fits)
  have word: "l + r = word_of_int (sint l + sint r)" "l - r = word_of_int (sint l - sint r)"
    "l * r = word_of_int (sint l * sint r)"
    by simp_all
  show "int_2_int_add l r = Inr w \<longleftrightarrow> sint w = sint l + sint r"
    "int_2_int_sub l r = Inr w \<longleftrightarrow> sint w = sint l - sint r"
    "int_2_int_mul l r = Inr w \<longleftrightarrow> sint w = sint l * sint r"
    unfolding int_2_int_add_def int_2_int_sub_def int_2_int_mul_def sadd_overflow_def ssub_overflow_def
      smul_overflow_def Let_def prod.case word by (rule iff)+
qed

lemma smod_bounds:
  fixes l r :: int
  assumes "r \<noteq> 0"
  shows "\<bar>l smod r\<bar> < \<bar>r\<bar>" "l smod r \<noteq> 0 \<Longrightarrow> sgn (l smod r) = sgn l"
proof -
  have m: "l smod r = sgn l * (\<bar>l\<bar> mod \<bar>r\<bar>)" by (simp add: signed_modulo_int_def)
  show "\<bar>l smod r\<bar> < \<bar>r\<bar>"
    using assms by (cases "l = 0") (simp_all add: m abs_mult abs_sgn_eq)
  show "l smod r \<noteq> 0 \<Longrightarrow> sgn (l smod r) = sgn l"
  proof -
    assume "l smod r \<noteq> 0"
    then have "\<bar>l\<bar> mod \<bar>r\<bar> \<noteq> 0" by (auto simp: m)
    moreover have "0 \<le> \<bar>l\<bar> mod \<bar>r\<bar>" using assms by simp
    ultimately have "sgn (\<bar>l\<bar> mod \<bar>r\<bar>) = 1" by (simp add: sgn_1_pos)
    then show ?thesis by (simp add: m sgn_mult)
  qed
qed

text \<open>
  [C24] Sums, differences and products of integers are exact: the value given is the integer that has
  the exact result, and none is given when no 64-bit integer has it. A division by zero is an
  \<open>ArithmeticError\<close>; otherwise quotient and remainder are those of division truncated
  towards zero, and exactly the least integer divided by -1 leaves both undefined.
\<close>

theorem int_arithmetic:
  "{w. int_2_int_add l r = Inr w} = {w. sint w = sint l + sint r}
   \<and> {w. int_2_int_sub l r = Inr w} = {w. sint w = sint l - sint r}
   \<and> {w. int_2_int_mul l r = Inr w} = {w. sint w = sint l * sint r}
   \<and> (if r = 0 then int_2_int_div l r = Some (Inl (arithmetic_error ''zero division''))
        \<and> int_2_int_mod l r = Some (Inl (arithmetic_error ''zero modulo''))
      else if sint l = - (2 ^ 63) \<and> sint r = -1 then int_2_int_div l r = None \<and> int_2_int_mod l r = None
      else \<exists>q m. int_2_int_div l r = Some (Inr q) \<and> int_2_int_mod l r = Some (Inr m)
        \<and> sint l = sint q * sint r + sint m \<and> \<bar>sint m\<bar> < \<bar>sint r\<bar>
        \<and> (sint m = 0 \<or> sgn (sint m) = sgn (sint l)))"
proof -
  have div: "\<exists>q m. int_2_int_div l r = Some (Inr q) \<and> int_2_int_mod l r = Some (Inr m)
        \<and> sint l = sint q * sint r + sint m \<and> \<bar>sint m\<bar> < \<bar>sint r\<bar>
        \<and> (sint m = 0 \<or> sgn (sint m) = sgn (sint l))"
    if r: "r \<noteq> 0" and ok: "\<not> (sint l = - (2 ^ 63) \<and> sint r = -1)"
  proof -
    let ?q = "sint l sdiv sint r" and ?m = "sint l smod sint r"
    have r': "sint r \<noteq> 0" using r by simp
    have q: "fits_signed TYPE(64) ?q" using quotient_fits [OF r] ok by blast
    have b: "\<bar>?m\<bar> < \<bar>sint r\<bar>" "?m \<noteq> 0 \<Longrightarrow> sgn ?m = sgn (sint l)" by (rule smod_bounds [OF r'])+
    then have m: "fits_signed TYPE(64) ?m" using sint_64 [of r] by (auto simp: fits_signed_def)
    have "sint l = ?q * sint r + ?m" by (simp add: sdiv_mult_smod_eq)
    then show ?thesis
      using r q m b
      by (intro exI [of _ "word_of_int ?q"] exI [of _ "word_of_int ?m"])
        (auto simp: int_2_int_div_def int_2_int_mod_def defined_int_def sint_word_of_int_fits)
  qed
  have undef: "int_2_int_div l r = None \<and> int_2_int_mod l r = None"
    if "r \<noteq> 0" "sint l = - (2 ^ 63) \<and> sint r = -1"
    using quotient_fits [OF that(1), of l] that
    by (simp add: int_2_int_div_def int_2_int_mod_def defined_int_none del: fits_signed_def)
  show ?thesis
    using div undef exact_results by (auto simp: int_2_int_div_def int_2_int_mod_def)
qed

text \<open>The two unary methods that are not defined on the least integer.\<close>

lemma unary_undefined:
  "int_minus v = None \<longleftrightarrow> sint v = - (2 ^ 63)" "int_abs v = None \<longleftrightarrow> sint v = - (2 ^ 63)"
  using sint_64 [of v] by (auto simp: int_minus_def int_abs_def defined_int_none fits_signed_def)

section \<open>Printing and reading\<close>

lemma chars_of_ascii [simp]: "chars_of (ascii s) = s"
proof -
  have "(char_of (unat (of_nat (of_char c) :: byte)) :: char) = c" for c :: char
    by (simp add: unsigned_of_nat take_bit_nat_eq_self)
  then show ?thesis by (simp add: chars_of_def ascii_def comp_def)
qed

lemma decimal_digit_show: "n < 10 \<Longrightarrow> decimal_digit (char_of (48 + n :: nat)) = Some n"
  by (simp add: decimal_digit_def Let_def)

lemma digits_value_snoc:
  "digits_value digit base acc (s @ [c]) =
    (case digits_value digit base acc s of None \<Rightarrow> None
     | Some m \<Rightarrow> (case digit c of None \<Rightarrow> None | Some v \<Rightarrow> Some (m * base + v)))"
  by (induction s arbitrary: acc) (auto split: option.splits)

lemma digits_value_show: "digits_value decimal_digit 10 0 (show_nat n) = Some n"
proof (induction n rule: less_induct)
  case (less n)
  then show ?case
    by (subst show_nat.simps) (simp add: digits_value_snoc decimal_digit_show del: of_nat_add)
qed

lemma hd_show_nat: "n \<noteq> 0 \<Longrightarrow> hd (show_nat n) \<noteq> CHR ''0''"
proof (induction n rule: less_induct)
  case (less n)
  have zero: "decimal_digit CHR ''0'' = Some 0" by (simp add: decimal_digit_def)
  have "(char_of (48 + n :: nat) :: char) \<noteq> CHR ''0''" if "n < 10"
    using decimal_digit_show [OF that] less.prems zero by auto
  then show ?case using less by (subst show_nat.simps) (auto simp: hd_append)
qed

lemma hd_show_nat_sign: "hd (show_nat n) \<noteq> CHR ''-''"
proof (induction n rule: less_induct)
  case (less n)
  have minus: "decimal_digit CHR ''-'' = None" by (simp add: decimal_digit_def)
  have "(char_of (48 + n :: nat) :: char) \<noteq> CHR ''-''" if "n < 10"
    using decimal_digit_show [OF that] minus by auto
  then show ?case using less by (subst show_nat.simps) (auto simp: hd_append)
qed

lemma numeral_value_show: "numeral_value 0 (show_nat n) = Some n"
proof (cases "n = 0")
  case True
  have "show_nat 0 = ''0''" by code_simp
  then show ?thesis
    using True by (simp add: numeral_value_def decimal_value_def numeral_of_def decimal_digit_def)
next
  case False
  then have "hd (show_nat n) \<noteq> CHR ''0''" by (rule hd_show_nat)
  then have "take 2 (show_nat n) \<noteq> CHR ''0'' # x" for x by (cases "show_nat n") auto
  then show ?thesis
    using hd_show_nat [OF False]
    by (simp add: numeral_value_def decimal_value_def numeral_of_def digits_value_show)
qed

lemma show_int_parts:
  "negative (show_int k) \<longleftrightarrow> k < 0" "unsigned_part (show_int k) = show_nat (nat \<bar>k\<bar>)"
  using hd_show_nat_sign [of "nat k"] by (auto simp: show_int_def negative_def unsigned_part_def)

text \<open>
  The decimal text of an integer, as \<open>std::to_string\<close> gives it, is read back by \<open>toInt\<close> as the
  same integer.
\<close>

theorem toInt_show: "string_toInt (ascii (show_int (sint i))) = Some i"
proof -
  have fits: "fits_signed TYPE(64) (sint i)" using sint_64 [of i] by (simp add: fits_signed_def)
  have signed: "with_sign (show_int (sint i)) (nat \<bar>sint i\<bar>) = sint i"
    by (simp add: with_sign_def show_int_parts)
  have zero: "sint i = 0" if "hd (show_nat (nat \<bar>sint i\<bar>)) = CHR ''0''"
    using that hd_show_nat [of "nat \<bar>sint i\<bar>"] by auto
  have "fromIntLiteral (show_int (sint i)) = (i, True)"
    using fits signed zero
    by (subst fromIntLiteral_iff) (auto simp: show_int_parts numeral_value_show)
  then show ?thesis by (simp add: string_toInt_def)
qed

section \<open>Float to Int\<close>

lemma limit_doubles:
  "f_val INT64_MAX_double = 2 ^ 63 * 2 ^ 1074" "f_val INT64_MIN_double = - (2 ^ 63 * 2 ^ 1074)"
  "\<not> float_isNan INT64_MAX_double" "\<not> float_isNan INT64_MIN_double"
proof -
  have parts: "f_exp INT64_MAX_double = 1086" "f_mant INT64_MAX_double = 0" "\<not> f_sign INT64_MAX_double"
    "f_exp INT64_MIN_double = 1086" "f_mant INT64_MIN_double = 0" "f_sign INT64_MIN_double"
    by code_simp+
  have pow: "(2::int) ^ 52 * 2 ^ 1085 = 2 ^ 63 * 2 ^ 1074" by (simp only: power_add [symmetric]) simp
  show "f_val INT64_MAX_double = 2 ^ 63 * 2 ^ 1074" "f_val INT64_MIN_double = - (2 ^ 63 * 2 ^ 1074)"
    using pow by (simp_all only: f_val_def f_mag_def parts) simp_all
  show "\<not> float_isNan INT64_MAX_double" "\<not> float_isNan INT64_MIN_double"
    by (simp_all add: float_isNan_def parts)
qed

lemma f_mag_inf: "float_isInf d \<Longrightarrow> f_mag d = 2 ^ 52 * 2 ^ 2046"
  by (simp only: float_isInf_def f_mag_def) simp

lemma trunc_bounds:
  fixes v u :: int
  assumes "0 < u"
  shows "v sdiv u = (if 0 \<le> v then v div u else - ((- v) div u))"
  using assms by (auto simp: signed_divide_int_def sgn_if)

text \<open>
  [C25] \<open>$OP_TO_INT\<close> of \<open>Float\<close> converts as Java does, NaN to 0 and any other value truncated towards
  zero and brought into the range of the integers, with one exception: the value \<open>2^63\<close> passes the
  range test, because \<open>INT64_MAX\<close> is rounded up when it is converted to \<open>double\<close>, and its
  conversion to \<open>int64_t\<close> is undefined.
\<close>

theorem float_toInt_saturates:
  "float_toInt d =
    (if float_isNan d then Some 0
     else if f_val d = 2 ^ 63 * 2 ^ 1074 then None
     else Some (word_of_int (max (- (2 ^ 63)) (min (2 ^ 63 - 1) (f_val d sdiv 2 ^ 1074)))))"
proof -
  define u P :: int where "u = 2 ^ 1074" and "P = 2 ^ 63"
  define v where "v = f_val d"
  have u: "0 < u" and P: "0 < P" by (simp_all add: u_def P_def)
  have fits: "fits_signed TYPE(64) k \<longleftrightarrow> - P \<le> k \<and> k < P" for k by (simp add: fits_signed_def P_def)
  have limits: "signed_min = (word_of_int (- P) :: int64)" "signed_max = (word_of_int (P - 1) :: int64)"
    by (simp_all add: signed_min_def signed_max_def P_def)
  have inf: "P * u < \<bar>v\<bar>" if "float_isInf d"
  proof -
    have "\<bar>v\<bar> = int (f_mag d)" by (simp add: v_def f_val_def)
    also have "\<dots> = 2 ^ 2098" using f_mag_inf [OF that] by (simp flip: power_add)
    finally have "\<bar>v\<bar> = 2 ^ 2098" .
    moreover have "P * u = 2 ^ 1137" by (simp add: P_def u_def flip: power_add)
    moreover have "(2::int) ^ 1137 < 2 ^ 2098" by (intro power_strict_increasing) auto
    ultimately show ?thesis by linarith
  qed
  have t: "v sdiv u = (if 0 \<le> v then v div u else - ((- v) div u))" by (rule trunc_bounds [OF u])
  have upto: "v div u < P" if "v < P * u" "0 \<le> v"
  proof (rule ccontr)
    assume "\<not> v div u < P"
    then have "P * u \<le> (v div u) * u" using u by simp
    also have "\<dots> \<le> v" using u by (simp flip: minus_mod_eq_div_mult)
    finally show False using that by simp
  qed
  have upto': "(- v) div u \<le> P" if "- v \<le> P * u"
    using that u zdiv_mono1 [OF that u] by simp
  have above: "P \<le> v div u" if "P * u \<le> v"
    using u zdiv_mono1 [OF that u] by simp
  have above': "P \<le> (- v) div u" if "P * u \<le> - v"
    using u zdiv_mono1 [OF that u] by simp
  have sign: "0 \<le> v \<Longrightarrow> 0 \<le> v div u" "v < 0 \<Longrightarrow> 0 \<le> (- v) div u"
    using u by (simp_all add: pos_imp_zdiv_nonneg_iff)
  have Pu: "0 < P * u" using u P by simp
  consider "v = P * u" | "- (P * u) \<le> v" "v < P * u" | "v < - (P * u)" | "P * u < v" by linarith
  then have main: "(if \<not> float_isInf d \<and> v \<le> P * u \<and> - (P * u) \<le> v then defined_int (v sdiv u)
      else if v < - (P * u) then Some signed_min
      else if P * u < v then Some signed_max else None)
    = (if v = P * u then None else Some (word_of_int (max (- P) (min (P - 1) (v sdiv u)))))"
  proof cases
    case 1
    then have "v sdiv u = P" unfolding t using u Pu by simp
    then show ?thesis using 1 inf Pu by (auto simp: defined_int_def fits)
  next
    case 2
    then have "- P \<le> v sdiv u" "v sdiv u < P"
      using upto upto' sign P by (auto simp: t)
    moreover from this have "max (- P) (min (P - 1) (v sdiv u)) = v sdiv u" by simp
    ultimately show ?thesis using 2 inf by (auto simp: defined_int_def fits)
  next
    case 3
    then have "v sdiv u \<le> - P" using above' Pu by (auto simp: t)
    then show ?thesis using 3 P Pu by (auto simp: limits max_def min_def)
  next
    case 4
    then have "P \<le> v sdiv u" using above Pu by (auto simp: t)
    then show ?thesis using 4 P Pu by (auto simp: limits max_def min_def)
  qed
  show ?thesis
    unfolding float_toInt_def cast_int64_def float_2_float_le_def float_2_float_ge_def
      float_2_float_lt_def float_2_float_gt_def ordered_def limit_doubles(1,2) u_def [symmetric]
      P_def [symmetric] v_def [symmetric]
  proof (cases "float_isNan d")
    case False
    then show "(if float_isNan d then Some 0
      else if \<not> float_isInf d
              \<and> ((\<not> float_isNan d \<and> \<not> float_isNan INT64_MAX_double) \<and> v \<le> P * u)
              \<and> (\<not> float_isNan d \<and> \<not> float_isNan INT64_MIN_double) \<and> - (P * u) \<le> v
        then defined_int (v sdiv u)
      else if (\<not> float_isNan d \<and> \<not> float_isNan INT64_MIN_double) \<and> v < - (P * u) then Some signed_min
      else if (\<not> float_isNan d \<and> \<not> float_isNan INT64_MAX_double) \<and> P * u < v then Some signed_max
      else None) = (if float_isNan d then Some 0 else if v = P * u then None
        else Some (word_of_int (max (- P) (min (P - 1) (v sdiv u)))))"
      using main by (simp only: limit_doubles(3,4) if_False simp_thms)
  qed simp
qed

end
