(* ===== verification/Values.thy ===== *)
theory Values
  imports Builtin_Number
begin

text \<open>
  Values and objects (\<open>src/object.h\<close>, \<open>src/object.cpp\<close>). The heap is a list indexed by
  address, in which a destroyed object is \<open>None\<close>, so that arrays and maps are shared and mutated
  through it. A string of up to 14 bytes
  is kept in the value itself, a longer one in an object. The class of an object is its
  constructor; what only identifies an object (a job, a pipeline) is left out of it.
\<close>

type_synonym addr = nat

datatype DSValue =
  V_EMPTY | V_OBJECT addr | V_NUMBER u32 | V_NUM_LIST u32 u32 u32 | V_DUMMY nat | V_GLOB_META u64 | V_INVALID
| V_BOOL bool | V_SIG int | V_INT int64 | V_FLOAT double | V_TYPE nat | V_SSTR bytes

datatype CodeKind = TOPLEVEL | FUNCTION | USER_DEFINED_CMD | NATIVE

datatype DSObject =
  StringObject bytes
| UnixFdObject int
| RegexObject bytes
| ArrayObject nat "DSValue list"
| MapObject nat "(DSValue \<times> DSValue) list" int
| MapIterObject nat addr nat
| BaseObject nat "DSValue list"
| ErrorObject nat DSValue DSValue
| FuncObject nat CodeKind bytes
| EnvCtxObject
| JobObject nat
| PipelineObject
| RedirObject

type_synonym heap = "DSObject option list"

text \<open>The class of an object.\<close>

datatype ObjectKind =
  K_String | K_UnixFd | K_Regex | K_Array | K_Map | K_MapIter | K_Base | K_Error | K_Func | K_EnvCtx
| K_Job | K_Pipeline | K_Redir

fun getKind :: "DSObject \<Rightarrow> ObjectKind" where
  "getKind (StringObject _) = K_String"
| "getKind (UnixFdObject _) = K_UnixFd"
| "getKind (RegexObject _) = K_Regex"
| "getKind (ArrayObject _ _) = K_Array"
| "getKind (MapObject _ _ _) = K_Map"
| "getKind (MapIterObject _ _ _) = K_MapIter"
| "getKind (BaseObject _ _) = K_Base"
| "getKind (ErrorObject _ _ _) = K_Error"
| "getKind (FuncObject _ _ _) = K_Func"
| "getKind EnvCtxObject = K_EnvCtx"
| "getKind (JobObject _) = K_Job"
| "getKind PipelineObject = K_Pipeline"
| "getKind RedirObject = K_Redir"

definition get_object :: "heap \<Rightarrow> DSValue \<Rightarrow> DSObject option" where
  "get_object h v = (case v of V_OBJECT a \<Rightarrow> if a < length h then h ! a else None | _ \<Rightarrow> None)"

section \<open>Strings\<close>

definition SSTR14 :: nat where "SSTR14 = 14"

definition asStrRef_opt :: "heap \<Rightarrow> DSValue \<Rightarrow> bytes option" where
  "asStrRef_opt h v =
     (case v of
        V_SSTR s \<Rightarrow> Some s
      | _ \<Rightarrow> (case get_object h v of Some (StringObject s) \<Rightarrow> Some s | _ \<Rightarrow> None))"

definition hasStrRef :: "heap \<Rightarrow> DSValue \<Rightarrow> bool" where
  "hasStrRef h v \<longleftrightarrow> asStrRef_opt h v \<noteq> None"

definition asStrRef :: "heap \<Rightarrow> DSValue \<Rightarrow> bytes" where
  "asStrRef h v = the (asStrRef_opt h v)"

definition createStr :: "heap \<Rightarrow> bytes \<Rightarrow> DSValue \<times> heap" where
  "createStr h ref =
     (if length ref \<le> SSTR14 then (V_SSTR ref, h) else (V_OBJECT (length h), h @ [Some (StringObject ref)]))"

text \<open>
  \<open>appendAsStr\<close> on a value: a small string grows in place or becomes an object, an object is
  mutated. All values that hold the object see the change.
\<close>

definition value_appendAsStr :: "heap \<Rightarrow> DSValue \<Rightarrow> bytes \<Rightarrow> thrown + DSValue \<times> heap" where
  "value_appendAsStr h this value =
     (let size' = length (asStrRef h this) in
      if (of_nat size' :: u64) > of_nat STR_MAX - of_nat (length value)
      then Inl (raiseOutOfRangeError ''reach String size limit'')
      else case this of
        V_SSTR s \<Rightarrow>
          let newSize = size' + length value in
          if newSize \<le> SSTR14 then Inr (V_SSTR (s @ value), h)
          else Inr (V_OBJECT (length h), h @ [Some (StringObject (s @ value))])
      | V_OBJECT a \<Rightarrow> Inr (this, h[a := Some (StringObject (asStrRef h this @ value))])
      | _ \<Rightarrow> Inr (this, h))"

text \<open>\<open>refcount\<close> gives the \<open>refCount\<close> field of an object.\<close>

definition concatAsStr ::
  "heap \<Rightarrow> (addr \<Rightarrow> nat) \<Rightarrow> DSValue \<Rightarrow> DSValue \<Rightarrow> bool \<Rightarrow> thrown + DSValue \<times> heap"
where
  "concatAsStr h refcount left right selfConcat =
     (if right = V_SSTR [] then Inr (left, h)
      else if left = V_SSTR [] then Inr (right, h)
      else let copyCount = (if selfConcat then 2 else 1);
               (left, h) =
                 (case left of
                    V_OBJECT a \<Rightarrow> if refcount a > copyCount then createStr h (asStrRef h left) else (left, h)
                  | _ \<Rightarrow> (left, h))
           in value_appendAsStr h left (asStrRef h right))"

section \<open>Equality and order\<close>

text \<open>
  The cases that the \<open>default\<close> branches exclude by an assertion are \<open>False\<close>.
\<close>

definition equals :: "heap \<Rightarrow> DSValue \<Rightarrow> DSValue \<Rightarrow> bool" where
  "equals h this o' =
     (if hasStrRef h this \<and> hasStrRef h o' then eq_ref (asStrRef h this) (asStrRef h o')
      else case this of
        V_EMPTY \<Rightarrow> o' = V_EMPTY
      | V_BOOL a \<Rightarrow> (case o' of V_BOOL b \<Rightarrow> a = b | _ \<Rightarrow> False)
      | V_SIG a \<Rightarrow> (case o' of V_SIG b \<Rightarrow> a = b | _ \<Rightarrow> False)
      | V_INT a \<Rightarrow> (case o' of V_INT b \<Rightarrow> a = b | _ \<Rightarrow> False)
      | V_FLOAT a \<Rightarrow> (case o' of V_FLOAT b \<Rightarrow> float_2_float_eq a b | _ \<Rightarrow> False)
      | V_OBJECT a \<Rightarrow>
          (case o' of
             V_OBJECT b \<Rightarrow>
               if map_option getKind (get_object h this) \<noteq> map_option getKind (get_object h o') then False
               else a = b
           | _ \<Rightarrow> False)
      | _ \<Rightarrow> False)"

definition compare_value :: "heap \<Rightarrow> DSValue \<Rightarrow> DSValue \<Rightarrow> bool" where
  "compare_value h this o' =
     (if hasStrRef h this \<and> hasStrRef h o' then less_ref (asStrRef h this) (asStrRef h o')
      else case this of
        V_BOOL a \<Rightarrow>
          (case o' of
             V_BOOL b \<Rightarrow>
               (let left = (if a then 1 else 0 :: int); right = (if b then 1 else 0) in left < right)
           | _ \<Rightarrow> False)
      | V_SIG a \<Rightarrow> (case o' of V_SIG b \<Rightarrow> a < b | _ \<Rightarrow> False)
      | V_INT a \<Rightarrow> (case o' of V_INT b \<Rightarrow> sint a < sint b | _ \<Rightarrow> False)
      | V_FLOAT a \<Rightarrow> (case o' of V_FLOAT b \<Rightarrow> float_2_float_lt a b | _ \<Rightarrow> False)
      | _ \<Rightarrow> False)"

text \<open>The text of a value that is not an array or a map; the text of a \<open>double\<close> and the address of an
  object, which are not defined by the source, are arguments.\<close>

record text_env =
  show_double :: "double \<Rightarrow> bytes"
  show_address :: "addr \<Rightarrow> bytes"
  type_name :: "nat \<Rightarrow> bytes"
  is_tuple :: "nat \<Rightarrow> bool"

definition glob_meta_text :: "u64 \<Rightarrow> bytes" where
  "glob_meta_text m = (if m = 0 then ascii ''?'' else if m = 1 then ascii ''*'' else [])"

definition func_text :: "CodeKind \<Rightarrow> bytes \<Rightarrow> bytes" where
  "func_text kind name =
     (case kind of TOPLEVEL \<Rightarrow> ascii ''module('' | FUNCTION \<Rightarrow> ascii ''function(''
      | USER_DEFINED_CMD \<Rightarrow> ascii ''command('' | NATIVE \<Rightarrow> []) @ name @ ascii '')''"

definition toString_flat :: "text_env \<Rightarrow> heap \<Rightarrow> DSValue \<Rightarrow> bytes" where
  "toString_flat env h v =
     (case v of
        V_NUMBER n \<Rightarrow> ascii (show_nat (unat n))
      | V_DUMMY t \<Rightarrow> ascii ''DSObject('' @ ascii (show_nat t) @ ascii '')''
      | V_GLOB_META m \<Rightarrow> glob_meta_text m
      | V_BOOL b \<Rightarrow> ascii (if b then ''true'' else ''false'')
      | V_SIG s \<Rightarrow> ascii (show_int s)
      | V_INT i \<Rightarrow> ascii (show_int (sint i))
      | V_FLOAT d \<Rightarrow> show_double env d
      | V_SSTR s \<Rightarrow> s
      | _ \<Rightarrow>
          (case get_object h v of
             Some (StringObject s) \<Rightarrow> s
           | Some (UnixFdObject fd) \<Rightarrow> ascii ''/dev/fd/'' @ ascii (show_int fd)
           | Some (RegexObject s) \<Rightarrow> s
           | Some (FuncObject t kind name) \<Rightarrow> func_text kind name
           | Some (JobObject n) \<Rightarrow> ascii ''%'' @ ascii (show_nat n)
           | _ \<Rightarrow> ascii ''DSObject('' @ (case v of V_OBJECT a \<Rightarrow> show_address env a | _ \<Rightarrow> []) @ ascii '')''))"

section \<open>Concatenation copies on write\<close>

text \<open>How many of some values hold an object.\<close>

definition references :: "addr \<Rightarrow> DSValue list \<Rightarrow> nat" where
  "references a vs = length (filter (\<lambda>v. v = V_OBJECT a) vs)"

definition heap_value :: "heap \<Rightarrow> DSValue \<Rightarrow> bool" where
  "heap_value h v \<longleftrightarrow> (case v of V_OBJECT a \<Rightarrow> a < length h | _ \<Rightarrow> True)"

text \<open>Small strings are strings of up to 14 bytes, and all have a size that fits.\<close>

definition string_value :: "heap \<Rightarrow> DSValue \<Rightarrow> bool" where
  "string_value h v \<longleftrightarrow> hasStrRef h v \<and> length (asStrRef h v) \<le> STR_MAX
     \<and> (case v of V_SSTR s \<Rightarrow> length s \<le> SSTR14 | _ \<Rightarrow> True)"

lemma references_Cons [simp]:
  "references a (v # vs) = (if v = V_OBJECT a then 1 else 0) + references a vs"
  by (simp add: references_def)

lemma references_zero: "references a vs = 0 \<longleftrightarrow> V_OBJECT a \<notin> set vs"
  by (auto simp: references_def filter_empty_conv)

lemma references_mono: "v \<in> set vs \<Longrightarrow> v = V_OBJECT a \<Longrightarrow> 0 < references a vs"
  using references_zero [of a vs] by auto

lemma get_object_append: "heap_value h v \<Longrightarrow> get_object (h @ os) v = get_object h v"
  by (auto simp: get_object_def heap_value_def nth_append split: DSValue.splits)

lemma asStrRef_append: "heap_value h v \<Longrightarrow> asStrRef_opt (h @ os) v = asStrRef_opt h v"
  by (cases v) (simp_all add: asStrRef_opt_def get_object_append)

lemma get_object_update: "v \<noteq> V_OBJECT a \<Longrightarrow> get_object (h[a := x]) v = get_object h v"
  by (cases v) (auto simp: get_object_def)

lemma asStrRef_update: "v \<noteq> V_OBJECT a \<Longrightarrow> asStrRef_opt (h[a := x]) v = asStrRef_opt h v"
  by (cases v) (auto simp: asStrRef_opt_def get_object_update)

lemma hasStrRef_heap_value: "hasStrRef h v \<Longrightarrow> heap_value h v"
  by (auto simp: hasStrRef_def asStrRef_opt_def get_object_def heap_value_def split: DSValue.splits if_splits)

lemma createStr_spec:
  assumes "createStr h s = (v, h')"
  shows "asStrRef_opt h' v = Some s" "\<exists>os. h' = h @ os" "v \<noteq> V_OBJECT a \<or> length h \<le> a"
    "length s \<le> STR_MAX \<Longrightarrow> string_value h' v"
  using assms
  by (auto simp: createStr_def asStrRef_opt_def get_object_def string_value_def hasStrRef_def asStrRef_def
      split: if_splits)

text \<open>Appending changes at most the object that the value is.\<close>

lemma value_appendAsStr_spec:
  assumes "string_value h v" "length s \<le> STR_MAX"
  shows "if length (asStrRef h v) + length s \<le> STR_MAX
    then \<exists>w h'. value_appendAsStr h v s = Inr (w, h') \<and> asStrRef_opt h' w = Some (asStrRef h v @ s)
      \<and> (\<forall>u. heap_value h u \<longrightarrow> u \<noteq> v \<or> (\<forall>a. v \<noteq> V_OBJECT a) \<longrightarrow> get_object h' u = get_object h u)
    else value_appendAsStr h v s = Inl (raiseOutOfRangeError ''reach String size limit'')"
proof -
  have test: "(of_nat (length (asStrRef h v)) :: u64) > of_nat STR_MAX - of_nat (length s)
    \<longleftrightarrow> \<not> length (asStrRef h v) + length s \<le> STR_MAX"
    using appendAsStr_spec [of "asStrRef h v" s] assms
    by (auto simp: appendAsStr_def string_value_def split: if_splits)
  show ?thesis
  proof (cases v)
    case (V_OBJECT a)
    then obtain t where "a < length h" "h ! a = Some (StringObject t)"
      using assms(1)
      by (auto simp: string_value_def hasStrRef_def asStrRef_opt_def get_object_def
          split: if_splits option.splits DSObject.splits)
    then have "get_object (h[a := Some ob]) v = Some ob" "asStrRef_opt h v = Some t" for ob
      using V_OBJECT by (simp_all add: get_object_def asStrRef_opt_def)
    then show ?thesis
      using V_OBJECT test
      by (auto simp: value_appendAsStr_def Let_def asStrRef_opt_def asStrRef_def get_object_update)
  next
    case (V_SSTR t)
    then show ?thesis
      using test by (auto simp: value_appendAsStr_def Let_def asStrRef_opt_def asStrRef_def
          get_object_def get_object_append nth_append heap_value_def split: DSValue.splits)
  qed (use assms in \<open>auto simp: string_value_def hasStrRef_def asStrRef_opt_def get_object_def\<close>)
qed



end
