(* ===== verification/To_String.thy ===== *)
theory To_String
  imports Values
begin

text \<open>
  String conversion of values: \<open>opStr\<close> and \<open>opInterp\<close> (\<open>src/object.cpp\<close>) with the methods
  \<open>$OP_STR\<close> and \<open>$OP_INTERP\<close> of \<open>Any\<close> and \<open>Array#join\<close> (\<open>src/builtin.h\<close>), which all write into the one
  buffer \<open>toStrBuf\<close> of the state and call each other through the interpreter. A method called
  while the buffer is in use leaves its text there and returns a dummy; one called with an empty
  buffer takes the text out of it and returns it.

  An array may contain itself: what ends the recursion is the guard of \<open>callMethod\<close>, at 256
  nested calls. The first argument of the functions is the number of calls still allowed.
\<close>

definition GUARD_LIMIT :: nat where "GUARD_LIMIT = 256"

text \<open>A result with the buffer it leaves, as \<open>toStrBuf\<close> is kept on an error, too.\<close>

type_synonym 'a buffered = "(thrown + 'a) \<times> bytes"

definition stack_overflow :: thrown where
  "stack_overflow = (T_StackOverflowError, ascii ''interpreter recursion depth reaches limit'')"

definition invalid_value :: thrown where
  "invalid_value = (T_UnwrappingError, ascii ''invalid value'')"

text \<open>What \<open>callOP\<close> returns: a string, or the dummy of a method that wrote into the buffer.\<close>

type_synonym op_method = "DSValue \<Rightarrow> bytes \<Rightarrow> bytes option buffered"

definition callOP :: "heap \<Rightarrow> op_method \<Rightarrow> op_method" where
  "callOP h method value buf =
     (if value = V_INVALID then (Inl invalid_value, buf)
      else if hasStrRef h value then (Inr (Some (asStrRef h value)), buf)
      else method value buf)"

text \<open>The loop over the elements: the separator before every element but the first.\<close>

fun each_element :: "op_method \<Rightarrow> bytes \<Rightarrow> nat \<Rightarrow> DSValue list \<Rightarrow> bytes \<Rightarrow> unit buffered" where
  "each_element call sep i [] buf = (Inr (), buf)"
| "each_element call sep i (v # vs) buf =
     (let buf = (if i > 0 then buf @ sep else buf) in
      case call v buf of
        (Inl e, buf) \<Rightarrow> (Inl e, buf)
      | (Inr ret, buf) \<Rightarrow>
          each_element call sep (i + 1) vs (case ret of Some s \<Rightarrow> buf @ s | None \<Rightarrow> buf))"

definition then_append :: "unit buffered \<Rightarrow> bytes \<Rightarrow> unit buffered" where
  "then_append r s = (case r of (Inl e, buf) \<Rightarrow> (Inl e, buf) | (Inr _, buf) \<Rightarrow> (Inr (), buf @ s))"

definition array_opStr :: "op_method \<Rightarrow> DSValue list \<Rightarrow> bytes \<Rightarrow> unit buffered" where
  "array_opStr call vs buf =
     then_append (each_element call (ascii '', '') 0 vs (buf @ ascii ''['')) (ascii '']'')"

definition array_opInterp :: "op_method \<Rightarrow> DSValue list \<Rightarrow> bytes \<Rightarrow> unit buffered" where
  "array_opInterp call vs buf = each_element call (ascii '' '') 0 vs buf"

fun each_entry :: "op_method \<Rightarrow> nat \<Rightarrow> (DSValue \<times> DSValue) list \<Rightarrow> bytes \<Rightarrow> unit buffered" where
  "each_entry call count [] buf = (Inr (), buf)"
| "each_entry call count ((k, v) # es) buf =
     (let buf = (if count > 0 then buf @ ascii '', '' else buf) in
      case call k buf of
        (Inl e, buf) \<Rightarrow> (Inl e, buf)
      | (Inr ret, buf) \<Rightarrow>
          (let buf = (case ret of Some s \<Rightarrow> buf @ s | None \<Rightarrow> buf) @ ascii '' : '' in
           case call v buf of
             (Inl e, buf) \<Rightarrow> (Inl e, buf)
           | (Inr ret, buf) \<Rightarrow>
               each_entry call (count + 1) es (case ret of Some s \<Rightarrow> buf @ s | None \<Rightarrow> buf)))"

definition map_opStr :: "op_method \<Rightarrow> (DSValue \<times> DSValue) list \<Rightarrow> bytes \<Rightarrow> unit buffered" where
  "map_opStr call es buf = then_append (each_entry call 0 es (buf @ ascii ''['')) (ascii '']'')"

definition opStrAsTuple :: "op_method \<Rightarrow> DSValue list \<Rightarrow> bytes \<Rightarrow> unit buffered" where
  "opStrAsTuple call vs buf =
     then_append (each_element call (ascii '', '') 0 vs (buf @ ascii ''(''))
       ((if length vs = 1 then ascii '','' else []) @ ascii '')'')"

definition opInterpAsTuple :: "op_method \<Rightarrow> DSValue list \<Rightarrow> bytes \<Rightarrow> unit buffered" where
  "opInterpAsTuple call vs buf = each_element call (ascii '' '') 0 vs buf"

definition createHeader :: "text_env \<Rightarrow> heap \<Rightarrow> nat \<Rightarrow> DSValue \<Rightarrow> bytes" where
  "createHeader env h t message = type_name env t @ ascii '': '' @ asStrRef h message"

text \<open>\<open>DSValue::opStr\<close> and \<open>opInterp\<close>, given the call of the method on an element.\<close>

definition opStr_with :: "text_env \<Rightarrow> heap \<Rightarrow> op_method \<Rightarrow> DSValue \<Rightarrow> bytes \<Rightarrow> unit buffered" where
  "opStr_with env h call v buf =
     (case get_object h v of
        Some (ArrayObject t vs) \<Rightarrow> array_opStr call vs buf
      | Some (MapObject t es lock) \<Rightarrow> map_opStr call es buf
      | Some (BaseObject t vs) \<Rightarrow>
          if is_tuple env t then opStrAsTuple call vs buf
          else (Inr (), buf @ toString_flat env h v)
      | Some (ErrorObject t message name) \<Rightarrow> (Inr (), buf @ createHeader env h t message)
      | _ \<Rightarrow> (Inr (), buf @ toString_flat env h v))"

text \<open>The body of \<open>to_str\<close> and \<open>to_interp\<close>, given the operation of the receiver.\<close>

definition method_body :: "(DSValue \<Rightarrow> bytes \<Rightarrow> unit buffered) \<Rightarrow> op_method" where
  "method_body op v buf =
     (let hasRet = (buf = []) in
      case op v buf of
        (Inl e, buf) \<Rightarrow> (Inl e, [])
      | (Inr _, buf) \<Rightarrow> if hasRet then (Inr (Some buf), []) else (Inr None, buf))"

text \<open>\<open>callMethod\<close> under the recursion guard.\<close>

primrec to_str :: "nat \<Rightarrow> text_env \<Rightarrow> heap \<Rightarrow> op_method" where
  "to_str 0 env h = (\<lambda>v buf. (Inl stack_overflow, buf))"
| "to_str (Suc n) env h = method_body (opStr_with env h (callOP h (to_str n env h)))"

definition opStr :: "nat \<Rightarrow> text_env \<Rightarrow> heap \<Rightarrow> DSValue \<Rightarrow> bytes \<Rightarrow> unit buffered" where
  "opStr n env h = opStr_with env h (callOP h (to_str n env h))"

definition opInterp_with ::
  "nat \<Rightarrow> text_env \<Rightarrow> heap \<Rightarrow> op_method \<Rightarrow> DSValue \<Rightarrow> bytes \<Rightarrow> unit buffered"
where
  "opInterp_with n env h call v buf =
     (case get_object h v of
        Some (ArrayObject t vs) \<Rightarrow> array_opInterp call vs buf
      | Some (BaseObject t vs) \<Rightarrow> if is_tuple env t then opInterpAsTuple call vs buf else opStr n env h v buf
      | _ \<Rightarrow> opStr n env h v buf)"

primrec to_interp :: "nat \<Rightarrow> text_env \<Rightarrow> heap \<Rightarrow> op_method" where
  "to_interp 0 env h = (\<lambda>v buf. (Inl stack_overflow, buf))"
| "to_interp (Suc n) env h = method_body (opInterp_with n env h (callOP h (to_interp n env h)))"

definition opInterp :: "nat \<Rightarrow> text_env \<Rightarrow> heap \<Rightarrow> DSValue \<Rightarrow> bytes \<Rightarrow> unit buffered" where
  "opInterp n env h = opInterp_with n env h (callOP h (to_interp n env h))"

text \<open>\<open>Array#join\<close>: an invalid element raises an error without clearing the buffer.\<close>

fun join_loop :: "nat \<Rightarrow> text_env \<Rightarrow> heap \<Rightarrow> bytes \<Rightarrow> nat \<Rightarrow> DSValue list \<Rightarrow> bytes \<Rightarrow> unit buffered" where
  "join_loop n env h delim count [] buf = (Inr (), buf)"
| "join_loop n env h delim count (v # vs) buf =
     (let buf = (if count > 0 then buf @ delim else buf) in
      if v = V_INVALID then (Inl invalid_value, buf)
      else case opStr n env h v buf of
        (Inl e, buf) \<Rightarrow> (Inl e, [])
      | (Inr _, buf) \<Rightarrow> join_loop n env h delim (count + 1) vs buf)"

definition array_join :: "nat \<Rightarrow> text_env \<Rightarrow> heap \<Rightarrow> DSValue list \<Rightarrow> bytes \<Rightarrow> bytes \<Rightarrow> bytes option buffered" where
  "array_join n env h vs delim buf =
     (let hasRet = (buf = []) in
      case join_loop n env h delim 0 vs buf of
        (Inl e, buf) \<Rightarrow> (Inl e, buf)
      | (Inr _, buf) \<Rightarrow> if hasRet then (Inr (Some buf), []) else (Inr None, buf))"

section \<open>The reference: texts without a buffer\<close>

text \<open>The texts of all elements, or the error of the first that has none.\<close>

fun texts :: "('a \<Rightarrow> thrown + bytes) \<Rightarrow> 'a list \<Rightarrow> thrown + bytes list" where
  "texts f [] = Inr []"
| "texts f (v # vs) =
     (case f v of Inl e \<Rightarrow> Inl e | Inr s \<Rightarrow> (case texts f vs of Inl e \<Rightarrow> Inl e | Inr ss \<Rightarrow> Inr (s # ss)))"

definition element_text :: "heap \<Rightarrow> (DSValue \<Rightarrow> thrown + bytes) \<Rightarrow> DSValue \<Rightarrow> thrown + bytes" where
  "element_text h f v =
     (if v = V_INVALID then Inl invalid_value else if hasStrRef h v then Inr (asStrRef h v) else f v)"

definition entry_text :: "(DSValue \<Rightarrow> thrown + bytes) \<Rightarrow> DSValue \<times> DSValue \<Rightarrow> thrown + bytes" where
  "entry_text f e =
     (case texts f [fst e, snd e] of Inl x \<Rightarrow> Inl x | Inr ss \<Rightarrow> Inr (join_pieces (ascii '' : '') ss))"

definition joined :: "bytes \<Rightarrow> thrown + bytes list \<Rightarrow> thrown + bytes" where
  "joined sep ts = (case ts of Inl e \<Rightarrow> Inl e | Inr ss \<Rightarrow> Inr (join_pieces sep ss))"

definition enclosed :: "bytes \<Rightarrow> bytes \<Rightarrow> thrown + bytes list \<Rightarrow> thrown + bytes" where
  "enclosed l r t = (case t of Inl e \<Rightarrow> Inl e | Inr ss \<Rightarrow> Inr (l @ join_pieces (ascii '', '') ss @ r))"

definition text_with :: "text_env \<Rightarrow> heap \<Rightarrow> (DSValue \<Rightarrow> thrown + bytes) \<Rightarrow> DSValue \<Rightarrow> thrown + bytes" where
  "text_with env h f v =
     (case get_object h v of
        Some (ArrayObject t vs) \<Rightarrow> enclosed (ascii ''['') (ascii '']'') (texts (element_text h f) vs)
      | Some (MapObject t es lock) \<Rightarrow> enclosed (ascii ''['') (ascii '']'') (texts (entry_text (element_text h f)) es)
      | Some (BaseObject t vs) \<Rightarrow>
          if is_tuple env t then
            enclosed (ascii ''('') (if length vs = 1 then ascii '',)'' else ascii '')'')
              (texts (element_text h f) vs)
          else Inr (toString_flat env h v)
      | Some (ErrorObject t message name) \<Rightarrow> Inr (createHeader env h t message)
      | _ \<Rightarrow> Inr (toString_flat env h v))"

text \<open>The text of a value with a given number of levels.\<close>

primrec str_text :: "nat \<Rightarrow> text_env \<Rightarrow> heap \<Rightarrow> DSValue \<Rightarrow> thrown + bytes" where
  "str_text 0 env h = (\<lambda>v. Inl stack_overflow)"
| "str_text (Suc n) env h = text_with env h (str_text n env h)"

primrec interp_text :: "nat \<Rightarrow> text_env \<Rightarrow> heap \<Rightarrow> DSValue \<Rightarrow> thrown + bytes" where
  "interp_text 0 env h = (\<lambda>v. Inl stack_overflow)"
| "interp_text (Suc n) env h =
     (\<lambda>v. let elements = (\<lambda>vs. joined (ascii '' '') (texts (element_text h (interp_text n env h)) vs))
          in case get_object h v of
               Some (ArrayObject t vs) \<Rightarrow> elements vs
             | Some (BaseObject t vs) \<Rightarrow> if is_tuple env t then elements vs else text_with env h (str_text n env h) v
             | _ \<Rightarrow> text_with env h (str_text n env h) v)"

section \<open>The buffer protocol gives the texts\<close>

text \<open>What the text of a called method becomes in the buffer of the caller.\<close>

definition appended :: "bytes option \<Rightarrow> bytes \<Rightarrow> bytes" where
  "appended ret buf = (case ret of Some s \<Rightarrow> buf @ s | None \<Rightarrow> buf)"

definition calls_text :: "op_method \<Rightarrow> (DSValue \<Rightarrow> thrown + bytes) \<Rightarrow> bool" where
  "calls_text m f \<longleftrightarrow>
     (\<forall>v buf. case f v of
        Inl e \<Rightarrow> fst (m v buf) = Inl e
      | Inr s \<Rightarrow> \<exists>ret b. m v buf = (Inr ret, b) \<and> appended ret b = buf @ s)"

definition writes_text ::
  "('v \<Rightarrow> bytes \<Rightarrow> unit buffered) \<Rightarrow> ('v \<Rightarrow> thrown + bytes) \<Rightarrow> bool"
where
  "writes_text op f \<longleftrightarrow>
     (\<forall>v buf. case f v of Inl e \<Rightarrow> fst (op v buf) = Inl e | Inr s \<Rightarrow> op v buf = (Inr (), buf @ s))"

lemma calls_textE:
  assumes "calls_text m f"
  obtains (error) e b where "f v = Inl e" "m v buf = (Inl e, b)"
  | (given) s ret b where "f v = Inr s" "m v buf = (Inr ret, b)" "appended ret b = buf @ s"
proof (cases "f v")
  case (Inl e)
  then have "fst (m v buf) = Inl e" using assms by (auto simp: calls_text_def dest!: spec [of _ v])
  then show thesis using Inl error [of e "snd (m v buf)"] by (metis prod.collapse)
next
  case (Inr s)
  then show thesis using assms given by (auto simp: calls_text_def dest!: spec [of _ v] spec [of _ buf])
qed

lemma writes_textE:
  assumes "writes_text op f"
  obtains (error) e b where "f v = Inl e" "op v buf = (Inl e, b)"
  | (given) s where "f v = Inr s" "op v buf = (Inr (), buf @ s)"
proof (cases "f v")
  case (Inl e)
  then have "fst (op v buf) = Inl e" using assms by (auto simp: writes_text_def dest!: spec [of _ v])
  then show thesis using Inl error [of e "snd (op v buf)"] by (metis prod.collapse)
next
  case (Inr s)
  then show thesis using assms given by (auto simp: writes_text_def dest!: spec [of _ v] spec [of _ buf])
qed

lemma writes_textI:
  assumes "\<And>v buf e. f v = Inl e \<Longrightarrow> \<exists>b. op v buf = (Inl e, b)"
    and "\<And>v buf s. f v = Inr s \<Longrightarrow> op v buf = (Inr (), buf @ s)"
  shows "writes_text op f"
  unfolding writes_text_def using assms by (auto split: sum.splits) (metis fst_conv)

lemma callOP_text: "calls_text m f \<Longrightarrow> calls_text (callOP h m) (element_text h f)"
  by (auto simp: calls_text_def callOP_def element_text_def appended_def split: sum.splits)

lemma method_body_text:
  assumes "writes_text op f"
  shows "calls_text (method_body op) f"
  unfolding calls_text_def
proof (intro allI)
  fix v buf
  show "case f v of Inl e \<Rightarrow> fst (method_body op v buf) = Inl e
    | Inr s \<Rightarrow> \<exists>ret b. method_body op v buf = (Inr ret, b) \<and> appended ret b = buf @ s"
    using assms
  proof (cases rule: writes_textE [where v = v and buf = buf])
    case (error e b)
    then show ?thesis by (simp add: method_body_def)
  next
    case (given s)
    then show ?thesis by (simp add: method_body_def appended_def)
  qed
qed

lemma each_element_text:
  assumes "calls_text call f"
  shows "case texts f vs of
      Inl e \<Rightarrow> \<exists>b. each_element call sep i vs buf = (Inl e, b)
    | Inr ss \<Rightarrow> each_element call sep i vs buf
        = (Inr (), buf @ (if i > 0 \<and> vs \<noteq> [] then sep else []) @ join_pieces sep ss)"
proof (induction vs arbitrary: i buf)
  case (Cons v vs)
  let ?b = "if i > 0 then buf @ sep else buf"
  show ?case
    using assms
  proof (cases rule: calls_textE [where v = v and buf = ?b])
    case (given s ret b)
    then show ?thesis
      using Cons.IH [of "i + 1" "appended ret b"]
      by (cases vs) (auto simp: appended_def [symmetric] Let_def split: sum.splits)
  qed (auto simp: Let_def)
qed simp

lemma each_entry_text:
  assumes "calls_text call f"
  shows "case texts (entry_text f) es of
      Inl e \<Rightarrow> \<exists>b. each_entry call i es buf = (Inl e, b)
    | Inr ss \<Rightarrow> each_entry call i es buf
        = (Inr (), buf @ (if i > 0 \<and> es \<noteq> [] then ascii '', '' else []) @ join_pieces (ascii '', '') ss)"
proof (induction es arbitrary: i buf)
  case (Cons e es)
  obtain k v where e: "e = (k, v)" by (cases e)
  let ?b = "if i > 0 then buf @ ascii '', '' else buf"
  show ?case
    using assms
  proof (cases rule: calls_textE [where v = k and buf = ?b])
    case (given s ret b)
    note K = given
    show ?thesis
      using assms
    proof (cases rule: calls_textE [where v = v and buf = "appended ret b @ ascii '' : ''"])
      case (given s' ret' b')
      then show ?thesis
        using K Cons.IH [of "i + 1" "appended ret' b'"]
        by (cases es) (auto simp: e entry_text_def appended_def [symmetric] Let_def split: sum.splits)
    qed (use K in \<open>auto simp: e entry_text_def appended_def [symmetric] Let_def\<close>)
  qed (auto simp: e entry_text_def Let_def)
qed simp

lemma enclosed_text:
  assumes "case ts of Inl e \<Rightarrow> \<exists>b. r = (Inl e, b) | Inr ss \<Rightarrow> r = (Inr (), (buf @ left) @ join_pieces (ascii '', '') ss)"
  shows "case enclosed left right ts of Inl e \<Rightarrow> fst (then_append r right) = Inl e
    | Inr s \<Rightarrow> then_append r right = (Inr (), buf @ s)"
  using assms by (auto simp: enclosed_def then_append_def split: sum.splits)

lemma opStr_with_text:
  assumes "calls_text m f"
  shows "writes_text (opStr_with env h (callOP h m)) (text_with env h f)"
  unfolding writes_text_def
proof (intro allI)
  fix v buf
  note call = callOP_text [OF assms, of h]
  have elements: "case enclosed l r (texts (element_text h f) vs) of
      Inl e \<Rightarrow> fst (then_append (each_element (callOP h m) (ascii '', '') 0 vs (buf @ l)) r) = Inl e
    | Inr s \<Rightarrow> then_append (each_element (callOP h m) (ascii '', '') 0 vs (buf @ l)) r = (Inr (), buf @ s)"
    for l r vs
    using each_element_text [OF call, where i = 0 and sep = "ascii '', ''" and vs = vs and buf = "buf @ l"]
    by (intro enclosed_text) (auto split: sum.splits)
  have entries: "case enclosed l r (texts (entry_text (element_text h f)) es) of
      Inl e \<Rightarrow> fst (then_append (each_entry (callOP h m) 0 es (buf @ l)) r) = Inl e
    | Inr s \<Rightarrow> then_append (each_entry (callOP h m) 0 es (buf @ l)) r = (Inr (), buf @ s)"
    for l r es
    using each_entry_text [OF call, where i = 0 and es = es and buf = "buf @ l"]
    by (intro enclosed_text) (auto split: sum.splits)
  show "case text_with env h f v of
      Inl e \<Rightarrow> fst (opStr_with env h (callOP h m) v buf) = Inl e
    | Inr s \<Rightarrow> opStr_with env h (callOP h m) v buf = (Inr (), buf @ s)"
  proof (cases "get_object h v")
    case (Some ob)
    have close: "(if length vs = Suc 0 then ascii '','' else []) @ ascii '')''
      = (if length vs = Suc 0 then ascii '',)'' else ascii '')'')" for vs :: "DSValue list"
      by (simp add: ascii_def)
    show ?thesis
    proof (cases ob)
      case (ArrayObject t vs)
      have op: "opStr_with env h (callOP h m) v buf = then_append (each_element (callOP h m) (ascii '', '') 0 vs (buf @ ascii ''['')) (ascii '']'')"
        by (simp add: Some ArrayObject opStr_with_def array_opStr_def map_opStr_def opStrAsTuple_def close)
      have ref: "text_with env h f v = enclosed (ascii ''['') (ascii '']'') (texts (element_text h f) vs)"
        by (simp add: Some ArrayObject text_with_def)
      show ?thesis unfolding op ref by (rule elements)
    next
      case (MapObject t es lock)
      have op: "opStr_with env h (callOP h m) v buf = then_append (each_entry (callOP h m) 0 es (buf @ ascii ''['')) (ascii '']'')"
        by (simp add: Some MapObject opStr_with_def array_opStr_def map_opStr_def opStrAsTuple_def close)
      have ref: "text_with env h f v = enclosed (ascii ''['') (ascii '']'') (texts (entry_text (element_text h f)) es)"
        by (simp add: Some MapObject text_with_def)
      show ?thesis unfolding op ref by (rule entries)
    next
      case (BaseObject t vs)
      let ?r = "if length vs = Suc 0 then ascii '',)'' else ascii '')''"
      show ?thesis
      proof (cases "is_tuple env t")
        case True
        have op: "opStr_with env h (callOP h m) v buf
          = then_append (each_element (callOP h m) (ascii '', '') 0 vs (buf @ ascii ''('')) ?r"
          using True by (simp add: Some BaseObject opStr_with_def opStrAsTuple_def close)
        have ref: "text_with env h f v = enclosed (ascii ''('') ?r (texts (element_text h f) vs)"
          using True by (simp add: Some BaseObject text_with_def)
        show ?thesis unfolding op ref by (rule elements)
      qed (simp add: Some BaseObject opStr_with_def text_with_def)
    qed (simp_all add: Some opStr_with_def text_with_def)
  qed (simp add: opStr_with_def text_with_def)
qed

lemma to_str_text: "calls_text (to_str n env h) (str_text n env h)"
  by (induction n) (simp add: calls_text_def, simp add: method_body_text opStr_with_text)

lemma opStr_text: "writes_text (opStr n env h) (text_with env h (str_text n env h))"
  unfolding opStr_def [abs_def] by (intro opStr_with_text to_str_text)

lemma each_element_joined:
  assumes "calls_text call f"
  shows "case joined sep (texts f vs) of
      Inl e \<Rightarrow> fst (each_element call sep 0 vs buf) = Inl e
    | Inr s \<Rightarrow> each_element call sep 0 vs buf = (Inr (), buf @ s)"
  using each_element_text [OF assms, where vs = vs and sep = sep and i = 0 and buf = buf] by (auto simp: joined_def split: sum.splits)

lemma opInterp_with_text:
  assumes "calls_text (to_interp n env h) (interp_text n env h)"
  shows "writes_text (opInterp_with n env h (callOP h (to_interp n env h))) (interp_text (Suc n) env h)"
proof -
  let ?call = "callOP h (to_interp n env h)" and ?f = "element_text h (interp_text n env h)"
  have str: "case text_with env h (str_text n env h) v of Inl e \<Rightarrow> fst (opStr n env h v buf) = Inl e
      | Inr s \<Rightarrow> opStr n env h v buf = (Inr (), buf @ s)" for v buf
    using opStr_text unfolding writes_text_def by blast
  have elements: "case joined (ascii '' '') (texts ?f vs) of
      Inl e \<Rightarrow> fst (each_element ?call (ascii '' '') 0 vs buf) = Inl e
    | Inr s \<Rightarrow> each_element ?call (ascii '' '') 0 vs buf = (Inr (), buf @ s)" for vs buf
    by (rule each_element_joined [OF callOP_text [OF assms]])
  show ?thesis
    unfolding writes_text_def
  proof (intro allI)
    fix v buf
    have ref: "interp_text (Suc n) env h v =
      (case get_object h v of
         Some (ArrayObject t vs) \<Rightarrow> joined (ascii '' '') (texts ?f vs)
       | Some (BaseObject t vs) \<Rightarrow>
           if is_tuple env t then joined (ascii '' '') (texts ?f vs) else text_with env h (str_text n env h) v
       | _ \<Rightarrow> text_with env h (str_text n env h) v)"
      by (simp add: Let_def)
    show "case interp_text (Suc n) env h v of Inl e \<Rightarrow> fst (opInterp_with n env h ?call v buf) = Inl e
      | Inr s \<Rightarrow> opInterp_with n env h ?call v buf = (Inr (), buf @ s)"
      unfolding ref opInterp_with_def array_opInterp_def opInterpAsTuple_def
    proof (cases "get_object h v")
      case (Some ob)
      show "case (case get_object h v of
            Some (ArrayObject t vs) \<Rightarrow> joined (ascii '' '') (texts ?f vs)
          | Some (BaseObject t vs) \<Rightarrow>
              if is_tuple env t then joined (ascii '' '') (texts ?f vs) else text_with env h (str_text n env h) v
          | _ \<Rightarrow> text_with env h (str_text n env h) v) of
          Inl e \<Rightarrow> fst (case get_object h v of
              Some (ArrayObject t vs) \<Rightarrow> each_element ?call (ascii '' '') 0 vs buf
            | Some (BaseObject t vs) \<Rightarrow>
                if is_tuple env t then each_element ?call (ascii '' '') 0 vs buf else opStr n env h v buf
            | _ \<Rightarrow> opStr n env h v buf) = Inl e
        | Inr s \<Rightarrow> (case get_object h v of
              Some (ArrayObject t vs) \<Rightarrow> each_element ?call (ascii '' '') 0 vs buf
            | Some (BaseObject t vs) \<Rightarrow>
                if is_tuple env t then each_element ?call (ascii '' '') 0 vs buf else opStr n env h v buf
            | _ \<Rightarrow> opStr n env h v buf) = (Inr (), buf @ s)"
      proof (cases ob)
        case (BaseObject t vs)
        then show ?thesis
          by (cases "is_tuple env t")
            (simp_all only: Some BaseObject option.case DSObject.case elements str if_True if_False)
      qed (simp_all only: Some option.case DSObject.case elements str)
    qed (simp only: option.case str)
  qed
qed

lemma to_interp_text: "calls_text (to_interp n env h) (interp_text n env h)"
  by (induction n) (simp add: calls_text_def, simp add: method_body_text opInterp_with_text del: interp_text.simps(2))

lemma called_empty:
  assumes "writes_text op f"
  shows "method_body op v [] = (case f v of Inl e \<Rightarrow> (Inl e, []) | Inr s \<Rightarrow> (Inr (Some s), []))"
  using assms by (cases rule: writes_textE [where v = v and buf = "[]"]) (auto simp: method_body_def)

text \<open>
  [C27] Called with an empty buffer, \<open>$OP_STR\<close> and \<open>$OP_INTERP\<close> return the text of the value, built
  recursively from the texts of its elements without any buffer, or the error of the first
  element that has none, and leave the buffer empty. A value that contains itself exceeds the
  levels that the recursion guard allows and gives a \<open>StackOverflowError\<close>.
\<close>

theorem to_str_protocol:
  "to_str (Suc n) env h v [] =
     (case str_text (Suc n) env h v of Inl e \<Rightarrow> (Inl e, []) | Inr s \<Rightarrow> (Inr (Some s), []))
   \<and> to_interp (Suc n) env h v [] =
     (case interp_text (Suc n) env h v of Inl e \<Rightarrow> (Inl e, []) | Inr s \<Rightarrow> (Inr (Some s), []))"
  using called_empty [OF opStr_with_text [OF to_str_text], of env h n]
    called_empty [OF opInterp_with_text [OF to_interp_text], of n env h]
  by simp

text \<open>
  \<open>Array#join\<close> gives the same text as joining the texts of the elements, but on an invalid element
  it leaves what it has written in the buffer, and the next call of \<open>$OP_STR\<close> returns the dummy
  instead of its text.
\<close>

lemma join_leaves_buffer:
  "array_join n env h [V_BOOL True, V_INVALID] (ascii '','') [] = (Inl invalid_value, ascii ''true,'')"
  "to_str (Suc n) env h (V_BOOL False) (ascii ''true,'') = (Inr None, ascii ''true,false'')"
proof -
  have "get_object h (V_BOOL b) = None" for b by (simp add: get_object_def)
  then show "array_join n env h [V_BOOL True, V_INVALID] (ascii '','') [] = (Inl invalid_value, ascii ''true,'')"
    "to_str (Suc n) env h (V_BOOL False) (ascii ''true,'') = (Inr None, ascii ''true,false'')"
    by (simp_all add: array_join_def opStr_def opStr_with_def toString_flat_def method_body_def ascii_def)
qed

end
