(* ===== verification/Builtin_Array.thy ===== *)
theory Builtin_Array
  imports To_String
begin

text \<open>
  The methods of \<open>Array\<close> (\<open>src/builtin.h\<close>) on the heap. A method takes the address of its receiver
  and returns the error it raises or its value, the empty value for \<open>Void\<close>, and the heap.
\<close>

definition ARRAY_MAX :: nat where "ARRAY_MAX = 2147483647"

type_synonym 'a on_heap = "(thrown + 'a) \<times> heap"

definition array_values :: "heap \<Rightarrow> addr \<Rightarrow> DSValue list" where
  "array_values h a = (case get_object h (V_OBJECT a) of Some (ArrayObject t vs) \<Rightarrow> vs | _ \<Rightarrow> [])"

definition array_type :: "heap \<Rightarrow> addr \<Rightarrow> nat" where
  "array_type h a = (case get_object h (V_OBJECT a) of Some (ArrayObject t vs) \<Rightarrow> t | _ \<Rightarrow> 0)"

definition refValues :: "heap \<Rightarrow> addr \<Rightarrow> DSValue list \<Rightarrow> heap" where
  "refValues h a vs = h[a := Some (ArrayObject (array_type h a) vs)]"

definition new_array :: "heap \<Rightarrow> nat \<Rightarrow> DSValue list \<Rightarrow> DSValue on_heap" where
  "new_array h t vs = (Inr (V_OBJECT (length h)), h @ [Some (ArrayObject t vs)])"

definition array_size :: "heap \<Rightarrow> addr \<Rightarrow> int64" where
  "array_size h a = of_nat (length (array_values h a))"

definition array_empty :: "heap \<Rightarrow> addr \<Rightarrow> bool" where
  "array_empty h a \<longleftrightarrow> array_values h a = []"

definition array_get :: "heap \<Rightarrow> addr \<Rightarrow> int64 \<Rightarrow> DSValue on_heap" where
  "array_get h a index =
     (case resolveIndex_ctx index (length (array_values h a)) of
        Inl e \<Rightarrow> (Inl e, h)
      | Inr i \<Rightarrow> (Inr (array_values h a ! i), h))"

definition array_get2 :: "heap \<Rightarrow> addr \<Rightarrow> int64 \<Rightarrow> DSValue" where
  "array_get2 h a index =
     (let ret = resolveIndex index (length (array_values h a)) in
      if snd ret then array_values h a ! fst ret else V_INVALID)"

definition array_set :: "heap \<Rightarrow> addr \<Rightarrow> int64 \<Rightarrow> DSValue \<Rightarrow> DSValue on_heap" where
  "array_set h a index value =
     (case resolveIndex_ctx index (length (array_values h a)) of
        Inl e \<Rightarrow> (Inl e, h)
      | Inr i \<Rightarrow> (Inr V_EMPTY, refValues h a ((array_values h a)[i := value])))"

definition array_remove :: "heap \<Rightarrow> addr \<Rightarrow> int64 \<Rightarrow> DSValue on_heap" where
  "array_remove h a index =
     (case resolveIndex_ctx index (length (array_values h a)) of
        Inl e \<Rightarrow> (Inl e, h)
      | Inr i \<Rightarrow>
          let v = array_values h a ! i in
          (Inr v, refValues h a (take i (array_values h a) @ drop (i + 1) (array_values h a))))"

definition array_fetch :: "heap \<Rightarrow> addr \<Rightarrow> bool \<Rightarrow> thrown + DSValue" where
  "array_fetch h a fetchLast =
     (if array_values h a = [] then Inl (raiseOutOfRangeError ''Array size is 0'')
      else Inr (if fetchLast then last (array_values h a) else hd (array_values h a)))"

definition array_peek :: "heap \<Rightarrow> addr \<Rightarrow> DSValue on_heap" where
  "array_peek h a = (array_fetch h a True, h)"

text \<open>An index equal to the size is allowed, any other is resolved as usual.\<close>

definition array_insertImpl :: "heap \<Rightarrow> addr \<Rightarrow> int64 \<Rightarrow> DSValue \<Rightarrow> unit on_heap" where
  "array_insertImpl h a index v =
     (let size0 = length (array_values h a) in
      if size0 = ARRAY_MAX then (Inl (raiseOutOfRangeError ''reach Array size limit''), h)
      else case if index = of_nat size0 then Inr (unat (ucast index :: u32)) else resolveIndex_ctx index size0 of
        Inl e \<Rightarrow> (Inl e, h)
      | Inr i \<Rightarrow>
          (Inr (), refValues h a (take i (array_values h a) @ v # drop i (array_values h a))))"

definition array_pushImpl :: "heap \<Rightarrow> addr \<Rightarrow> DSValue \<Rightarrow> unit on_heap" where
  "array_pushImpl h a v = array_insertImpl h a (of_nat (length (array_values h a))) v"

definition returning :: "unit on_heap \<Rightarrow> DSValue \<Rightarrow> DSValue on_heap" where
  "returning r v = (map_sum id (\<lambda>_. v) (fst r), snd r)"

definition array_push :: "heap \<Rightarrow> addr \<Rightarrow> DSValue \<Rightarrow> DSValue on_heap" where
  "array_push h a v = returning (array_pushImpl h a v) V_EMPTY"

definition array_unshift :: "heap \<Rightarrow> addr \<Rightarrow> DSValue \<Rightarrow> DSValue on_heap" where
  "array_unshift h a v = returning (array_insertImpl h a 0 v) V_EMPTY"

definition array_insert :: "heap \<Rightarrow> addr \<Rightarrow> int64 \<Rightarrow> DSValue \<Rightarrow> DSValue on_heap" where
  "array_insert h a index v = returning (array_insertImpl h a index v) V_EMPTY"

definition array_add :: "heap \<Rightarrow> addr \<Rightarrow> DSValue \<Rightarrow> DSValue on_heap" where
  "array_add h a v = returning (array_pushImpl h a v) (V_OBJECT a)"

definition array_pop :: "heap \<Rightarrow> addr \<Rightarrow> DSValue on_heap" where
  "array_pop h a =
     (case array_fetch h a True of
        Inl e \<Rightarrow> (Inl e, h)
      | Inr v \<Rightarrow> (Inr v, refValues h a (butlast (array_values h a))))"

definition array_shift :: "heap \<Rightarrow> addr \<Rightarrow> DSValue on_heap" where
  "array_shift h a =
     (case array_fetch h a False of
        Inl e \<Rightarrow> (Inl e, h)
      | Inr v \<Rightarrow> (Inr v, refValues h a (tl (array_values h a))))"

text \<open>The loop of \<open>extend\<close> over the indexes of the other array.\<close>

fun extend_loop :: "heap \<Rightarrow> addr \<Rightarrow> addr \<Rightarrow> nat list \<Rightarrow> DSValue on_heap" where
  "extend_loop h a b [] = (Inr (V_OBJECT a), h)"
| "extend_loop h a b (i # is) =
     (if length (array_values h a) = ARRAY_MAX
      then (Inl (raiseOutOfRangeError ''reach Array size limit''), h)
      else extend_loop (refValues h a (array_values h a @ [array_values h b ! i])) a b is)"

definition array_extend :: "heap \<Rightarrow> addr \<Rightarrow> addr \<Rightarrow> DSValue on_heap" where
  "array_extend h a b =
     (if a \<noteq> b then extend_loop h a b [0..<length (array_values h b)] else (Inr (V_OBJECT a), h))"

definition array_swap :: "heap \<Rightarrow> addr \<Rightarrow> int64 \<Rightarrow> DSValue \<Rightarrow> DSValue on_heap" where
  "array_swap h a index value =
     (case resolveIndex_ctx index (length (array_values h a)) of
        Inl e \<Rightarrow> (Inl e, h)
      | Inr i \<Rightarrow> (Inr (array_values h a ! i), refValues h a ((array_values h a)[i := value])))"

definition array_slice :: "heap \<Rightarrow> addr \<Rightarrow> int64 \<Rightarrow> int64 \<Rightarrow> DSValue on_heap" where
  "array_slice h a start stop =
     (case slice_range (length (array_values h a)) start stop of
        Inl e \<Rightarrow> (Inl e, h)
      | Inr (b, e) \<Rightarrow> new_array h (array_type h a) (take (e - b) (drop b (array_values h a))))"

definition array_sliceFrom :: "heap \<Rightarrow> addr \<Rightarrow> int64 \<Rightarrow> DSValue on_heap" where
  "array_sliceFrom h a start = array_slice h a start (of_nat (length (array_values h a)))"

definition array_sliceTo :: "heap \<Rightarrow> addr \<Rightarrow> int64 \<Rightarrow> DSValue on_heap" where
  "array_sliceTo h a stop = array_slice h a 0 stop"

definition array_copy :: "heap \<Rightarrow> addr \<Rightarrow> DSValue on_heap" where
  "array_copy h a = new_array h (array_type h a) (array_values h a)"

definition array_reverse :: "heap \<Rightarrow> addr \<Rightarrow> DSValue on_heap" where
  "array_reverse h a = (Inr (V_OBJECT a), refValues h a (rev (array_values h a)))"

text \<open>\<open>std::sort\<close> is an argument.\<close>

definition array_sort ::
  "((DSValue \<Rightarrow> DSValue \<Rightarrow> bool) \<Rightarrow> DSValue list \<Rightarrow> DSValue list) \<Rightarrow> heap \<Rightarrow> addr \<Rightarrow> DSValue on_heap"
where
  "array_sort std_sort h a = (Inr (V_OBJECT a), refValues h a (std_sort (compare_value h) (array_values h a)))"

definition array_clear :: "heap \<Rightarrow> addr \<Rightarrow> DSValue on_heap" where
  "array_clear h a = (Inr V_EMPTY, refValues h a [])"

section \<open>Iteration\<close>

text \<open>The iterator is a record of the array and the next index.\<close>

definition array_iter :: "heap \<Rightarrow> addr \<Rightarrow> DSValue on_heap" where
  "array_iter h a =
     (Inr (V_OBJECT (length h)), h @ [Some (BaseObject (array_type h a) [V_OBJECT a, V_INT 0])])"

definition iter_fields :: "heap \<Rightarrow> addr \<Rightarrow> nat \<times> addr \<times> nat" where
  "iter_fields h it =
     (case get_object h (V_OBJECT it) of
        Some (BaseObject t [V_OBJECT a, V_INT i]) \<Rightarrow> (t, a, unat i)
      | _ \<Rightarrow> (0, 0, 0))"

definition array_next :: "heap \<Rightarrow> addr \<Rightarrow> DSValue on_heap" where
  "array_next h it =
     (let (t, a, index) = iter_fields h it in
      if index \<ge> length (array_values h a)
      then (Inl (raiseOutOfRangeError ''array iterator has already reached end''), h)
      else (Inr (array_values h a ! index),
            h[it := Some (BaseObject t [V_OBJECT a, V_INT (of_nat (index + 1))])]))"

definition array_hasNext :: "heap \<Rightarrow> addr \<Rightarrow> bool" where
  "array_hasNext h it = (let (t, a, index) = iter_fields h it in index < length (array_values h a))"

section \<open>Command arguments\<close>

text \<open>
  The strings that an array or a tuple gives as command arguments; elements that are neither strings nor
  arrays of strings are converted by their own \<open>$OP_CMD_ARG\<close> or \<open>$OP_STR\<close>, under the recursion guard.
\<close>

definition appendAsCmdArg ::
  "text_env \<Rightarrow> heap \<Rightarrow> (DSValue \<Rightarrow> thrown + bytes list) \<Rightarrow> (DSValue \<Rightarrow> thrown + bytes) \<Rightarrow> DSValue
    \<Rightarrow> thrown + bytes list"
where
  "appendAsCmdArg env h cmd_arg str v =
     (if v = V_INVALID then Inl invalid_value
      else if hasStrRef h v then Inr [asStrRef h v]
      else case get_object h v of
        Some (ArrayObject t vs) \<Rightarrow>
          if t = type_id T_StringArray then Inr (map (asStrRef h) vs) else cmd_arg v
      | Some (BaseObject t vs) \<Rightarrow>
          if is_tuple env t then cmd_arg v else map_sum id (\<lambda>s. [s]) (str v)
      | _ \<Rightarrow> map_sum id (\<lambda>s. [s]) (str v))"

fun append_all :: "('a \<Rightarrow> thrown + bytes list) \<Rightarrow> 'a list \<Rightarrow> thrown + bytes list" where
  "append_all f [] = Inr []"
| "append_all f (v # vs) =
     (case f v of
        Inl e \<Rightarrow> Inl e
      | Inr ss \<Rightarrow> (case append_all f vs of Inl e \<Rightarrow> Inl e | Inr rest \<Rightarrow> Inr (ss @ rest)))"

definition call_str :: "nat \<Rightarrow> text_env \<Rightarrow> heap \<Rightarrow> DSValue \<Rightarrow> thrown + bytes" where
  "call_str n env h v = map_sum id (\<lambda>ret. case ret of Some s \<Rightarrow> s | None \<Rightarrow> []) (fst (to_str n env h v []))"

primrec opCmdArg :: "nat \<Rightarrow> text_env \<Rightarrow> heap \<Rightarrow> DSValue \<Rightarrow> thrown + bytes list" where
  "opCmdArg 0 env h = (\<lambda>v. Inl stack_overflow)"
| "opCmdArg (Suc n) env h =
     (\<lambda>v. case get_object h v of
        Some (ArrayObject t vs) \<Rightarrow> append_all (appendAsCmdArg env h (opCmdArg n env h) (call_str n env h)) vs
      | Some (BaseObject t vs) \<Rightarrow> append_all (appendAsCmdArg env h (opCmdArg n env h) (call_str n env h)) vs
      | _ \<Rightarrow> Inr [])"

section \<open>Arrays on the heap\<close>

definition array_at :: "heap \<Rightarrow> addr \<Rightarrow> bool" where
  "array_at h a \<longleftrightarrow> (\<exists>t vs. get_object h (V_OBJECT a) = Some (ArrayObject t vs) \<and> length vs \<le> ARRAY_MAX)"

lemma array_atD: "array_at h a \<Longrightarrow> a < length h \<and> length (array_values h a) \<le> ARRAY_MAX"
  by (auto simp: array_at_def array_values_def get_object_def split: if_splits)

lemma get_refValues [simp]:
  "a < length h \<Longrightarrow> get_object (refValues h a vs) (V_OBJECT a) = Some (ArrayObject (array_type h a) vs)"
  by (simp add: refValues_def get_object_def)

lemma values_refValues [simp]:
  "a < length h \<Longrightarrow> array_values (refValues h a vs) b = (if b = a then vs else array_values h b)"
  by (simp add: array_values_def) (simp add: refValues_def get_object_def)

lemma type_refValues [simp]: "a < length h \<Longrightarrow> array_type (refValues h a vs) a = array_type h a"
  by (simp add: array_type_def [of "refValues h a vs"])

lemma length_refValues [simp]: "length (refValues h a vs) = length h"
  by (simp add: refValues_def)

lemma refValues_twice [simp]: "a < length h \<Longrightarrow> refValues (refValues h a vs) a ws = refValues h a ws"
  by (simp add: refValues_def [of "refValues h a vs"]) (simp add: refValues_def)

lemma refValues_same: "array_at h a \<Longrightarrow> refValues h a (array_values h a) = h"
  by (auto simp: array_at_def refValues_def array_values_def array_type_def get_object_def
      split: if_splits intro: list_update_same_conv [THEN iffD2])

lemma resolved_of_nat:
  assumes "k \<le> ARRAY_MAX"
  shows "resolved (of_nat k) n = int k"
proof -
  have "sint (of_nat k :: int64) = int k"
    using assms [unfolded ARRAY_MAX_def] sint_word_of_int_fits [of "int k"] by (simp add: fits_signed_def)
  then show ?thesis by (simp add: resolved_def)
qed

lemma small_index: "n \<le> ARRAY_MAX \<Longrightarrow> n \<le> STR_MAX"
  by (simp_all add: ARRAY_MAX_def STR_MAX_def)

definition index_error :: "nat \<Rightarrow> int64 \<Rightarrow> thrown" where
  "index_error n index = raiseOutOfRangeError
     (''size is '' @ show_nat n @ '', but index is '' @ show_int (sint index))"

text \<open>The resolved index of the methods, on an array on the heap.\<close>

lemma resolve_array:
  assumes "array_at h a"
  shows "resolveIndex_ctx index (length (array_values h a)) =
    (let k = resolved index (length (array_values h a)) in
     if 0 \<le> k \<and> k < int (length (array_values h a)) then Inr (nat k)
     else Inl (index_error (length (array_values h a)) index))"
  unfolding index_error_def Let_def
  using array_atD [OF assms] by (intro resolveIndex_ctx_spec) (simp add: small_index)

lemma array_at_refValues: "a < length h \<Longrightarrow> length vs \<le> ARRAY_MAX \<Longrightarrow> array_at (refValues h a vs) a"
  by (simp add: array_at_def)

text \<open>Insertion, at a position in the array or at its end.\<close>

lemma array_insertImpl_spec:
  assumes "array_at h a"
  shows "array_insertImpl h a index v =
    (let vs = array_values h a; k = resolved index (length vs) in
     if length vs = ARRAY_MAX then (Inl (raiseOutOfRangeError ''reach Array size limit''), h)
     else if 0 \<le> k \<and> k < int (length vs) \<or> index = of_nat (length vs)
     then (Inr (), refValues h a (take (nat k) vs @ v # drop (nat k) vs))
     else (Inl (index_error (length vs) index), h))"
proof -
  have n: "length (array_values h a) \<le> ARRAY_MAX" using array_atD [OF assms] by simp
  have "unat (ucast (of_nat (length (array_values h a)) :: int64) :: u32) = length (array_values h a)"
    using n by (simp add: ARRAY_MAX_def unsigned_ucast_eq unsigned_of_nat take_bit_nat_eq_self)
  moreover have "nat (resolved (of_nat (length (array_values h a))) (length (array_values h a)))
      = length (array_values h a)"
    using n by (simp add: resolved_of_nat)
  ultimately show ?thesis
    by (auto simp: array_insertImpl_def resolve_array [OF assms] Let_def)
qed

lemma inserted_at:
  assumes "k \<le> length vs" "length vs < ARRAY_MAX" "array_at h a" "array_values h a = vs"
    and h'_def: "h' = refValues h a (take k vs @ v # drop k vs)"
  shows "array_get h' a (of_nat k) = (Inr v, h')" "array_remove h' a (of_nat k) = (Inr v, h)"
proof -
  define ws where "ws = take k vs @ v # drop k vs"
  have ws: "length ws = Suc (length vs)" "ws ! k = v" "take k ws @ drop (Suc k) ws = vs"
    using assms(1) by (simp_all add: ws_def nth_append)
  have a: "a < length h" using array_atD [OF assms(3)] by simp
  have h': "h' = refValues h a ws" by (simp add: h'_def ws_def)
  have at: "array_at h' a"
    unfolding h' using a assms(2) ws(1) by (intro array_at_refValues) auto
  have vals: "array_values h' a = ws" using a by (simp add: h')
  have k: "resolved (of_nat k) (length (array_values h' a)) = int k"
    using assms(1,2) by (simp add: resolved_of_nat)
  have res: "resolveIndex_ctx (of_nat k) (Suc (length vs)) = Inr k"
    using resolve_array [OF at, of "of_nat k"] k assms(1) by (simp add: vals ws Let_def)
  show "array_get h' a (of_nat k) = (Inr v, h')"
    using res by (simp add: array_get_def vals ws)
  show "array_remove h' a (of_nat k) = (Inr v, h)"
    using res assms(4) a refValues_same [OF assms(3)]
    by (simp add: array_remove_def Let_def vals ws) (simp add: h')
qed

text \<open>
  [C28] What is put into an array can be taken out again: after \<open>insert\<close>, at any index of the array or
  at its end, the element is found at that index, and \<open>remove\<close> there gives it back and restores the
  array; \<open>pop\<close> undoes \<open>push\<close> and \<open>shift\<close> undoes \<open>unshift\<close>.
\<close>

theorem array_insert_remove:
  assumes "array_at h a" "length (array_values h a) < ARRAY_MAX"
    and "0 \<le> resolved index (length (array_values h a))"
    and "resolved index (length (array_values h a)) \<le> int (length (array_values h a))"
  shows "\<exists>h1 h2 h3.
      array_insert h a index v = (Inr V_EMPTY, h1)
    \<and> array_get h1 a (of_nat (nat (resolved index (length (array_values h a))))) = (Inr v, h1)
    \<and> array_remove h1 a (of_nat (nat (resolved index (length (array_values h a))))) = (Inr v, h)
    \<and> array_push h a v = (Inr V_EMPTY, h2) \<and> array_pop h2 a = (Inr v, h)
    \<and> array_unshift h a v = (Inr V_EMPTY, h3) \<and> array_shift h3 a = (Inr v, h)"
proof -
  define vs where "vs = array_values h a"
  define k where "k = resolved index (length vs)"
  have a: "a < length h" using array_atD [OF assms(1)] by simp
  have n: "length vs < ARRAY_MAX" using assms(2) by (simp add: vs_def)
  have k: "0 \<le> k" "k \<le> int (length vs)" using assms(3,4) by (simp_all add: k_def vs_def)
  have same: "refValues h a vs = h" using refValues_same [OF assms(1)] by (simp add: vs_def)
  have at_end: "index = of_nat (length vs)" if "k = int (length vs)"
  proof -
    have "sint index = int (length vs)"
      using that k sint_64 [of index] by (auto simp: k_def resolved_def split: if_splits)
    moreover have "index = word_of_int (sint index)" by simp
    ultimately show ?thesis by (metis of_int_of_nat_eq)
  qed
  have insert: "array_insert h a index v = (Inr V_EMPTY, refValues h a (take (nat k) vs @ v # drop (nat k) vs))"
    using k n at_end
    by (auto simp: array_insert_def returning_def array_insertImpl_spec [OF assms(1)] Let_def
        vs_def [symmetric] k_def [symmetric])
  have nat_k: "nat k \<le> length vs" using k by simp
  note at = inserted_at [OF nat_k n assms(1) vs_def [symmetric] refl, of v]
  have push: "array_push h a v = (Inr V_EMPTY, refValues h a (vs @ [v]))"
    using n by (simp add: array_push_def array_pushImpl_def returning_def array_insertImpl_spec [OF assms(1)]
        Let_def vs_def [symmetric] resolved_of_nat)
  have pop: "array_pop (refValues h a (vs @ [v])) a = (Inr v, h)"
    using a same by (simp add: array_pop_def array_fetch_def)
  have "resolved 0 (length vs) = 0" using resolved_of_nat [of 0 "length vs"] by simp
  then have unshift: "array_unshift h a v = (Inr V_EMPTY, refValues h a (v # vs))"
    using n by (auto simp: array_unshift_def returning_def array_insertImpl_spec [OF assms(1)]
        Let_def vs_def [symmetric])
  have shift: "array_shift (refValues h a (v # vs)) a = (Inr v, h)"
    using a same by (simp add: array_shift_def array_fetch_def)
  show ?thesis
    unfolding vs_def [symmetric] k_def [symmetric] insert push unshift
    using at pop shift by blast
qed

theorem array_insert_remove_witness:
  "\<exists>h1. array_insert [Some (ArrayObject 40 [V_INT 7, V_INT 8])] 0 (- 1) (V_INT 9) = (Inr V_EMPTY, h1)
    \<and> array_get h1 0 1 = (Inr (V_INT 9), h1)"
proof -
  let ?h = "[Some (ArrayObject 40 [V_INT 7, V_INT 8])]"
  have v: "array_values ?h 0 = [V_INT 7, V_INT 8]" by (simp add: array_values_def get_object_def)
  have "array_at ?h 0" by (simp add: array_at_def get_object_def ARRAY_MAX_def)
  moreover have "resolved (- 1) (length (array_values ?h 0)) = 1" by (simp add: v resolved_def)
  ultimately show ?thesis
    using array_insert_remove [of ?h 0 "- 1" "V_INT 9"] by (auto simp: v ARRAY_MAX_def)
qed

text \<open>\<open>extend\<close> appends the elements of another array one by one.\<close>

lemma extend_loop_spec:
  assumes "a \<noteq> b" "array_at h a" "length (array_values h a) + length is \<le> ARRAY_MAX"
  shows "extend_loop h a b is =
    (Inr (V_OBJECT a), refValues h a (array_values h a @ map ((!) (array_values h b)) is))"
  using assms(2,3)
proof (induction "is" arbitrary: h)
  case Nil
  then show ?case by (simp add: refValues_same)
next
  case (Cons i "is")
  have a: "a < length h" using array_atD [OF Cons.prems(1)] by simp
  let ?h = "refValues h a (array_values h a @ [array_values h b ! i])"
  have "extend_loop ?h a b is =
    (Inr (V_OBJECT a), refValues ?h a (array_values ?h a @ map ((!) (array_values ?h b)) is))"
    using Cons.prems a by (intro Cons.IH array_at_refValues) simp_all
  then show ?case using Cons.prems(2) a assms(1) by simp
qed

lemma array_extend_spec:
  assumes "array_at h a" "array_at h b" "length (array_values h a) + length (array_values h b) \<le> ARRAY_MAX"
  shows "array_extend h a b =
    (Inr (V_OBJECT a),
     if a = b then h else refValues h a (array_values h a @ array_values h b))"
  using extend_loop_spec [of a b h "[0..<length (array_values h b)]"] assms
  by (simp add: array_extend_def map_nth)

end
