(* ===== verification/Hash_Map.thy ===== *)
theory Hash_Map
  imports Values "HOL-Library.Multiset"
begin

text \<open>
  The map container (\<open>HashMap\<close>, \<open>KeyCompare\<close>, \<open>GenHash\<close> of \<open>src/object.h\<close>) and the operations of
  \<open>MapObject\<close> on it. \<open>std::unordered_map\<close> is the list of its entries in iteration order: an
  insertion may change that order in any way, which the argument \<open>arrange\<close>, a rearrangement of the
  entries, stands for.
\<close>

type_synonym entries = "(DSValue \<times> DSValue) list"

section \<open>Hash\<close>

definition FNVHash_update :: "u64 \<Rightarrow> byte \<Rightarrow> u64" where
  "FNVHash_update hash value = (hash * 0x100000001b3) XOR ucast value"

definition FNVHash_compute :: "bytes \<Rightarrow> u64" where
  "FNVHash_compute s = foldl FNVHash_update 0xcbf29ce484222325 s"

text \<open>The hash functions of the C++ library.\<close>

record std_hash =
  hash_bool :: "bool \<Rightarrow> u64"
  hash_int64 :: "int64 \<Rightarrow> u64"
  hash_double :: "double \<Rightarrow> u64"
  hash_pointer :: "addr \<Rightarrow> u64"

definition value_hash :: "std_hash \<Rightarrow> heap \<Rightarrow> DSValue \<Rightarrow> u64" where
  "value_hash std h this =
     (case this of
        V_BOOL b \<Rightarrow> hash_bool std b
      | V_SIG s \<Rightarrow> hash_int64 std (word_of_int s)
      | V_INT i \<Rightarrow> hash_int64 std i
      | V_FLOAT d \<Rightarrow> hash_double std d
      | _ \<Rightarrow>
          if hasStrRef h this then FNVHash_compute (asStrRef h this)
          else case this of V_OBJECT a \<Rightarrow> hash_pointer std a | _ \<Rightarrow> 0)"

section \<open>The container\<close>

definition find_entry :: "('k \<Rightarrow> 'k \<Rightarrow> bool) \<Rightarrow> ('k \<times> 'v) list \<Rightarrow> 'k \<Rightarrow> ('k \<times> 'v) option" where
  "find_entry eq es key = List.find (\<lambda>e. eq (fst e) key) es"

definition lookup_entry :: "('k \<Rightarrow> 'k \<Rightarrow> bool) \<Rightarrow> ('k \<times> 'v) list \<Rightarrow> 'k \<Rightarrow> 'v option" where
  "lookup_entry eq es key = map_option snd (find_entry eq es key)"

text \<open>\<open>emplace\<close>: the entries, and whether the key was new.\<close>

definition emplace ::
  "('k \<Rightarrow> 'k \<Rightarrow> bool) \<Rightarrow> (('k \<times> 'v) list \<Rightarrow> ('k \<times> 'v) list) \<Rightarrow> ('k \<times> 'v) list \<Rightarrow> 'k \<Rightarrow> 'v
    \<Rightarrow> ('k \<times> 'v) list \<times> bool"
where
  "emplace eq arrange es key value =
     (if find_entry eq es key = None then (arrange (es @ [(key, value)]), True) else (es, False))"

text \<open>Assignment to the value of the entry found, and its removal.\<close>

fun assign_entry :: "('k \<Rightarrow> 'k \<Rightarrow> bool) \<Rightarrow> ('k \<times> 'v) list \<Rightarrow> 'k \<Rightarrow> 'v \<Rightarrow> ('k \<times> 'v) list" where
  "assign_entry eq [] key value = []"
| "assign_entry eq (e # es) key value =
     (if eq (fst e) key then (fst e, value) # es else e # assign_entry eq es key value)"

fun erase_entry :: "('k \<Rightarrow> 'k \<Rightarrow> bool) \<Rightarrow> ('k \<times> 'v) list \<Rightarrow> 'k \<Rightarrow> ('k \<times> 'v) list" where
  "erase_entry eq [] key = []"
| "erase_entry eq (e # es) key = (if eq (fst e) key then es else e # erase_entry eq es key)"

text \<open>The operations of \<open>MapObject\<close>. A value returned is the old one, \<open>None\<close> for an invalid.\<close>

definition MapObject_set ::
  "('k \<Rightarrow> 'k \<Rightarrow> bool) \<Rightarrow> (('k \<times> 'v) list \<Rightarrow> ('k \<times> 'v) list) \<Rightarrow> ('k \<times> 'v) list \<Rightarrow> 'k \<Rightarrow> 'v
    \<Rightarrow> ('k \<times> 'v) list \<times> 'v option"
where
  "MapObject_set eq arrange es key value =
     (let pair = emplace eq arrange es key value in
      if snd pair then (fst pair, None)
      else (assign_entry eq (fst pair) key value, lookup_entry eq (fst pair) key))"

definition MapObject_setDefault ::
  "('k \<Rightarrow> 'k \<Rightarrow> bool) \<Rightarrow> (('k \<times> 'v) list \<Rightarrow> ('k \<times> 'v) list) \<Rightarrow> ('k \<times> 'v) list \<Rightarrow> 'k \<Rightarrow> 'v
    \<Rightarrow> ('k \<times> 'v) list \<times> 'v"
where
  "MapObject_setDefault eq arrange es key value =
     (let pair = emplace eq arrange es key value in
      (fst pair, if snd pair then value else the (lookup_entry eq (fst pair) key)))"

definition MapObject_trySwap ::
  "('k \<Rightarrow> 'k \<Rightarrow> bool) \<Rightarrow> ('k \<times> 'v) list \<Rightarrow> 'k \<Rightarrow> 'v \<Rightarrow> (('k \<times> 'v) list \<times> 'v) option"
where
  "MapObject_trySwap eq es key value =
     (case lookup_entry eq es key of
        None \<Rightarrow> None
      | Some old \<Rightarrow> Some (assign_entry eq es key value, old))"

definition MapObject_remove ::
  "('k \<Rightarrow> 'k \<Rightarrow> bool) \<Rightarrow> ('k \<times> 'v) list \<Rightarrow> 'k \<Rightarrow> ('k \<times> 'v) list \<times> bool"
where
  "MapObject_remove eq es key =
     (if find_entry eq es key = None then (es, False) else (erase_entry eq es key, True))"

section \<open>What the container relies on\<close>

text \<open>
  The contract of the key comparison: symmetric and transitive. It need not be reflexive: a NaN is
  no key that can be found again.
\<close>

definition distinct_keys :: "('k \<Rightarrow> 'k \<Rightarrow> bool) \<Rightarrow> ('k \<times> 'v) list \<Rightarrow> bool" where
  "distinct_keys eq es \<longleftrightarrow> sorted_wrt (\<lambda>a b. \<not> eq (fst a) (fst b)) es"

lemma distinct_keys_Cons [simp]:
  "distinct_keys eq (e # es) \<longleftrightarrow> (\<forall>f \<in> set es. \<not> eq (fst e) (fst f)) \<and> distinct_keys eq es"
  by (simp add: distinct_keys_def)

lemma distinct_keys_Nil [simp]: "distinct_keys eq []"
  by (simp add: distinct_keys_def)

lemma find_none: "find_entry eq es k = None \<longleftrightarrow> (\<forall>e \<in> set es. \<not> eq (fst e) k)"
  by (auto simp: find_entry_def find_None_iff)

lemma find_some: "find_entry eq es k = Some e \<Longrightarrow> e \<in> set es \<and> eq (fst e) k"
  by (auto simp: find_entry_def find_Some_iff)

lemma find_entry_Cons: "find_entry eq (f # es) k = (if eq (fst f) k then Some f else find_entry eq es k)"
  by (simp add: find_entry_def)

lemma lookup_entry_Cons:
  "lookup_entry eq (f # es) k = (if eq (fst f) k then Some (snd f) else lookup_entry eq es k)"
  by (simp add: lookup_entry_def find_entry_Cons)

lemma lookup_none: "lookup_entry eq es k = None \<longleftrightarrow> find_entry eq es k = None"
  by (simp add: lookup_entry_def)

locale key_equality =
  fixes eq :: "'k \<Rightarrow> 'k \<Rightarrow> bool"
  assumes sym: "eq a b \<Longrightarrow> eq b a"
    and trans: "eq a b \<Longrightarrow> eq b c \<Longrightarrow> eq a c"
begin

lemma eq_left: "eq a b \<Longrightarrow> eq a c \<longleftrightarrow> eq b c"
  using sym trans by blast

text \<open>With distinct keys, an entry is found exactly by the keys equal to its own.\<close>

lemma find_iff:
  "distinct_keys eq es \<Longrightarrow> find_entry eq es k = Some e \<longleftrightarrow> e \<in> set es \<and> eq (fst e) k"
proof (induction es)
  case (Cons f es)
  show ?case
  proof (cases "eq (fst f) k")
    case True
    have "\<not> eq (fst e) k" if "e \<in> set es" for e
      using that True Cons.prems trans [OF True sym] by auto
    then show ?thesis using True by (simp add: find_entry_Cons) blast
  qed (use Cons in \<open>auto simp: find_entry_Cons\<close>)
qed (simp add: find_entry_def)

lemma distinct_keys_iff:
  "distinct_keys eq es \<longleftrightarrow> (\<forall>e \<in> set es. \<forall>f \<in># mset es - {#e#}. \<not> eq (fst e) (fst f))"
proof (induction es)
  case (Cons g es)
  have others: "mset (g # es) - {#e#} = add_mset g (mset es - {#e#})" if "e \<in> set es" for e
  proof -
    have "mset es = add_mset e (mset es - {#e#})" using that by simp
    then have "mset (g # es) = add_mset e (add_mset g (mset es - {#e#}))"
      by (metis add_mset_commute mset.simps(2))
    then show ?thesis by (metis add_mset_remove_trivial)
  qed
  have "(\<forall>e \<in> set (g # es). \<forall>f \<in># mset (g # es) - {#e#}. \<not> eq (fst e) (fst f))
    \<longleftrightarrow> (\<forall>f \<in> set es. \<not> eq (fst g) (fst f))
      \<and> (\<forall>e \<in> set es. \<not> eq (fst e) (fst g) \<and> (\<forall>f \<in># mset es - {#e#}. \<not> eq (fst e) (fst f)))"
  proof -
    have "(\<forall>e \<in> set es. \<forall>f \<in># mset (g # es) - {#e#}. \<not> eq (fst e) (fst f))
      \<longleftrightarrow> (\<forall>e \<in> set es. \<not> eq (fst e) (fst g) \<and> (\<forall>f \<in># mset es - {#e#}. \<not> eq (fst e) (fst f)))"
      by (rule ball_cong) (simp_all add: others del: mset.simps)
    then show ?thesis by (simp del: mset.simps) simp
  qed
  moreover have "(\<forall>e \<in> set es. \<not> eq (fst e) (fst g)) \<longleftrightarrow> (\<forall>e \<in> set es. \<not> eq (fst g) (fst e))"
    using sym by blast
  ultimately show ?case by (simp only: distinct_keys_Cons Cons.IH ball_conj_distrib) blast
qed simp

lemma distinct_keys_mset: "mset es = mset fs \<Longrightarrow> distinct_keys eq es = distinct_keys eq fs"
proof -
  assume "mset es = mset fs"
  then have "set es = set fs" "\<And>e. mset es - {#e#} = mset fs - {#e#}" by (rule mset_eq_setD, simp)
  then show ?thesis unfolding distinct_keys_iff by simp
qed

lemma lookup_mset:
  assumes "mset es = mset fs" "distinct_keys eq es"
  shows "lookup_entry eq es k = lookup_entry eq fs k"
proof -
  have "find_entry eq es k = Some e \<longleftrightarrow> find_entry eq fs k = Some e" for e
    using assms(2) distinct_keys_mset [OF assms(1)] by (simp add: find_iff mset_eq_setD [OF assms(1)])
  then have "find_entry eq es k = find_entry eq fs k" by (metis not_None_eq)
  then show ?thesis by (simp add: lookup_entry_def)
qed

text \<open>The laws of a finite map, for keys that equal themselves.\<close>

lemma lookup_assign:
  assumes "distinct_keys eq es" "find_entry eq es k \<noteq> None"
  shows "lookup_entry eq (assign_entry eq es k v) k' = (if eq k k' then Some v else lookup_entry eq es k')"
  using assms
proof (induction es)
  case (Cons e es)
  show ?case
  proof (cases "eq (fst e) k")
    case True
    then show ?thesis using eq_left [OF True, of k'] by (simp add: lookup_entry_Cons)
  next
    case False
    have "\<not> eq (fst e) k'" if "eq k k'" using False that trans [of "fst e" k' k] sym by blast
    then show ?thesis using False Cons by (auto simp: lookup_entry_Cons find_entry_Cons)
  qed
qed (simp add: find_entry_def)

lemma set_assign: "fst ` set (assign_entry eq es k v) = fst ` set es"
  by (induction es) auto

lemma distinct_assign: "distinct_keys eq es \<Longrightarrow> distinct_keys eq (assign_entry eq es k v)"
proof (induction es)
  case (Cons e es)
  have "\<forall>f \<in> set (assign_entry eq es k v). \<not> eq (fst e) (fst f)"
    using Cons.prems set_assign [of es k v] by (metis (no_types, lifting) distinct_keys_Cons image_iff)
  then show ?case using Cons by auto
qed simp

lemma set_erase: "set (erase_entry eq es k) \<subseteq> set es"
  by (induction es) auto

lemma distinct_erase: "distinct_keys eq es \<Longrightarrow> distinct_keys eq (erase_entry eq es k)"
  using set_erase by (induction es) fastforce+

lemma lookup_erase:
  assumes "distinct_keys eq es" "find_entry eq es k \<noteq> None"
  shows "lookup_entry eq (erase_entry eq es k) k' = (if eq k k' then None else lookup_entry eq es k')"
  using assms
proof (induction es)
  case (Cons e es)
  show ?case
  proof (cases "eq (fst e) k")
    case True
    have "lookup_entry eq es k' = None" if "eq (fst e) k'"
      using that Cons.prems(1) trans [OF that sym] by (auto simp: lookup_none find_none)
    then show ?thesis using True eq_left [OF True, of k'] by (auto simp: lookup_entry_Cons)
  next
    case False
    have "\<not> eq (fst e) k'" if "eq k k'" using False that trans [of "fst e" k' k] sym by blast
    then show ?thesis using False Cons by (auto simp: lookup_entry_Cons find_entry_Cons)
  qed
qed (simp add: find_entry_def)

lemma emplace_new:
  assumes "distinct_keys eq es" "find_entry eq es k = None" "mset (arrange (es @ [(k, v)])) = mset (es @ [(k, v)])"
  shows "distinct_keys eq (arrange (es @ [(k, v)]))"
    "lookup_entry eq (arrange (es @ [(k, v)])) k' = (if eq k k' then Some v else lookup_entry eq es k')"
proof -
  have snoc: "mset (arrange (es @ [(k, v)])) = mset ((k, v) # es)" using assms(3) by simp
  have d: "distinct_keys eq ((k, v) # es)"
    using assms(1,2) sym by (auto simp: find_none)
  then show "distinct_keys eq (arrange (es @ [(k, v)]))" using distinct_keys_mset [OF snoc] by simp
  then have "lookup_entry eq (arrange (es @ [(k, v)])) k' = lookup_entry eq ((k, v) # es) k'"
    by (rule lookup_mset [OF snoc])
  also have "\<dots> = (if eq k k' then Some v else lookup_entry eq es k')"
    by (simp add: lookup_entry_def find_entry_Cons)
  finally show "lookup_entry eq (arrange (es @ [(k, v)])) k' = (if eq k k' then Some v else lookup_entry eq es k')" .
qed

text \<open>The operations of \<open>MapObject\<close> update the map of the entries.\<close>

lemma set_lookup:
  assumes "distinct_keys eq es" "mset (arrange (es @ [(k, v)])) = mset (es @ [(k, v)])"
    "MapObject_set eq arrange es k v = (es', old)"
  shows "distinct_keys eq es'" "old = lookup_entry eq es k"
    "lookup_entry eq es' k' = (if eq k k' then Some v else lookup_entry eq es k')"
proof -
  have "distinct_keys eq es' \<and> old = lookup_entry eq es k
    \<and> lookup_entry eq es' k' = (if eq k k' then Some v else lookup_entry eq es k')"
  proof (cases "find_entry eq es k = None")
    case True
    then show ?thesis
      using assms(3) emplace_new [where arrange = arrange, OF assms(1) True assms(2)]
      by (auto simp: MapObject_set_def emplace_def lookup_none [symmetric])
  next
    case False
    then show ?thesis
      using assms(1,3) distinct_assign lookup_assign [OF assms(1) False]
      by (auto simp: MapObject_set_def emplace_def)
  qed
  then show "distinct_keys eq es'" "old = lookup_entry eq es k"
    "lookup_entry eq es' k' = (if eq k k' then Some v else lookup_entry eq es k')" by auto
qed

lemma setDefault_lookup:
  assumes "distinct_keys eq es" "mset (arrange (es @ [(k, v)])) = mset (es @ [(k, v)])"
    "MapObject_setDefault eq arrange es k v = (es', r)"
  shows "distinct_keys eq es'" "r = (case lookup_entry eq es k of Some w \<Rightarrow> w | None \<Rightarrow> v)"
    "lookup_entry eq es' k' = (if eq k k' \<and> lookup_entry eq es k = None then Some v else lookup_entry eq es k')"
proof -
  have "distinct_keys eq es' \<and> r = (case lookup_entry eq es k of Some w \<Rightarrow> w | None \<Rightarrow> v)
    \<and> lookup_entry eq es' k' = (if eq k k' \<and> lookup_entry eq es k = None then Some v else lookup_entry eq es k')"
  proof (cases "find_entry eq es k = None")
    case True
    then show ?thesis
      using assms(3) emplace_new [where arrange = arrange, OF assms(1) True assms(2)]
      by (auto simp: MapObject_setDefault_def emplace_def lookup_none [symmetric])
  next
    case False
    then obtain w where "lookup_entry eq es k = Some w" by (auto simp: lookup_entry_def)
    then show ?thesis
      using assms(1,3) False by (simp add: MapObject_setDefault_def emplace_def)
  qed
  then show "distinct_keys eq es'" "r = (case lookup_entry eq es k of Some w \<Rightarrow> w | None \<Rightarrow> v)"
    "lookup_entry eq es' k' = (if eq k k' \<and> lookup_entry eq es k = None then Some v else lookup_entry eq es k')"
    by auto
qed

lemma remove_lookup:
  assumes "distinct_keys eq es" "MapObject_remove eq es k = (es', r)"
  shows "distinct_keys eq es'" "r \<longleftrightarrow> lookup_entry eq es k \<noteq> None"
    "lookup_entry eq es' k' = (if eq k k' then None else lookup_entry eq es k')"
proof -
  have "distinct_keys eq es' \<and> (r \<longleftrightarrow> lookup_entry eq es k \<noteq> None)
    \<and> lookup_entry eq es' k' = (if eq k k' then None else lookup_entry eq es k')"
  proof (cases "find_entry eq es k = None")
    case True
    have "lookup_entry eq es k' = None" if "eq k k'"
      using True trans [OF _ sym [OF that]] by (auto simp: lookup_none find_none)
    then show ?thesis using assms True by (simp add: MapObject_remove_def lookup_none)
  next
    case False
    then show ?thesis
      using assms distinct_erase lookup_erase [OF assms(1) False]
      by (auto simp: MapObject_remove_def lookup_none False)
  qed
  then show "distinct_keys eq es'" "r \<longleftrightarrow> lookup_entry eq es k \<noteq> None"
    "lookup_entry eq es' k' = (if eq k k' then None else lookup_entry eq es k')" by auto
qed

lemma trySwap_lookup:
  assumes "distinct_keys eq es" "MapObject_trySwap eq es k v = Some (es', old)"
  shows "distinct_keys eq es'" "lookup_entry eq es k = Some old"
    "lookup_entry eq es' k' = (if eq k k' then Some v else lookup_entry eq es k')"
proof -
  have old: "lookup_entry eq es k = Some old" and es': "es' = assign_entry eq es k v"
    using assms(2) by (auto simp: MapObject_trySwap_def split: option.splits)
  have ne: "find_entry eq es k \<noteq> None" using old by (auto simp: lookup_entry_def)
  show "distinct_keys eq es'" "lookup_entry eq es k = Some old"
    "lookup_entry eq es' k' = (if eq k k' then Some v else lookup_entry eq es k')"
    using distinct_assign [OF assms(1)] lookup_assign [OF assms(1) ne] old by (simp_all add: es')
qed

end

section \<open>The keys of the program\<close>

lemma equals_sym: "equals h a b \<Longrightarrow> equals h b a"
  by (auto simp: equals_def float_2_float_eq_def ordered_def split: if_splits DSValue.splits)

lemma hasStrRef_cases:
  assumes "hasStrRef h v"
  obtains s where "v = V_SSTR s" | a where "v = V_OBJECT a"
  using assms by (cases v) (auto simp: hasStrRef_def asStrRef_opt_def get_object_def)

lemma equals_string:
  assumes "hasStrRef h a"
  shows "equals h a b \<longleftrightarrow> hasStrRef h b \<and> asStrRef h a = asStrRef h b"
proof (cases "hasStrRef h b")
  case False
  then have "\<not> equals h a b"
    using assms
    by (cases rule: hasStrRef_cases [OF assms]; cases b) (auto simp: equals_def)
  then show ?thesis using False by simp
qed (use assms in \<open>simp add: equals_def\<close>)

lemma equals_trans:
  assumes "equals h a b" "equals h b c"
  shows "equals h a c"
proof (cases "hasStrRef h a")
  case True
  then show ?thesis using assms by (simp add: equals_string)
next
  case a: False
  have b: "\<not> hasStrRef h b" using a assms(1) equals_string equals_sym by blast
  have c: "\<not> hasStrRef h c" using b assms(2) equals_string equals_sym by blast
  show ?thesis
    using assms a b c
    by (cases a) (auto simp: equals_def float_2_float_eq_def ordered_def split: DSValue.splits if_splits)
qed

text \<open>Equal keys have equal hashes, as the container requires, if equal numbers have.\<close>

lemma equals_hash:
  assumes "equals h a b" "\<And>x y. float_2_float_eq x y \<Longrightarrow> hash_double std x = hash_double std y"
  shows "value_hash std h a = value_hash std h b"
proof (cases "hasStrRef h a")
  case True
  then have b: "hasStrRef h b" "asStrRef h a = asStrRef h b" using assms(1) by (simp_all add: equals_string)
  show ?thesis
    using True b
    by (cases rule: hasStrRef_cases [OF True]; cases rule: hasStrRef_cases [OF b(1)])
      (simp_all add: value_hash_def)
next
  case a: False
  have "\<not> hasStrRef h b" using a assms(1) equals_string equals_sym by blast
  then show ?thesis
    using assms a
    by (cases a) (auto simp: equals_def value_hash_def split: DSValue.splits if_splits)
qed

interpretation keys: key_equality "equals h" for h
  by unfold_locales (blast intro: equals_sym equals_trans)+

end
