(* ===== verification/Builtin_Map.thy ===== *)
theory Builtin_Map
  imports Builtin_Array Hash_Map
begin

text \<open>
  The methods of \<open>Map\<close> (\<open>src/builtin.h\<close>) and the iterators of maps (\<open>MapIterObject\<close>, \<open>src/object.h\<close>)
  on the heap. A map counts its live iterators in \<open>lockCount\<close>, and a method that changes the map
  raises an error while there is one. An iterator is the address of its map and the position of
  the next entry; \<open>map_iter_destroy\<close> is its destructor.
\<close>

definition map_entries :: "heap \<Rightarrow> addr \<Rightarrow> entries" where
  "map_entries h a = (case get_object h (V_OBJECT a) of Some (MapObject t es lock) \<Rightarrow> es | _ \<Rightarrow> [])"

definition lockCount :: "heap \<Rightarrow> addr \<Rightarrow> int" where
  "lockCount h a = (case get_object h (V_OBJECT a) of Some (MapObject t es lock) \<Rightarrow> lock | _ \<Rightarrow> 0)"

definition map_type :: "heap \<Rightarrow> addr \<Rightarrow> nat" where
  "map_type h a = (case get_object h (V_OBJECT a) of Some (MapObject t es lock) \<Rightarrow> t | _ \<Rightarrow> 0)"

definition put_map :: "heap \<Rightarrow> addr \<Rightarrow> entries \<Rightarrow> int \<Rightarrow> heap" where
  "put_map h a es lock = h[a := Some (MapObject (map_type h a) es lock)]"

definition locked :: "heap \<Rightarrow> addr \<Rightarrow> bool" where
  "locked h a \<longleftrightarrow> lockCount h a > 0"

definition raiseIterInvalid :: thrown where
  "raiseIterInvalid = (T_InvalidOperationError, ascii ''cannot modify map object during iteration'')"

text \<open>\<open>CHECK_ITER_INVALIDATION\<close> before a change of the entries.\<close>

definition unless_locked :: "heap \<Rightarrow> addr \<Rightarrow> DSValue on_heap \<Rightarrow> DSValue on_heap" where
  "unless_locked h a r = (if locked h a then (Inl raiseIterInvalid, h) else r)"

definition key_error :: "text_env \<Rightarrow> heap \<Rightarrow> DSValue \<Rightarrow> thrown" where
  "key_error env h key = (T_KeyNotFoundError, ascii ''not found key: '' @ toString_flat env h key)"

type_synonym arrangement = "entries \<Rightarrow> entries"

definition map_get :: "text_env \<Rightarrow> heap \<Rightarrow> addr \<Rightarrow> DSValue \<Rightarrow> thrown + DSValue" where
  "map_get env h a key =
     (case lookup_entry (equals h) (map_entries h a) key of
        None \<Rightarrow> Inl (key_error env h key)
      | Some v \<Rightarrow> Inr v)"

definition map_set :: "arrangement \<Rightarrow> heap \<Rightarrow> addr \<Rightarrow> DSValue \<Rightarrow> DSValue \<Rightarrow> DSValue on_heap" where
  "map_set arrange h a key value = unless_locked h a
     (Inr V_EMPTY, put_map h a (fst (MapObject_set (equals h) arrange (map_entries h a) key value)) (lockCount h a))"

definition map_put :: "arrangement \<Rightarrow> heap \<Rightarrow> addr \<Rightarrow> DSValue \<Rightarrow> DSValue \<Rightarrow> DSValue on_heap" where
  "map_put arrange h a key value = unless_locked h a
     (let (es, old) = MapObject_set (equals h) arrange (map_entries h a) key value in
      (Inr (case old of None \<Rightarrow> V_INVALID | Some v \<Rightarrow> v), put_map h a es (lockCount h a)))"

definition map_default :: "arrangement \<Rightarrow> heap \<Rightarrow> addr \<Rightarrow> DSValue \<Rightarrow> DSValue \<Rightarrow> DSValue on_heap" where
  "map_default arrange h a key value = unless_locked h a
     (let (es, v) = MapObject_setDefault (equals h) arrange (map_entries h a) key value in
      (Inr v, put_map h a es (lockCount h a)))"

definition map_size :: "heap \<Rightarrow> addr \<Rightarrow> int64" where
  "map_size h a = of_nat (length (map_entries h a))"

definition map_empty :: "heap \<Rightarrow> addr \<Rightarrow> bool" where
  "map_empty h a \<longleftrightarrow> map_entries h a = []"

definition map_find :: "heap \<Rightarrow> addr \<Rightarrow> DSValue \<Rightarrow> DSValue" where
  "map_find h a key =
     (case lookup_entry (equals h) (map_entries h a) key of None \<Rightarrow> V_INVALID | Some v \<Rightarrow> v)"

definition map_find2 :: "heap \<Rightarrow> addr \<Rightarrow> DSValue \<Rightarrow> bool" where
  "map_find2 h a key \<longleftrightarrow> find_entry (equals h) (map_entries h a) key \<noteq> None"

definition map_remove :: "heap \<Rightarrow> addr \<Rightarrow> DSValue \<Rightarrow> DSValue on_heap" where
  "map_remove h a key = unless_locked h a
     (let (es, r) = MapObject_remove (equals h) (map_entries h a) key in
      (Inr (V_BOOL r), put_map h a es (lockCount h a)))"

definition map_swap :: "text_env \<Rightarrow> heap \<Rightarrow> addr \<Rightarrow> DSValue \<Rightarrow> DSValue \<Rightarrow> DSValue on_heap" where
  "map_swap env h a key value = unless_locked h a
     (case MapObject_trySwap (equals h) (map_entries h a) key value of
        None \<Rightarrow> (Inl (key_error env h key), h)
      | Some (es, old) \<Rightarrow> (Inr old, put_map h a es (lockCount h a)))"

text \<open>A copy of the container may have another order.\<close>

definition map_copy :: "arrangement \<Rightarrow> heap \<Rightarrow> addr \<Rightarrow> DSValue on_heap" where
  "map_copy arrange h a =
     (Inr (V_OBJECT (length h)), h @ [Some (MapObject (map_type h a) (arrange (map_entries h a)) 0)])"

definition map_clear :: "heap \<Rightarrow> addr \<Rightarrow> DSValue on_heap" where
  "map_clear h a = unless_locked h a (Inr V_EMPTY, put_map h a [] (lockCount h a))"

section \<open>Iterators\<close>

definition map_iter :: "heap \<Rightarrow> addr \<Rightarrow> DSValue on_heap" where
  "map_iter h a =
     (Inr (V_OBJECT (length h)),
      put_map h a (map_entries h a) (lockCount h a + 1) @ [Some (MapIterObject (map_type h a) a 0)])"

definition iter_at :: "heap \<Rightarrow> addr \<Rightarrow> nat \<times> addr \<times> nat" where
  "iter_at h it =
     (case get_object h (V_OBJECT it) of Some (MapIterObject t a pos) \<Rightarrow> (t, a, pos) | _ \<Rightarrow> (0, 0, 0))"

definition map_hasNext :: "heap \<Rightarrow> addr \<Rightarrow> bool" where
  "map_hasNext h it = (let (t, a, pos) = iter_at h it in pos \<noteq> length (map_entries h a))"

text \<open>\<open>pairType\<close> gives the type of the pair, from \<open>TypePool::createTupleType\<close>.\<close>

definition map_next :: "(DSValue \<Rightarrow> DSValue \<Rightarrow> nat) \<Rightarrow> heap \<Rightarrow> addr \<Rightarrow> DSValue on_heap" where
  "map_next pairType h it =
     (if \<not> map_hasNext h it
      then (Inl (raiseOutOfRangeError ''map iterator has already reached end''), h)
      else let (t, a, pos) = iter_at h it; (k, v) = map_entries h a ! pos in
        (Inr (V_OBJECT (length h)),
         h[it := Some (MapIterObject t a (pos + 1))] @ [Some (BaseObject (pairType k v) [k, v])]))"

definition map_iter_destroy :: "heap \<Rightarrow> addr \<Rightarrow> heap" where
  "map_iter_destroy h it =
     (let (t, a, pos) = iter_at h it in (put_map h a (map_entries h a) (lockCount h a - 1))[it := None])"

section \<open>Steps\<close>

definition map_at :: "heap \<Rightarrow> addr \<Rightarrow> bool" where
  "map_at h a \<longleftrightarrow> (\<exists>t es lock. get_object h (V_OBJECT a) = Some (MapObject t es lock))"

definition iterator_at :: "heap \<Rightarrow> addr \<Rightarrow> bool" where
  "iterator_at h it \<longleftrightarrow> (\<exists>t a pos. get_object h (V_OBJECT it) = Some (MapIterObject t a pos))"

definition iterator_of :: "heap \<Rightarrow> addr \<Rightarrow> addr \<Rightarrow> bool" where
  "iterator_of h a it \<longleftrightarrow> (\<exists>t pos. get_object h (V_OBJECT it) = Some (MapIterObject t a pos))"

definition array_iterator_at :: "heap \<Rightarrow> addr \<Rightarrow> bool" where
  "array_iterator_at h it \<longleftrightarrow>
     (\<exists>t a i. get_object h (V_OBJECT it) = Some (BaseObject t [V_OBJECT a, V_INT i]))"

text \<open>
  What a program does with arrays and maps between two steps of an iteration: any method but those
  that advance or destroy the iterator \<open>it\<close> (\<open>None\<close> when none is excluded).
\<close>

inductive collection_step :: "addr option \<Rightarrow> heap \<Rightarrow> heap \<Rightarrow> bool" for it where
  step_array_set: "array_at h a \<Longrightarrow> collection_step it h (snd (array_set h a i v))"
| step_array_remove: "array_at h a \<Longrightarrow> collection_step it h (snd (array_remove h a i))"
| step_array_insert: "array_at h a \<Longrightarrow> collection_step it h (snd (array_insert h a i v))"
| step_array_push: "array_at h a \<Longrightarrow> collection_step it h (snd (array_push h a v))"
| step_array_unshift: "array_at h a \<Longrightarrow> collection_step it h (snd (array_unshift h a v))"
| step_array_pop: "array_at h a \<Longrightarrow> collection_step it h (snd (array_pop h a))"
| step_array_shift: "array_at h a \<Longrightarrow> collection_step it h (snd (array_shift h a))"
| step_array_extend: "array_at h a \<Longrightarrow> array_at h b \<Longrightarrow> collection_step it h (snd (array_extend h a b))"
| step_array_swap: "array_at h a \<Longrightarrow> collection_step it h (snd (array_swap h a i v))"
| step_array_reverse: "array_at h a \<Longrightarrow> collection_step it h (snd (array_reverse h a))"
| step_array_clear: "array_at h a \<Longrightarrow> collection_step it h (snd (array_clear h a))"
| step_array_slice: "array_at h a \<Longrightarrow> collection_step it h (snd (array_slice h a i j))"
| step_array_copy: "array_at h a \<Longrightarrow> collection_step it h (snd (array_copy h a))"
| step_array_iter: "array_at h a \<Longrightarrow> collection_step it h (snd (array_iter h a))"
| step_array_next: "array_iterator_at h j \<Longrightarrow> collection_step it h (snd (array_next h j))"
| step_map_set: "map_at h a \<Longrightarrow> heap_value h k \<Longrightarrow> (\<And>es. mset (arrange es) = mset es) \<Longrightarrow>
    collection_step it h (snd (map_set arrange h a k v))"
| step_map_put: "map_at h a \<Longrightarrow> heap_value h k \<Longrightarrow> (\<And>es. mset (arrange es) = mset es) \<Longrightarrow>
    collection_step it h (snd (map_put arrange h a k v))"
| step_map_default: "map_at h a \<Longrightarrow> heap_value h k \<Longrightarrow> (\<And>es. mset (arrange es) = mset es) \<Longrightarrow>
    collection_step it h (snd (map_default arrange h a k v))"
| step_map_remove: "map_at h a \<Longrightarrow> collection_step it h (snd (map_remove h a k))"
| step_map_swap: "map_at h a \<Longrightarrow> collection_step it h (snd (map_swap env h a k v))"
| step_map_clear: "map_at h a \<Longrightarrow> collection_step it h (snd (map_clear h a))"
| step_map_copy: "map_at h a \<Longrightarrow> (\<And>es. mset (arrange es) = mset es) \<Longrightarrow>
    collection_step it h (snd (map_copy arrange h a))"
| step_map_iter: "map_at h a \<Longrightarrow> collection_step it h (snd (map_iter h a))"
| step_map_next: "iterator_at h j \<Longrightarrow> it \<noteq> Some j \<Longrightarrow> collection_step it h (snd (map_next pairType h j))"
| step_map_iter_destroy: "iterator_at h j \<Longrightarrow> it \<noteq> Some j \<Longrightarrow> collection_step it h (map_iter_destroy h j)"
| step_string: "collection_step it h (h @ [Some (StringObject s)])"

section \<open>The invariant\<close>

definition live_iterators :: "heap \<Rightarrow> addr \<Rightarrow> nat" where
  "live_iterators h a = length (filter (iterator_of h a) [0..<length h])"

definition object_ok :: "heap \<Rightarrow> addr \<Rightarrow> DSObject \<Rightarrow> bool" where
  "object_ok h a ob =
     (case ob of
        ArrayObject t vs \<Rightarrow> length vs \<le> ARRAY_MAX
      | MapObject t es lock \<Rightarrow>
          distinct_keys (equals h) es \<and> (\<forall>k \<in> fst ` set es. heap_value h k) \<and> lock = int (live_iterators h a)
      | MapIterObject t m pos \<Rightarrow> map_at h m \<and> pos \<le> length (map_entries h m)
      | _ \<Rightarrow> True)"

definition collections_ok :: "heap \<Rightarrow> bool" where
  "collections_ok h \<longleftrightarrow> (\<forall>a ob. get_object h (V_OBJECT a) = Some ob \<longrightarrow> object_ok h a ob)"

subsection \<open>What equality and the counts depend on\<close>

definition same_strings :: "heap \<Rightarrow> heap \<Rightarrow> bool" where
  "same_strings h h' \<longleftrightarrow>
     (\<forall>v. heap_value h v \<longrightarrow> heap_value h' v \<and> asStrRef_opt h' v = asStrRef_opt h v)"

lemma equals_same_strings:
  assumes "same_strings h h'" "heap_value h a" "heap_value h b"
  shows "equals h' a b = equals h a b"
proof -
  have s: "asStrRef_opt h' a = asStrRef_opt h a" "asStrRef_opt h' b = asStrRef_opt h b"
    using assms by (auto simp: same_strings_def)
  have o: "(if map_option getKind (get_object h (V_OBJECT x)) \<noteq> map_option getKind (get_object h (V_OBJECT y))
    then False else x = y) = (x = y)" for h x y by auto
  show ?thesis
    unfolding equals_def hasStrRef_def asStrRef_def s
    by (cases a; cases b; simp only: DSValue.case o)
qed

lemma distinct_same_strings:
  assumes "same_strings h h'" "\<forall>k \<in> fst ` set es. heap_value h k"
  shows "distinct_keys (equals h') es = distinct_keys (equals h) es"
  using assms(2) by (induction es) (auto simp: equals_same_strings [OF assms(1)])

lemma iterators_finite: "finite {j. iterator_of h a j}"
  by (rule finite_subset [of _ "{..<length h}"]) (auto simp: iterator_of_def get_object_def split: if_splits)

lemma live_iterators_card: "live_iterators h a = card {j. iterator_of h a j}"
proof -
  have "{j. iterator_of h a j} = set (filter (iterator_of h a) [0..<length h])"
    by (auto simp: iterator_of_def get_object_def split: if_splits)
  then show ?thesis unfolding live_iterators_def by (simp add: distinct_card del: set_filter)
qed

lemma ok_map_transfer:
  assumes "same_strings h h'" "live_iterators h' a = live_iterators h a" "object_ok h a (MapObject t es lock)"
  shows "object_ok h' a (MapObject t es lock)"
  using assms by (auto simp: object_ok_def distinct_same_strings [OF assms(1)] same_strings_def)

lemma collections_okD: "collections_ok h \<Longrightarrow> get_object h (V_OBJECT a) = Some ob \<Longrightarrow> object_ok h a ob"
  by (auto simp: collections_ok_def)

text \<open>
  The invariant after a change: objects of the old heap that keep their place, and new ones, are
  checked; a change must not disturb strings, iterators and the size of maps with iterators.
\<close>

lemma collections_ok_change:
  assumes "collections_ok h" "same_strings h h'"
    and iters: "\<And>m. live_iterators h' m = live_iterators h m"
    and maps: "\<And>m. map_at h m \<Longrightarrow> map_at h' m \<and> (live_iterators h m = 0 \<or> map_entries h' m = map_entries h m)"
    and objects: "\<And>a ob. get_object h' (V_OBJECT a) = Some ob \<Longrightarrow>
      get_object h (V_OBJECT a) = Some ob \<or> object_ok h' a ob"
  shows "collections_ok h'"
  unfolding collections_ok_def
proof (intro allI impI)
  fix a ob
  assume ob: "get_object h' (V_OBJECT a) = Some ob"
  show "object_ok h' a ob"
  proof (cases "get_object h (V_OBJECT a) = Some ob")
    case True
    then have ok: "object_ok h a ob" using assms(1) by (rule collections_okD [rotated])
    show ?thesis
    proof (cases ob)
      case (MapObject t es lock)
      then show ?thesis using ok ok_map_transfer [OF assms(2) iters] by simp
    next
      case (MapIterObject t m pos)
      then have m: "map_at h m" "pos \<le> length (map_entries h m)" using ok by (simp_all add: object_ok_def)
      have "live_iterators h m \<noteq> 0"
        using True MapIterObject iterators_finite [of h m]
        by (auto simp: live_iterators_card iterator_of_def)
      then show ?thesis using maps [OF m(1)] m MapIterObject by (auto simp: object_ok_def)
    qed (use ok in \<open>simp_all add: object_ok_def\<close>)
  next
    case False
    then show ?thesis using objects [OF ob] by simp
  qed
qed

subsection \<open>Primitive changes of the heap\<close>

lemma get_update:
  "a < length h \<Longrightarrow> get_object (h[a := x]) (V_OBJECT b) = (if b = a then x else get_object h (V_OBJECT b))"
  by (simp add: get_object_def)

lemma get_append:
  "get_object (h @ [x]) (V_OBJECT b) = (if b = length h then x else get_object h (V_OBJECT b))"
  by (auto simp: get_object_def nth_append)

lemma get_less: "get_object h (V_OBJECT a) = Some ob \<Longrightarrow> a < length h"
  by (auto simp: get_object_def split: if_splits)

definition not_string :: "DSObject option \<Rightarrow> bool" where
  "not_string x \<longleftrightarrow> (\<forall>s. x \<noteq> Some (StringObject s))"

lemma asStrRef_object: "asStrRef_opt h (V_OBJECT a) =
    (case get_object h (V_OBJECT a) of Some (StringObject s) \<Rightarrow> Some s | _ \<Rightarrow> None)"
  by (simp add: asStrRef_opt_def)

lemma same_strings_update:
  assumes "get_object h (V_OBJECT a) = Some old" "not_string (Some old)" "not_string x"
  shows "same_strings h (h[a := x])"
proof -
  have "asStrRef_opt (h[a := x]) v = asStrRef_opt h v" for v
  proof (cases "v = V_OBJECT a")
    case True
    have "asStrRef_opt (h[a := x]) (V_OBJECT a) = None" "asStrRef_opt h (V_OBJECT a) = None"
      using assms get_less [OF assms(1)]
      by (auto simp: asStrRef_object get_update not_string_def split: option.splits DSObject.splits)
    then show ?thesis using True by simp
  qed (rule asStrRef_update)
  then show ?thesis by (auto simp: same_strings_def heap_value_def split: DSValue.splits)
qed

lemma same_strings_append: "same_strings h (h @ [x])"
  by (auto simp: same_strings_def asStrRef_append heap_value_def split: DSValue.splits)

lemma same_strings_trans: "same_strings h h1 \<Longrightarrow> same_strings h1 h2 \<Longrightarrow> same_strings h h2"
  by (simp add: same_strings_def)

text \<open>Objects without a claim on others: arrays within the size limit and plain records.\<close>

definition plain :: "DSObject \<Rightarrow> bool" where
  "plain ob \<longleftrightarrow> (case ob of ArrayObject t vs \<Rightarrow> length vs \<le> ARRAY_MAX | BaseObject t vs \<Rightarrow> True | _ \<Rightarrow> False)"

lemma plain_simps [simp]:
  "plain (ArrayObject t vs) \<longleftrightarrow> length vs \<le> ARRAY_MAX" "plain (BaseObject t vs)"
  "\<not> plain (StringObject s)" "\<not> plain (MapObject t es lock)" "\<not> plain (MapIterObject t m pos)"
  by (simp_all add: plain_def)

inductive prim_step :: "addr option \<Rightarrow> heap \<Rightarrow> heap \<Rightarrow> bool" for it where
  prim_refl: "prim_step it h h"
| prim_update: "get_object h (V_OBJECT a) = Some old \<Longrightarrow> plain old \<Longrightarrow> plain new \<Longrightarrow>
    prim_step it h (h[a := Some new])"
| prim_new: "plain new \<or> new = StringObject s \<Longrightarrow> prim_step it h (h @ [Some new])"
| prim_new_map: "distinct_keys (equals h) es \<Longrightarrow> \<forall>k \<in> fst ` set es. heap_value h k \<Longrightarrow>
    prim_step it h (h @ [Some (MapObject t es 0)])"
| prim_entries: "map_at h a \<Longrightarrow> \<not> locked h a \<Longrightarrow> distinct_keys (equals h) es \<Longrightarrow>
    \<forall>k \<in> fst ` set es. heap_value h k \<Longrightarrow> prim_step it h (put_map h a es (lockCount h a))"
| prim_iter: "map_at h a \<Longrightarrow> prim_step it h (snd (map_iter h a))"
| prim_next: "iterator_at h j \<Longrightarrow> it \<noteq> Some j \<Longrightarrow> iter_at h j = (t, a, pos) \<Longrightarrow>
    pos < length (map_entries h a) \<Longrightarrow> prim_step it h (h[j := Some (MapIterObject t a (pos + 1))])"
| prim_destroy: "iterator_at h j \<Longrightarrow> it \<noteq> Some j \<Longrightarrow> prim_step it h (map_iter_destroy h j)"

lemma plain_ok: "plain ob \<Longrightarrow> object_ok h a ob"
  by (cases ob) (simp_all add: object_ok_def plain_def)

lemma live_iterators_cong:
  "(\<And>j. iterator_of h' a j = iterator_of h a j) \<Longrightarrow> live_iterators h' a = live_iterators h a"
  by (simp add: live_iterators_card)

lemma map_facts:
  assumes "get_object h (V_OBJECT a) = Some (MapObject t es lock)"
  shows "map_at h a" "map_entries h a = es" "lockCount h a = lock" "map_type h a = t" "a < length h"
  using assms get_less [OF assms]
  by (simp_all add: map_at_def map_entries_def lockCount_def map_type_def)

lemma map_facts_cong:
  assumes "get_object h' (V_OBJECT a) = get_object h (V_OBJECT a)"
  shows "map_at h' a = map_at h a" "map_entries h' a = map_entries h a" "lockCount h' a = lockCount h a"
    "iterator_of h' m a = iterator_of h m a"
  using assms by (simp_all add: map_at_def map_entries_def lockCount_def iterator_of_def)

lemma ok_update:
  assumes "collections_ok h" "get_object h (V_OBJECT a) = Some old" "plain old" "plain new"
  shows "collections_ok (h[a := Some new])"
proof (rule collections_ok_change [OF assms(1)])
  let ?h = "h[a := Some new]"
  have a: "a < length h" using assms(2) by (rule get_less)
  show "same_strings h ?h"
    using assms by (intro same_strings_update) (auto simp: not_string_def)
  have other: "b \<noteq> a \<Longrightarrow> get_object ?h (V_OBJECT b) = get_object h (V_OBJECT b)" for b
    using a by (simp add: get_update)
  have "iterator_of ?h m j = iterator_of h m j" for m j
    using assms(2,3,4) a other by (cases "j = a") (auto simp: iterator_of_def get_update)
  then show "live_iterators ?h m = live_iterators h m" for m by (rule live_iterators_cong)
  show "map_at ?h m \<and> (live_iterators h m = 0 \<or> map_entries ?h m = map_entries h m)" if "map_at h m" for m
    using that assms(2,3) map_facts_cong [OF other, of m] by (cases "m = a") (auto simp: map_at_def)
  show "get_object h (V_OBJECT b) = Some ob \<or> object_ok ?h b ob" if "get_object ?h (V_OBJECT b) = Some ob" for b ob
    using that a plain_ok [OF assms(4)] by (auto simp: get_update split: if_splits)
qed

lemma ok_append:
  assumes "collections_ok h" "\<And>m. \<not> iterator_of (h @ [Some new]) m (length h)"
    and "object_ok (h @ [Some new]) (length h) new"
  shows "collections_ok (h @ [Some new])"
proof (rule collections_ok_change [OF assms(1)])
  let ?h = "h @ [Some new]"
  show "same_strings h ?h" by (rule same_strings_append)
  have other: "b \<noteq> length h \<Longrightarrow> get_object ?h (V_OBJECT b) = get_object h (V_OBJECT b)" for b
    by (simp add: get_append)
  have "\<not> iterator_of h m (length h)" for m by (simp add: iterator_of_def get_object_def)
  then have "iterator_of ?h m j = iterator_of h m j" for m j
    using assms(2) map_facts_cong(4) [OF other, of j m] by (cases "j = length h") auto
  then show "live_iterators ?h m = live_iterators h m" for m by (rule live_iterators_cong)
  show "map_at ?h m \<and> (live_iterators h m = 0 \<or> map_entries ?h m = map_entries h m)" if "map_at h m" for m
    using that map_facts_cong [OF other, of m]
    by (cases "m = length h") (auto simp: map_at_def get_object_def)
  show "get_object h (V_OBJECT b) = Some ob \<or> object_ok ?h b ob" if "get_object ?h (V_OBJECT b) = Some ob" for b ob
    using that assms(3) by (auto simp: get_append split: if_splits)
qed

lemma put_map_simps:
  assumes "get_object h (V_OBJECT a) = Some (MapObject t es lock)"
  shows "put_map h a es' lock' = h[a := Some (MapObject t es' lock')]"
  using map_facts [OF assms] by (simp add: put_map_def)

lemma ok_entries:
  assumes "collections_ok h" "map_at h a" "\<not> locked h a" "distinct_keys (equals h) es'"
    and "\<forall>k \<in> fst ` set es'. heap_value h k"
  shows "collections_ok (put_map h a es' (lockCount h a))"
proof -
  obtain t es lock where ob: "get_object h (V_OBJECT a) = Some (MapObject t es lock)"
    using assms(2) by (auto simp: map_at_def)
  note F = map_facts [OF ob]
  have lock: "lock = int (live_iterators h a)"
    using collections_okD [OF assms(1) ob] by (simp add: object_ok_def)
  then have none: "live_iterators h a = 0" using assms(3) F(3) by (simp add: locked_def)
  let ?h = "h[a := Some (MapObject t es' lock)]"
  have same: "same_strings h ?h" using ob by (rule same_strings_update) (simp_all add: not_string_def)
  have other: "b \<noteq> a \<Longrightarrow> get_object ?h (V_OBJECT b) = get_object h (V_OBJECT b)" for b
    using F(5) by (simp add: get_update)
  have "iterator_of ?h m j = iterator_of h m j" for m j
    using ob F(5) other by (cases "j = a") (auto simp: iterator_of_def get_update)
  then have live: "live_iterators ?h m = live_iterators h m" for m by (rule live_iterators_cong)
  have "object_ok h a (MapObject t es' lock)" using assms(4,5) lock by (simp add: object_ok_def)
  then have ok: "object_ok ?h a (MapObject t es' lock)" by (rule ok_map_transfer [OF same live])
  have "collections_ok ?h"
  proof (rule collections_ok_change [OF assms(1) same live])
    show "map_at ?h m \<and> (live_iterators h m = 0 \<or> map_entries ?h m = map_entries h m)" if "map_at h m" for m
      using that none F(5) map_facts_cong [OF other, of m]
      by (cases "m = a") (auto simp: map_at_def get_update)
    show "get_object h (V_OBJECT b) = Some ob \<or> object_ok ?h b ob" if "get_object ?h (V_OBJECT b) = Some ob" for b ob
      using that ok F(5) by (auto simp: get_update split: if_splits)
  qed
  then show ?thesis by (simp add: put_map_simps [OF ob] F)
qed

text \<open>Changes that keep the entries of all maps, but not the number of their iterators.\<close>

lemma collections_ok_iterators:
  assumes "collections_ok h" "same_strings h h'"
    and maps: "\<And>m. map_at h m \<Longrightarrow> map_at h' m \<and> map_entries h' m = map_entries h m"
    and objects: "\<And>a ob. get_object h' (V_OBJECT a) = Some ob \<Longrightarrow>
      get_object h (V_OBJECT a) = Some ob \<and> live_iterators h' a = live_iterators h a \<or> object_ok h' a ob"
  shows "collections_ok h'"
  unfolding collections_ok_def
proof (intro allI impI)
  fix a ob
  assume ob: "get_object h' (V_OBJECT a) = Some ob"
  from objects [OF ob] show "object_ok h' a ob"
  proof
    assume same: "get_object h (V_OBJECT a) = Some ob \<and> live_iterators h' a = live_iterators h a"
    then have ok: "object_ok h a ob" using assms(1) by (auto intro: collections_okD)
    then show ?thesis
    proof (cases ob)
      case (MapObject t es lock)
      then show ?thesis using ok ok_map_transfer [OF assms(2)] same by simp
    next
      case (MapIterObject t m pos)
      then show ?thesis using ok maps [of m] by (simp add: object_ok_def)
    qed (simp_all add: object_ok_def)
  qed
qed

lemma iter_at_iff: "iterator_at h j \<Longrightarrow> iter_at h j = (t, a, pos) \<longleftrightarrow> get_object h (V_OBJECT j) = Some (MapIterObject t a pos)"
  by (auto simp: iterator_at_def iter_at_def)

lemma map_iter_heap:
  assumes "get_object h (V_OBJECT a) = Some (MapObject t es lock)"
  shows "snd (map_iter h a) = h[a := Some (MapObject t es (lock + 1))] @ [Some (MapIterObject t a 0)]"
  using map_facts [OF assms] by (simp add: map_iter_def put_map_simps [OF assms])

lemma ok_iter:
  assumes "collections_ok h" "map_at h a"
  shows "collections_ok (snd (map_iter h a))"
proof -
  obtain t es lock where ob: "get_object h (V_OBJECT a) = Some (MapObject t es lock)"
    using assms(2) by (auto simp: map_at_def)
  note F = map_facts [OF ob]
  let ?g = "h[a := Some (MapObject t es (lock + 1))]"
  let ?h = "?g @ [Some (MapIterObject t a 0)]"
  have get: "get_object ?h (V_OBJECT b) = (if b = length h then Some (MapIterObject t a 0)
    else if b = a then Some (MapObject t es (lock + 1)) else get_object h (V_OBJECT b))" for b
    using F(5) by (simp add: get_append get_update)
  have fresh: "get_object h (V_OBJECT (length h)) = None" by (simp add: get_object_def)
  have same: "same_strings h ?h"
    using same_strings_trans [OF same_strings_update [OF ob] same_strings_append] by (simp add: not_string_def)
  have iters: "{j. iterator_of ?h m j} = (if m = a then insert (length h) {j. iterator_of h m j} else {j. iterator_of h m j})" for m
    using ob fresh by (auto simp: iterator_of_def get split: if_splits)
  have live: "live_iterators ?h m = (if m = a then live_iterators h m + 1 else live_iterators h m)" for m
  proof -
    have "\<not> iterator_of h a (length h)" using fresh by (simp add: iterator_of_def)
    then show ?thesis by (simp add: live_iterators_card iters iterators_finite)
  qed
  have maps: "map_at ?h m \<and> map_entries ?h m = map_entries h m" if "map_at h m" for m
    using that fresh F by (cases "m = a") (auto simp: map_at_def map_entries_def get)
  have old: "object_ok h a (MapObject t es lock)" by (rule collections_okD [OF assms(1) ob])
  then have "lock + 1 = int (live_iterators ?h a)" using live [of a] by (simp add: object_ok_def)
  then have ok: "object_ok ?h a (MapObject t es (lock + 1))"
    using same distinct_same_strings [OF same, of es] old by (auto simp: object_ok_def same_strings_def)
  have "collections_ok ?h"
  proof (rule collections_ok_iterators [OF assms(1) same maps])
    fix b ob
    assume b: "get_object ?h (V_OBJECT b) = Some ob"
    show "get_object h (V_OBJECT b) = Some ob \<and> live_iterators ?h b = live_iterators h b \<or> object_ok ?h b ob"
      using b ok maps [OF assms(2)] live [of b] by (auto simp: get object_ok_def split: if_splits)
  qed
  then show ?thesis by (simp add: map_iter_heap [OF ob])
qed

lemma ok_next:
  assumes "collections_ok h" "iterator_at h j" "iter_at h j = (t, a, pos)" "pos < length (map_entries h a)"
  shows "collections_ok (h[j := Some (MapIterObject t a (pos + 1))])"
proof -
  let ?h = "h[j := Some (MapIterObject t a (pos + 1))]"
  have ob: "get_object h (V_OBJECT j) = Some (MapIterObject t a pos)" using assms(2,3) iter_at_iff by blast
  have j: "j < length h" using ob by (rule get_less)
  have same: "same_strings h ?h" using ob by (rule same_strings_update) (simp_all add: not_string_def)
  have other: "b \<noteq> j \<Longrightarrow> get_object ?h (V_OBJECT b) = get_object h (V_OBJECT b)" for b
    using j by (simp add: get_update)
  have "iterator_of ?h m b = iterator_of h m b" for m b
    using ob j other by (cases "b = j") (auto simp: iterator_of_def get_update)
  then have live: "live_iterators ?h m = live_iterators h m" for m by (rule live_iterators_cong)
  have maps: "map_at ?h m \<and> map_entries ?h m = map_entries h m" if "map_at h m" for m
    using that ob map_facts_cong [OF other, of m] by (cases "m = j") (auto simp: map_at_def)
  have "map_at h a" using collections_okD [OF assms(1) ob] by (simp add: object_ok_def)
  then show ?thesis
    using assms(4) live maps j
    by (intro collections_ok_iterators [OF assms(1) same maps]) (auto simp: get_update object_ok_def split: if_splits)
qed

lemma ok_destroy:
  assumes "collections_ok h" "iterator_at h j"
  shows "collections_ok (map_iter_destroy h j)"
proof -
  obtain t a pos where j: "get_object h (V_OBJECT j) = Some (MapIterObject t a pos)"
    using assms(2) by (auto simp: iterator_at_def)
  have "map_at h a" using collections_okD [OF assms(1) j] by (simp add: object_ok_def)
  then obtain u es lock where ob: "get_object h (V_OBJECT a) = Some (MapObject u es lock)"
    by (auto simp: map_at_def)
  note F = map_facts [OF ob]
  have ne: "a \<noteq> j" using j ob by auto
  let ?g = "h[a := Some (MapObject u es (lock - 1))]"
  let ?h = "?g[j := None]"
  have eq: "map_iter_destroy h j = ?h"
    using assms(2) j iter_at_iff by (simp add: map_iter_destroy_def put_map_simps [OF ob] F iter_at_def)
  have get: "get_object ?h (V_OBJECT b) = (if b = j then None
    else if b = a then Some (MapObject u es (lock - 1)) else get_object h (V_OBJECT b))" for b
    using F(5) get_less [OF j] by (simp add: get_update)
  have g: "get_object ?g (V_OBJECT j) = Some (MapIterObject t a pos)" using ne j F(5) by (simp add: get_update)
  have same: "same_strings h ?h"
    using same_strings_trans [OF same_strings_update [OF ob] same_strings_update [OF g]]
    by (simp add: not_string_def)
  have iters: "{b. iterator_of ?h m b} = (if m = a then {b. iterator_of h m b} - {j} else {b. iterator_of h m b})" for m
    using ob j by (auto simp: iterator_of_def get split: if_splits)
  have in_j: "iterator_of h a j" using j by (simp add: iterator_of_def)
  then have pos: "0 < live_iterators h a"
    using iterators_finite [of h a] by (auto simp: live_iterators_card card_gt_0_iff)
  have live: "live_iterators ?h m = (if m = a then live_iterators h m - 1 else live_iterators h m)" for m
    using in_j by (simp add: live_iterators_card iters iterators_finite)
  have maps: "map_at ?h m \<and> map_entries ?h m = map_entries h m" if "map_at h m" for m
    using that j F by (cases "m = a") (auto simp: map_at_def map_entries_def get ne)
  have old: "object_ok h a (MapObject u es lock)" by (rule collections_okD [OF assms(1) ob])
  then have "lock - 1 = int (live_iterators ?h a)" using pos live [of a] by (simp add: object_ok_def)
  then have ok: "object_ok ?h a (MapObject u es (lock - 1))"
    using same distinct_same_strings [OF same, of es] old by (auto simp: object_ok_def same_strings_def)
  have "collections_ok ?h"
  proof (rule collections_ok_iterators [OF assms(1) same maps])
    fix b ob
    assume b: "get_object ?h (V_OBJECT b) = Some ob"
    show "get_object h (V_OBJECT b) = Some ob \<and> live_iterators ?h b = live_iterators h b \<or> object_ok ?h b ob"
      using b ok live [of b] by (auto simp: get split: if_splits)
  qed
  then show ?thesis by (simp add: eq)
qed

lemma prim_ok:
  assumes "prim_step it h h'" "collections_ok h"
  shows "collections_ok h'"
  using assms
proof cases
  case (prim_new new s)
  have ok: "object_ok (h @ [Some new]) (length h) new"
    using prim_new(2) by (elim disjE) (simp_all add: plain_ok, simp add: object_ok_def)
  have "\<not> iterator_of (h @ [Some new]) m (length h)" for m
    using prim_new by (auto simp: iterator_of_def get_append)
  then show ?thesis unfolding prim_new using ok by (intro ok_append [OF assms(2)])
next
  case (prim_new_map es t)
  let ?h = "h @ [Some (MapObject t es 0)]"
  have iters: "\<not> iterator_of ?h m (length h)" for m by (simp add: iterator_of_def get_append)
  have "\<not> iterator_of h (length h) j" for j
  proof
    assume "iterator_of h (length h) j"
    then obtain t pos where "get_object h (V_OBJECT j) = Some (MapIterObject t (length h) pos)"
      by (auto simp: iterator_of_def)
    then have "map_at h (length h)" using collections_okD [OF assms(2)] by (fastforce simp: object_ok_def)
    then show False by (simp add: map_at_def get_object_def)
  qed
  then have "\<not> iterator_of ?h (length h) j" for j
    using iters by (cases "j = length h") (auto simp: iterator_of_def get_append)
  then have "live_iterators ?h (length h) = 0" by (simp add: live_iterators_card)
  then have "object_ok ?h (length h) (MapObject t es 0)"
    using prim_new_map(2,3) distinct_same_strings [OF same_strings_append prim_new_map(3)]
    by (auto simp: object_ok_def heap_value_def split: DSValue.splits)
  then show ?thesis unfolding prim_new_map(1) by (intro ok_append [OF assms(2) iters])
next
  case (prim_next j t a pos)
  then show ?thesis using ok_next [OF assms(2)] by simp
qed (auto intro: ok_update ok_entries ok_iter ok_destroy)

subsection \<open>An iteration is not disturbed\<close>

text \<open>The iterator \<open>i\<close> over the entries \<open>es\<close> of a map, about to give the entry at \<open>pos\<close>.\<close>

definition iterating :: "heap \<Rightarrow> addr \<Rightarrow> entries \<Rightarrow> nat \<Rightarrow> bool" where
  "iterating h i es pos \<longleftrightarrow>
     (\<exists>t m. get_object h (V_OBJECT i) = Some (MapIterObject t m pos) \<and> map_entries h m = es)"

lemma iterating_locked:
  assumes "collections_ok h" "get_object h (V_OBJECT i) = Some (MapIterObject t m pos)"
  shows "map_at h m" "locked h m" "pos \<le> length (map_entries h m)"
proof -
  have ok: "map_at h m" "pos \<le> length (map_entries h m)"
    using collections_okD [OF assms] by (simp_all add: object_ok_def)
  then show "map_at h m" "pos \<le> length (map_entries h m)" by simp_all
  obtain u es lock where ob: "get_object h (V_OBJECT m) = Some (MapObject u es lock)"
    using ok(1) by (auto simp: map_at_def)
  have "0 < live_iterators h m"
    using assms(2) iterators_finite [of h m] by (auto simp: live_iterators_card card_gt_0_iff iterator_of_def)
  then show "locked h m"
    using collections_okD [OF assms(1) ob] map_facts [OF ob] by (simp add: object_ok_def locked_def)
qed

lemma map_entries_cong:
  "get_object h' (V_OBJECT m) = get_object h (V_OBJECT m) \<Longrightarrow> map_entries h' m = map_entries h m"
  by (simp add: map_entries_def)

lemma prim_iterating:
  assumes "prim_step (Some i) h h'" "collections_ok h" "iterating h i es pos"
  shows "iterating h' i es pos"
proof -
  obtain t m where i: "get_object h (V_OBJECT i) = Some (MapIterObject t m pos)" "map_entries h m = es"
    using assms(3) by (auto simp: iterating_def)
  note L = iterating_locked [OF assms(2) i(1)]
  obtain u es' lock where m: "get_object h (V_OBJECT m) = Some (MapObject u es' lock)"
    using L(1) by (auto simp: map_at_def)
  have less: "i < length h" "m < length h" using i m by (auto dest: get_less)
  have keep: "iterating h' i es pos"
    if "get_object h' (V_OBJECT i) = get_object h (V_OBJECT i)" "map_entries h' m = map_entries h m"
    using that i by (auto simp: iterating_def)
  have entries: "map_entries (h[a := Some (MapObject v (map_entries h a) l)]) m = map_entries h m"
    if "map_at h a" for a v l
    using that less by (auto simp: map_entries_def get_update map_at_def dest: get_less)
  show ?thesis
    using assms(1)
  proof cases
    case prim_refl
    then show ?thesis using assms(3) by simp
  next
    case (prim_update a old new)
    then have "a \<noteq> i" "a \<noteq> m" using i(1) m by auto
    then show ?thesis
      using prim_update get_less [OF prim_update(2)] by (intro keep map_entries_cong) (simp_all add: get_update)
  next
    case (prim_new new s)
    then show ?thesis using less by (intro keep map_entries_cong) (simp_all add: get_append)
  next
    case (prim_new_map es t)
    then show ?thesis using less by (intro keep map_entries_cong) (simp_all add: get_append)
  next
    case (prim_entries a es'')
    then obtain v as l where a: "get_object h (V_OBJECT a) = Some (MapObject v as l)" by (auto simp: map_at_def)
    then have "a \<noteq> i" "a \<noteq> m" using i(1) L(2) prim_entries(3) by auto
    then show ?thesis
      using prim_entries(1) get_less [OF a]
      by (intro keep map_entries_cong) (simp_all add: put_map_simps [OF a] get_update)
  next
    case (prim_iter a)
    then obtain v as l where a: "get_object h (V_OBJECT a) = Some (MapObject v as l)" by (auto simp: map_at_def)
    then have "a \<noteq> i" using i(1) by auto
    moreover have "map_entries h' m = map_entries h m"
      using entries [OF prim_iter(2), of v "l + 1"] map_facts [OF a] less
      by (simp add: prim_iter(1) map_iter_heap [OF a] map_entries_def get_append)
    ultimately show ?thesis
      using get_less [OF a] less
      by (intro keep) (simp_all add: prim_iter(1) map_iter_heap [OF a] get_append get_update)
  next
    case (prim_next j t' a' pos')
    then have "j \<noteq> i" "j \<noteq> m" "j < length h" using m by (auto simp: iterator_at_def dest: get_less)
    then show ?thesis using prim_next(1) by (intro keep map_entries_cong) (simp_all add: get_update)
  next
    case (prim_destroy j)
    then obtain t' a' pos' where j: "get_object h (V_OBJECT j) = Some (MapIterObject t' a' pos')"
      by (auto simp: iterator_at_def)
    have ne: "j \<noteq> i" "j \<noteq> m" "j < length h" using prim_destroy(3) m j by (auto dest: get_less)
    have "map_at h a'" using iterating_locked [OF assms(2) j] by simp
    then obtain v as l where a: "get_object h (V_OBJECT a') = Some (MapObject v as l)" by (auto simp: map_at_def)
    have "a' \<noteq> i" using a i(1) by auto
    have h': "h' = (h[a' := Some (MapObject v (map_entries h a') (l - 1))])[j := None]"
      using prim_destroy(1) j map_facts [OF a] by (simp add: map_iter_destroy_def iter_at_def put_map_simps [OF a])
    have "map_entries h' m = map_entries (h[a' := Some (MapObject v (map_entries h a') (l - 1))]) m"
      using ne by (intro map_entries_cong) (simp add: h' get_update)
    then have "map_entries h' m = map_entries h m" using entries [OF \<open>map_at h a'\<close>] by simp
    then show ?thesis
      using ne \<open>a' \<noteq> i\<close> get_less [OF a] by (intro keep) (simp_all add: h' get_update)
  qed
qed

subsection \<open>The methods as primitive changes\<close>

definition array_changed :: "heap \<Rightarrow> addr \<Rightarrow> heap \<Rightarrow> bool" where
  "array_changed h a h' \<longleftrightarrow> h' = h \<or> (\<exists>vs. length vs \<le> ARRAY_MAX \<and> h' = refValues h a vs)"

lemma array_changed_cases [simp]:
  "array_changed h a h" "length vs \<le> ARRAY_MAX \<Longrightarrow> array_changed h a (refValues h a vs)"
  by (auto simp: array_changed_def)

lemma array_changed_trans:
  assumes "array_changed (refValues h a vs) a h'" "length vs \<le> ARRAY_MAX" "a < length h"
  shows "array_changed h a h'"
proof -
  from assms(1) consider "h' = refValues h a vs" | ws where "length ws \<le> ARRAY_MAX" "h' = refValues h a ws"
    using assms(3) by (auto simp: array_changed_def)
  then show ?thesis using assms(2) by cases simp_all
qed

lemma array_changed_prim: "array_at h a \<Longrightarrow> array_changed h a h' \<Longrightarrow> prim_step it h h'"
  unfolding array_changed_def refValues_def
  by (auto simp: array_at_def intro!: prim_refl prim_update)

lemma array_insertImpl_changed:
  "array_at h a \<Longrightarrow> array_changed h a (snd (array_insertImpl h a i v))"
  using array_atD [of h a]
  by (auto simp: array_insertImpl_spec Let_def)

lemma extend_loop_changed: "array_at h a \<Longrightarrow> array_changed h a (snd (extend_loop h a b is))"
proof (induction "is" arbitrary: h)
  case Nil
  then show ?case by (simp add: array_changed_def)
next
  case (Cons i "is")
  have a: "a < length h" "length (array_values h a) \<le> ARRAY_MAX" using array_atD [OF Cons.prems] by auto
  show ?case
  proof (cases "length (array_values h a) = ARRAY_MAX")
    case True
    then show ?thesis by (simp add: array_changed_def)
  next
    case False
    let ?vs = "array_values h a @ [array_values h b ! i]"
    have len: "length ?vs \<le> ARRAY_MAX" using a False by simp
    then have "array_changed (refValues h a ?vs) a (snd (extend_loop (refValues h a ?vs) a b is))"
      using a by (intro Cons.IH array_at_refValues)
    then show ?thesis using False array_changed_trans [OF _ len a(1)] by simp
  qed
qed

lemma snd_returning [simp]: "snd (returning r v) = snd r"
  by (simp add: returning_def)

lemma array_steps_changed:
  assumes "array_at h a"
  shows "array_changed h a (snd (array_set h a i v))" "array_changed h a (snd (array_remove h a i))"
    "array_changed h a (snd (array_insert h a i v))" "array_changed h a (snd (array_push h a v))"
    "array_changed h a (snd (array_unshift h a v))" "array_changed h a (snd (array_pop h a))"
    "array_changed h a (snd (array_shift h a))" "array_changed h a (snd (array_extend h a b))"
    "array_changed h a (snd (array_swap h a i v))" "array_changed h a (snd (array_reverse h a))"
    "array_changed h a (snd (array_clear h a))"
proof -
  note insert = array_insertImpl_changed [OF assms]
  have len: "length (array_values h a) \<le> ARRAY_MAX" using array_atD [OF assms] by simp
  show "array_changed h a (snd (array_insert h a i v))" "array_changed h a (snd (array_push h a v))"
    "array_changed h a (snd (array_unshift h a v))"
    by (simp_all add: array_insert_def array_push_def array_pushImpl_def array_unshift_def insert)
  show "array_changed h a (snd (array_extend h a b))"
    using extend_loop_changed [OF assms] by (simp add: array_extend_def array_changed_def)
  show "array_changed h a (snd (array_set h a i v))" "array_changed h a (snd (array_remove h a i))"
    "array_changed h a (snd (array_swap h a i v))"
    using len unfolding array_set_def array_remove_def array_swap_def resolve_array [OF assms]
    by (auto simp: Let_def)
  show "array_changed h a (snd (array_pop h a))" "array_changed h a (snd (array_shift h a))"
    "array_changed h a (snd (array_reverse h a))" "array_changed h a (snd (array_clear h a))"
    using len by (auto simp: array_pop_def array_shift_def array_reverse_def array_clear_def
        split: sum.splits)
qed

lemma new_array_prim:
  assumes "array_at h a"
  shows "prim_step it h (snd (array_slice h a i j))" "prim_step it h (snd (array_copy h a))"
    "prim_step it h (snd (array_iter h a))"
proof -
  have len: "length (take m (drop n (array_values h a))) \<le> ARRAY_MAX" for m n
    using array_atD [OF assms] by (auto simp: min_def)
  show "prim_step it h (snd (array_slice h a i j))"
    using len by (auto simp: array_slice_def new_array_def split: sum.splits intro!: prim_refl prim_new)
  show "prim_step it h (snd (array_copy h a))"
    using array_atD [OF assms] by (auto simp: array_copy_def new_array_def intro!: prim_new)
  show "prim_step it h (snd (array_iter h a))" by (auto simp: array_iter_def intro!: prim_new)
qed

lemma array_next_prim: "array_iterator_at h j \<Longrightarrow> prim_step it h (snd (array_next h j))"
  by (auto simp: array_iterator_at_def array_next_def iter_fields_def Let_def intro!: prim_refl prim_update)

lemma keys_after:
  "fst ` set (assign_entry eq es k v) = fst ` set es"
  "set (erase_entry eq es k) \<subseteq> set es"
  by (induction es) auto

lemma map_invariant:
  assumes "collections_ok h" "map_at h a"
  shows "distinct_keys (equals h) (map_entries h a)" "\<forall>k \<in> fst ` set (map_entries h a). heap_value h k"
proof -
  obtain t es lock where ob: "get_object h (V_OBJECT a) = Some (MapObject t es lock)"
    using assms(2) by (auto simp: map_at_def)
  show "distinct_keys (equals h) (map_entries h a)" "\<forall>k \<in> fst ` set (map_entries h a). heap_value h k"
    using collections_okD [OF assms(1) ob] map_facts [OF ob] by (auto simp: object_ok_def)
qed

text \<open>A change of the entries after the check of the lock.\<close>

lemma unless_locked_prim:
  assumes "map_at h a" "snd r = h \<or> (\<exists>es. snd r = put_map h a es (lockCount h a)
    \<and> distinct_keys (equals h) es \<and> (\<forall>k \<in> fst ` set es. heap_value h k))"
  shows "prim_step it h (snd (unless_locked h a r))"
  using assms by (auto simp: unless_locked_def intro!: prim_refl prim_entries)

lemma emplace_keys:
  assumes "\<And>es. mset (arrange es) = mset es"
  shows "fst ` set (fst (MapObject_set eq arrange es k v)) \<subseteq> insert k (fst ` set es)"
    "fst ` set (fst (MapObject_setDefault eq arrange es k v)) \<subseteq> insert k (fst ` set es)"
  using mset_eq_setD [OF assms, of "es @ [(k, v)]"]
  by (auto simp: MapObject_set_def MapObject_setDefault_def emplace_def Let_def keys_after)

lemma map_steps_prim:
  assumes ok: "collections_ok h" and a: "map_at h a"
  shows "heap_value h k \<Longrightarrow> (\<And>es. mset (arrange es) = mset es) \<Longrightarrow> prim_step it h (snd (map_set arrange h a k v))"
    "heap_value h k \<Longrightarrow> (\<And>es. mset (arrange es) = mset es) \<Longrightarrow> prim_step it h (snd (map_put arrange h a k v))"
    "heap_value h k \<Longrightarrow> (\<And>es. mset (arrange es) = mset es) \<Longrightarrow> prim_step it h (snd (map_default arrange h a k v))"
    "prim_step it h (snd (map_remove h a k))" "prim_step it h (snd (map_swap env h a k v))"
    "prim_step it h (snd (map_clear h a))"
    "(\<And>es. mset (arrange es) = mset es) \<Longrightarrow> prim_step it h (snd (map_copy arrange h a))"
proof -
  note I = map_invariant [OF ok a]
  show "prim_step it h (snd (map_set arrange h a k v))" "prim_step it h (snd (map_put arrange h a k v))"
    if k: "heap_value h k" and arr: "\<And>es. mset (arrange es) = mset es"
  proof -
    obtain es old where r: "MapObject_set (equals h) arrange (map_entries h a) k v = (es, old)" by fastforce
    have d: "distinct_keys (equals h) es" by (rule keys.set_lookup(1) [OF I(1) arr r])
    have "fst ` set es \<subseteq> insert k (fst ` set (map_entries h a))"
      using emplace_keys(1) [OF arr, of "equals h" "map_entries h a" k v] unfolding r fst_conv .
    then have keys: "\<forall>k \<in> fst ` set es. heap_value h k" using I(2) k by blast
    show "prim_step it h (snd (map_set arrange h a k v))" "prim_step it h (snd (map_put arrange h a k v))"
      unfolding map_set_def map_put_def r
      using d keys by (auto intro!: unless_locked_prim [OF a] exI [of _ es])
  qed
  show "prim_step it h (snd (map_default arrange h a k v))"
    if k: "heap_value h k" and arr: "\<And>es. mset (arrange es) = mset es"
  proof -
    obtain es w where r: "MapObject_setDefault (equals h) arrange (map_entries h a) k v = (es, w)" by fastforce
    have d: "distinct_keys (equals h) es" by (rule keys.setDefault_lookup(1) [OF I(1) arr r])
    have "fst ` set es \<subseteq> insert k (fst ` set (map_entries h a))"
      using emplace_keys(2) [OF arr, of "equals h" "map_entries h a" k v] unfolding r fst_conv .
    then have "\<forall>k \<in> fst ` set es. heap_value h k" using I(2) k by blast
    then show ?thesis unfolding map_default_def r using d by (auto intro!: unless_locked_prim [OF a] exI [of _ es])
  qed
  show "prim_step it h (snd (map_remove h a k))"
  proof -
    obtain es b where r: "MapObject_remove (equals h) (map_entries h a) k = (es, b)" by fastforce
    have "set es \<subseteq> set (map_entries h a)" 
      using r keys_after(2) [of "equals h" "map_entries h a" k]
      by (cases "find_entry (equals h) (map_entries h a) k = None") (simp_all add: MapObject_remove_def)
    then have "distinct_keys (equals h) es" "\<forall>k \<in> fst ` set es. heap_value h k"
      using keys.remove_lookup(1) [OF I(1) r] I(2) by auto
    then show ?thesis unfolding map_remove_def r by (auto intro!: unless_locked_prim [OF a] exI [of _ es])
  qed
  show "prim_step it h (snd (map_swap env h a k v))"
  proof (cases "MapObject_trySwap (equals h) (map_entries h a) k v")
    case None
    then show ?thesis unfolding map_swap_def by (auto intro!: unless_locked_prim [OF a])
  next
    case (Some r)
    obtain es old where r: "r = (es, old)" by fastforce
    have "es = assign_entry (equals h) (map_entries h a) k v"
      using Some r by (simp add: MapObject_trySwap_def split: option.splits)
    then have "fst ` set es = fst ` set (map_entries h a)" by (simp only: keys_after(1))
    then have "distinct_keys (equals h) es" "\<forall>k \<in> fst ` set es. heap_value h k"
      using keys.trySwap_lookup(1) [OF I(1) Some [unfolded r]] I(2) by auto
    then show ?thesis unfolding map_swap_def Some r by (auto intro!: unless_locked_prim [OF a] exI [of _ es])
  qed
  show "prim_step it h (snd (map_clear h a))"
    unfolding map_clear_def by (intro unless_locked_prim [OF a] disjI2 exI [of _ "[]"]) simp
  show "prim_step it h (snd (map_copy arrange h a))" if arr: "\<And>es. mset (arrange es) = mset es"
    using I keys.distinct_keys_mset [OF arr, of h "map_entries h a"] mset_eq_setD [OF arr, of "map_entries h a"]
    by (auto simp: map_copy_def intro!: prim_new_map)
qed

lemma map_next_result:
  assumes "collections_ok h" "get_object h (V_OBJECT j) = Some (MapIterObject t a pos)"
  shows "if pos < length (map_entries h a)
    then (let (k, v) = map_entries h a ! pos in
      map_next pt h j = (Inr (V_OBJECT (length h)),
        h[j := Some (MapIterObject t a (pos + 1))] @ [Some (BaseObject (pt k v) [k, v])]))
    else map_next pt h j = (Inl (raiseOutOfRangeError ''map iterator has already reached end''), h)"
  using iterating_locked(3) [OF assms] assms(2)
  by (auto simp: map_next_def map_hasNext_def iter_at_def split: prod.splits)

lemma map_next_prims:
  assumes "collections_ok h" "iterator_at h j" "it \<noteq> Some j"
  shows "\<exists>h1. prim_step it h h1 \<and> prim_step it h1 (snd (map_next pt h j))"
proof -
  obtain t a pos where j: "get_object h (V_OBJECT j) = Some (MapIterObject t a pos)"
    using assms(2) by (auto simp: iterator_at_def)
  note next' = map_next_result [OF assms(1) j, of pt]
  show ?thesis
  proof (cases "pos < length (map_entries h a)")
    case True
    obtain k v where "map_entries h a ! pos = (k, v)" by fastforce
    then have "snd (map_next pt h j) = h[j := Some (MapIterObject t a (pos + 1))] @ [Some (BaseObject (pt k v) [k, v])]"
      using next' True by simp
    moreover have "prim_step it h (h[j := Some (MapIterObject t a (pos + 1))])"
      using assms j True by (intro prim_next) (simp_all add: iter_at_def)
    ultimately show ?thesis by (auto intro!: prim_new)
  next
    case False
    then show ?thesis using next' by (auto intro: prim_refl)
  qed
qed

text \<open>Every step of a program is one or two primitive changes.\<close>

lemma step_prims:
  assumes "collection_step it h h'" "collections_ok h"
  shows "\<exists>h1. prim_step it h h1 \<and> prim_step it h1 h'"
  using assms
proof cases
  case (step_map_next j pt)
  then show ?thesis using map_next_prims [OF assms(2)] by simp
qed (blast intro: prim_refl array_changed_prim array_steps_changed new_array_prim array_next_prim
    map_steps_prim [OF assms(2)] prim_iter prim_destroy prim_new)+

lemma step_ok: "collection_step it h h' \<Longrightarrow> collections_ok h \<Longrightarrow> collections_ok h'"
  using step_prims prim_ok by blast

lemma step_iterating:
  "collection_step (Some i) h h' \<Longrightarrow> collections_ok h \<Longrightarrow> iterating h i es pos \<Longrightarrow> iterating h' i es pos"
  using step_prims prim_ok prim_iterating by metis

section \<open>Properties\<close>

text \<open>
  [C30] All methods of arrays and maps keep the invariant of the heap: arrays stay within their size
  limit, no map has two equal keys, the lock count of a map is the number of its live iterators,
  and every iterator points into an existing map.
\<close>

theorem collections_invariant:
  assumes "(collection_step None)\<^sup>*\<^sup>* h h'" "collections_ok h"
  shows "collections_ok h'"
  using assms by (induction rule: rtranclp_induct) (blast intro: step_ok)+

text \<open>
  An iteration over a map: calls of \<open>map_next\<close> on the iterator, with the entries they gave, between any
  other steps.
\<close>

inductive iteration ::
  "(DSValue \<Rightarrow> DSValue \<Rightarrow> nat) \<Rightarrow> addr \<Rightarrow> heap \<Rightarrow> entries \<Rightarrow> heap \<Rightarrow> bool"
  for pt i h where
  iteration_start: "iteration pt i h [] h"
| iteration_other: "iteration pt i h out h1 \<Longrightarrow> collection_step (Some i) h1 h2 \<Longrightarrow> iteration pt i h out h2"
| iteration_next: "iteration pt i h out h1 \<Longrightarrow> map_next pt h1 i = (Inr (V_OBJECT p), h2) \<Longrightarrow>
    get_object h2 (V_OBJECT p) = Some (BaseObject t [k, v]) \<Longrightarrow> iteration pt i h (out @ [(k, v)]) h2"

lemma iteration_invariant:
  assumes "iteration pt i h out h'" "collections_ok h" "iterating h i es 0"
  shows "collections_ok h' \<and> iterating h' i es (length out) \<and> out = take (length out) es \<and> length out \<le> length es"
  using assms(1)
proof induction
  case iteration_start
  then show ?case using assms by simp
next
  case (iteration_other out h1 h2)
  then show ?case using step_ok step_iterating by blast
next
  case (iteration_next out h1 p h2 t k v)
  then obtain u m where i: "get_object h1 (V_OBJECT i) = Some (MapIterObject u m (length out))"
    and es: "map_entries h1 m = es" by (auto simp: iterating_def)
  have ok: "collections_ok h1" using iteration_next by simp
  note N = map_next_result [OF ok i, of pt]
  have pos: "length out < length es"
    using N iteration_next(2) es by (auto split: if_splits)
  obtain k' v' where e: "es ! length out = (k', v')" by fastforce
  have p: "p = length h1" and h2: "h2 = h1[i := Some (MapIterObject u m (length out + 1))] @ [Some (BaseObject (pt k' v') [k', v'])]"
    using N iteration_next(2) es e pos by auto
  have kv: "k = k'" "v = v'" using iteration_next(3) by (simp_all add: p h2 get_append)
  have "i < length h1" "m < length h1" "m \<noteq> i"
    using iterating_locked(1) [OF ok i] i by (auto simp: map_at_def dest: get_less)
  then have "iterating h2 i es (length (out @ [(k, v)]))"
    using es by (auto simp: iterating_def h2 get_append get_update map_entries_def)
  moreover have "collections_ok h2"
  proof -
    have "prim_step None h1 (h1[i := Some (MapIterObject u m (length out + 1))])"
      using i pos es by (intro prim_next) (auto simp: iterator_at_def iter_at_def)
    moreover have "prim_step None (h1[i := Some (MapIterObject u m (length out + 1))]) h2"
      unfolding h2 by (rule prim_new) simp
    ultimately show ?thesis using prim_ok ok by blast
  qed
  moreover have "out @ [(k, v)] = take (length (out @ [(k, v)])) es"
    using iteration_next.IH pos e kv by (simp add: take_Suc_conv_app_nth)
  ultimately show ?case using pos by simp
qed

lemma map_iter_iterating:
  assumes "map_at h a"
  shows "iterating (snd (map_iter h a)) (length h) (map_entries h a) 0"
proof -
  obtain t es lock where ob: "get_object h (V_OBJECT a) = Some (MapObject t es lock)"
    using assms by (auto simp: map_at_def)
  then show ?thesis
    using map_facts [OF ob]
    by (auto simp: iterating_def map_iter_heap [OF ob] get_append get_update map_entries_def)
qed

text \<open>
  [C31] An iteration over a map is not disturbed by anything else the program does to arrays and maps,
  including attempts to change the map and other iterations over it: the entries given so far
  are the first ones of the map as it was when the iteration began, in its order, and the
  iterator has no next entry exactly when all of them were given.
\<close>

theorem map_iteration_undisturbed:
  assumes "collections_ok h" "map_at h a" "iteration pt (length h) (snd (map_iter h a)) out h'"
  shows "out = take (length out) (map_entries h a)
    \<and> map_hasNext h' (length h) = (out \<noteq> map_entries h a)"
proof -
  note I = iteration_invariant [OF assms(3) ok_iter [OF assms(1,2)] map_iter_iterating [OF assms(2)]]
  then obtain t m where i: "get_object h' (V_OBJECT (length h)) = Some (MapIterObject t m (length out))"
    and m: "map_entries h' m = map_entries h a" by (auto simp: iterating_def)
  have "map_hasNext h' (length h) = (length out \<noteq> length (map_entries h a))"
    by (simp add: map_hasNext_def iter_at_def i m)
  then show ?thesis using I by (metis take_all_iff le_refl)
qed


text \<open>What a key is mapped to.\<close>

definition map_lookup :: "heap \<Rightarrow> addr \<Rightarrow> DSValue \<Rightarrow> DSValue option" where
  "map_lookup h a key = lookup_entry (equals h) (map_entries h a) key"

lemma entries_put_map [simp]:
  "map_at h a \<Longrightarrow> map_entries (put_map h a es lock) a = es"
  by (auto simp: map_at_def map_entries_def put_map_def get_update dest: get_less)

lemma find_entry_cong:
  "(\<And>e. e \<in> fst ` set es \<Longrightarrow> eq' e k = eq e k) \<Longrightarrow> find_entry eq' es k = find_entry eq es k"
proof (induction es)
  case Nil
  then show ?case by (simp add: find_entry_def)
next
  case (Cons e es)
  then show ?case by (simp add: find_entry_Cons)
qed

lemma lookup_put_map:
  assumes "map_at h a" "\<forall>e \<in> fst ` set es. heap_value h e" "heap_value h k"
  shows "map_lookup (put_map h a es lock) a k = lookup_entry (equals h) es k"
proof -
  obtain t es0 l where ob: "get_object h (V_OBJECT a) = Some (MapObject t es0 l)"
    using assms(1) by (auto simp: map_at_def)
  have "same_strings h (put_map h a es lock)"
    unfolding put_map_simps [OF ob] using ob by (rule same_strings_update) (simp_all add: not_string_def)
  then have "equals (put_map h a es lock) e k = equals h e k" if "e \<in> fst ` set es" for e
    using that assms(2,3) by (intro equals_same_strings) auto
  then have "find_entry (equals (put_map h a es lock)) es k = find_entry (equals h) es k"
    by (rule find_entry_cong)
  then show ?thesis using assms(1) by (simp add: map_lookup_def lookup_entry_def)
qed

text \<open>
  [C29] The methods of a map that no iteration goes over are those of a finite map: \<open>set\<close> and \<open>put\<close> map the
  key to the value, \<open>put\<close> giving the old value, \<open>default\<close> only if it is not mapped, \<open>remove\<close> unmaps it
  and tells whether it was mapped; keys are compared by \<open>equals\<close>. While an iteration goes over the map
  each of them is an \<open>InvalidOperationError\<close> that changes nothing.
\<close>

theorem map_methods_update:
  assumes "collections_ok h" "map_at h a" "heap_value h k" "heap_value h k'" "\<And>es. mset (arrange es) = mset es"
  shows "if locked h a then
      map_set arrange h a k v = (Inl raiseIterInvalid, h) \<and> map_put arrange h a k v = (Inl raiseIterInvalid, h)
    \<and> map_default arrange h a k v = (Inl raiseIterInvalid, h) \<and> map_remove h a k = (Inl raiseIterInvalid, h)
    \<and> map_swap env h a k v = (Inl raiseIterInvalid, h) \<and> map_clear h a = (Inl raiseIterInvalid, h)
    else
      (\<exists>h1. map_set arrange h a k v = (Inr V_EMPTY, h1)
        \<and> map_put arrange h a k v = (Inr (case map_lookup h a k of None \<Rightarrow> V_INVALID | Some w \<Rightarrow> w), h1)
        \<and> map_lookup h1 a k' = (if equals h k k' then Some v else map_lookup h a k'))
    \<and> (\<exists>h2. map_default arrange h a k v = (Inr (case map_lookup h a k of None \<Rightarrow> v | Some w \<Rightarrow> w), h2)
        \<and> map_lookup h2 a k' = (if equals h k k' \<and> map_lookup h a k = None then Some v else map_lookup h a k'))
    \<and> (\<exists>h3. map_remove h a k = (Inr (V_BOOL (map_lookup h a k \<noteq> None)), h3)
        \<and> map_lookup h3 a k' = (if equals h k k' then None else map_lookup h a k'))"
proof (cases "locked h a")
  case True
  then show ?thesis
    by (simp add: map_set_def map_put_def map_default_def map_remove_def map_swap_def map_clear_def unless_locked_def)
next
  case False
  note I = map_invariant [OF assms(1,2)]
  have L: "map_lookup h a = lookup_entry (equals h) (map_entries h a)" by (simp add: map_lookup_def fun_eq_iff)
  obtain es old where set: "MapObject_set (equals h) arrange (map_entries h a) k v = (es, old)" by fastforce
  note S = keys.set_lookup [OF I(1) assms(5) set]
  have "fst ` set es \<subseteq> insert k (fst ` set (map_entries h a))"
    using emplace_keys(1) [OF assms(5), of "equals h" "map_entries h a" k v] unfolding set fst_conv .
  then have "map_lookup (put_map h a es (lockCount h a)) a k' = lookup_entry (equals h) es k'"
    using I(2) assms(3) by (intro lookup_put_map [OF assms(2) _ assms(4)]) blast
  then have "\<exists>h1. map_set arrange h a k v = (Inr V_EMPTY, h1)
      \<and> map_put arrange h a k v = (Inr (case map_lookup h a k of None \<Rightarrow> V_INVALID | Some w \<Rightarrow> w), h1)
      \<and> map_lookup h1 a k' = (if equals h k k' then Some v else map_lookup h a k')"
    using False S by (simp add: map_set_def map_put_def unless_locked_def set L)
  moreover
  obtain ds w where default: "MapObject_setDefault (equals h) arrange (map_entries h a) k v = (ds, w)" by fastforce
  note D = keys.setDefault_lookup [OF I(1) assms(5) default]
  have "fst ` set ds \<subseteq> insert k (fst ` set (map_entries h a))"
    using emplace_keys(2) [OF assms(5), of "equals h" "map_entries h a" k v] unfolding default fst_conv .
  then have "map_lookup (put_map h a ds (lockCount h a)) a k' = lookup_entry (equals h) ds k'"
    using I(2) assms(3) by (intro lookup_put_map [OF assms(2) _ assms(4)]) blast
  then have "\<exists>h2. map_default arrange h a k v = (Inr (case map_lookup h a k of None \<Rightarrow> v | Some w \<Rightarrow> w), h2)
      \<and> map_lookup h2 a k' = (if equals h k k' \<and> map_lookup h a k = None then Some v else map_lookup h a k')"
    using False D by (simp add: map_default_def unless_locked_def default L)
  moreover
  obtain rs b where remove: "MapObject_remove (equals h) (map_entries h a) k = (rs, b)" by fastforce
  note R = keys.remove_lookup [OF I(1) remove]
  have "set rs \<subseteq> set (map_entries h a)"
    using remove keys_after(2) [of "equals h" "map_entries h a" k]
    by (cases "find_entry (equals h) (map_entries h a) k = None") (simp_all add: MapObject_remove_def)
  then have "map_lookup (put_map h a rs (lockCount h a)) a k' = lookup_entry (equals h) rs k'"
    using I(2) by (intro lookup_put_map [OF assms(2) _ assms(4)]) blast
  then have "\<exists>h3. map_remove h a k = (Inr (V_BOOL (map_lookup h a k \<noteq> None)), h3)
      \<and> map_lookup h3 a k' = (if equals h k k' then None else map_lookup h a k')"
    using False R by (simp add: map_remove_def unless_locked_def remove L)
  ultimately show ?thesis unfolding if_not_P [OF False] by (intro conjI)
qed

section \<open>An example\<close>

definition small_heap :: heap where
  "small_heap = [Some (MapObject 50 [(V_INT 1, V_BOOL True)] 0), Some (ArrayObject 51 [V_INT 1])]"

lemma small_heap_simps:
  "get_object small_heap (V_OBJECT 0) = Some (MapObject 50 [(V_INT 1, V_BOOL True)] 0)"
  "get_object small_heap (V_OBJECT (Suc 0)) = Some (ArrayObject 51 [V_INT 1])"
  "length small_heap = 2"
  by (simp_all add: small_heap_def get_object_def)

lemma small_heap_ok: "collections_ok small_heap"
proof -
  have two: "b = 0 \<or> b = Suc 0" if "get_object small_heap (V_OBJECT b) = Some ob" for b ob
    using get_less [OF that] by (auto simp: small_heap_simps(3))
  have "\<not> iterator_of small_heap a j" for a j
    using two [of j] by (auto simp: iterator_of_def small_heap_simps)
  then have "live_iterators small_heap a = 0" for a by (simp add: live_iterators_card)
  then have "object_ok small_heap b ob" if "get_object small_heap (V_OBJECT b) = Some ob" for b ob
    using two [OF that] that by (auto simp: object_ok_def small_heap_simps heap_value_def ARRAY_MAX_def)
  then show ?thesis by (simp add: collections_ok_def)
qed

lemma small_heap_map: "map_at small_heap 0" "map_entries small_heap 0 = [(V_INT 1, V_BOOL True)]"
  "\<not> locked small_heap 0"
  by (simp_all add: map_at_def map_entries_def locked_def lockCount_def small_heap_simps)

theorem collections_invariant_witness: "collections_ok (snd (map_iter small_heap 0))"
  by (rule collections_invariant [of small_heap, OF _ small_heap_ok])
    (intro r_into_rtranclp step_map_iter small_heap_map)

theorem map_methods_update_witness: "\<exists>h1. map_set id small_heap 0 (V_INT 2) (V_INT 5) = (Inr V_EMPTY, h1)"
  using map_methods_update [of small_heap 0 "V_INT 2" "V_INT 2" id "V_INT 5"] small_heap_ok small_heap_map
  by (auto simp: heap_value_def)

theorem map_iteration_undisturbed_witness: "map_hasNext (snd (map_iter small_heap 0)) 2"
  using map_iteration_undisturbed [OF small_heap_ok small_heap_map(1) iteration_start]
  by (simp add: small_heap_simps small_heap_map)


end
