(* ===== verification/VM_State.thy ===== *)
theory VM_State
  imports Values "HOL-Library.Monad_Syntax"
begin

text \<open>
  The stack of the virtual machine (\<open>src/state.h\<close>, \<open>src/state.cpp\<close>) and the code objects it
  points to (\<open>DSCode\<close>, \<open>NativeCode\<close> and \<open>CompiledCode\<close> of \<open>src/object.h\<close>). An operation is
  \<open>None\<close> where the code would access the operand array outside its bounds or take a value from
  below index 0; the indexes themselves stay far below 32 bits, since each of at most 2048 frames
  adds at most 255 variables and 65535 operands.
\<close>

section \<open>Code objects\<close>

text \<open>The sentinels that end the arrays of a \<open>CompiledCode\<close> are the ends of the lists.\<close>

record ExceptionEntry =
  catch_type :: nat
  begin_pc :: nat
  end_pc :: nat
  dest :: nat
  localOffset :: nat
  localSize :: nat

record DSCode =
  codeKind :: CodeKind
  localVarNum :: nat
  stackDepth :: nat
  code_bytes :: bytes
  code_name :: bytes
  constPool :: "DSValue list"
  lineNumEntries :: "(nat \<times> nat) list"
  exceptionEntries :: "ExceptionEntry list"

definition NativeCode :: "bytes \<Rightarrow> DSCode" where
  "NativeCode value =
     \<lparr>codeKind = NATIVE, localVarNum = 4, stackDepth = 4, code_bytes = value, code_name = [],
      constPool = [], lineNumEntries = [], exceptionEntries = []\<rparr>"

text \<open>\<open>getLineNum\<close>: the entry before the first one whose address reaches the index.\<close>

fun line_position :: "(nat \<times> nat) list \<Rightarrow> nat \<Rightarrow> nat \<Rightarrow> nat" where
  "line_position [] index i = i"
| "line_position ((address, lineNum) # es) index i =
     (if index \<le> address then i else line_position es index (Suc i))"

definition getLineNum :: "DSCode \<Rightarrow> nat \<Rightarrow> nat" where
  "getLineNum c index =
     (let es = lineNumEntries c; i = line_position es index 0
      in if es = [] then 0 else snd (es ! (if i > 0 then i - 1 else 0)))"

section \<open>The state\<close>

record ControlFrame =
  frame_code :: "DSCode option"
  stackTopIndex :: nat
  stackBottomIndex :: nat
  localVarOffset :: nat
  pc :: nat
  recDepth :: nat

text \<open>The last element of \<open>frames\<close> is the head of the list; \<open>operandsSize\<close> is the length.\<close>

record VMState =
  frame :: ControlFrame
  frames :: "ControlFrame list"
  operands :: "DSValue list"
  thrown_obj :: DSValue
  savedThrown :: DSValue

definition MAX_FRAME_SIZE :: nat where "MAX_FRAME_SIZE = 2048"

definition empty_frame :: ControlFrame where
  "empty_frame =
     \<lparr>frame_code = None, stackTopIndex = 0, stackBottomIndex = 0, localVarOffset = 0, pc = 0, recDepth = 0\<rparr>"

definition new_VMState :: VMState where
  "new_VMState =
     \<lparr>frame = empty_frame, frames = [], operands = replicate 64 V_EMPTY, thrown_obj = V_EMPTY,
      savedThrown = V_EMPTY\<rparr>"

abbreviation topIndex :: "VMState \<Rightarrow> nat" where "topIndex st \<equiv> stackTopIndex (frame st)"
abbreviation bottomIndex :: "VMState \<Rightarrow> nat" where "bottomIndex st \<equiv> stackBottomIndex (frame st)"

definition set_top :: "nat \<Rightarrow> VMState \<Rightarrow> VMState" where
  "set_top i st = st\<lparr>frame := (frame st)\<lparr>stackTopIndex := i\<rparr>\<rparr>"

definition set_pc :: "nat \<Rightarrow> VMState \<Rightarrow> VMState" where
  "set_pc i st = st\<lparr>frame := (frame st)\<lparr>pc := i\<rparr>\<rparr>"

definition read_slot :: "VMState \<Rightarrow> nat \<Rightarrow> DSValue option" where
  "read_slot st i = (if i < length (operands st) then Some (operands st ! i) else None)"

definition write_slot :: "VMState \<Rightarrow> nat \<Rightarrow> DSValue \<Rightarrow> VMState option" where
  "write_slot st i v =
     (if i < length (operands st) then Some (st\<lparr>operands := (operands st)[i := v]\<rparr>) else None)"

section \<open>Operands\<close>

definition peekByOffset :: "VMState \<Rightarrow> nat \<Rightarrow> DSValue option" where
  "peekByOffset st offs = (if offs \<le> topIndex st then read_slot st (topIndex st - offs) else None)"

definition peek :: "VMState \<Rightarrow> DSValue option" where
  "peek st = read_slot st (topIndex st)"

definition push :: "DSValue \<Rightarrow> VMState \<Rightarrow> VMState option" where
  "push v st = write_slot (set_top (topIndex st + 1) st) (topIndex st + 1) v"

text \<open>The slot of a popped value is left empty, as its value is moved out.\<close>

definition pop :: "VMState \<Rightarrow> (DSValue \<times> VMState) option" where
  "pop st =
     do {
       v \<leftarrow> peek st;
       st' \<leftarrow> write_slot st (topIndex st) V_EMPTY;
       if topIndex st = 0 then None else Some (v, set_top (topIndex st - 1) st')
     }"

definition popNoReturn :: "VMState \<Rightarrow> VMState option" where
  "popNoReturn st =
     do {
       st' \<leftarrow> write_slot st (topIndex st) V_EMPTY;
       if topIndex st = 0 then None else Some (set_top (topIndex st - 1) st')
     }"

definition dup :: "VMState \<Rightarrow> VMState option" where
  "dup st = do { v \<leftarrow> peek st; push v st }"

definition dup2 :: "VMState \<Rightarrow> VMState option" where
  "dup2 st =
     do {
       v1 \<leftarrow> peekByOffset st 1;
       v2 \<leftarrow> peek st;
       st \<leftarrow> push v1 st;
       push v2 st
     }"

definition swap_operands :: "VMState \<Rightarrow> VMState option" where
  "swap_operands st =
     do {
       v2 \<leftarrow> peek st;
       v1 \<leftarrow> peekByOffset st 1;
       st \<leftarrow> write_slot st (topIndex st) v1;
       write_slot st (topIndex st - 1) v2
     }"

text \<open>The loops that pop until the top index reaches a limit.\<close>

lemma top_popNoReturn: "popNoReturn st = Some st' \<Longrightarrow> topIndex st' < topIndex st"
  by (auto simp: popNoReturn_def write_slot_def set_top_def split: if_splits Option.bind_splits)

function pop_until :: "nat \<Rightarrow> VMState \<Rightarrow> VMState option" where
  "pop_until limit st =
     (if topIndex st > limit then (case popNoReturn st of None \<Rightarrow> None | Some st' \<Rightarrow> pop_until limit st')
      else Some st)"
  by pat_completeness auto
termination
  by (relation "measure (\<lambda>(limit, st). topIndex st)") (auto dest: top_popNoReturn)

declare pop_until.simps [simp del]

definition clearOperands :: "VMState \<Rightarrow> VMState option" where
  "clearOperands st = pop_until (bottomIndex st) st"

fun reset_slots :: "nat \<Rightarrow> nat \<Rightarrow> VMState \<Rightarrow> VMState option" where
  "reset_slots limit 0 st = Some st"
| "reset_slots limit (Suc n) st =
     (case write_slot st (limit + n) V_EMPTY of None \<Rightarrow> None | Some st' \<Rightarrow> reset_slots limit n st')"

definition reclaimLocals :: "nat \<Rightarrow> nat \<Rightarrow> VMState \<Rightarrow> VMState option" where
  "reclaimLocals offs n st = reset_slots (localVarOffset (frame st) + offs) n st"

section \<open>The thrown object\<close>

definition hasError :: "VMState \<Rightarrow> bool" where
  "hasError st \<longleftrightarrow> thrown_obj st \<noteq> V_EMPTY"

definition restoreThrownObject :: "VMState \<Rightarrow> bool \<times> VMState" where
  "restoreThrownObject st =
     (savedThrown st \<noteq> V_EMPTY, st\<lparr>savedThrown := thrown_obj st, thrown_obj := savedThrown st\<rparr>)"

definition setThrownObject :: "DSValue \<Rightarrow> VMState \<Rightarrow> VMState" where
  "setThrownObject obj st =
     (let (restored, st) = restoreThrownObject st
      in if restored then st else st\<lparr>thrown_obj := obj\<rparr>)"

definition takeThrownObject :: "VMState \<Rightarrow> DSValue \<times> VMState" where
  "takeThrownObject st = (thrown_obj st, st\<lparr>thrown_obj := V_EMPTY\<rparr>)"

definition loadThrownObject :: "VMState \<Rightarrow> VMState option" where
  "loadThrownObject st = (let (v, st) = takeThrownObject st in push v st)"

definition saveThrownObject :: "VMState \<Rightarrow> VMState" where
  "saveThrownObject st = (let (v, st) = takeThrownObject st in st\<lparr>savedThrown := v\<rparr>)"

definition clearThrownObject :: "VMState \<Rightarrow> VMState" where
  "clearThrownObject st = st\<lparr>thrown_obj := V_EMPTY, savedThrown := V_EMPTY\<rparr>"

section \<open>Local variables and fields\<close>

definition setLocal :: "nat \<Rightarrow> DSValue \<Rightarrow> VMState \<Rightarrow> VMState option" where
  "setLocal index v st = write_slot st (localVarOffset (frame st) + index) v"

definition getLocal :: "VMState \<Rightarrow> nat \<Rightarrow> DSValue option" where
  "getLocal st index = read_slot st (localVarOffset (frame st) + index)"

definition moveLocal :: "nat \<Rightarrow> VMState \<Rightarrow> (DSValue \<times> VMState) option" where
  "moveLocal index st =
     do {
       v \<leftarrow> getLocal st index;
       st \<leftarrow> setLocal index V_EMPTY st;
       Some (v, st)
     }"

definition storeLocal :: "nat \<Rightarrow> VMState \<Rightarrow> VMState option" where
  "storeLocal index st = do { (v, st) \<leftarrow> pop st; setLocal index v st }"

definition loadLocal :: "nat \<Rightarrow> VMState \<Rightarrow> VMState option" where
  "loadLocal index st = do { v \<leftarrow> getLocal st index; push v st }"

definition storeField :: "nat \<Rightarrow> VMState \<Rightarrow> heap \<Rightarrow> (VMState \<times> heap) option" where
  "storeField index st h =
     do {
       (v, st) \<leftarrow> pop st;
       (obj, st) \<leftarrow> pop st;
       (case (obj, get_object h obj) of
          (V_OBJECT a, Some (BaseObject t vs)) \<Rightarrow>
            if index < length vs then Some (st, h[a := Some (BaseObject t (vs[index := v]))]) else None
        | _ \<Rightarrow> None)
     }"

definition loadField :: "nat \<Rightarrow> heap \<Rightarrow> VMState \<Rightarrow> VMState option" where
  "loadField index h st =
     do {
       (obj, st) \<leftarrow> pop st;
       (case get_object h obj of
          Some (BaseObject t vs) \<Rightarrow> if index < length vs then push (vs ! index) st else None
        | _ \<Rightarrow> None)
     }"

section \<open>Frames\<close>

definition checkVMReturn :: "VMState \<Rightarrow> bool" where
  "checkVMReturn st \<longleftrightarrow>
     (case frames st of [] \<Rightarrow> True | f # _ \<Rightarrow> recDepth (frame st) \<noteq> recDepth f)"

text \<open>The frames that \<open>walkFrames\<close> visits: the current one, then the saved ones except the first.\<close>

definition walkFrames :: "VMState \<Rightarrow> ControlFrame list" where
  "walkFrames st = butlast (frame st # frames st)"

text \<open>The loop of \<open>resize\<close>, which would not end from size 0 or 1.\<close>

partial_function (option) grow_size :: "nat \<Rightarrow> nat \<Rightarrow> nat option" where
  "grow_size newSize afterSize =
     (let newSize = newSize + newSize div 2
      in if newSize < afterSize then grow_size newSize afterSize else Some newSize)"

declare grow_size.simps [code]

definition resize :: "nat \<Rightarrow> VMState \<Rightarrow> VMState option" where
  "resize afterSize st =
     do {
       newSize \<leftarrow> grow_size (length (operands st)) afterSize;
       Some (st\<lparr>operands :=
         take (topIndex st + 1) (operands st) @ replicate (newSize - (topIndex st + 1)) V_EMPTY\<rparr>)
     }"

definition reserve :: "nat \<Rightarrow> VMState \<Rightarrow> VMState option" where
  "reserve add st =
     (let afterSize = topIndex st + add
      in if afterSize < length (operands st) then Some st else resize afterSize st)"

definition reset :: "VMState \<Rightarrow> VMState" where
  "reset st = st\<lparr>frames := [], frame := empty_frame, thrown_obj := V_EMPTY\<rparr>"

text \<open>A call whose code declares fewer variables than parameters does not exist.\<close>

definition wind :: "nat \<Rightarrow> nat \<Rightarrow> DSCode \<Rightarrow> VMState \<Rightarrow> (bool \<times> VMState) option" where
  "wind stackTopOffset paramSize c st =
     (let maxVarSize = localVarNum c;
          newOffset = topIndex st + 1 - paramSize;
          operandSize = stackDepth c
      in if length (frames st) = MAX_FRAME_SIZE then Some (False, st)
         else do {
           st \<leftarrow> Some (st\<lparr>frames := (frame st)\<lparr>stackTopIndex := topIndex st - stackTopOffset\<rparr> # frames st\<rparr>);
           st \<leftarrow> reserve (maxVarSize - paramSize + operandSize) st;
           Some (True, st\<lparr>frame := (frame st)\<lparr>
             frame_code := Some c,
             stackTopIndex := topIndex st + (maxVarSize - paramSize),
             stackBottomIndex := topIndex st + (maxVarSize - paramSize),
             localVarOffset := newOffset,
             pc := 0\<rparr>\<rparr>)
         })"

definition unwind :: "VMState \<Rightarrow> VMState option" where
  "unwind st =
     (case frames st of
        [] \<Rightarrow> None
      | saved # rest \<Rightarrow>
          do {
            st \<leftarrow> Some (st\<lparr>frame := (frame st)\<lparr>
              frame_code := frame_code saved,
              stackBottomIndex := stackBottomIndex saved,
              localVarOffset := localVarOffset saved,
              pc := pc saved\<rparr>\<rparr>);
            st \<leftarrow> pop_until (stackTopIndex saved) st;
            Some (st\<lparr>frames := rest\<rparr>)
          })"

definition nativeWind :: "nat \<Rightarrow> VMState \<Rightarrow> (nat \<times> nat \<times> nat) \<times> VMState" where
  "nativeWind paramSize st =
     ((topIndex st - paramSize, bottomIndex st, localVarOffset (frame st)),
      st\<lparr>frame := (frame st)\<lparr>
        stackBottomIndex := topIndex st, localVarOffset := topIndex st + 1 - paramSize\<rparr>\<rparr>)"

definition nativeUnwind :: "nat \<times> nat \<times> nat \<Rightarrow> VMState \<Rightarrow> VMState option" where
  "nativeUnwind old st =
     (case old of (oldTop, oldBottom, oldOffset) \<Rightarrow>
        do {
          st \<leftarrow> pop_until oldTop st;
          Some (st\<lparr>frame := (frame st)\<lparr>stackBottomIndex := oldBottom, localVarOffset := oldOffset\<rparr>\<rparr>)
        })"

text \<open>The constructor, the destructor and the test of \<open>RecursionGuard\<close>.\<close>

definition incRecDepth :: "VMState \<Rightarrow> VMState" where
  "incRecDepth st = st\<lparr>frame := (frame st)\<lparr>recDepth := recDepth (frame st) + 1\<rparr>\<rparr>"

definition decRecDepth :: "VMState \<Rightarrow> VMState" where
  "decRecDepth st = st\<lparr>frame := (frame st)\<lparr>recDepth := recDepth (frame st) - 1\<rparr>\<rparr>"

definition RECURSION_LIMIT :: nat where "RECURSION_LIMIT = 256"

definition checkLimit :: "VMState \<Rightarrow> bool" where
  "checkLimit st \<longleftrightarrow> recDepth (frame st) \<noteq> RECURSION_LIMIT"

section \<open>Stack traces\<close>

record StackTraceElement =
  sourceName :: DSValue
  lineNum :: nat
  callerName :: bytes

definition callable_name :: "DSCode \<Rightarrow> bytes" where
  "callable_name c =
     (case codeKind c of
        TOPLEVEL \<Rightarrow> ascii ''<toplevel>''
      | FUNCTION \<Rightarrow> ascii ''function '' @ code_name c
      | USER_DEFINED_CMD \<Rightarrow> ascii ''command '' @ code_name c
      | NATIVE \<Rightarrow> [])"

definition trace_element :: "ControlFrame \<Rightarrow> StackTraceElement option" where
  "trace_element cur =
     (case frame_code cur of
        None \<Rightarrow> None
      | Some c \<Rightarrow>
          if codeKind c = NATIVE then None
          else Some \<lparr>sourceName = constPool c ! 0, lineNum = getLineNum c (pc cur),
                     callerName = callable_name c\<rparr>)"

definition createStackTrace :: "VMState \<Rightarrow> StackTraceElement list" where
  "createStackTrace st = List.map_filter trace_element (walkFrames st)"


section \<open>Effects of the operations\<close>

lemma set_top_simps [simp]:
  "frame (set_top i st) = (frame st)\<lparr>stackTopIndex := i\<rparr>" "frames (set_top i st) = frames st"
  "operands (set_top i st) = operands st" "thrown_obj (set_top i st) = thrown_obj st"
  "savedThrown (set_top i st) = savedThrown st"
  by (simp_all add: set_top_def)

lemma set_pc_simps [simp]:
  "frame (set_pc i st) = (frame st)\<lparr>pc := i\<rparr>" "frames (set_pc i st) = frames st"
  "operands (set_pc i st) = operands st" "thrown_obj (set_pc i st) = thrown_obj st"
  "savedThrown (set_pc i st) = savedThrown st"
  by (simp_all add: set_pc_def)

lemma write_slot_iff:
  "write_slot st i v = Some st' \<longleftrightarrow>
     i < length (operands st) \<and> st' = st\<lparr>operands := (operands st)[i := v]\<rparr>"
  by (auto simp: write_slot_def)

lemma push_iff:
  "push v st = Some st' \<longleftrightarrow>
     topIndex st + 1 < length (operands st)
     \<and> st' = (set_top (topIndex st + 1) st)\<lparr>operands := (operands st)[topIndex st + 1 := v]\<rparr>"
  by (auto simp: push_def write_slot_iff)

lemma popNoReturn_iff:
  "popNoReturn st = Some st' \<longleftrightarrow>
     0 < topIndex st \<and> topIndex st < length (operands st)
     \<and> st' = (set_top (topIndex st - 1) st)\<lparr>operands := (operands st)[topIndex st := V_EMPTY]\<rparr>"
  by (auto simp: popNoReturn_def write_slot_def set_top_def)

lemma pop_iff:
  "pop st = Some (v, st') \<longleftrightarrow> read_slot st (topIndex st) = Some v \<and> popNoReturn st = Some st'"
  by (auto simp: pop_def popNoReturn_def peek_def read_slot_def write_slot_def split: if_splits)

lemma pop_until_effect:
  "topIndex st < length (operands st) \<Longrightarrow>
   \<exists>st'. pop_until limit st = Some st' \<and> frame st' = (frame st)\<lparr>stackTopIndex := min limit (topIndex st)\<rparr>
     \<and> frames st' = frames st \<and> length (operands st') = length (operands st)
     \<and> (\<forall>i\<le>limit. operands st' ! i = operands st ! i)
     \<and> thrown_obj st' = thrown_obj st \<and> savedThrown st' = savedThrown st"
proof (induction limit st rule: pop_until.induct)
  case (1 limit st)
  show ?case
  proof (cases "limit < topIndex st")
    case True
    let ?st = "(set_top (topIndex st - 1) st)\<lparr>operands := (operands st)[topIndex st := V_EMPTY]\<rparr>"
    have p: "popNoReturn st = Some ?st" using True 1(2) by (simp add: popNoReturn_iff)
    have "topIndex ?st < length (operands ?st)" using 1(2) by simp
    from 1(1)[OF True p this] obtain st' where st': "pop_until limit ?st = Some st'"
      "frame st' = (frame ?st)\<lparr>stackTopIndex := min limit (topIndex ?st)\<rparr>" "frames st' = frames ?st"
      "length (operands st') = length (operands ?st)" "\<forall>i\<le>limit. operands st' ! i = operands ?st ! i"
      "thrown_obj st' = thrown_obj ?st" "savedThrown st' = savedThrown ?st" by blast
    have "pop_until limit st = Some st'" using True p st'(1) by (simp add: pop_until.simps[of limit st])
    then show ?thesis using True st'(2-) by (intro exI[of _ st']) auto
  next
    case False
    then show ?thesis by (simp add: pop_until.simps[of limit st] min_def)
  qed
qed

lemma pop_until_SomeD:
  assumes "pop_until limit st = Some st'" "topIndex st < length (operands st)"
  shows "frame st' = (frame st)\<lparr>stackTopIndex := min limit (topIndex st)\<rparr>" "frames st' = frames st"
    "length (operands st') = length (operands st)" "i \<le> limit \<Longrightarrow> operands st' ! i = operands st ! i"
    "thrown_obj st' = thrown_obj st" "savedThrown st' = savedThrown st"
  using pop_until_effect[OF assms(2), of limit] assms(1) by auto

lemma grow_size_ends:
  "2 \<le> n \<Longrightarrow> \<exists>m. grow_size n limit = Some m \<and> n < m \<and> limit \<le> m"
proof (induction "limit - n" arbitrary: n rule: less_induct)
  case less
  let ?m = "n + n div 2"
  have m: "n < ?m" using less.prems by simp
  show ?case
  proof (cases "?m < limit")
    case True
    with m have "limit - ?m < limit - n" by linarith
    with less.hyps[of ?m] less.prems obtain k where "grow_size ?m limit = Some k" "?m < k" "limit \<le> k" by auto
    with True m show ?thesis by (subst grow_size.simps) (auto simp: Let_def)
  next
    case False
    with m show ?thesis by (subst grow_size.simps) (auto simp: Let_def)
  qed
qed

lemma reserve_effect:
  assumes "2 \<le> length (operands st)" "topIndex st < length (operands st)"
  shows "\<exists>ops. reserve add st = Some (st\<lparr>operands := ops\<rparr>) \<and> length (operands st) \<le> length ops
    \<and> topIndex st + add \<le> length ops \<and> (\<forall>i\<le>topIndex st. ops ! i = operands st ! i)"
proof (cases "topIndex st + add < length (operands st)")
  case True
  then show ?thesis by (intro exI[of _ "operands st"]) (simp add: reserve_def)
next
  case False
  obtain m where m: "grow_size (length (operands st)) (topIndex st + add) = Some m"
    "length (operands st) < m" "topIndex st + add \<le> m" using grow_size_ends[OF assms(1)] by blast
  let ?ops = "take (topIndex st + 1) (operands st) @ replicate (m - (topIndex st + 1)) V_EMPTY"
  have "reserve add st = Some (st\<lparr>operands := ?ops\<rparr>)"
    using False m(1) by (simp add: reserve_def resize_def)
  moreover have "length ?ops = m" using assms(2) m(2) by simp
  moreover have "\<forall>i\<le>topIndex st. ?ops ! i = operands st ! i" using assms(2) by (auto simp: nth_append)
  ultimately show ?thesis using m by (intro exI[of _ ?ops]) auto
qed

text \<open>Pushing a list of values.\<close>

fun pushes :: "DSValue list \<Rightarrow> VMState \<Rightarrow> VMState option" where
  "pushes [] st = Some st"
| "pushes (v # vs) st = (case push v st of None \<Rightarrow> None | Some st' \<Rightarrow> pushes vs st')"

lemma pushes_room:
  "topIndex st < length (operands st) \<Longrightarrow>
   pushes vs st \<noteq> None \<longleftrightarrow> topIndex st + length vs < length (operands st)"
proof (induction vs arbitrary: st)
  case (Cons v vs)
  show ?case
  proof (cases "topIndex st + 1 < length (operands st)")
    case True
    let ?st = "(set_top (topIndex st + 1) st)\<lparr>operands := (operands st)[topIndex st + 1 := v]\<rparr>"
    have "push v st = Some ?st" using True by (simp add: push_iff)
    moreover have "pushes vs ?st \<noteq> None \<longleftrightarrow> topIndex st + 1 + length vs < length (operands st)"
      using Cons.IH[of ?st] True by simp
    ultimately show ?thesis by simp
  next
    case False
    then have "push v st = None" by (simp add: push_def write_slot_def)
    with False show ?thesis by simp
  qed
qed simp

text \<open>
  [C34] \<open>reserve\<close> makes room for the values that are to be pushed, unless the size it grows the array
  to is exactly the index of the last of them: the loop of \<open>resize\<close> stops at that size although
  \<open>push\<close> writes to that index, so the last push is outside the array.
\<close>

theorem reserve_makes_room:
  assumes "2 \<le> length (operands st)" "topIndex st < length (operands st)"
  shows "\<exists>st'. reserve (length vs) st = Some st' \<and> frame st' = frame st
    \<and> (\<forall>i\<le>topIndex st. operands st' ! i = operands st ! i)
    \<and> (pushes vs st' = None \<longleftrightarrow> length (operands st') = topIndex st + length vs)"
proof -
  obtain ops where ops: "reserve (length vs) st = Some (st\<lparr>operands := ops\<rparr>)"
    "length (operands st) \<le> length ops" "topIndex st + length vs \<le> length ops"
    "\<forall>i\<le>topIndex st. ops ! i = operands st ! i" using reserve_effect[OF assms] by blast
  have "pushes vs (st\<lparr>operands := ops\<rparr>) \<noteq> None \<longleftrightarrow> topIndex st + length vs < length ops"
    using pushes_room[of "st\<lparr>operands := ops\<rparr>" vs] ops(2) assms(2) by simp
  then show ?thesis using ops by (intro exI[of _ "st\<lparr>operands := ops\<rparr>"]) auto
qed


lemma reserve_makes_room_witness:
  "\<exists>st'. reserve 36 (set_top 60 new_VMState) = Some st' \<and> pushes (replicate 36 V_INVALID) st' = None"
proof -
  obtain st' where st': "reserve 36 (set_top 60 new_VMState) = Some st'"
    "pushes (replicate 36 V_INVALID) st' = None \<longleftrightarrow> length (operands st') = 96"
    using reserve_makes_room[of "set_top 60 new_VMState" "replicate 36 V_INVALID"]
    by (auto simp: new_VMState_def)
  have "grow_size 64 96 = Some 96" by (simp add: grow_size.simps)
  then have "length (operands st') = 96"
    using st'(1) by (auto simp: reserve_def resize_def new_VMState_def empty_frame_def)
  with st' show ?thesis by blast
qed

section \<open>Calls\<close>

text \<open>
  The operations as steps, under the conditions the code generator keeps: an operation takes
  operands of the current frame only, a call passes operands of its caller as parameters, and a
  variable access is at an index of the frame's variables.
\<close>

inductive stack_op :: "VMState \<Rightarrow> VMState \<Rightarrow> bool" where
  op_push: "push v st = Some st' \<Longrightarrow> stack_op st st'"
| op_pop: "bottomIndex st < topIndex st \<Longrightarrow> pop st = Some (v, st') \<Longrightarrow> stack_op st st'"
| op_popNoReturn: "bottomIndex st < topIndex st \<Longrightarrow> popNoReturn st = Some st' \<Longrightarrow> stack_op st st'"
| op_dup: "dup st = Some st' \<Longrightarrow> stack_op st st'"
| op_dup2: "dup2 st = Some st' \<Longrightarrow> stack_op st st'"
| op_swap: "bottomIndex st + 1 < topIndex st \<Longrightarrow> swap_operands st = Some st' \<Longrightarrow> stack_op st st'"
| op_clear: "topIndex st < length (operands st) \<Longrightarrow> clearOperands st = Some st' \<Longrightarrow> stack_op st st'"
| op_setLocal: "setLocal i v st = Some st' \<Longrightarrow> stack_op st st'"
| op_reclaim: "reclaimLocals i n st = Some st' \<Longrightarrow> stack_op st st'"
| op_throw: "stack_op st (setThrownObject v st)"
| op_restore: "stack_op st (snd (restoreThrownObject st))"
| op_take: "stack_op st (snd (takeThrownObject st))"
| op_save: "stack_op st (saveThrownObject st)"
| op_clearThrown: "stack_op st (clearThrownObject st)"
| op_pc: "stack_op st (set_pc i st)"
| op_inc: "stack_op st (incRecDepth st)"
| op_dec: "stack_op st (decRecDepth st)"
| op_reserve: "topIndex st < length (operands st) \<Longrightarrow> 2 \<le> length (operands st) \<Longrightarrow>
    reserve n st = Some st' \<Longrightarrow> stack_op st st'"
| op_wind: "topIndex st < length (operands st) \<Longrightarrow> 2 \<le> length (operands st) \<Longrightarrow>
    paramSize \<le> offs \<Longrightarrow> bottomIndex st + offs \<le> topIndex st \<Longrightarrow>
    wind offs paramSize c st = Some (b, st') \<Longrightarrow> stack_op st st'"
| op_unwind: "topIndex st < length (operands st) \<Longrightarrow> unwind st = Some st' \<Longrightarrow> stack_op st st'"

text \<open>
  A run that keeps at least \<open>n\<close> saved frames. A native function called in it runs between
  \<open>nativeWind\<close> and \<open>nativeUnwind\<close> and leaves as many frames as it found.
\<close>

inductive stack_run :: "nat \<Rightarrow> VMState \<Rightarrow> VMState \<Rightarrow> bool" where
  run_start: "n \<le> length (frames st) \<Longrightarrow> stack_run n st st"
| run_op: "stack_run n st st1 \<Longrightarrow> stack_op st1 st2 \<Longrightarrow> n \<le> length (frames st2) \<Longrightarrow> stack_run n st st2"
| run_native: "stack_run n st st1 \<Longrightarrow> topIndex st1 < length (operands st1) \<Longrightarrow> bottomIndex st1 + paramSize \<le> topIndex st1 \<Longrightarrow>
    nativeWind paramSize st1 = (old, st2) \<Longrightarrow> stack_run (length (frames st1)) st2 st3 \<Longrightarrow>
    length (frames st3) = length (frames st1) \<Longrightarrow> topIndex st3 < length (operands st3) \<Longrightarrow>
    nativeUnwind old st3 = Some st4 \<Longrightarrow> stack_run n st st4"

text \<open>Frames above index \<open>b\<close> of the array, each above the operands its caller keeps.\<close>

fun nested :: "nat \<Rightarrow> ControlFrame \<Rightarrow> ControlFrame list \<Rightarrow> bool" where
  "nested b f [] \<longleftrightarrow>
     b \<le> stackBottomIndex f \<and> stackBottomIndex f \<le> stackTopIndex f \<and> b < localVarOffset f"
| "nested b f (g # gs) \<longleftrightarrow>
     stackTopIndex g \<le> stackBottomIndex f \<and> stackBottomIndex f \<le> stackTopIndex f
     \<and> stackTopIndex g < localVarOffset f \<and> nested b g gs"

definition above :: "nat \<Rightarrow> ControlFrame list \<Rightarrow> DSValue list \<Rightarrow> VMState \<Rightarrow> bool" where
  "above b fs ops st \<longleftrightarrow>
     (\<exists>gs. frames st = gs @ fs \<and> nested b (frame st) gs)
     \<and> b < length ops \<and> length ops \<le> length (operands st) \<and> (\<forall>i\<le>b. operands st ! i = ops ! i)"

lemma nested_bounds:
  "nested b f gs \<Longrightarrow> b \<le> stackBottomIndex f \<and> stackBottomIndex f \<le> stackTopIndex f \<and> b < localVarOffset f"
proof (induction gs arbitrary: f)
  case (Cons g gs)
  from Cons.IH[of g] Cons.prems show ?case by auto
qed simp

lemma nested_update:
  "nested b f gs \<Longrightarrow> stackBottomIndex f \<le> stackBottomIndex f' \<Longrightarrow> stackBottomIndex f' \<le> stackTopIndex f' \<Longrightarrow>
   localVarOffset f \<le> localVarOffset f' \<or> stackBottomIndex f < localVarOffset f' \<Longrightarrow> nested b f' gs"
  by (cases gs) auto

lemma above_update:
  assumes "above b fs ops st" "frames st' = frames st"
    and "bottomIndex st \<le> bottomIndex st'" "bottomIndex st' \<le> topIndex st'"
    and "localVarOffset (frame st) \<le> localVarOffset (frame st')
      \<or> bottomIndex st < localVarOffset (frame st')"
    and "length (operands st) \<le> length (operands st')" "\<And>i. i \<le> b \<Longrightarrow> operands st' ! i = operands st ! i"
  shows "above b fs ops st'"
  using assms nested_update[of b "frame st" _ "frame st'"] unfolding above_def by fastforce

lemma above_bounds:
  assumes "above b fs ops st"
  shows "b \<le> bottomIndex st" "bottomIndex st \<le> topIndex st" "b < localVarOffset (frame st)" "b < length (operands st)"
  using assms nested_bounds unfolding above_def by fastforce+


lemma popNoReturn_above:
  assumes "above b fs ops st" "bottomIndex st < topIndex st" "popNoReturn st = Some st'"
  shows "above b fs ops st'"
  using above_bounds[OF assms(1)] assms(2,3)
  by (intro above_update[OF assms(1)]) (auto simp: popNoReturn_iff)

lemma push_above:
  assumes "above b fs ops st" "push v st = Some st'"
  shows "above b fs ops st'" "topIndex st < topIndex st'" "bottomIndex st' = bottomIndex st"
proof -
  show "above b fs ops st'" using above_bounds[OF assms(1)] assms(2)
    by (intro above_update[OF assms(1)]) (auto simp: push_iff)
  show "topIndex st < topIndex st'" "bottomIndex st' = bottomIndex st" using assms(2) by (auto simp: push_iff)
qed

lemma write_above:
  assumes "above b fs ops st" "write_slot st i v = Some st'" "b < i"
  shows "above b fs ops st'" "frame st' = frame st"
proof -
  show "above b fs ops st'" using above_bounds[OF assms(1)] assms(2,3)
    by (intro above_update[OF assms(1)]) (auto simp: write_slot_iff)
  show "frame st' = frame st" using assms(2) by (auto simp: write_slot_iff)
qed

lemma reset_slots_above:
  "above b fs ops st \<Longrightarrow> reset_slots i n st = Some st' \<Longrightarrow> b < i \<Longrightarrow> above b fs ops st'"
proof (induction n arbitrary: st)
  case (Suc n)
  from Suc.prems(2) obtain st1 where st1: "write_slot st (i + n) V_EMPTY = Some st1"
    "reset_slots i n st1 = Some st'" by (auto split: option.splits)
  from Suc.IH[OF write_above(1)[OF Suc.prems(1) st1(1)] st1(2)] Suc.prems(3) show ?case by simp
qed simp

lemma thrown_above:
  "above b fs ops st \<Longrightarrow> above b fs ops (st\<lparr>thrown_obj := v, savedThrown := w\<rparr>)"
  by (simp add: above_def)

lemma thrown_cases:
  "\<exists>v w. setThrownObject x st = st\<lparr>thrown_obj := v, savedThrown := w\<rparr>"
  "\<exists>v w. snd (restoreThrownObject st) = st\<lparr>thrown_obj := v, savedThrown := w\<rparr>"
  "\<exists>v w. snd (takeThrownObject st) = st\<lparr>thrown_obj := v, savedThrown := w\<rparr>"
  "\<exists>v w. saveThrownObject st = st\<lparr>thrown_obj := v, savedThrown := w\<rparr>"
  "\<exists>v w. clearThrownObject st = st\<lparr>thrown_obj := v, savedThrown := w\<rparr>"
  by (cases st; auto simp: setThrownObject_def restoreThrownObject_def takeThrownObject_def
      saveThrownObject_def clearThrownObject_def)+

lemma reserve_above:
  assumes "above b fs ops st" "reserve n st = Some st'" "2 \<le> length (operands st)"
    "topIndex st < length (operands st)"
  shows "above b fs ops st'" "frame st' = frame st" "frames st' = frames st"
proof -
  obtain ops' where ops': "st' = st\<lparr>operands := ops'\<rparr>" "length (operands st) \<le> length ops'"
    "\<forall>i\<le>topIndex st. ops' ! i = operands st ! i" using reserve_effect[OF assms(3,4), of n] assms(2) by auto
  show "above b fs ops st'" using above_bounds[OF assms(1)] ops'
    by (intro above_update[OF assms(1)]) auto
  show "frame st' = frame st" "frames st' = frames st" using ops'(1) by simp_all
qed

lemma wind_SomeD:
  assumes "wind offs paramSize c st = Some (True, st')" "2 \<le> length (operands st)"
    "topIndex st < length (operands st)"
  shows "frames st' = (frame st)\<lparr>stackTopIndex := topIndex st - offs\<rparr> # frames st"
    "frame st' = (frame st)\<lparr>frame_code := Some c,
       stackTopIndex := topIndex st + (localVarNum c - paramSize),
       stackBottomIndex := topIndex st + (localVarNum c - paramSize),
       localVarOffset := topIndex st + 1 - paramSize, pc := 0\<rparr>"
    "length (operands st) \<le> length (operands st')" "i \<le> topIndex st \<Longrightarrow> operands st' ! i = operands st ! i"
    "thrown_obj st' = thrown_obj st" "savedThrown st' = savedThrown st"
proof -
  let ?st = "st\<lparr>frames := (frame st)\<lparr>stackTopIndex := topIndex st - offs\<rparr> # frames st\<rparr>"
  obtain ops where "reserve (localVarNum c - paramSize + stackDepth c) ?st = Some (?st\<lparr>operands := ops\<rparr>)"
    "length (operands st) \<le> length ops" "\<forall>i\<le>topIndex st. ops ! i = operands st ! i"
    using reserve_effect[of ?st] assms(2,3) by fastforce
  then have e: "st' = ?st\<lparr>operands := ops, frame := (frame st)\<lparr>frame_code := Some c,
       stackTopIndex := topIndex st + (localVarNum c - paramSize),
       stackBottomIndex := topIndex st + (localVarNum c - paramSize),
       localVarOffset := topIndex st + 1 - paramSize, pc := 0\<rparr>\<rparr>"
    and "length (operands st) \<le> length ops" "\<forall>i\<le>topIndex st. ops ! i = operands st ! i"
    using assms(1) by (auto simp: wind_def Let_def split: if_splits)
  then show "frames st' = (frame st)\<lparr>stackTopIndex := topIndex st - offs\<rparr> # frames st"
    "frame st' = (frame st)\<lparr>frame_code := Some c,
       stackTopIndex := topIndex st + (localVarNum c - paramSize),
       stackBottomIndex := topIndex st + (localVarNum c - paramSize),
       localVarOffset := topIndex st + 1 - paramSize, pc := 0\<rparr>"
    "length (operands st) \<le> length (operands st')" "i \<le> topIndex st \<Longrightarrow> operands st' ! i = operands st ! i"
    "thrown_obj st' = thrown_obj st" "savedThrown st' = savedThrown st"
    by (auto simp: e)
qed

lemma wind_above:
  assumes "above b fs ops st" "wind offs paramSize c st = Some (w, st')"
    "2 \<le> length (operands st)" "topIndex st < length (operands st)"
    "paramSize \<le> offs" "bottomIndex st + offs \<le> topIndex st"
  shows "above b fs ops st'"
proof (cases w)
  case False
  with assms(2) have "st' = st" by (auto simp: wind_def Let_def split: if_splits Option.bind_splits)
  with assms(1) show ?thesis by simp
next
  case True
  have wind: "wind offs paramSize c st = Some (True, st')" using assms(2) True by simp
  note w = wind_SomeD[OF wind assms(3,4)]
  from assms(1) obtain gs where gs: "frames st = gs @ fs" "nested b (frame st) gs" by (auto simp: above_def)
  let ?f = "(frame st)\<lparr>stackTopIndex := topIndex st - offs\<rparr>"
  have "nested b ?f gs" using gs(2) assms(6) by (intro nested_update[OF gs(2)]) auto
  then have "nested b (frame st') (?f # gs)" using assms(5,6) by (auto simp: w(2))
  moreover have "frames st' = (?f # gs) @ fs" by (simp add: w(1) gs(1))
  moreover have "i \<le> b \<Longrightarrow> operands st' ! i = operands st ! i" for i
    using w(4) above_bounds[OF assms(1)] by simp
  ultimately show ?thesis using assms(1) w(3) unfolding above_def by fastforce
qed

lemma unwind_SomeD:
  assumes "unwind st = Some st'" "topIndex st < length (operands st)"
  shows "\<exists>f fs. frames st = f # fs \<and> frames st' = fs
     \<and> frame st' = f\<lparr>stackTopIndex := min (stackTopIndex f) (topIndex st), recDepth := recDepth (frame st)\<rparr>
     \<and> length (operands st') = length (operands st)
     \<and> (\<forall>i\<le> stackTopIndex f. operands st' ! i = operands st ! i)
     \<and> thrown_obj st' = thrown_obj st \<and> savedThrown st' = savedThrown st"
proof (cases "frames st")
  case (Cons f fs)
  let ?st = "st\<lparr>frame := (frame st)\<lparr>frame_code := frame_code f, stackBottomIndex := stackBottomIndex f,
    localVarOffset := localVarOffset f, pc := pc f\<rparr>\<rparr>"
  from assms(1) Cons obtain st1 where st1: "pop_until (stackTopIndex f) ?st = Some st1"
    "st' = st1\<lparr>frames := fs\<rparr>" by (auto simp: unwind_def split: Option.bind_splits)
  have "topIndex ?st < length (operands ?st)" using assms(2) by simp
  note p = pop_until_SomeD[OF st1(1) this]
  show ?thesis using p Cons by (intro exI[of _ f] exI[of _ fs]) (simp add: st1(2))
qed (use assms(1) in \<open>simp add: unwind_def\<close>)

lemma unwind_above:
  assumes "above b fs ops st" "unwind st = Some st'" "topIndex st < length (operands st)"
    "length fs \<le> length (frames st')"
  shows "above b fs ops st'"
proof -
  from unwind_SomeD[OF assms(2,3)] obtain f fs' where u: "frames st = f # fs'" "frames st' = fs'"
    "frame st' = f\<lparr>stackTopIndex := min (stackTopIndex f) (topIndex st), recDepth := recDepth (frame st)\<rparr>"
    "length (operands st') = length (operands st)" "\<forall>i\<le> stackTopIndex f. operands st' ! i = operands st ! i"
    by blast
  from assms(1) obtain gs where gs: "frames st = gs @ fs" "nested b (frame st) gs" by (auto simp: above_def)
  from gs(1) u(1,2) assms(4) obtain gs' where gs': "gs = f # gs'" by (cases gs) auto
  with gs(2) have n: "stackTopIndex f \<le> bottomIndex st" "bottomIndex st \<le> topIndex st" "nested b f gs'" by auto
  have b: "b \<le> stackTopIndex f" using nested_bounds[OF n(3)] by simp
  have "nested b (frame st') gs'" using n nested_bounds[OF n(3)]
    by (intro nested_update[OF n(3)]) (auto simp: u(3))
  moreover have "frames st' = gs' @ fs" using gs(1) gs' u(1,2) by simp
  ultimately show ?thesis using assms(1) u(4,5) b unfolding above_def by auto
qed


lemma dup_above:
  assumes "above b fs ops st" "dup st = Some st'"
  shows "above b fs ops st'"
  using assms push_above(1) by (auto simp: dup_def split: Option.bind_splits)

lemma dup2_above:
  assumes "above b fs ops st" "dup2 st = Some st'"
  shows "above b fs ops st'"
proof -
  from assms(2) obtain v w st1 where "push v st = Some st1" "push w st1 = Some st'"
    by (auto simp: dup2_def split: Option.bind_splits)
  with assms(1) show ?thesis by (blast intro: push_above(1))
qed

lemma swap_above:
  assumes "above b fs ops st" "bottomIndex st + 1 < topIndex st" "swap_operands st = Some st'"
  shows "above b fs ops st'"
proof -
  from assms(3) obtain v w st1 where s: "write_slot st (topIndex st) v = Some st1"
    "write_slot st1 (topIndex st1 - 1) w = Some st'"
    by (auto simp: swap_operands_def split: Option.bind_splits)
  have b: "b < topIndex st" "b < topIndex st - 1" using above_bounds(1)[OF assms(1)] assms(2) by linarith+
  note w = write_above[OF assms(1) s(1) b(1)]
  from write_above(1)[OF w(1) s(2)] b(2) w(2) show ?thesis by simp
qed

lemma clear_above:
  assumes "above b fs ops st" "topIndex st < length (operands st)" "clearOperands st = Some st'"
  shows "above b fs ops st'"
proof -
  note p = pop_until_SomeD[OF assms(3)[unfolded clearOperands_def] assms(2)]
  show ?thesis using p above_bounds[OF assms(1)] by (intro above_update[OF assms(1)]) auto
qed

lemma stack_op_above:
  "stack_op st st' \<Longrightarrow> above b fs ops st \<Longrightarrow> length fs \<le> length (frames st') \<Longrightarrow> above b fs ops st'"
proof (induction rule: stack_op.induct)
  case (op_setLocal i v st st')
  show ?case using above_bounds(3)[OF op_setLocal(2)]
      write_above(1)[OF op_setLocal(2) op_setLocal(1)[unfolded setLocal_def]] by simp
next
  case (op_reclaim i n st st')
  show ?case using above_bounds(3)[OF op_reclaim(2)]
      reset_slots_above[OF op_reclaim(2) op_reclaim(1)[unfolded reclaimLocals_def]] by simp
next
  case (op_throw st v)
  obtain x y where e: "setThrownObject v st = st\<lparr>thrown_obj := x, savedThrown := y\<rparr>"
    using thrown_cases(1)[of v st] by blast
  show ?case unfolding e by (rule thrown_above[OF op_throw(1)])
next
  case (op_restore st)
  obtain x y where e: "snd (restoreThrownObject st) = st\<lparr>thrown_obj := x, savedThrown := y\<rparr>"
    using thrown_cases(2)[of st] by blast
  show ?case unfolding e by (rule thrown_above[OF op_restore(1)])
next
  case (op_take st)
  obtain x y where e: "snd (takeThrownObject st) = st\<lparr>thrown_obj := x, savedThrown := y\<rparr>"
    using thrown_cases(3)[of st] by blast
  show ?case unfolding e by (rule thrown_above[OF op_take(1)])
next
  case (op_save st)
  obtain x y where e: "saveThrownObject st = st\<lparr>thrown_obj := x, savedThrown := y\<rparr>"
    using thrown_cases(4)[of st] by blast
  show ?case unfolding e by (rule thrown_above[OF op_save(1)])
next
  case (op_clearThrown st)
  obtain x y where e: "clearThrownObject st = st\<lparr>thrown_obj := x, savedThrown := y\<rparr>"
    using thrown_cases(5)[of st] by blast
  show ?case unfolding e by (rule thrown_above[OF op_clearThrown(1)])
next
  case (op_pc st i)
  show ?case using above_bounds[OF op_pc(1)] by (intro above_update[OF op_pc(1)]) (auto )
next
  case (op_inc st)
  show ?case using above_bounds[OF op_inc(1)] by (intro above_update[OF op_inc(1)]) (auto simp: incRecDepth_def)
next
  case (op_dec st)
  show ?case using above_bounds[OF op_dec(1)] by (intro above_update[OF op_dec(1)]) (auto simp: decRecDepth_def)
next
  case (op_pop st v st')
  then show ?case using popNoReturn_above unfolding pop_iff by blast
next
  case (op_push v st st')
  from op_push(2,1) show ?case by (rule push_above(1))
next
  case (op_popNoReturn st st')
  from op_popNoReturn(3,1,2) show ?case by (rule popNoReturn_above)
next
  case (op_dup st st')
  from op_dup(2,1) show ?case by (rule dup_above)
next
  case (op_dup2 st st')
  from op_dup2(2,1) show ?case by (rule dup2_above)
next
  case (op_swap st st')
  from op_swap(3,1,2) show ?case by (rule swap_above)
next
  case (op_clear st st')
  from op_clear(3,1,2) show ?case by (rule clear_above)
next
  case (op_reserve st n st')
  from op_reserve(4,3,2,1) show ?case by (rule reserve_above(1))
next
  case (op_wind st paramSize offs c w st')
  from op_wind(6,5,2,1,3,4) show ?case by (rule wind_above)
next
  case (op_unwind st st')
  from op_unwind(3,2,1,4) show ?case by (rule unwind_above)
qed

lemma nativeWind_above:
  assumes "nativeWind paramSize st = (old, st')" "bottomIndex st + paramSize \<le> topIndex st"
    "topIndex st < length (operands st)"
  shows "above (topIndex st - paramSize) (frames st) (operands st) st'"
  using assms by (auto simp: nativeWind_def above_def)

lemma native_above:
  assumes "above b fs ops st1" "bottomIndex st1 + paramSize \<le> topIndex st1"
    "nativeWind paramSize st1 = (old, st2)" "nativeUnwind old st3 = Some st4"
    "topIndex st3 < length (operands st3)" "length (frames st3) = length (frames st1)"
    "above (topIndex st1 - paramSize) (frames st1) (operands st1) st3"
  shows "above b fs ops st4"
proof -
  have fr: "frames st3 = frames st1" "nested (topIndex st1 - paramSize) (frame st3) []"
    using assms(6,7) unfolding above_def by auto
  from assms(3,4) obtain st' where st': "pop_until (topIndex st1 - paramSize) st3 = Some st'"
    "st4 = st'\<lparr>frame := (frame st')\<lparr>stackBottomIndex := bottomIndex st1,
       localVarOffset := localVarOffset (frame st1)\<rparr>\<rparr>"
    by (auto simp: nativeWind_def nativeUnwind_def split: Option.bind_splits)
  note p = pop_until_SomeD[OF st'(1) assms(5)]
  have top: "topIndex st4 = topIndex st1 - paramSize" using p(1) fr(2) by (simp add: st'(2))
  have eq: "i \<le> b \<Longrightarrow> operands st4 ! i = operands st1 ! i" for i
    using p(4) above_bounds[OF assms(1)] assms(2,7) by (simp add: st'(2) above_def)
  show ?thesis
    using p fr(1) top assms(2,7) above_bounds[OF assms(1)] eq
    by (intro above_update[OF assms(1)]) (auto simp: st'(2) above_def)
qed

lemma stack_run_above:
  "stack_run n st st' \<Longrightarrow> above b fs ops st \<Longrightarrow> length fs = n \<Longrightarrow> above b fs ops st'"
proof (induction arbitrary: b fs ops rule: stack_run.induct)
  case (run_op n st st1 st2)
  show ?case using run_op.hyps(2,3) run_op.IH[OF run_op.prems] run_op.prems(2)
    by (intro stack_op_above[OF run_op.hyps(2)]) auto
next
  case (run_native n st st1 paramSize old st2 st3 st4)
  note st1 = run_native.IH(1)[OF run_native.prems]
  note w = nativeWind_above[OF run_native.hyps(4,3,2)]
  show ?case
    by (rule native_above[OF st1 run_native.hyps(3,4) run_native.hyps(8,7,6) run_native.IH(2)[OF w refl]])
qed


text \<open>
  [C33] \<open>unwind\<close> after \<open>wind\<close> gives back the frame of the caller, without the operands passed in the
  call, whatever ran between: pushes, pops and variable accesses of the callee, calls and returns
  of its own and native functions. The saved frames and every value below the passed operands are
  the caller's.
\<close>

theorem call_returns_to_caller:
  assumes "2 \<le> length (operands st)" "topIndex st < length (operands st)"
    and "wind offs paramSize c st = Some (True, st1)" "paramSize \<le> offs" "offs \<le> topIndex st"
    and "stack_run (length (frames st1)) st1 st2" "length (frames st2) = length (frames st1)"
    and "topIndex st2 < length (operands st2)"
  shows "\<exists>st3. unwind st2 = Some st3 \<and> frames st3 = frames st
    \<and> frame st3 = (frame st)\<lparr>stackTopIndex := topIndex st - offs, recDepth := recDepth (frame st2)\<rparr>
    \<and> (\<forall>i\<le>topIndex st - offs. operands st3 ! i = operands st ! i)"
proof -
  note w = wind_SomeD[OF assms(3,1,2)]
  have "above (topIndex st - offs) (frames st1) (operands st) st1"
    using assms(2,4,5) w(3,4) by (auto simp: above_def w(2))
  from stack_run_above[OF assms(6) this refl] assms(7)
  have ab: "frames st2 = frames st1" "topIndex st - offs \<le> topIndex st2"
    "\<And>i. i \<le> topIndex st - offs \<Longrightarrow> operands st2 ! i = operands st ! i"
    by (auto simp: above_def)
  obtain st3 where st3: "unwind st2 = Some st3"
    using pop_until_effect[of "st2\<lparr>frame := (frame st2)\<lparr>frame_code := frame_code (frame st),
      stackBottomIndex := bottomIndex st, localVarOffset := localVarOffset (frame st),
      pc := pc (frame st)\<rparr>\<rparr>" "topIndex st - offs"] assms(8)
    by (auto simp: unwind_def ab(1) w(1))
  obtain f where u: "frames st2 = f # frames st3"
    "frame st3 = f\<lparr>stackTopIndex := min (stackTopIndex f) (topIndex st2), recDepth := recDepth (frame st2)\<rparr>"
    "\<forall>i\<le> stackTopIndex f. operands st3 ! i = operands st2 ! i"
    using unwind_SomeD[OF st3 assms(8)] by metis
  have f: "f = (frame st)\<lparr>stackTopIndex := topIndex st - offs\<rparr>" "frames st3 = frames st"
    using u(1) by (auto simp: ab(1) w(1))
  show ?thesis using st3 u(2,3) f ab(2,3) by (intro exI[of _ st3]) (auto simp: min_def)
qed

definition caller_state :: VMState where
  "caller_state = (set_top 3 new_VMState)\<lparr>operands := V_EMPTY # V_BOOL True # V_BOOL False # V_INVALID #
     replicate 60 V_EMPTY\<rparr>"

lemma call_returns_to_caller_witness:
  "\<exists>st1 st2 st3. wind 2 2 (NativeCode []) caller_state = Some (True, st1) \<and> push V_INVALID st1 = Some st2
     \<and> unwind st2 = Some st3 \<and> frame st3 = (frame caller_state)\<lparr>stackTopIndex := 1\<rparr>
     \<and> operands st3 ! 1 = V_BOOL True"
proof -
  have len: "2 \<le> length (operands caller_state)" "topIndex caller_state < length (operands caller_state)"
    "(2::nat) \<le> topIndex caller_state" by (simp_all add: caller_state_def)
  obtain st1 where st1: "wind 2 2 (NativeCode []) caller_state = Some (True, st1)"
    by (auto simp: wind_def reserve_def caller_state_def new_VMState_def MAX_FRAME_SIZE_def NativeCode_def
        Let_def empty_frame_def)
  note w = wind_SomeD[OF st1 len(1,2)]
  have t: "topIndex st1 = 5" "length (operands st1) \<ge> 64"
    using w(3) by (simp_all add: w(2) caller_state_def NativeCode_def)
  obtain st2 where st2: "push V_INVALID st1 = Some st2" using t by (simp add: push_iff)
  have st2': "frames st2 = frames st1" "topIndex st2 < length (operands st2)" "recDepth (frame st2) = 0"
    using st2 t by (auto simp: push_iff w(2) caller_state_def new_VMState_def empty_frame_def)
  have run: "stack_run (length (frames st1)) st1 st2"
    by (rule run_op[OF run_start op_push[OF st2]]) (simp_all add: st2'(1))
  from call_returns_to_caller[OF len(1,2) st1 order_refl len(3) run _ st2'(2)]
  obtain st3 where "unwind st2 = Some st3" "operands st3 ! 1 = operands caller_state ! 1"
    "frame st3 = (frame caller_state)\<lparr>stackTopIndex := 1, recDepth := recDepth (frame st2)\<rparr>"
    by (auto simp: st2'(1) caller_state_def)
  moreover from this have "frame st3 = (frame caller_state)\<lparr>stackTopIndex := 1\<rparr>"
    "operands st3 ! 1 = V_BOOL True"
    using st2'(3) by (simp_all add: caller_state_def new_VMState_def empty_frame_def)
  ultimately show ?thesis using st1 st2 by blast
qed

end
