(* ===== verification/Op_Code.thy ===== *)
theory Op_Code
  imports Main
begin

text \<open>
  The instructions of the virtual machine (\<open>src/opcode.h\<close>). The table gives for each the length
  of its operands in bytes, -1 when it varies, and its effect on the number of operands, in the
  order that numbers the byte codes.
\<close>

datatype (plugins only: code size) OpCode =
  OP_HALT | OP_ASSERT | OP_PRINT | OP_INSTANCE_OF | OP_CHECK_CAST | OP_PUSH_NULL | OP_PUSH_TRUE
| OP_PUSH_FALSE | OP_PUSH_SIG | OP_PUSH_INT | OP_PUSH_STR0 | OP_PUSH_STR1 | OP_PUSH_STR2
| OP_PUSH_STR3 | OP_PUSH_META | OP_PUSH_TYPE | OP_PUSH_INVALID | OP_LOAD_CONST | OP_LOAD_CONST_W
| OP_LOAD_CONST_T | OP_LOAD_GLOBAL | OP_STORE_GLOBAL | OP_LOAD_LOCAL | OP_STORE_LOCAL
| OP_LOAD_FIELD | OP_STORE_FIELD | OP_IMPORT_ENV | OP_LOAD_ENV | OP_STORE_ENV | OP_NEW_ENV_CTX
| OP_ADD2ENV_CTX | OP_POP | OP_DUP | OP_DUP2 | OP_SWAP | OP_CONCAT | OP_APPEND | OP_APPEND_ARRAY
| OP_APPEND_MAP | OP_NEW | OP_CALL_METHOD | OP_CALL_FUNC | OP_CALL_BUILTIN | OP_CALL_BUILTIN2
| OP_RETURN | OP_RETURN_V | OP_RETURN_UDC | OP_EXIT_SIG | OP_BRANCH | OP_GOTO | OP_THROW
| OP_ENTER_FINALLY | OP_EXIT_FINALLY | OP_LOOKUP_HASH | OP_REF_EQ | OP_REF_NE | OP_FORK
| OP_PIPELINE | OP_PIPELINE_LP | OP_PIPELINE_ASYNC | OP_EXPAND_TILDE | OP_NEW_CMD | OP_ADD_CMD_ARG
| OP_ADD_GLOBBING | OP_CALL_CMD | OP_CALL_CMD_NOFORK | OP_BUILTIN_CMD | OP_BUILTIN_EVAL
| OP_BUILTIN_EXEC | OP_NEW_REDIR | OP_ADD_REDIR_OP | OP_DO_REDIR | OP_RAND | OP_GET_SECOND
| OP_SET_SECOND | OP_UNWRAP | OP_CHECK_UNWRAP | OP_TRY_UNWRAP | OP_RECLAIM_LOCAL

definition opcode_table :: "(OpCode \<times> int \<times> int) list" where
  "opcode_table =
   [(OP_HALT, 0, 0), (OP_ASSERT, 0, -2), (OP_PRINT, 3, -1), (OP_INSTANCE_OF, 3, 0),
    (OP_CHECK_CAST, 3, 0), (OP_PUSH_NULL, 0, 1), (OP_PUSH_TRUE, 0, 1), (OP_PUSH_FALSE, 0, 1),
    (OP_PUSH_SIG, 1, 1), (OP_PUSH_INT, 1, 1), (OP_PUSH_STR0, 0, 1), (OP_PUSH_STR1, 1, 1),
    (OP_PUSH_STR2, 2, 1), (OP_PUSH_STR3, 3, 1), (OP_PUSH_META, 1, 1), (OP_PUSH_TYPE, 3, 1),
    (OP_PUSH_INVALID, 0, 1), (OP_LOAD_CONST, 1, 1), (OP_LOAD_CONST_W, 2, 1),
    (OP_LOAD_CONST_T, 3, 1), (OP_LOAD_GLOBAL, 2, 1), (OP_STORE_GLOBAL, 2, -1),
    (OP_LOAD_LOCAL, 1, 1), (OP_STORE_LOCAL, 1, -1), (OP_LOAD_FIELD, 2, 0),
    (OP_STORE_FIELD, 2, -2), (OP_IMPORT_ENV, 1, -1), (OP_LOAD_ENV, 0, 0), (OP_STORE_ENV, 0, -2),
    (OP_NEW_ENV_CTX, 0, 1), (OP_ADD2ENV_CTX, 0, -2), (OP_POP, 0, -1), (OP_DUP, 0, 1),
    (OP_DUP2, 0, 2), (OP_SWAP, 0, 0), (OP_CONCAT, 0, -1), (OP_APPEND, 0, -1),
    (OP_APPEND_ARRAY, 0, -1), (OP_APPEND_MAP, 0, -2), (OP_NEW, 3, 1), (OP_CALL_METHOD, 3, 0),
    (OP_CALL_FUNC, 1, 0), (OP_CALL_BUILTIN, 1, 1), (OP_CALL_BUILTIN2, 2, 0), (OP_RETURN, 0, 0),
    (OP_RETURN_V, 0, 0), (OP_RETURN_UDC, 0, 0), (OP_EXIT_SIG, 0, 0), (OP_BRANCH, 2, -1),
    (OP_GOTO, 4, 0), (OP_THROW, 0, 0), (OP_ENTER_FINALLY, 2, 1), (OP_EXIT_FINALLY, 0, -1),
    (OP_LOOKUP_HASH, 0, -2), (OP_REF_EQ, 0, -1), (OP_REF_NE, 0, -1), (OP_FORK, 3, 1),
    (OP_PIPELINE, -1, 1), (OP_PIPELINE_LP, -1, 1), (OP_PIPELINE_ASYNC, -1, 1),
    (OP_EXPAND_TILDE, 0, 0), (OP_NEW_CMD, 0, 0), (OP_ADD_CMD_ARG, 1, -1),
    (OP_ADD_GLOBBING, 2, 0), (OP_CALL_CMD, 0, -1), (OP_CALL_CMD_NOFORK, 0, -1),
    (OP_BUILTIN_CMD, 0, 1), (OP_BUILTIN_EVAL, 0, 1), (OP_BUILTIN_EXEC, 0, 1),
    (OP_NEW_REDIR, 0, 1), (OP_ADD_REDIR_OP, 1, -1), (OP_DO_REDIR, 0, 0), (OP_RAND, 0, 1),
    (OP_GET_SECOND, 0, 1), (OP_SET_SECOND, 0, -1), (OP_UNWRAP, 0, 0), (OP_CHECK_UNWRAP, 0, 0),
    (OP_TRY_UNWRAP, 2, 0), (OP_RECLAIM_LOCAL, 2, 0)]"

definition opcode_byte :: "OpCode \<Rightarrow> nat" where
  "opcode_byte op = length (takeWhile (\<lambda>e. fst e \<noteq> op) opcode_table)"

definition decode_op :: "nat \<Rightarrow> OpCode option" where
  "decode_op b = (if b < length opcode_table then Some (fst (opcode_table ! b)) else None)"

definition getByteSize :: "OpCode \<Rightarrow> int" where
  "getByteSize op = fst (snd (opcode_table ! opcode_byte op))"

definition stack_effect :: "OpCode \<Rightarrow> int" where
  "stack_effect op = snd (snd (opcode_table ! opcode_byte op))"

lemma decode_opcode_byte: "decode_op (opcode_byte op) = Some op"
  by (cases op) (simp_all add: decode_op_def opcode_byte_def opcode_table_def)

end
