(* ===== verification/Emitter.thy ===== *)
theory Emitter
  imports String_Ref "HOL-Library.Multiset"
begin

text \<open>
  Byte code buffers and their labels (\<open>src/misc/emitter.hpp\<close>, the byte access of
  \<open>src/misc/buffer.hpp\<close>). Numbers are kept with the most significant byte first. A label is
  an identity; \<open>labelMap\<close> is the list of the labels with the places that refer to them, and
  the order in which \<open>finalize\<close> visits the unordered map is its parameter.
\<close>

unbundle bit_operations_syntax

section \<open>Byte access\<close>

fun readN :: "nat \<Rightarrow> bytes \<Rightarrow> u64 \<Rightarrow> u64" where
  "readN 0 ptr v = v"
| "readN (Suc i) ptr v = readN i (tl ptr) (v OR push_bit (i * 8) (ucast (hd ptr)))"

definition read8 :: "bytes \<Rightarrow> nat \<Rightarrow> nat" where "read8 c index = unat (readN 1 (drop index c) 0)"
definition read16 :: "bytes \<Rightarrow> nat \<Rightarrow> nat" where "read16 c index = unat (readN 2 (drop index c) 0)"
definition read24 :: "bytes \<Rightarrow> nat \<Rightarrow> nat" where "read24 c index = unat (readN 3 (drop index c) 0)"
definition read32 :: "bytes \<Rightarrow> nat \<Rightarrow> nat" where "read32 c index = unat (readN 4 (drop index c) 0)"

fun writeN :: "nat \<Rightarrow> bytes \<Rightarrow> nat \<Rightarrow> u64 \<Rightarrow> bytes" where
  "writeN 0 buf ptr b = buf"
| "writeN (Suc i) buf ptr b =
     (let mask = push_bit (i * 8) 0xFF
      in writeN i (buf[ptr := ucast (drop_bit (i * 8) (b AND mask))]) (Suc ptr) b)"

section \<open>The emitter\<close>

type_synonym label = nat

datatype OffsetLen = Off8 | Off16 | Off32

record LabelTarget =
  targetIndex :: nat
  baseIndex :: nat
  offsetLen :: OffsetLen

record CodeEmitter =
  codeBuffer :: bytes
  labelIndex :: "label \<Rightarrow> nat"
  labelMap :: "(label \<times> LabelTarget list) list"

definition new_emitter :: CodeEmitter where
  "new_emitter = \<lparr>codeBuffer = [], labelIndex = (\<lambda>_. 0), labelMap = []\<rparr>"

definition emitN :: "nat \<Rightarrow> nat \<Rightarrow> u64 \<Rightarrow> CodeEmitter \<Rightarrow> CodeEmitter" where
  "emitN n index b e = e\<lparr>codeBuffer := writeN n (codeBuffer e) index b\<rparr>"

text \<open>The width that \<open>emit\<close> and \<open>append\<close> choose for a number.\<close>

definition byte_width :: "u64 \<Rightarrow> nat" where
  "byte_width b = (if b \<le> 0xFF then 1 else if b \<le> 0xFFFF then 2 else if b \<le> 0xFFFFFFFF then 4 else 8)"

definition emit :: "nat \<Rightarrow> u64 \<Rightarrow> CodeEmitter \<Rightarrow> CodeEmitter" where
  "emit index b e = emitN (byte_width b) index b e"

definition appendN :: "nat \<Rightarrow> u64 \<Rightarrow> CodeEmitter \<Rightarrow> CodeEmitter" where
  "appendN n b e =
     (let index = length (codeBuffer e)
      in emitN n index b (e\<lparr>codeBuffer := codeBuffer e @ replicate n 0\<rparr>))"

definition append_num :: "u64 \<Rightarrow> CodeEmitter \<Rightarrow> CodeEmitter" where
  "append_num b e = appendN (byte_width b) b e"

text \<open>\<open>labelMap[label]\<close> adds the label with no targets when it is not there.\<close>

fun touch_label :: "label \<Rightarrow> (label \<times> LabelTarget list) list \<Rightarrow> (label \<times> LabelTarget list) list" where
  "touch_label l [] = [(l, [])]"
| "touch_label l ((l', us) # m) = (if l' = l then (l', us) # m else (l', us) # touch_label l m)"

fun add_target ::
  "label \<Rightarrow> LabelTarget \<Rightarrow> (label \<times> LabelTarget list) list \<Rightarrow> (label \<times> LabelTarget list) list"
where
  "add_target l u [] = [(l, [u])]"
| "add_target l u ((l', us) # m) = (if l' = l then (l', us @ [u]) # m else (l', us) # add_target l u m)"

definition markLabel :: "nat \<Rightarrow> label \<Rightarrow> CodeEmitter \<Rightarrow> CodeEmitter" where
  "markLabel index l e =
     e\<lparr>labelIndex := (labelIndex e)(l := index), labelMap := touch_label l (labelMap e)\<rparr>"

definition writeLabel :: "nat \<Rightarrow> label \<Rightarrow> nat \<Rightarrow> OffsetLen \<Rightarrow> CodeEmitter \<Rightarrow> CodeEmitter" where
  "writeLabel index l base len e =
     e\<lparr>labelMap := add_target l \<lparr>targetIndex = index, baseIndex = base, offsetLen = len\<rparr> (labelMap e)\<rparr>"

text \<open>What \<open>finalize\<close> ends with besides the code: \<open>fatal\<close> ends the process.\<close>

datatype finalize_error = Fatal_base | Offset_too_large

definition write_target :: "nat \<Rightarrow> LabelTarget \<Rightarrow> bytes \<Rightarrow> finalize_error + bytes" where
  "write_target location u c =
     (if baseIndex u > location then Inl Fatal_base
      else let off = location - baseIndex u in
        case offsetLen u of
          Off8 \<Rightarrow> if off > 0xFF then Inl Offset_too_large else Inr (writeN 1 c (targetIndex u) (of_nat off))
        | Off16 \<Rightarrow> if off > 0xFFFF then Inl Offset_too_large else Inr (writeN 2 c (targetIndex u) (of_nat off))
        | Off32 \<Rightarrow> Inr (writeN 4 c (targetIndex u) (of_nat off)))"

fun write_targets :: "(nat \<times> LabelTarget) list \<Rightarrow> bytes \<Rightarrow> finalize_error + bytes" where
  "write_targets [] c = Inr c"
| "write_targets ((location, u) # us) c =
     (case write_target location u c of Inl x \<Rightarrow> Inl x | Inr c' \<Rightarrow> write_targets us c')"

definition label_targets ::
  "((label \<times> LabelTarget list) list \<Rightarrow> (label \<times> LabelTarget list) list) \<Rightarrow> CodeEmitter
   \<Rightarrow> (nat \<times> LabelTarget) list"
where
  "label_targets order e =
     concat (map (\<lambda>(l, us). map (\<lambda>u. (labelIndex e l, u)) us) (order (labelMap e)))"

definition finalize ::
  "((label \<times> LabelTarget list) list \<Rightarrow> (label \<times> LabelTarget list) list) \<Rightarrow> CodeEmitter
   \<Rightarrow> finalize_error + CodeEmitter"
where
  "finalize order e =
     (case write_targets (label_targets order e) (codeBuffer e) of
        Inl x \<Rightarrow> Inl x
      | Inr c \<Rightarrow> Inr (e\<lparr>codeBuffer := c, labelMap := []\<rparr>))"

section \<open>Reading what was written\<close>

definition be_byte :: "u64 \<Rightarrow> nat \<Rightarrow> byte" where
  "be_byte b i = ucast (drop_bit (i * 8) b)"

lemma masked_byte: "ucast (drop_bit (i * 8) (b AND push_bit (i * 8) (0xFF :: u64))) = be_byte b i"
proof (rule bit_word_eqI)
  fix n assume n: "n < LENGTH(8)"
  have e: "(0xFF :: u64) = mask 8" by (simp add: mask_eq_exp_minus_1)
  have "bit (0xFF :: u64) n" using n unfolding e by (simp only: bit_mask_iff possible_bit_word) simp
  moreover have "bit b (i * 8 + n) \<Longrightarrow> i * 8 + n < 64" by (auto dest: bit_imp_le_length)
  ultimately have "bit (b AND push_bit (i * 8) (0xFF :: u64)) (i * 8 + n) \<longleftrightarrow> bit b (i * 8 + n)"
    by (auto simp only: bit_and_iff bit_push_bit_iff possible_bit_word) simp_all
  then show "bit (ucast (drop_bit (i * 8) (b AND push_bit (i * 8) (0xFF :: u64))) :: byte) n
      = bit (be_byte b i) n"
    using n by (simp only: be_byte_def bit_ucast_iff bit_drop_bit_eq o_def possible_bit_word)
qed

lemma writeN_bytes:
  "k + n \<le> length buf \<Longrightarrow>
   writeN n buf k b = take k buf @ map (be_byte b) (rev [0..<n]) @ drop (k + n) buf"
proof (induction n arbitrary: buf k)
  case (Suc n)
  let ?buf = "buf[k := be_byte b n]"
  have "writeN (Suc n) buf k b = writeN n ?buf (Suc k) b" by (simp only: writeN.simps Let_def masked_byte)
  also have "\<dots> = take (Suc k) ?buf @ map (be_byte b) (rev [0..<n]) @ drop (Suc k + n) ?buf"
    by (rule Suc.IH) (use Suc.prems in simp)
  also have "take (Suc k) ?buf = take k buf @ [be_byte b n]"
    using Suc.prems by (simp add: take_Suc_conv_app_nth)
  also have "drop (Suc k + n) ?buf = drop (k + Suc n) buf" by (simp add: drop_update_cancel)
  finally show ?case by simp
qed simp

lemma readN_bit:
  "n \<le> 8 \<Longrightarrow> n \<le> length p \<Longrightarrow> bit (readN n p v) j \<longleftrightarrow> bit v j \<or> (j < n * 8 \<and> bit (p ! (n - 1 - j div 8)) (j mod 8))"
proof (induction n arbitrary: p v)
  case (Suc n)
  then obtain c q where p: "p = c # q" by (cases p) auto
  have c: "bit (ucast c :: u64) i \<longleftrightarrow> bit c i" for i
    using Suc.prems by (auto simp: bit_simps dest: bit_imp_le_length)
  have "bit (readN (Suc n) p v) j \<longleftrightarrow>
      bit v j \<or> (n * 8 \<le> j \<and> j < 64 \<and> bit c (j - n * 8)) \<or> (j < n * 8 \<and> bit (q ! (n - 1 - j div 8)) (j mod 8))"
    using Suc.IH[of q "v OR push_bit (n * 8) (ucast c)"] Suc.prems
    by (auto simp: p bit_or_iff bit_push_bit_iff c)
  moreover have "n * 8 \<le> j \<and> j < 64 \<and> bit c (j - n * 8) \<longleftrightarrow>
      j div 8 = n \<and> bit c (j mod 8)" (is "?a = ?b")
  proof
    assume a: ?a
    then have "j - n * 8 < 8" by (auto dest: bit_imp_le_length)
    with a have d: "j div 8 = n" by linarith
    then have "j mod 8 = j - n * 8" by presburger
    with a d show ?b by simp
  next
    assume b: ?b
    with div_mult_mod_eq[of j 8] have "j = n * 8 + j mod 8" by simp
    with b Suc.prems(1) have "j - n * 8 = j mod 8" "n * 8 \<le> j" "j < 64" by linarith+
    with b show ?a by simp
  qed
  moreover have "j < Suc n * 8 \<and> bit (p ! (Suc n - 1 - j div 8)) (j mod 8) \<longleftrightarrow>
      (j div 8 = n \<and> bit c (j mod 8)) \<or> (j < n * 8 \<and> bit (q ! (n - 1 - j div 8)) (j mod 8))"
  proof (cases "j < n * 8")
    case True
    then have "j div 8 < n" by linarith
    then have "Suc n - 1 - j div 8 = Suc (n - 1 - j div 8)" by linarith
    with True \<open>j div 8 < n\<close> show ?thesis by (simp add: p)
  next
    case False
    then show ?thesis by (auto simp: p)
  qed
  ultimately show ?case by blast
qed simp

lemma readN_written:
  assumes "n \<le> 8" "k + n \<le> length buf"
  shows "readN n (drop k (writeN n buf k b)) 0 = take_bit (n * 8) b"
proof (rule bit_word_eqI)
  fix j assume "j < LENGTH(64)"
  let ?p = "drop k (writeN n buf k b)"
  have p: "?p = map (be_byte b) (rev [0..<n]) @ drop (k + n) buf" using assms(2) by (simp add: writeN_bytes)
  have len: "n \<le> length ?p" by (simp add: p)
  have "bit (readN n ?p 0) j \<longleftrightarrow> j < n * 8 \<and> bit (?p ! (n - 1 - j div 8)) (j mod 8)"
    using readN_bit[OF assms(1) len, of 0 j] by simp
  also have "\<dots> \<longleftrightarrow> j < n * 8 \<and> bit b j"
  proof (cases "j < n * 8")
    case True
    then have d: "j div 8 < n" by linarith
    then have "n - 1 - j div 8 < n" by linarith
    then have "?p ! (n - 1 - j div 8) = be_byte b (j div 8)"
      using d by (simp add: p nth_append rev_nth)
    moreover have "j div 8 * 8 + j mod 8 = j" by presburger
    ultimately show ?thesis by (auto simp: be_byte_def bit_simps bit_ucast_iff)
  qed simp
  finally show "bit (readN n ?p 0) j = bit (take_bit (n * 8) b) j" by (simp add: bit_take_bit_iff)
qed


lemma readN_cong:
  assumes "n \<le> 8" "n \<le> length p" "n \<le> length q" "\<And>i. i < n \<Longrightarrow> p ! i = q ! i"
  shows "readN n p 0 = readN n q 0"
proof (rule bit_word_eqI)
  fix j assume "j < LENGTH(64)"
  have "j < n * 8 \<Longrightarrow> p ! (n - 1 - j div 8) = q ! (n - 1 - j div 8)" using assms(4) by simp
  then show "bit (readN n p 0) j = bit (readN n q 0) j"
    using readN_bit[OF assms(1,2), of 0 j] readN_bit[OF assms(1,3), of 0 j] by auto
qed

section \<open>Labels\<close>

primrec len_bytes :: "OffsetLen \<Rightarrow> nat" where
  "len_bytes Off8 = 1" | "len_bytes Off16 = 2" | "len_bytes Off32 = 4"

definition span :: "LabelTarget \<Rightarrow> nat list" where
  "span u = [targetIndex u..<targetIndex u + len_bytes (offsetLen u)]"

definition spans :: "(nat \<times> LabelTarget) list \<Rightarrow> nat list" where
  "spans us = concat (map (span \<circ> snd) us)"

definition offset_fits :: "nat \<Rightarrow> LabelTarget \<Rightarrow> bool" where
  "offset_fits location u \<longleftrightarrow> location - baseIndex u < 2 ^ (8 * len_bytes (offsetLen u))"

definition offset_written :: "bytes \<Rightarrow> nat \<Rightarrow> LabelTarget \<Rightarrow> bool" where
  "offset_written c location u \<longleftrightarrow>
     baseIndex u \<le> location
     \<and> unat (readN (len_bytes (offsetLen u)) (drop (targetIndex u) c) 0) = location - baseIndex u"

lemma len_bytes_bounds: "0 < len_bytes l" "len_bytes l \<le> 8"
  by (cases l; simp)+

lemma readN_written_nat:
  assumes "n \<le> 4" "k + n \<le> length buf" "v < 2 ^ (8 * n)"
  shows "unat (readN n (drop k (writeN n buf k (of_nat v))) 0) = v"
proof -
  have "(2::nat) ^ (8 * n) \<le> 2 ^ 32" using assms(1) by (intro power_increasing) auto
  then have v: "v < 2 ^ 64" using assms(3) by simp
  then have "unat (of_nat v :: u64) = v" by (simp add: unat_of_nat take_bit_nat_eq_self)
  moreover have "readN n (drop k (writeN n buf k (of_nat v))) 0 = take_bit (n * 8) (of_nat v)"
    using assms by (intro readN_written) auto
  ultimately show ?thesis using assms(3)
    by (simp add: unsigned_take_bit_eq take_bit_nat_eq_self mult.commute)
qed

lemma writeN_outside:
  assumes "k + n \<le> length buf"
  shows "length (writeN n buf k b) = length buf" "i < k \<or> k + n \<le> i \<Longrightarrow> writeN n buf k b ! i = buf ! i"
proof -
  note w = writeN_bytes[OF assms, of b]
  show "length (writeN n buf k b) = length buf" using assms by (simp add: w)
  assume "i < k \<or> k + n \<le> i"
  then show "writeN n buf k b ! i = buf ! i" using assms by (auto simp: w nth_append)
qed

lemma write_target_ok:
  assumes "write_target location u c = Inr c'" "targetIndex u + len_bytes (offsetLen u) \<le> length c"
    "location < 2 ^ 32"
  shows "length c' = length c" "i \<notin> set (span u) \<Longrightarrow> c' ! i = c ! i" "offset_written c' location u"
    "offset_fits location u"
proof -
  let ?n = "len_bytes (offsetLen u)" and ?off = "location - baseIndex u"
  have n: "?n \<le> 4" by (cases "offsetLen u") auto
  have e: "c' = writeN ?n c (targetIndex u) (of_nat ?off)" "baseIndex u \<le> location" "?off < 2 ^ (8 * ?n)"
    using assms(1,3) by (auto simp: write_target_def Let_def split: if_splits OffsetLen.splits)
  show "length c' = length c" "offset_fits location u"
    using e writeN_outside(1)[OF assms(2)] by (simp_all add: offset_fits_def)
  show "i \<notin> set (span u) \<Longrightarrow> c' ! i = c ! i"
    unfolding e(1) by (rule writeN_outside(2)[OF assms(2)]) (auto simp: span_def)
  show "offset_written c' location u"
    unfolding offset_written_def e(1) using readN_written_nat[OF n assms(2) e(3)] e(2) by simp
qed

lemma offset_written_cong:
  assumes "offset_written c location u" "length c' = length c" "\<And>i. i \<in> set (span u) \<Longrightarrow> c' ! i = c ! i"
    "targetIndex u + len_bytes (offsetLen u) \<le> length c"
  shows "offset_written c' location u"
proof -
  have "readN (len_bytes (offsetLen u)) (drop (targetIndex u) c') 0
      = readN (len_bytes (offsetLen u)) (drop (targetIndex u) c) 0"
    using assms(2-4) len_bytes_bounds(2) by (intro readN_cong) (auto simp: span_def)
  with assms(1) show ?thesis by (simp add: offset_written_def)
qed

lemma span_in:
  assumes "\<forall>i\<in>set (span u). i < n"
  shows "targetIndex u + len_bytes (offsetLen u) \<le> n"
proof -
  let ?i = "targetIndex u + len_bytes (offsetLen u) - 1"
  have "?i \<in> set (span u)" using len_bytes_bounds(1)[of "offsetLen u"] by (auto simp: span_def)
  with assms have "?i < n" by blast
  then show ?thesis using len_bytes_bounds(1)[of "offsetLen u"] by linarith
qed

lemma write_targets_ok:
  "write_targets us c = Inr c' \<Longrightarrow> distinct (spans us) \<Longrightarrow> \<forall>i\<in>set (spans us). i < length c \<Longrightarrow>
   \<forall>(location, u)\<in>set us. location < 2 ^ 32 \<Longrightarrow>
   length c' = length c \<and> (\<forall>i. i \<notin> set (spans us) \<longrightarrow> c' ! i = c ! i)
   \<and> (\<forall>(location, u)\<in>set us. offset_written c' location u \<and> offset_fits location u)"
proof (induction us arbitrary: c)
  case Nil
  then show ?case by (simp add: spans_def)
next
  case (Cons p us)
  obtain location u where p: "p = (location, u)" by (cases p)
  from Cons.prems(1) obtain c1 where c1: "write_target location u c = Inr c1" "write_targets us c1 = Inr c'"
    by (auto simp: p split: sum.splits)
  have sp: "spans (p # us) = span u @ spans us" by (simp add: spans_def p)
  have inb: "targetIndex u + len_bytes (offsetLen u) \<le> length c"
    using Cons.prems(3) by (intro span_in) (simp add: sp)
  have loc: "location < 2 ^ 32" using Cons.prems(4) by (simp add: p)
  note t = write_target_ok[OF c1(1) inb loc]
  have rest: "length c' = length c1" "\<forall>i. i \<notin> set (spans us) \<longrightarrow> c' ! i = c1 ! i"
    "\<forall>(location, u)\<in>set us. offset_written c' location u \<and> offset_fits location u"
    using Cons.IH[OF c1(2)] Cons.prems(2-4) t(1) by (auto simp: sp)
  have d: "i \<in> set (span u) \<Longrightarrow> i \<notin> set (spans us)" for i using Cons.prems(2) by (auto simp: sp)
  have "offset_written c' location u"
    using rest(1,2) d inb t(1) by (intro offset_written_cong[OF t(3)]) auto
  then show ?case using rest t(1,2,4) unfolding sp by (auto simp: p)
qed

lemma write_target_Inl:
  "write_target location u c = Inl x \<longleftrightarrow>
     (x = Fatal_base \<and> location < baseIndex u)
     \<or> (x = Offset_too_large \<and> baseIndex u \<le> location \<and> offsetLen u \<noteq> Off32 \<and> \<not> offset_fits location u)"
  by (cases "offsetLen u") (auto simp: write_target_def offset_fits_def Let_def)

lemma write_targets_Inl:
  "write_targets us c = Inl x \<Longrightarrow> \<exists>(location, u)\<in>set us.
     (x = Fatal_base \<and> location < baseIndex u)
     \<or> (x = Offset_too_large \<and> offsetLen u \<noteq> Off32 \<and> \<not> offset_fits location u)"
proof (induction us arbitrary: c)
  case (Cons p us)
  obtain location u where p: "p = (location, u)" by (cases p)
  show ?case
  proof (cases "write_target location u c")
    case (Inl y)
    with Cons.prems have "x = y" by (simp add: p)
    with Inl show ?thesis unfolding p by (auto simp: write_target_Inl)
  next
    case (Inr c1)
    with Cons.prems Cons.IH[of c1] show ?thesis by (auto simp: p)
  qed
qed simp

lemma mset_concat_cong: "mset xs = mset ys \<Longrightarrow> mset (concat xs) = mset (concat ys)"
  by (metis mset_concat mset_map sum_mset_sum_list)

text \<open>
  \<open>finalize\<close> resolves every label: when the places that refer to labels do not overlap and lie in
  the buffer, then the number read back at each of them is the distance of the label from its
  base, in whatever order the map is visited, and no other byte is changed. It returns false only for
  a distance that does not fit in the one or two bytes kept for it, and stops the process only for a
  label that lies before its base.
\<close>

theorem finalize_resolves_labels:
  assumes "mset (order (labelMap e)) = mset (labelMap e)"
    and "distinct (spans (label_targets id e))"
    and "\<forall>i\<in>set (spans (label_targets id e)). i < length (codeBuffer e)"
    and "\<forall>(location, u)\<in>set (label_targets id e). location < 2 ^ 32"
  shows "case finalize order e of
      Inr e' \<Rightarrow> labelMap e' = [] \<and> length (codeBuffer e') = length (codeBuffer e)
        \<and> (\<forall>(location, u)\<in>set (label_targets id e). offset_written (codeBuffer e') location u)
        \<and> (\<forall>i. i \<notin> set (spans (label_targets id e)) \<longrightarrow> codeBuffer e' ! i = codeBuffer e ! i)
    | Inl x \<Rightarrow> \<exists>(location, u)\<in>set (label_targets id e).
        (x = Fatal_base \<and> location < baseIndex u)
        \<or> (x = Offset_too_large \<and> offsetLen u \<noteq> Off32 \<and> \<not> offset_fits location u)"
proof -
  let ?us = "label_targets order e"
  let ?f = "\<lambda>(l, us). map (\<lambda>u. (labelIndex e l, u)) us"
  have "mset (map ?f (order (labelMap e))) = mset (map ?f (labelMap e))" using assms(1) by (simp only: mset_map)
  then have m: "mset ?us = mset (label_targets id e)"
    unfolding label_targets_def id_apply by (rule mset_concat_cong)
  then have us: "set ?us = set (label_targets id e)" by (metis set_mset_mset)
  from m have "mset (map (span \<circ> snd) ?us) = mset (map (span \<circ> snd) (label_targets id e))"
    by (simp only: mset_map)
  then have "mset (spans ?us) = mset (spans (label_targets id e))"
    unfolding spans_def by (rule mset_concat_cong)
  then have sp: "distinct (spans ?us)" "set (spans ?us) = set (spans (label_targets id e))"
    using assms(2) by (metis mset_eq_imp_distinct_iff, metis set_mset_mset)
  show ?thesis
  proof (cases "write_targets ?us (codeBuffer e)")
    case (Inl x)
    from write_targets_Inl[OF this] Inl show ?thesis unfolding us by (simp add: finalize_def)
  next
    case (Inr c)
    from write_targets_ok[OF this sp(1)] assms(3,4) us sp(2) Inr show ?thesis
      by (auto simp: finalize_def)
  qed
qed


definition sample_emitter :: CodeEmitter where
  "sample_emitter =
     markLabel 5 0 (markLabel 8 1 (writeLabel 6 1 5 Off16 (writeLabel 1 0 0 Off32
       (new_emitter\<lparr>codeBuffer := replicate 8 0\<rparr>))))"

lemma finalize_resolves_labels_witness:
  "\<exists>e'. finalize rev sample_emitter = Inr e' \<and> read32 (codeBuffer e') 1 = 5 \<and> read16 (codeBuffer e') 6 = 3"
proof -
  have t: "label_targets id sample_emitter =
      [(5, \<lparr>targetIndex = 1, baseIndex = 0, offsetLen = Off32\<rparr>), (8, \<lparr>targetIndex = 6, baseIndex = 5, offsetLen = Off16\<rparr>)]"
    by (simp add: label_targets_def sample_emitter_def markLabel_def writeLabel_def new_emitter_def)
  have sp: "spans (label_targets id sample_emitter) = [1, 2, 3, 4, 6, 7]"
    unfolding t by (simp add: spans_def span_def upt_rec)
  have len: "length (codeBuffer sample_emitter) = 8"
    by (simp add: sample_emitter_def markLabel_def writeLabel_def new_emitter_def)
  have 1: "mset (rev (labelMap sample_emitter)) = mset (labelMap sample_emitter)" by simp
  have 2: "distinct (spans (label_targets id sample_emitter))" unfolding sp by simp
  have 3: "\<forall>i\<in>set (spans (label_targets id sample_emitter)). i < length (codeBuffer sample_emitter)"
    unfolding sp len by simp
  have 4: "\<forall>(location, u)\<in>set (label_targets id sample_emitter). location < 2 ^ 32" unfolding t by simp
  note th = finalize_resolves_labels[of rev sample_emitter, OF 1 2 3 4]
  obtain e' where e': "finalize rev sample_emitter = Inr e'"
    using th unfolding t by (cases "finalize rev sample_emitter") (auto simp: offset_fits_def)
  then have "offset_written (codeBuffer e') 5 \<lparr>targetIndex = 1, baseIndex = 0, offsetLen = Off32\<rparr>"
    "offset_written (codeBuffer e') 8 \<lparr>targetIndex = 6, baseIndex = 5, offsetLen = Off16\<rparr>"
    using th unfolding t by auto
  then show ?thesis using e' by (auto simp: offset_written_def read32_def read16_def)
qed

end
