(* ===== verification/VM_Code.thy ===== *)
theory VM_Code
  imports VM_State Op_Code Emitter Builtin_Map
begin

text \<open>
  The instructions of the virtual machine (\<open>src/vm.h\<close>, the cases of \<open>mainLoop\<close> in
  \<open>src/vm.cpp\<close>). Each is a definition of the name of its opcode. \<open>None\<close> is undefined: an access
  outside the operand array or the code, or a value that breaks one of the code's assertions. An
  instruction that works on processes, redirections or the clock is \<open>Outside\<close> the model.

  Parameters: the code of a function object, the table of native functions (generated by the build)
  and the reference count of an object.
\<close>

section \<open>The machine\<close>

record VM =
  stack :: VMState
  vm_heap :: heap
  globals :: "DSValue list"
  event_mask :: bool
  environ :: "bytes \<Rightarrow> bytes option"
  vm_stdout :: bytes

record vm_env =
  natives :: Natives
  type_table :: type_table
  func_code :: "addr \<Rightarrow> DSCode"
  native_table :: "nat \<Rightarrow> VM \<Rightarrow> DSValue \<times> VM"
  ref_count :: "VM \<Rightarrow> addr \<Rightarrow> nat"
  hash_order :: arrangement

text \<open>
  What an instruction leads to: the next instruction, the end of \<open>mainLoop\<close> with true, or the jump
  to its label \<open>EXCEPT\<close>.
\<close>

datatype exec_result = Next VM | Finished VM | Raised VM | Outside OpCode

definition EXIT_STATUS_INDEX :: nat where "EXIT_STATUS_INDEX = 10"

definition setExitStatus :: "int \<Rightarrow> VM \<Rightarrow> VM" where
  "setExitStatus status vm =
     vm\<lparr>globals := (globals vm)[EXIT_STATUS_INDEX := V_INT (word_of_int status)]\<rparr>"

definition throwObject :: "DSValue \<Rightarrow> int \<Rightarrow> VM \<Rightarrow> VM" where
  "throwObject except afterStatus vm =
     setExitStatus afterStatus (vm\<lparr>stack := setThrownObject except (stack vm)\<rparr>)"

definition newError :: "vm_env \<Rightarrow> nat \<Rightarrow> DSValue \<Rightarrow> heap \<Rightarrow> DSValue \<times> heap" where
  "newError env type message h =
     (let (name, h) = createStr h (ascii (nameRef (type_table env ! type)))
      in (V_OBJECT (length h), h @ [Some (ErrorObject type message name)]))"

definition raiseError :: "vm_env \<Rightarrow> type_enum \<Rightarrow> bytes \<Rightarrow> VM \<Rightarrow> VM" where
  "raiseError env type message vm =
     (let (msg, h) = createStr (vm_heap vm) message;
          (except, h) = newError env (type_id type) msg h
      in throwObject except 1 (vm\<lparr>vm_heap := h\<rparr>))"

definition pushExitStatus :: "int \<Rightarrow> VM \<Rightarrow> VM option" where
  "pushExitStatus status vm =
     (let vm = setExitStatus status vm
      in map_option (\<lambda>st. vm\<lparr>stack := st\<rparr>) (push (V_BOOL (status = 0)) (stack vm)))"

definition windStackFrame :: "vm_env \<Rightarrow> nat \<Rightarrow> nat \<Rightarrow> DSCode \<Rightarrow> VM \<Rightarrow> (bool \<times> VM) option" where
  "windStackFrame env stackTopOffset paramSize c vm =
     do {
       (ok, st) \<leftarrow> wind stackTopOffset paramSize c (stack vm);
       let vm' = vm\<lparr>stack := st\<rparr>;
       Some (ok, if ok then vm'
                 else raiseError env T_StackOverflowError (ascii ''local stack size reaches limit'') vm')
     }"

section \<open>Fetching\<close>

definition current_code :: "VM \<Rightarrow> DSCode option" where
  "current_code vm = frame_code (frame (stack vm))"

abbreviation vm_pc :: "VM \<Rightarrow> nat" where "vm_pc vm \<equiv> pc (frame (stack vm))"

definition jump :: "nat \<Rightarrow> VM \<Rightarrow> VM" where
  "jump i vm = vm\<lparr>stack := set_pc i (stack vm)\<rparr>"

text \<open>The operand of \<open>n\<close> bytes at the program counter, and the step past it.\<close>

definition read_operand :: "nat \<Rightarrow> VM \<Rightarrow> nat option" where
  "read_operand n vm =
     do {
       c \<leftarrow> current_code vm;
       if vm_pc vm + n \<le> length (code_bytes c)
       then Some (unat (readN n (drop (vm_pc vm) (code_bytes c)) 0)) else None
     }"

definition operand :: "nat \<Rightarrow> VM \<Rightarrow> (nat \<times> VM) option" where
  "operand n vm = map_option (\<lambda>v. (v, jump (vm_pc vm + n) vm)) (read_operand n vm)"

definition on_stack :: "(VMState \<Rightarrow> VMState option) \<Rightarrow> VM \<Rightarrow> VM option" where
  "on_stack f vm = map_option (\<lambda>st. vm\<lparr>stack := st\<rparr>) (f (stack vm))"

definition push_value :: "DSValue \<Rightarrow> VM \<Rightarrow> exec_result option" where
  "push_value v vm = map_option Next (on_stack (push v) vm)"

definition pop_value :: "VM \<Rightarrow> (DSValue \<times> VM) option" where
  "pop_value vm = map_option (\<lambda>(v, st). (v, vm\<lparr>stack := st\<rparr>)) (pop (stack vm))"

fun asBool :: "DSValue \<Rightarrow> bool option" where
  "asBool (V_BOOL b) = Some b"
| "asBool _ = None"

fun asNum :: "DSValue \<Rightarrow> nat option" where
  "asNum (V_NUMBER n) = Some (unat n)"
| "asNum _ = None"

fun asInt :: "DSValue \<Rightarrow> int option" where
  "asInt (V_INT i) = Some (sint i)"
| "asInt _ = None"

section \<open>Types of values\<close>

definition object_type :: "DSObject \<Rightarrow> nat" where
  "object_type x =
     (case x of
        StringObject _ \<Rightarrow> type_id T_String | UnixFdObject _ \<Rightarrow> type_id T_UnixFD
      | RegexObject _ \<Rightarrow> type_id T_Regex | ArrayObject t _ \<Rightarrow> t | MapObject t _ _ \<Rightarrow> t
      | MapIterObject t _ _ \<Rightarrow> t | BaseObject t _ \<Rightarrow> t | ErrorObject t _ _ \<Rightarrow> t | FuncObject t _ _ \<Rightarrow> t
      | EnvCtxObject \<Rightarrow> type_id T_Any | JobObject _ \<Rightarrow> type_id T_Job
      | PipelineObject \<Rightarrow> type_id T_Void | RedirObject \<Rightarrow> type_id T_Void)"

definition getTypeID :: "heap \<Rightarrow> DSValue \<Rightarrow> nat option" where
  "getTypeID h v =
     (case v of
        V_DUMMY t \<Rightarrow> Some t
      | V_BOOL _ \<Rightarrow> Some (type_id T_Boolean)
      | V_SIG _ \<Rightarrow> Some (type_id T_Signal)
      | V_INT _ \<Rightarrow> Some (type_id T_Int)
      | V_FLOAT _ \<Rightarrow> Some (type_id T_Float)
      | V_SSTR _ \<Rightarrow> Some (type_id T_String)
      | V_OBJECT _ \<Rightarrow> map_option object_type (get_object h v)
      | _ \<Rightarrow> None)"

definition instanceOf :: "vm_env \<Rightarrow> heap \<Rightarrow> DSValue \<Rightarrow> nat \<Rightarrow> bool option" where
  "instanceOf env h v target =
     do { t \<leftarrow> getTypeID h v; isSameOrBaseTypeOf (type_table env) target t }"

definition has_info :: "DSType \<Rightarrow> native_type_info \<Rightarrow> bool" where
  "has_info t info \<longleftrightarrow>
     isReifiedType t
     \<and> (case class_of t of ReifiedType i _ \<Rightarrow> i = info | TupleType i _ _ \<Rightarrow> i = info | _ \<Rightarrow> False)"

definition isArrayType :: "vm_env \<Rightarrow> DSType \<Rightarrow> bool" where
  "isArrayType env t \<longleftrightarrow> has_info t (temp_info (arrayTemplate (natives env)))"

definition isMapType :: "vm_env \<Rightarrow> DSType \<Rightarrow> bool" where
  "isMapType env t \<longleftrightarrow> has_info t (temp_info (mapTemplate (natives env)))"

definition isTupleType :: "vm_env \<Rightarrow> DSType \<Rightarrow> bool" where
  "isTupleType env t \<longleftrightarrow> has_info t (temp_info (tupleTemplate (natives env)))"

definition isRecordType :: "DSType \<Rightarrow> bool" where
  "isRecordType t \<longleftrightarrow> hasFlag (attr t) (type_attr_bits RECORD_TYPE)"

section \<open>Constants and variables\<close>

definition op_INSTANCE_OF :: "vm_env \<Rightarrow> VM \<Rightarrow> exec_result option" where
  "op_INSTANCE_OF env vm =
     do {
       (v, vm) \<leftarrow> operand 3 vm;
       (value, vm) \<leftarrow> pop_value vm;
       ret \<leftarrow> instanceOf env (vm_heap vm) value v;
       push_value (V_BOOL ret) vm
     }"

definition checkCast :: "vm_env \<Rightarrow> nat \<Rightarrow> VM \<Rightarrow> exec_result option" where
  "checkCast env targetType vm =
     do {
       v \<leftarrow> peek (stack vm);
       ret \<leftarrow> instanceOf env (vm_heap vm) v targetType;
       if ret then Some (Next vm)
       else do {
         (v, vm) \<leftarrow> pop_value vm;
         t \<leftarrow> getTypeID (vm_heap vm) v;
         Some (Raised (raiseError env T_TypeCastError
           (ascii ''cannot cast `'' @ ascii (nameRef (type_table env ! t)) @ ascii [char_of (39 :: nat)]
            @ ascii '' to `'' @ ascii (nameRef (type_table env ! targetType)) @ ascii [char_of (39 :: nat)]) vm))
       }
     }"

definition op_CHECK_CAST :: "vm_env \<Rightarrow> VM \<Rightarrow> exec_result option" where
  "op_CHECK_CAST env vm = do { (v, vm) \<leftarrow> operand 3 vm; checkCast env v vm }"

definition checkAssertion :: "vm_env \<Rightarrow> VM \<Rightarrow> exec_result option" where
  "checkAssertion env vm =
     do {
       (msg, vm) \<leftarrow> pop_value vm;
       ref \<leftarrow> asStrRef_opt (vm_heap vm) msg;
       (v, vm) \<leftarrow> pop_value vm;
       b \<leftarrow> asBool v;
       Some (if b then Next vm else Raised (raiseError env T_AssertFail ref vm))
     }"

definition op_PRINT :: "vm_env \<Rightarrow> VM \<Rightarrow> exec_result option" where
  "op_PRINT env vm =
     do {
       (v, vm) \<leftarrow> operand 3 vm;
       top \<leftarrow> peek (stack vm);
       ref \<leftarrow> asStrRef_opt (vm_heap vm) top;
       let text' = ascii '': '' @ ascii (nameRef (type_table env ! v)) @ ascii '' = '' @ ref @ [10];
       map_option Next (on_stack popNoReturn (vm\<lparr>vm_stdout := vm_stdout vm @ text'\<rparr>))
     }"

definition op_PUSH_SIG :: "VM \<Rightarrow> exec_result option" where
  "op_PUSH_SIG vm = do { (v, vm) \<leftarrow> operand 1 vm; push_value (V_SIG (int v)) vm }"

definition op_PUSH_INT :: "VM \<Rightarrow> exec_result option" where
  "op_PUSH_INT vm = do { (v, vm) \<leftarrow> operand 1 vm; push_value (V_INT (of_nat v)) vm }"

definition op_PUSH_STR :: "nat \<Rightarrow> VM \<Rightarrow> exec_result option" where
  "op_PUSH_STR n vm =
     do {
       c \<leftarrow> current_code vm;
       let s = take n (drop (vm_pc vm) (code_bytes c));
       (_, vm) \<leftarrow> operand n vm;
       push_value (V_SSTR s) vm
     }"

definition op_PUSH_META :: "VM \<Rightarrow> exec_result option" where
  "op_PUSH_META vm = do { (v, vm) \<leftarrow> operand 1 vm; push_value (V_GLOB_META (of_nat v)) vm }"

definition op_PUSH_TYPE :: "VM \<Rightarrow> exec_result option" where
  "op_PUSH_TYPE vm = do { (v, vm) \<leftarrow> operand 3 vm; push_value (V_TYPE v) vm }"

text \<open>The three instructions that load a constant differ in the width of the index.\<close>

definition op_LOAD_CONST :: "nat \<Rightarrow> VM \<Rightarrow> exec_result option" where
  "op_LOAD_CONST n vm =
     do {
       (index, vm) \<leftarrow> operand n vm;
       c \<leftarrow> current_code vm;
       if index < length (constPool c) then push_value (constPool c ! index) vm else None
     }"

definition op_LOAD_GLOBAL :: "vm_env \<Rightarrow> VM \<Rightarrow> exec_result option" where
  "op_LOAD_GLOBAL env vm =
     do {
       (index, vm) \<leftarrow> operand 2 vm;
       if index < length (globals vm) then
         (if globals vm ! index = V_EMPTY
          then Some (Raised (raiseError env T_IllegalAccessError
                 (ascii ''attemp to access uninitialized global variable'') vm))
          else push_value (globals vm ! index) vm)
       else None
     }"

definition op_STORE_GLOBAL :: "VM \<Rightarrow> exec_result option" where
  "op_STORE_GLOBAL vm =
     do {
       (index, vm) \<leftarrow> operand 2 vm;
       (v, vm) \<leftarrow> pop_value vm;
       if index < length (globals vm) then Some (Next (vm\<lparr>globals := (globals vm)[index := v]\<rparr>)) else None
     }"

definition op_LOAD_LOCAL :: "VM \<Rightarrow> exec_result option" where
  "op_LOAD_LOCAL vm = do { (index, vm) \<leftarrow> operand 1 vm; map_option Next (on_stack (loadLocal index) vm) }"

definition op_STORE_LOCAL :: "VM \<Rightarrow> exec_result option" where
  "op_STORE_LOCAL vm = do { (index, vm) \<leftarrow> operand 1 vm; map_option Next (on_stack (storeLocal index) vm) }"

definition op_LOAD_FIELD :: "VM \<Rightarrow> exec_result option" where
  "op_LOAD_FIELD vm =
     do { (index, vm) \<leftarrow> operand 2 vm; map_option Next (on_stack (loadField index (vm_heap vm)) vm) }"

definition op_STORE_FIELD :: "VM \<Rightarrow> exec_result option" where
  "op_STORE_FIELD vm =
     do {
       (index, vm) \<leftarrow> operand 2 vm;
       (st, h) \<leftarrow> storeField index (stack vm) (vm_heap vm);
       Some (Next (vm\<lparr>stack := st, vm_heap := h\<rparr>))
     }"

section \<open>The environment of the process\<close>

definition cstr :: "bytes \<Rightarrow> bytes" where
  "cstr s = takeWhile (\<lambda>b. b \<noteq> 0) s"

text \<open>\<open>setenv\<close> fails for a name that is empty or has a \<open>=\<close>.\<close>

definition setenv :: "bytes \<Rightarrow> bytes \<Rightarrow> (bytes \<Rightarrow> bytes option) \<Rightarrow> (bytes \<Rightarrow> bytes option) option" where
  "setenv name value e = (if name = [] \<or> 61 \<in> set name then None else Some (e(name := Some value)))"

definition loadEnv :: "vm_env \<Rightarrow> bool \<Rightarrow> VM \<Rightarrow> (bytes option \<times> VM) option" where
  "loadEnv env hasDefault vm =
     do {
       (dValue, vm) \<leftarrow> (if hasDefault then pop_value vm else Some (V_EMPTY, vm));
       (nameObj, vm) \<leftarrow> pop_value vm;
       nameRef \<leftarrow> asStrRef_opt (vm_heap vm) nameObj;
       let name = cstr nameRef;
       (case (environ vm name, hasDefault) of
          (Some v, _) \<Rightarrow> Some (Some v, vm)
        | (None, False) \<Rightarrow>
            Some (None, raiseError env T_IllegalAccessError
              (ascii ''undefined environmental variable: '' @ name) vm)
        | (None, True) \<Rightarrow>
            do {
              ref \<leftarrow> asStrRef_opt (vm_heap vm) dValue;
              if hasNullChar ref
              then Some (None, raiseError env T_IllegalAccessError
                     (ascii ''not set environmental variable: '' @ name) vm)
              else (case setenv name (cstr ref) (environ vm) of
                      Some e \<Rightarrow> Some (Some (cstr ref), vm\<lparr>environ := e\<rparr>)
                    | None \<Rightarrow> Some (None, raiseError env T_IllegalAccessError
                        (ascii ''undefined environmental variable: '' @ name) vm))
            })
     }"

definition op_IMPORT_ENV :: "vm_env \<Rightarrow> VM \<Rightarrow> exec_result option" where
  "op_IMPORT_ENV env vm =
     do {
       (b, vm) \<leftarrow> operand 1 vm;
       (r, vm) \<leftarrow> loadEnv env (b > 0) vm;
       Some (if r = None then Raised vm else Next vm)
     }"

definition op_LOAD_ENV :: "vm_env \<Rightarrow> VM \<Rightarrow> exec_result option" where
  "op_LOAD_ENV env vm =
     do {
       (r, vm) \<leftarrow> loadEnv env False vm;
       (case r of
          None \<Rightarrow> Some (Raised vm)
        | Some value \<Rightarrow> (let (v, h) = createStr (vm_heap vm) value in push_value v (vm\<lparr>vm_heap := h\<rparr>)))
     }"

definition storeEnv :: "vm_env \<Rightarrow> VM \<Rightarrow> exec_result option" where
  "storeEnv env vm =
     do {
       (value, vm) \<leftarrow> pop_value vm;
       (name, vm) \<leftarrow> pop_value vm;
       nameRef \<leftarrow> asStrRef_opt (vm_heap vm) name;
       valueRef \<leftarrow> asStrRef_opt (vm_heap vm) value;
       Some (case setenv (if hasNullChar valueRef then [] else cstr nameRef) (cstr valueRef) (environ vm) of
          Some e \<Rightarrow> Next (vm\<lparr>environ := e\<rparr>)
        | None \<Rightarrow> Raised (raiseError env T_IllegalAccessError
            (ascii ''not set environmental variable: '' @ nameRef) vm))
     }"


section \<open>Strings and collections\<close>

definition op_CONCAT :: "vm_env \<Rightarrow> bool \<Rightarrow> VM \<Rightarrow> exec_result option" where
  "op_CONCAT env selfConcat vm =
     do {
       (right, vm) \<leftarrow> pop_value vm;
       (left, vm) \<leftarrow> pop_value vm;
       (case Values.concatAsStr (vm_heap vm) (ref_count env vm) left right selfConcat of
          Inl (t, message) \<Rightarrow> Some (Raised (raiseError env t message vm))
        | Inr (left, h) \<Rightarrow> push_value left (vm\<lparr>vm_heap := h\<rparr>))
     }"

definition append_to_array :: "DSValue \<Rightarrow> DSValue \<Rightarrow> VM \<Rightarrow> VM option" where
  "append_to_array obj v vm =
     (case (obj, get_object (vm_heap vm) obj) of
        (V_OBJECT a, Some (ArrayObject t vs)) \<Rightarrow> Some (vm\<lparr>vm_heap := (vm_heap vm)[a := Some (ArrayObject t (vs @ [v]))]\<rparr>)
      | _ \<Rightarrow> None)"

definition op_APPEND_ARRAY :: "VM \<Rightarrow> exec_result option" where
  "op_APPEND_ARRAY vm =
     do {
       (v, vm) \<leftarrow> pop_value vm;
       obj \<leftarrow> peek (stack vm);
       map_option Next (append_to_array obj v vm)
     }"

definition op_APPEND_MAP :: "vm_env \<Rightarrow> VM \<Rightarrow> exec_result option" where
  "op_APPEND_MAP env vm =
     do {
       (value, vm) \<leftarrow> pop_value vm;
       (key, vm) \<leftarrow> pop_value vm;
       obj \<leftarrow> peek (stack vm);
       (case (obj, get_object (vm_heap vm) obj) of
          (V_OBJECT a, Some (MapObject t es n)) \<Rightarrow>
            Some (Next (vm\<lparr>vm_heap := (vm_heap vm)
              [a := Some (MapObject t (fst (MapObject_set (equals (vm_heap vm)) (hash_order env) es key value)) n)]\<rparr>))
        | _ \<Rightarrow> None)
     }"

definition alloc :: "DSObject \<Rightarrow> VM \<Rightarrow> DSValue \<times> VM" where
  "alloc x vm = (V_OBJECT (length (vm_heap vm)), vm\<lparr>vm_heap := vm_heap vm @ [Some x]\<rparr>)"

text \<open>The allocation of an object of a record type stops the process.\<close>

definition pushNewObject :: "vm_env \<Rightarrow> nat \<Rightarrow> VM \<Rightarrow> exec_result option" where
  "pushNewObject env i vm =
     (let t = type_table env ! i in
      if isArrayType env t then (let (v, vm) = alloc (ArrayObject i []) vm in push_value v vm)
      else if isMapType env t then (let (v, vm) = alloc (MapObject i [] 0) vm in push_value v vm)
      else if isTupleType env t then
        (let (v, vm) = alloc (BaseObject i (replicate (length (elementTypes (class_of t))) V_EMPTY)) vm
         in push_value v vm)
      else if \<not> isRecordType t then push_value (V_DUMMY i) vm
      else None)"

definition op_NEW :: "vm_env \<Rightarrow> VM \<Rightarrow> exec_result option" where
  "op_NEW env vm = do { (v, vm) \<leftarrow> operand 3 vm; pushNewObject env v vm }"

definition op_NEW_CMD :: "VM \<Rightarrow> exec_result option" where
  "op_NEW_CMD vm =
     do {
       (v, vm) \<leftarrow> pop_value vm;
       let (obj, vm) = alloc (ArrayObject (type_id T_StringArray) [v]) vm;
       push_value obj vm
     }"

text \<open>The part of \<open>addCmdArg\<close> for strings and string arrays; a file descriptor is a redirection.\<close>

definition addCmdArg :: "bool \<Rightarrow> VM \<Rightarrow> exec_result option" where
  "addCmdArg skipEmptyStr vm =
     do {
       (value, vm) \<leftarrow> pop_value vm;
       t \<leftarrow> getTypeID (vm_heap vm) value;
       argv \<leftarrow> peekByOffset (stack vm) 1;
       if t = type_id T_String then
         (if skipEmptyStr \<and> asStrRef (vm_heap vm) value = [] then Some (Next vm)
          else map_option Next (append_to_array argv value vm))
       else if t = type_id T_UnixFD then Some (Outside OP_ADD_CMD_ARG)
       else (case get_object (vm_heap vm) value of
          Some (ArrayObject _ vs) \<Rightarrow>
            map_option Next (fold (\<lambda>v r. Option.bind r (append_to_array argv v))
              (filter (\<lambda>v. asStrRef (vm_heap vm) v \<noteq> []) vs) (Some vm))
        | _ \<Rightarrow> None)
     }"

definition op_ADD_CMD_ARG :: "VM \<Rightarrow> exec_result option" where
  "op_ADD_CMD_ARG vm = do { (v, vm) \<leftarrow> operand 1 vm; addCmdArg (v > 0) vm }"

definition op_REF :: "bool \<Rightarrow> VM \<Rightarrow> exec_result option" where
  "op_REF wanted vm =
     do {
       (v1, vm) \<leftarrow> pop_value vm;
       (v2, vm) \<leftarrow> pop_value vm;
       push_value (V_BOOL (equals (vm_heap vm) v1 v2 = wanted)) vm
     }"

section \<open>Calls\<close>

definition prepareFuncCall :: "vm_env \<Rightarrow> nat \<Rightarrow> VM \<Rightarrow> (bool \<times> VM) option" where
  "prepareFuncCall env paramSize vm =
     do {
       func \<leftarrow> peekByOffset (stack vm) paramSize;
       (case (func, get_object (vm_heap vm) func) of
          (V_OBJECT a, Some (FuncObject _ _ _)) \<Rightarrow>
            windStackFrame env (paramSize + 1) paramSize (func_code env a) vm
        | _ \<Rightarrow> None)
     }"

definition try_op :: "(bool \<times> VM) option \<Rightarrow> exec_result option" where
  "try_op r = map_option (\<lambda>(ok, vm). if ok then Next vm else Raised vm) r"

definition op_CALL_FUNC :: "vm_env \<Rightarrow> VM \<Rightarrow> exec_result option" where
  "op_CALL_FUNC env vm = do { (n, vm) \<leftarrow> operand 1 vm; try_op (prepareFuncCall env n vm) }"

definition push_result :: "DSValue \<Rightarrow> VM \<Rightarrow> exec_result option" where
  "push_result ret vm =
     (if hasError (stack vm) then Some (Raised vm)
      else if ret \<noteq> V_EMPTY then push_value ret vm
      else Some (Next vm))"

definition op_CALL_BUILTIN :: "vm_env \<Rightarrow> VM \<Rightarrow> exec_result option" where
  "op_CALL_BUILTIN env vm =
     do {
       (index, vm) \<leftarrow> operand 1 vm;
       let (ret, vm) = native_table env index vm;
       push_result ret vm
     }"

definition op_CALL_BUILTIN2 :: "vm_env \<Rightarrow> VM \<Rightarrow> exec_result option" where
  "op_CALL_BUILTIN2 env vm =
     do {
       (paramSize, vm) \<leftarrow> operand 1 vm;
       (index, vm) \<leftarrow> operand 1 vm;
       let (old, st) = nativeWind paramSize (stack vm);
       let (ret, vm) = native_table env index (vm\<lparr>stack := st\<rparr>);
       vm \<leftarrow> on_stack (nativeUnwind old) vm;
       push_result ret vm
     }"

definition after_return :: "VM \<Rightarrow> exec_result" where
  "after_return vm = (if checkVMReturn (stack vm) then Finished vm else Next vm)"

definition op_RETURN :: "VM \<Rightarrow> exec_result option" where
  "op_RETURN vm = map_option after_return (on_stack unwind vm)"

definition op_RETURN_V :: "VM \<Rightarrow> exec_result option" where
  "op_RETURN_V vm =
     do {
       (v, vm) \<leftarrow> pop_value vm;
       vm \<leftarrow> on_stack unwind vm;
       vm \<leftarrow> on_stack (push v) vm;
       Some (after_return vm)
     }"

definition op_RETURN_UDC :: "VM \<Rightarrow> exec_result option" where
  "op_RETURN_UDC vm =
     do {
       (v, vm) \<leftarrow> pop_value vm;
       vm \<leftarrow> on_stack unwind vm;
       status \<leftarrow> asInt v;
       vm \<leftarrow> pushExitStatus status vm;
       Some (after_return vm)
     }"

definition op_EXIT_SIG :: "VM \<Rightarrow> exec_result option" where
  "op_EXIT_SIG vm =
     do {
       v \<leftarrow> getLocal (stack vm) 0;
       Some (Next (vm\<lparr>event_mask := False, globals := (globals vm)[EXIT_STATUS_INDEX := v]\<rparr>))
     }"

section \<open>Control\<close>

definition op_BRANCH :: "VM \<Rightarrow> exec_result option" where
  "op_BRANCH vm =
     do {
       off \<leftarrow> read_operand 2 vm;
       (v, vm) \<leftarrow> pop_value vm;
       b \<leftarrow> asBool v;
       Some (Next (jump (if b then vm_pc vm + 2 else vm_pc vm + off - 1) vm))
     }"

definition op_GOTO :: "VM \<Rightarrow> exec_result option" where
  "op_GOTO vm = do { index \<leftarrow> read_operand 4 vm; Some (Next (jump index vm)) }"

definition op_THROW :: "VM \<Rightarrow> exec_result option" where
  "op_THROW vm = do { (obj, vm) \<leftarrow> pop_value vm; Some (Raised (throwObject obj 1 vm)) }"

definition op_ENTER_FINALLY :: "VM \<Rightarrow> exec_result option" where
  "op_ENTER_FINALLY vm =
     do {
       off \<leftarrow> read_operand 2 vm;
       let savedIndex = vm_pc vm + 2;
       vm \<leftarrow> on_stack (push (V_NUMBER (of_nat savedIndex))) vm;
       Some (Next (jump (vm_pc vm + off - 1) vm))
     }"

definition op_EXIT_FINALLY :: "VM \<Rightarrow> exec_result option" where
  "op_EXIT_FINALLY vm =
     (let (restored, st) = restoreThrownObject (stack vm); vm = vm\<lparr>stack := st\<rparr> in
      if restored then Some (Raised vm)
      else do {
        (v, vm) \<leftarrow> pop_value vm;
        index \<leftarrow> asNum v;
        Some (Next (jump index vm))
      })"

definition op_LOOKUP_HASH :: "VM \<Rightarrow> exec_result option" where
  "op_LOOKUP_HASH vm =
     do {
       (key, vm) \<leftarrow> pop_value vm;
       (m, vm) \<leftarrow> pop_value vm;
       if key = V_INVALID then Some (Next vm)
       else (case get_object (vm_heap vm) m of
         Some (MapObject _ es _) \<Rightarrow>
           (case lookup_entry (equals (vm_heap vm)) es key of
              None \<Rightarrow> Some (Next vm)
            | Some v \<Rightarrow> do { index \<leftarrow> asNum v; Some (Next (jump index vm)) })
       | _ \<Rightarrow> None)
     }"

definition op_UNWRAP :: "vm_env \<Rightarrow> VM \<Rightarrow> exec_result option" where
  "op_UNWRAP env vm =
     do {
       v \<leftarrow> peek (stack vm);
       Some (if v = V_INVALID then Raised (raiseError env T_UnwrappingError (ascii ''invalid value'') vm)
             else Next vm)
     }"

definition op_CHECK_UNWRAP :: "VM \<Rightarrow> exec_result option" where
  "op_CHECK_UNWRAP vm = do { (v, vm) \<leftarrow> pop_value vm; push_value (V_BOOL (v \<noteq> V_INVALID)) vm }"

definition op_TRY_UNWRAP :: "VM \<Rightarrow> exec_result option" where
  "op_TRY_UNWRAP vm =
     do {
       off \<leftarrow> read_operand 2 vm;
       v \<leftarrow> peek (stack vm);
       if v = V_INVALID then do {
         vm \<leftarrow> on_stack popNoReturn vm;
         Some (Next (jump (vm_pc vm + 2) vm))
       }
       else Some (Next (jump (vm_pc vm + off - 1) vm))
     }"

definition op_RECLAIM_LOCAL :: "VM \<Rightarrow> exec_result option" where
  "op_RECLAIM_LOCAL vm =
     do {
       (off, vm) \<leftarrow> operand 1 vm;
       (n, vm) \<leftarrow> operand 1 vm;
       map_option Next (on_stack (reclaimLocals off n) vm)
     }"

end
