(* ===== verification/VM_Loop.thy ===== *)
theory VM_Loop
  imports VM_Code
begin

text \<open>
  The interpreter loop (\<open>src/vm.cpp\<close>): dispatch, signals, exceptions and the entry points that
  start it. A run is given the signal that is found pending before each instruction with its
  handler, so that the list of these bounds its length.
\<close>

section \<open>Dispatch\<close>

primrec exec_op :: "OpCode \<Rightarrow> vm_env \<Rightarrow> VM \<Rightarrow> exec_result option" where
  "exec_op OP_HALT env vm = Some (Finished vm)"
| "exec_op OP_ASSERT env vm = checkAssertion env vm"
| "exec_op OP_PRINT env vm = op_PRINT env vm"
| "exec_op OP_INSTANCE_OF env vm = op_INSTANCE_OF env vm"
| "exec_op OP_CHECK_CAST env vm = op_CHECK_CAST env vm"
| "exec_op OP_PUSH_NULL env vm = push_value V_EMPTY vm"
| "exec_op OP_PUSH_TRUE env vm = push_value (V_BOOL True) vm"
| "exec_op OP_PUSH_FALSE env vm = push_value (V_BOOL False) vm"
| "exec_op OP_PUSH_SIG env vm = op_PUSH_SIG vm"
| "exec_op OP_PUSH_INT env vm = op_PUSH_INT vm"
| "exec_op OP_PUSH_STR0 env vm = push_value (V_SSTR []) vm"
| "exec_op OP_PUSH_STR1 env vm = op_PUSH_STR 1 vm"
| "exec_op OP_PUSH_STR2 env vm = op_PUSH_STR 2 vm"
| "exec_op OP_PUSH_STR3 env vm = op_PUSH_STR 3 vm"
| "exec_op OP_PUSH_META env vm = op_PUSH_META vm"
| "exec_op OP_PUSH_TYPE env vm = op_PUSH_TYPE vm"
| "exec_op OP_PUSH_INVALID env vm = push_value V_INVALID vm"
| "exec_op OP_LOAD_CONST env vm = op_LOAD_CONST 1 vm"
| "exec_op OP_LOAD_CONST_W env vm = op_LOAD_CONST 2 vm"
| "exec_op OP_LOAD_CONST_T env vm = op_LOAD_CONST 3 vm"
| "exec_op OP_LOAD_GLOBAL env vm = op_LOAD_GLOBAL env vm"
| "exec_op OP_STORE_GLOBAL env vm = op_STORE_GLOBAL vm"
| "exec_op OP_LOAD_LOCAL env vm = op_LOAD_LOCAL vm"
| "exec_op OP_STORE_LOCAL env vm = op_STORE_LOCAL vm"
| "exec_op OP_LOAD_FIELD env vm = op_LOAD_FIELD vm"
| "exec_op OP_STORE_FIELD env vm = op_STORE_FIELD vm"
| "exec_op OP_IMPORT_ENV env vm = op_IMPORT_ENV env vm"
| "exec_op OP_LOAD_ENV env vm = op_LOAD_ENV env vm"
| "exec_op OP_STORE_ENV env vm = storeEnv env vm"
| "exec_op OP_NEW_ENV_CTX env vm = Some (Outside OP_NEW_ENV_CTX)"
| "exec_op OP_ADD2ENV_CTX env vm = Some (Outside OP_ADD2ENV_CTX)"
| "exec_op OP_POP env vm = map_option Next (on_stack popNoReturn vm)"
| "exec_op OP_DUP env vm = map_option Next (on_stack dup vm)"
| "exec_op OP_DUP2 env vm = map_option Next (on_stack dup2 vm)"
| "exec_op OP_SWAP env vm = map_option Next (on_stack swap_operands vm)"
| "exec_op OP_CONCAT env vm = op_CONCAT env False vm"
| "exec_op OP_APPEND env vm = op_CONCAT env True vm"
| "exec_op OP_APPEND_ARRAY env vm = op_APPEND_ARRAY vm"
| "exec_op OP_APPEND_MAP env vm = op_APPEND_MAP env vm"
| "exec_op OP_NEW env vm = op_NEW env vm"
| "exec_op OP_CALL_METHOD env vm = None"
| "exec_op OP_CALL_FUNC env vm = op_CALL_FUNC env vm"
| "exec_op OP_CALL_BUILTIN env vm = op_CALL_BUILTIN env vm"
| "exec_op OP_CALL_BUILTIN2 env vm = op_CALL_BUILTIN2 env vm"
| "exec_op OP_RETURN env vm = op_RETURN vm"
| "exec_op OP_RETURN_V env vm = op_RETURN_V vm"
| "exec_op OP_RETURN_UDC env vm = op_RETURN_UDC vm"
| "exec_op OP_EXIT_SIG env vm = op_EXIT_SIG vm"
| "exec_op OP_BRANCH env vm = op_BRANCH vm"
| "exec_op OP_GOTO env vm = op_GOTO vm"
| "exec_op OP_THROW env vm = op_THROW vm"
| "exec_op OP_ENTER_FINALLY env vm = op_ENTER_FINALLY vm"
| "exec_op OP_EXIT_FINALLY env vm = op_EXIT_FINALLY vm"
| "exec_op OP_LOOKUP_HASH env vm = op_LOOKUP_HASH vm"
| "exec_op OP_REF_EQ env vm = op_REF True vm"
| "exec_op OP_REF_NE env vm = op_REF False vm"
| "exec_op OP_FORK env vm = Some (Outside OP_FORK)"
| "exec_op OP_PIPELINE env vm = Some (Outside OP_PIPELINE)"
| "exec_op OP_PIPELINE_LP env vm = Some (Outside OP_PIPELINE_LP)"
| "exec_op OP_PIPELINE_ASYNC env vm = Some (Outside OP_PIPELINE_ASYNC)"
| "exec_op OP_EXPAND_TILDE env vm = Some (Outside OP_EXPAND_TILDE)"
| "exec_op OP_NEW_CMD env vm = op_NEW_CMD vm"
| "exec_op OP_ADD_CMD_ARG env vm = op_ADD_CMD_ARG vm"
| "exec_op OP_ADD_GLOBBING env vm = Some (Outside OP_ADD_GLOBBING)"
| "exec_op OP_CALL_CMD env vm = Some (Outside OP_CALL_CMD)"
| "exec_op OP_CALL_CMD_NOFORK env vm = Some (Outside OP_CALL_CMD_NOFORK)"
| "exec_op OP_BUILTIN_CMD env vm = Some (Outside OP_BUILTIN_CMD)"
| "exec_op OP_BUILTIN_EVAL env vm = Some (Outside OP_BUILTIN_EVAL)"
| "exec_op OP_BUILTIN_EXEC env vm = Some (Outside OP_BUILTIN_EXEC)"
| "exec_op OP_NEW_REDIR env vm = Some (Outside OP_NEW_REDIR)"
| "exec_op OP_ADD_REDIR_OP env vm = Some (Outside OP_ADD_REDIR_OP)"
| "exec_op OP_DO_REDIR env vm = Some (Outside OP_DO_REDIR)"
| "exec_op OP_RAND env vm = Some (Outside OP_RAND)"
| "exec_op OP_GET_SECOND env vm = Some (Outside OP_GET_SECOND)"
| "exec_op OP_SET_SECOND env vm = Some (Outside OP_SET_SECOND)"
| "exec_op OP_UNWRAP env vm = op_UNWRAP env vm"
| "exec_op OP_CHECK_UNWRAP env vm = op_CHECK_UNWRAP vm"
| "exec_op OP_TRY_UNWRAP env vm = op_TRY_UNWRAP vm"
| "exec_op OP_RECLAIM_LOCAL env vm = op_RECLAIM_LOCAL vm"

section \<open>Signals\<close>

definition code_byte :: "OpCode \<Rightarrow> byte" where
  "code_byte op = of_nat (opcode_byte op)"

definition signalTrampoline :: DSCode where
  "signalTrampoline = NativeCode
     [code_byte OP_LOAD_LOCAL, 1, code_byte OP_LOAD_LOCAL, 2, code_byte OP_CALL_FUNC, 1,
      code_byte OP_EXIT_SIG, code_byte OP_RETURN]"

definition kickSignalHandler :: "vm_env \<Rightarrow> int \<Rightarrow> DSValue \<Rightarrow> VM \<Rightarrow> (bool \<times> VM) option" where
  "kickSignalHandler env sigNum func vm =
     do {
       vm \<leftarrow> on_stack (reserve 3) vm;
       vm \<leftarrow> on_stack (push (globals vm ! EXIT_STATUS_INDEX)) vm;
       vm \<leftarrow> on_stack (push func) vm;
       vm \<leftarrow> on_stack (push (V_SIG sigNum)) vm;
       windStackFrame env 3 3 signalTrampoline vm
     }"

text \<open>
  The part of \<open>checkVMEvent\<close> for a pending signal that has a handler: it waits while a handler
  runs.
\<close>

definition checkVMEvent :: "vm_env \<Rightarrow> (int \<times> DSValue) option \<Rightarrow> VM \<Rightarrow> (bool \<times> VM) option" where
  "checkVMEvent env pending vm =
     (case pending of
        Some (sigNum, handler) \<Rightarrow>
          if event_mask vm then Some (True, vm)
          else kickSignalHandler env sigNum handler (vm\<lparr>event_mask := True\<rparr>)
      | None \<Rightarrow> Some (True, vm))"

section \<open>Exceptions\<close>

definition entry_matches :: "vm_env \<Rightarrow> nat \<Rightarrow> nat \<Rightarrow> ExceptionEntry \<Rightarrow> bool" where
  "entry_matches env occurredPC occurredType e \<longleftrightarrow>
     begin_pc e \<le> occurredPC \<and> occurredPC < end_pc e
     \<and> isSameOrBaseTypeOf (type_table env) (catch_type e) occurredType = Some True"

definition find_exception_entry :: "vm_env \<Rightarrow> nat \<Rightarrow> nat \<Rightarrow> DSCode \<Rightarrow> ExceptionEntry option" where
  "find_exception_entry env i t c = find (entry_matches env (i - 1) t) (exceptionEntries c)"

definition enter_handler :: "ExceptionEntry \<Rightarrow> VMState \<Rightarrow> VMState option" where
  "enter_handler e st =
     do {
       st \<leftarrow> clearOperands (set_pc (dest e) st);
       st \<leftarrow> reclaimLocals (localOffset e mod 256) (localSize e mod 256) st;
       if catch_type e = type_id T_Root then Some (saveThrownObject st) else loadThrownObject st
     }"

lemma frames_pop_until: "pop_until n st = Some st' \<Longrightarrow> frames st' = frames st"
  by (induction n st rule: pop_until.induct)
    (subst (asm) pop_until.simps, auto simp: popNoReturn_iff split: if_splits option.splits)

lemma frames_unwind: "unwind st = Some st' \<Longrightarrow> frames st = hd (frames st) # frames st'"
  by (auto simp: unwind_def dest: frames_pop_until split: list.splits Option.bind_splits)

function handleException :: "vm_env \<Rightarrow> VM \<Rightarrow> (bool \<times> VM) option" where
  "handleException env vm =
     (if checkVMReturn (stack vm) then Some (False, vm)
      else case current_code vm of
        None \<Rightarrow> None
      | Some c \<Rightarrow>
          let vm' = (if c = signalTrampoline then vm\<lparr>event_mask := False\<rparr> else vm);
              next_frame = (case unwind (stack vm') of
                  None \<Rightarrow> None
                | Some st \<Rightarrow> handleException env (vm'\<lparr>stack := st\<rparr>))
          in if codeKind c = NATIVE then next_frame
             else case getTypeID (vm_heap vm) (thrown_obj (stack vm)) of
               None \<Rightarrow> None
             | Some t \<Rightarrow>
                 (case find_exception_entry env (vm_pc vm) t c of
                    None \<Rightarrow> next_frame
                  | Some e \<Rightarrow>
                      if catch_type e = type_id T_ProcGuard then Some (False, vm)
                      else map_option (\<lambda>st. (True, vm\<lparr>stack := st\<rparr>)) (enter_handler e (stack vm))))"
  by pat_completeness auto
termination
  by (relation "measure (\<lambda>(env, vm). length (frames (stack vm)))")
    (auto split: if_splits dest!: frames_unwind, (metis lessI length_Cons)+)

declare handleException.simps [simp del]

section \<open>The loop\<close>

datatype loop_result = Loop_end bool VM | Loop_outside OpCode | Loop_undefined | Loop_unfinished

definition fetch :: "VM \<Rightarrow> (OpCode \<times> VM) option" where
  "fetch vm = do { (b, vm) \<leftarrow> operand 1 vm; op \<leftarrow> decode_op b; Some (op, vm) }"

text \<open>One round of the loop up to the label \<open>EXCEPT\<close>, and the jump there.\<close>

definition vm_step :: "vm_env \<Rightarrow> (int \<times> DSValue) option \<Rightarrow> VM \<Rightarrow> exec_result option" where
  "vm_step env pending vm =
     do {
       (ok, vm) \<leftarrow> checkVMEvent env pending vm;
       if ok then do { (op, vm) \<leftarrow> fetch vm; exec_op op env vm } else Some (Raised vm)
     }"

fun mainLoop :: "vm_env \<Rightarrow> (int \<times> DSValue) option list \<Rightarrow> VM \<Rightarrow> loop_result" where
  "mainLoop env [] vm = Loop_unfinished"
| "mainLoop env (pending # rest) vm =
     (case vm_step env pending vm of
        None \<Rightarrow> Loop_undefined
      | Some (Next vm) \<Rightarrow> mainLoop env rest vm
      | Some (Finished vm) \<Rightarrow> Loop_end True vm
      | Some (Outside op) \<Rightarrow> Loop_outside op
      | Some (Raised vm) \<Rightarrow>
          (case handleException env vm of
             None \<Rightarrow> Loop_undefined
           | Some (True, vm) \<Rightarrow> mainLoop env rest vm
           | Some (False, vm) \<Rightarrow> Loop_end False vm))"

section \<open>Entry points\<close>

definition prepareArguments :: "DSValue \<Rightarrow> DSValue list \<Rightarrow> VMState \<Rightarrow> VMState option" where
  "prepareArguments recv args st =
     do {
       st \<leftarrow> reserve (length args + 1) (clearThrownObject st);
       st \<leftarrow> push recv st;
       pushes args st
     }"

definition prepareUserDefinedCommandCall ::
  "vm_env \<Rightarrow> DSCode \<Rightarrow> DSValue \<Rightarrow> DSValue \<Rightarrow> nat \<Rightarrow> VM \<Rightarrow> (bool \<times> VM) option"
where
  "prepareUserDefinedCommandCall env c argvObj restoreFD call_attr vm =
     (let set_var = call_attr mod 2 = 1; vm = (if set_var then setExitStatus 0 vm else vm) in
      do {
        vm \<leftarrow> on_stack (reserve 3) vm;
        vm \<leftarrow> on_stack (pushes [V_NUMBER (of_nat call_attr), restoreFD, argvObj]) vm;
        (ok, vm) \<leftarrow> windStackFrame env 3 3 c vm;
        if \<not> ok then Some (False, vm)
        else if \<not> set_var then Some (True, vm)
        else (case (argvObj, get_object (vm_heap vm) argvObj) of
          (V_OBJECT a, Some (ArrayObject t (cmdName # argv))) \<Rightarrow>
            do {
              vm \<leftarrow> Some (vm\<lparr>vm_heap := (vm_heap vm)[a := Some (ArrayObject t argv)]\<rparr>);
              vm \<leftarrow> on_stack (setLocal 3 (V_INT (of_nat (length argv)))) vm;
              vm \<leftarrow> on_stack (setLocal 4 cmdName) vm;
              vm \<leftarrow> fold (\<lambda>i r. Option.bind r (on_stack (setLocal (i + 5)
                      (if i < length argv then argv ! i else V_SSTR [])))) [0..<9] (Some vm);
              Some (True, vm)
            }
        | _ \<Rightarrow> None)
      })"

text \<open>
  The calls of a shell function and of a native method from native code: the result is \<open>V_EMPTY\<close> when
  there is none, and the guard counts the nesting.
\<close>

definition start_call ::
  "vm_env \<Rightarrow> (int \<times> DSValue) option list \<Rightarrow> bool \<Rightarrow> (bool \<times> VM) option \<Rightarrow> loop_result \<times> DSValue"
where
  "start_call env events has_ret prepared =
     (case prepared of
        None \<Rightarrow> (Loop_undefined, V_EMPTY)
      | Some (False, vm) \<Rightarrow> (Loop_end False vm, V_EMPTY)
      | Some (True, vm) \<Rightarrow>
          (case mainLoop env events vm of
             Loop_end True vm \<Rightarrow>
               if has_ret then
                 (case pop_value vm of None \<Rightarrow> (Loop_undefined, V_EMPTY) | Some (v, vm) \<Rightarrow> (Loop_end True vm, v))
               else (Loop_end True vm, V_EMPTY)
           | r \<Rightarrow> (r, V_EMPTY)))"

definition guarded ::
  "vm_env \<Rightarrow> (VM \<Rightarrow> loop_result \<times> DSValue) \<Rightarrow> VM \<Rightarrow> loop_result \<times> DSValue"
where
  "guarded env body vm =
     (let vm = vm\<lparr>stack := incRecDepth (stack vm)\<rparr>;
          (r, v) = (if checkLimit (stack vm) then body vm
                    else (Loop_end False (raiseError env T_StackOverflowError
                            (ascii ''interpreter recursion depth reaches limit'') vm), V_EMPTY))
      in (case r of Loop_end b vm \<Rightarrow> Loop_end b (vm\<lparr>stack := decRecDepth (stack vm)\<rparr>) | r \<Rightarrow> r, v))"

definition callFunction ::
  "vm_env \<Rightarrow> (int \<times> DSValue) option list \<Rightarrow> bool \<Rightarrow> DSValue \<Rightarrow> DSValue list \<Rightarrow> VM \<Rightarrow> loop_result \<times> DSValue"
where
  "callFunction env events has_ret funcObj args =
     guarded env (\<lambda>vm. start_call env events has_ret
       (Option.bind (on_stack (prepareArguments funcObj args) vm) (prepareFuncCall env (length args))))"

definition callMethod ::
  "vm_env \<Rightarrow> (int \<times> DSValue) option list \<Rightarrow> bool \<Rightarrow> nat \<Rightarrow> DSValue \<Rightarrow> DSValue list \<Rightarrow> VM \<Rightarrow> loop_result \<times> DSValue"
where
  "callMethod env events has_ret index recv args =
     guarded env (\<lambda>vm. start_call env events has_ret
       (Option.bind (on_stack (prepareArguments recv args) vm)
         (windStackFrame env (length args + 1) (length args + 1)
           (NativeCode [code_byte OP_CALL_BUILTIN, of_nat index,
              code_byte (if has_ret then OP_RETURN_V else OP_RETURN), 0, 0, 0, 0, 0]))))"

end
