(* ===== verification/VM_Effects.thy ===== *)
theory VM_Effects
  imports VM_Loop
begin

text \<open>
  What an instruction does to the program counter and the operand stack, against the table of
  \<open>src/opcode.h\<close>.
\<close>

definition shifted :: "nat \<Rightarrow> int \<Rightarrow> VM \<Rightarrow> VM \<Rightarrow> bool" where
  "shifted n d vm vm' \<longleftrightarrow>
     (let f = frame (stack vm); f' = frame (stack vm') in
      pc f' = pc f + n \<and> int (stackTopIndex f') = int (stackTopIndex f) + d
      \<and> frame_code f' = frame_code f \<and> stackBottomIndex f' = stackBottomIndex f
      \<and> localVarOffset f' = localVarOffset f \<and> recDepth f' = recDepth f)
     \<and> frames (stack vm') = frames (stack vm)"

lemma shifted_stack: "stack b = stack a \<Longrightarrow> shifted 0 0 a b"
  by (simp add: shifted_def Let_def)

lemma shifted_operand: "operand n vm = Some (v, vm') \<Longrightarrow> shifted n 0 vm vm'"
  by (auto simp: operand_def jump_def shifted_def Let_def)

lemma shifted_push: "on_stack (push v) vm = Some vm' \<Longrightarrow> shifted 0 1 vm vm'"
  by (auto simp: on_stack_def push_iff shifted_def Let_def)

lemma shifted_popNoReturn: "on_stack popNoReturn vm = Some vm' \<Longrightarrow> shifted 0 (-1) vm vm'"
  by (auto simp: on_stack_def popNoReturn_iff shifted_def Let_def)

lemma shifted_pop: "pop_value vm = Some (v, vm') \<Longrightarrow> shifted 0 (-1) vm vm'"
  by (rule shifted_popNoReturn) (auto simp: pop_value_def on_stack_def pop_iff)

lemma shifted_push_value: "push_value v vm = Some (Next vm') \<Longrightarrow> shifted 0 1 vm vm'"
  by (auto simp: push_value_def dest: shifted_push)

lemma shifted_dup: "on_stack dup vm = Some vm' \<Longrightarrow> shifted 0 1 vm vm'"
  by (auto simp: on_stack_def dup_def push_iff shifted_def Let_def split: Option.bind_splits)

lemma shifted_dup2: "on_stack dup2 vm = Some vm' \<Longrightarrow> shifted 0 2 vm vm'"
  by (auto simp: on_stack_def dup2_def push_iff shifted_def Let_def split: Option.bind_splits)

lemma shifted_swap: "on_stack swap_operands vm = Some vm' \<Longrightarrow> shifted 0 0 vm vm'"
  by (auto simp: on_stack_def swap_operands_def write_slot_iff shifted_def Let_def split: Option.bind_splits)

lemma shifted_loadLocal: "on_stack (loadLocal i) vm = Some vm' \<Longrightarrow> shifted 0 1 vm vm'"
  by (auto simp: on_stack_def loadLocal_def push_iff shifted_def Let_def split: Option.bind_splits)

lemma shifted_storeLocal: "on_stack (storeLocal i) vm = Some vm' \<Longrightarrow> shifted 0 (-1) vm vm'"
  by (auto simp: on_stack_def storeLocal_def setLocal_def write_slot_iff pop_iff popNoReturn_iff shifted_def Let_def
      split: Option.bind_splits)

lemma shifted_loadField: "on_stack (loadField i h) vm = Some vm' \<Longrightarrow> shifted 0 0 vm vm'"
  by (auto simp: on_stack_def loadField_def push_iff pop_iff popNoReturn_iff shifted_def Let_def
      split: Option.bind_splits option.splits DSObject.splits if_splits)

lemma reset_slots_frame: "reset_slots i n st = Some st' \<Longrightarrow> frame st' = frame st \<and> frames st' = frames st"
  by (induction n arbitrary: st) (auto simp: write_slot_iff split: option.splits)

lemma shifted_reclaim: "on_stack (reclaimLocals i n) vm = Some vm' \<Longrightarrow> shifted 0 0 vm vm'"
  by (auto simp: on_stack_def reclaimLocals_def shifted_def Let_def dest: reset_slots_frame)

lemma stack_append_to_array: "append_to_array obj v vm = Some vm' \<Longrightarrow> stack vm' = stack vm"
  by (auto simp: append_to_array_def split: DSValue.splits option.splits DSObject.splits)

lemma stack_alloc: "alloc x vm = (v, vm') \<Longrightarrow> stack vm' = stack vm"
  by (auto simp: alloc_def)

section \<open>The instructions\<close>

lemma shifted_jump: "shifted n d vm vm' \<Longrightarrow> shifted (i - vm_pc vm) d vm (jump i vm') \<longleftrightarrow> vm_pc vm \<le> i"
  by (auto simp: shifted_def jump_def Let_def)

lemmas shifted_dests = shifted_operand shifted_pop shifted_push_value shifted_popNoReturn shifted_push
  stack_append_to_array stack_alloc

lemma op_INSTANCE_OF: "op_INSTANCE_OF env vm = Some (Next vm') \<Longrightarrow> shifted 3 0 vm vm'"
  by (auto simp: op_INSTANCE_OF_def split: Option.bind_splits dest!: shifted_dests)
   (simp add: shifted_def Let_def)

lemma op_CHECK_CAST: "op_CHECK_CAST env vm = Some (Next vm') \<Longrightarrow> shifted 3 0 vm vm'"
  by (auto simp: op_CHECK_CAST_def checkCast_def split: Option.bind_splits if_splits dest!: shifted_operand)

lemma checkAssertion: "checkAssertion env vm = Some (Next vm') \<Longrightarrow> shifted 0 (-2) vm vm'"
  by (auto simp: checkAssertion_def split: Option.bind_splits if_splits dest!: shifted_dests)
   (simp add: shifted_def Let_def)

lemma op_PUSH_STR: "op_PUSH_STR n vm = Some (Next vm') \<Longrightarrow> shifted n 1 vm vm'"
  by (auto simp: op_PUSH_STR_def split: Option.bind_splits if_splits dest!: shifted_dests)
   (simp add: shifted_def Let_def)

lemma op_LOAD_CONST: "op_LOAD_CONST n vm = Some (Next vm') \<Longrightarrow> shifted n 1 vm vm'"
  by (auto simp: op_LOAD_CONST_def split: Option.bind_splits if_splits dest!: shifted_dests)
   (simp add: shifted_def Let_def)

lemma op_PRINT: "op_PRINT env vm = Some (Next vm') \<Longrightarrow> shifted 3 (-1) vm vm'"
  by (auto simp: op_PRINT_def split: Option.bind_splits if_splits dest!: shifted_dests)
   (simp add: shifted_def Let_def)

lemma op_PUSH_SIG: "op_PUSH_SIG vm = Some (Next vm') \<Longrightarrow> shifted 1 1 vm vm'"
  by (auto simp: op_PUSH_SIG_def split: Option.bind_splits if_splits dest!: shifted_dests)
   (simp add: shifted_def Let_def)

lemma op_PUSH_INT: "op_PUSH_INT vm = Some (Next vm') \<Longrightarrow> shifted 1 1 vm vm'"
  by (auto simp: op_PUSH_INT_def split: Option.bind_splits if_splits dest!: shifted_dests)
   (simp add: shifted_def Let_def)

lemma op_PUSH_META: "op_PUSH_META vm = Some (Next vm') \<Longrightarrow> shifted 1 1 vm vm'"
  by (auto simp: op_PUSH_META_def split: Option.bind_splits if_splits dest!: shifted_dests)
   (simp add: shifted_def Let_def)

lemma op_PUSH_TYPE: "op_PUSH_TYPE vm = Some (Next vm') \<Longrightarrow> shifted 3 1 vm vm'"
  by (auto simp: op_PUSH_TYPE_def split: Option.bind_splits if_splits dest!: shifted_dests)
   (simp add: shifted_def Let_def)

lemma op_LOAD_GLOBAL: "op_LOAD_GLOBAL env vm = Some (Next vm') \<Longrightarrow> shifted 2 1 vm vm'"
  by (auto simp: op_LOAD_GLOBAL_def split: Option.bind_splits if_splits dest!: shifted_dests)
   (simp add: shifted_def Let_def)

lemma op_STORE_GLOBAL: "op_STORE_GLOBAL vm = Some (Next vm') \<Longrightarrow> shifted 2 (-1) vm vm'"
  by (auto simp: op_STORE_GLOBAL_def split: Option.bind_splits if_splits dest!: shifted_dests)
   (simp add: shifted_def Let_def)

lemma op_LOAD_LOCAL: "op_LOAD_LOCAL vm = Some (Next vm') \<Longrightarrow> shifted 1 1 vm vm'"
  by (auto simp: op_LOAD_LOCAL_def split: Option.bind_splits if_splits dest!: shifted_dests shifted_loadLocal)
   (simp add: shifted_def Let_def)

lemma op_STORE_LOCAL: "op_STORE_LOCAL vm = Some (Next vm') \<Longrightarrow> shifted 1 (-1) vm vm'"
  by (auto simp: op_STORE_LOCAL_def split: Option.bind_splits if_splits dest!: shifted_dests shifted_storeLocal)
   (simp add: shifted_def Let_def)

lemma op_LOAD_FIELD: "op_LOAD_FIELD vm = Some (Next vm') \<Longrightarrow> shifted 2 0 vm vm'"
  by (auto simp: op_LOAD_FIELD_def split: Option.bind_splits if_splits dest!: shifted_dests shifted_loadField)
   (simp add: shifted_def Let_def)


lemma op_STORE_FIELD: "op_STORE_FIELD vm = Some (Next vm') \<Longrightarrow> shifted 2 (-2) vm vm'"
  by (auto simp: op_STORE_FIELD_def storeField_def pop_iff popNoReturn_iff shifted_def Let_def operand_def jump_def
      split: Option.bind_splits option.splits DSObject.splits DSValue.splits if_splits)

lemma setExitStatus_stack: "stack (setExitStatus i vm) = stack vm"
  by (simp add: setExitStatus_def)

lemma loadEnv: "loadEnv env b vm = Some (Some v, vm') \<Longrightarrow> shifted 0 (if b then -2 else -1) vm vm'"
  by (auto simp: loadEnv_def split: Option.bind_splits if_splits dest!: shifted_dests)
   (auto simp: shifted_def Let_def split: option.splits bool.splits Option.bind_splits if_splits)

lemma op_IMPORT_ENV: "op_IMPORT_ENV env vm = Some (Next vm') \<Longrightarrow> shifted 1 (-1) vm vm' \<or> shifted 1 (-2) vm vm'"
  by (auto simp: op_IMPORT_ENV_def split: Option.bind_splits if_splits dest!: shifted_dests loadEnv)
   (simp_all add: shifted_def Let_def)

lemma op_LOAD_ENV: "op_LOAD_ENV env vm = Some (Next vm') \<Longrightarrow> shifted 0 0 vm vm'"
  by (auto simp: op_LOAD_ENV_def split: Option.bind_splits if_splits option.splits prod.splits
      dest!: shifted_dests loadEnv) (simp_all add: shifted_def Let_def)

lemma storeEnv: "storeEnv env vm = Some (Next vm') \<Longrightarrow> shifted 0 (-2) vm vm'"
  by (auto simp: storeEnv_def split: Option.bind_splits if_splits option.splits dest!: shifted_dests )
   (simp_all add: shifted_def Let_def)

lemma op_CONCAT: "op_CONCAT env b vm = Some (Next vm') \<Longrightarrow> shifted 0 (-1) vm vm'"
  by (auto simp: op_CONCAT_def split: Option.bind_splits if_splits sum.splits prod.splits dest!: shifted_dests )
   (simp_all add: shifted_def Let_def)

lemma op_APPEND_ARRAY: "op_APPEND_ARRAY vm = Some (Next vm') \<Longrightarrow> shifted 0 (-1) vm vm'"
  by (auto simp: op_APPEND_ARRAY_def split: Option.bind_splits if_splits  dest!: shifted_dests )
   (simp_all add: shifted_def Let_def)

lemma op_APPEND_MAP: "op_APPEND_MAP env vm = Some (Next vm') \<Longrightarrow> shifted 0 (-2) vm vm'"
  by (auto simp: op_APPEND_MAP_def split: Option.bind_splits if_splits option.splits DSValue.splits DSObject.splits dest!: shifted_dests )
   (simp_all add: shifted_def Let_def)

lemma pushNewObject: "pushNewObject env i vm = Some (Next vm') \<Longrightarrow> shifted 0 1 vm vm'"
  by (auto simp: pushNewObject_def alloc_def Let_def split: if_splits dest!: shifted_dests)
   (simp_all add: shifted_def Let_def)

lemma op_NEW: "op_NEW env vm = Some (Next vm') \<Longrightarrow> shifted 3 1 vm vm'"
  by (auto simp: op_NEW_def split: Option.bind_splits dest!: shifted_dests pushNewObject)
   (simp_all add: shifted_def Let_def)

lemma op_NEW_CMD: "op_NEW_CMD vm = Some (Next vm') \<Longrightarrow> shifted 0 0 vm vm'"
  by (auto simp: op_NEW_CMD_def alloc_def split: Option.bind_splits dest!: shifted_dests)
   (simp_all add: shifted_def Let_def)

lemma stack_append_all:
  "fold (\<lambda>v r. Option.bind r (append_to_array argv v)) vs (Some vm) = Some vm' \<Longrightarrow> stack vm' = stack vm"
proof (induction vs arbitrary: vm)
  case (Cons v vs)
  have none: "fold (\<lambda>v r. Option.bind r (append_to_array argv v)) vs None = None" by (induction vs) auto
  from Cons.prems none obtain vm1 where "append_to_array argv v vm = Some vm1"
    "fold (\<lambda>v r. Option.bind r (append_to_array argv v)) vs (Some vm1) = Some vm'"
    by (cases "append_to_array argv v vm") auto
  with Cons.IH show ?case by (simp add: stack_append_to_array)
qed simp

lemma addCmdArg: "addCmdArg b vm = Some (Next vm') \<Longrightarrow> shifted 0 (-1) vm vm'"
  by (auto simp: addCmdArg_def split: Option.bind_splits if_splits option.splits DSObject.splits
      dest!: shifted_dests stack_append_all) (simp_all add: shifted_def Let_def)

lemma op_ADD_CMD_ARG: "op_ADD_CMD_ARG vm = Some (Next vm') \<Longrightarrow> shifted 1 (-1) vm vm'"
  by (auto simp: op_ADD_CMD_ARG_def split: Option.bind_splits dest!: shifted_dests addCmdArg)
   (simp_all add: shifted_def Let_def)

lemma op_REF: "op_REF b vm = Some (Next vm') \<Longrightarrow> shifted 0 (-1) vm vm'"
  by (auto simp: op_REF_def split: Option.bind_splits if_splits  dest!: shifted_dests )
   (simp_all add: shifted_def Let_def)

lemma op_EXIT_SIG: "op_EXIT_SIG vm = Some (Next vm') \<Longrightarrow> shifted 0 0 vm vm'"
  by (auto simp: op_EXIT_SIG_def shifted_def Let_def split: Option.bind_splits)

lemma op_UNWRAP: "op_UNWRAP env vm = Some (Next vm') \<Longrightarrow> shifted 0 0 vm vm'"
  by (auto simp: op_UNWRAP_def split: Option.bind_splits if_splits  dest!: shifted_dests )
   (simp_all add: shifted_def Let_def)

lemma op_CHECK_UNWRAP: "op_CHECK_UNWRAP vm = Some (Next vm') \<Longrightarrow> shifted 0 0 vm vm'"
  by (auto simp: op_CHECK_UNWRAP_def split: Option.bind_splits if_splits  dest!: shifted_dests )
   (simp_all add: shifted_def Let_def)

lemma op_RECLAIM_LOCAL: "op_RECLAIM_LOCAL vm = Some (Next vm') \<Longrightarrow> shifted 2 0 vm vm'"
  by (auto simp: op_RECLAIM_LOCAL_def split: Option.bind_splits if_splits  dest!: shifted_dests shifted_reclaim)
   (simp_all add: shifted_def Let_def)

text \<open>The instructions that jump.\<close>

definition depth_changed :: "int \<Rightarrow> VM \<Rightarrow> VM \<Rightarrow> bool" where
  "depth_changed d vm vm' \<longleftrightarrow> shifted 0 d vm (jump (vm_pc vm) vm')"

lemma depth_jump: "shifted n d vm vm' \<Longrightarrow> depth_changed d vm (jump i vm')"
  by (simp add: depth_changed_def shifted_def jump_def Let_def)

lemma op_BRANCH: "op_BRANCH vm = Some (Next vm') \<Longrightarrow> depth_changed (-1) vm vm'"
  by (auto simp: op_BRANCH_def intro: depth_jump split: Option.bind_splits dest!: shifted_pop)

lemma op_GOTO: "op_GOTO vm = Some (Next vm') \<Longrightarrow> depth_changed 0 vm vm'"
  by (auto simp: op_GOTO_def intro: depth_jump shifted_stack split: Option.bind_splits)

lemma op_ENTER_FINALLY: "op_ENTER_FINALLY vm = Some (Next vm') \<Longrightarrow> depth_changed 1 vm vm'"
  by (auto simp: op_ENTER_FINALLY_def intro: depth_jump split: Option.bind_splits dest!: shifted_push)

lemma op_EXIT_FINALLY: "op_EXIT_FINALLY vm = Some (Next vm') \<Longrightarrow> depth_changed (-1) vm vm'"
  by (auto simp: op_EXIT_FINALLY_def restoreThrownObject_def depth_changed_def shifted_def Let_def jump_def
      split: Option.bind_splits if_splits dest!: shifted_pop)

lemma op_LOOKUP_HASH: "op_LOOKUP_HASH vm = Some (Next vm') \<Longrightarrow> depth_changed (-2) vm vm'"
  by (auto simp: op_LOOKUP_HASH_def depth_changed_def split: Option.bind_splits if_splits option.splits DSObject.splits
      dest!: shifted_pop) (simp_all add: shifted_def Let_def jump_def)

lemma op_TRY_UNWRAP: "op_TRY_UNWRAP vm = Some (Next vm') \<Longrightarrow> depth_changed 0 vm vm' \<or> depth_changed (-1) vm vm'"
  by (auto simp: op_TRY_UNWRAP_def intro: depth_jump shifted_stack split: Option.bind_splits if_splits
      dest!: shifted_popNoReturn)

section \<open>The table of the instructions\<close>

definition call_ops :: "OpCode set" where
  "call_ops = {OP_CALL_METHOD, OP_CALL_FUNC, OP_CALL_BUILTIN, OP_CALL_BUILTIN2, OP_RETURN, OP_RETURN_V, OP_RETURN_UDC}"

definition jump_ops :: "OpCode set" where
  "jump_ops = {OP_BRANCH, OP_GOTO, OP_ENTER_FINALLY, OP_EXIT_FINALLY, OP_LOOKUP_HASH, OP_TRY_UNWRAP}"

lemma depth_bound: "shifted n d vm vm' \<Longrightarrow> d \<le> k \<Longrightarrow> \<exists>d\<le>k. shifted n d vm vm'"
  by blast

lemmas op_effects = shifted_popNoReturn shifted_dup shifted_dup2 shifted_swap shifted_push_value checkAssertion
  op_PRINT op_INSTANCE_OF op_CHECK_CAST op_PUSH_SIG op_PUSH_INT op_PUSH_STR op_PUSH_META op_PUSH_TYPE op_LOAD_CONST
  op_LOAD_GLOBAL op_STORE_GLOBAL op_LOAD_LOCAL op_STORE_LOCAL op_LOAD_FIELD op_STORE_FIELD op_IMPORT_ENV op_LOAD_ENV
  storeEnv op_CONCAT op_APPEND_ARRAY op_APPEND_MAP op_NEW op_NEW_CMD op_ADD_CMD_ARG op_REF op_EXIT_SIG op_UNWRAP
  op_CHECK_UNWRAP op_RECLAIM_LOCAL

lemma op_THROW: "op_THROW vm \<noteq> Some (Next vm')"
  by (simp add: op_THROW_def split: Option.bind_splits)

lemma exec_shifted:
  "exec_op op env vm = Some (Next vm') \<Longrightarrow> op \<notin> call_ops \<Longrightarrow> op \<notin> jump_ops \<Longrightarrow>
   \<exists>d\<le> stack_effect op. shifted (nat (getByteSize op)) d vm vm'"
  by (cases op)
    (simp_all add: call_ops_def jump_ops_def stack_effect_def getByteSize_def opcode_byte_def opcode_table_def,
     (auto simp: op_THROW dest!: op_effects intro: depth_bound)+)


lemma depth_le: "depth_changed d vm vm' \<Longrightarrow> d \<le> k \<Longrightarrow> \<exists>d\<le>k. depth_changed d vm vm'"
  by blast

lemma shifted_depth: "shifted n d vm vm' \<Longrightarrow> depth_changed d vm vm'"
  by (simp add: depth_changed_def shifted_def jump_def Let_def)

lemma exec_jump:
  "exec_op op env vm = Some (Next vm') \<Longrightarrow> op \<in> jump_ops \<Longrightarrow> \<exists>d\<le> stack_effect op. depth_changed d vm vm'"
  by (cases op)
    (simp_all add: jump_ops_def stack_effect_def opcode_byte_def opcode_table_def,
     (auto dest!: op_BRANCH op_GOTO op_ENTER_FINALLY op_EXIT_FINALLY op_LOOKUP_HASH op_TRY_UNWRAP
       intro: depth_le)+)

text \<open>
  [C35] The interpreter and the table of the instructions agree: an instruction that is not a call or a
  return keeps the frames, consumes the operand bytes the table gives for it unless it jumps, and
  leaves at most the number of operands that the table counts. The code generator computes
  the stack depth of a function from that count.
\<close>

theorem instructions_follow_table:
  assumes "exec_op op env vm = Some (Next vm')" "op \<notin> call_ops"
  shows "frames (stack vm') = frames (stack vm)
    \<and> frame_code (frame (stack vm')) = frame_code (frame (stack vm))
    \<and> bottomIndex (stack vm') = bottomIndex (stack vm)
    \<and> int (topIndex (stack vm')) \<le> int (topIndex (stack vm)) + stack_effect op
    \<and> (op \<notin> jump_ops \<longrightarrow> vm_pc vm' = vm_pc vm + nat (getByteSize op))"
proof (cases "op \<in> jump_ops")
  case True
  from exec_jump[OF assms(1) this] True show ?thesis
    by (auto simp: depth_changed_def shifted_def jump_def Let_def)
next
  case False
  from exec_shifted[OF assms this] show ?thesis by (auto simp: shifted_def Let_def)
qed

end
