(* ===== verification/VM_Exceptions.thy ===== *)
theory VM_Exceptions
  imports VM_Effects
begin

text \<open>
  Exceptions of the virtual machine: \<open>handleException\<close> against a search of the frames, and what
  becomes of an exception that is saved while a \<open>finally\<close> block runs.
\<close>

section \<open>The handler of an exception\<close>

text \<open>The frames that belong to the current run of \<open>mainLoop\<close>.\<close>

definition level :: "VMState \<Rightarrow> nat" where
  "level st = length (takeWhile (\<lambda>f. recDepth f = recDepth (frame st)) (frames st))"

definition frame_handler :: "vm_env \<Rightarrow> nat \<Rightarrow> ControlFrame \<Rightarrow> ExceptionEntry option" where
  "frame_handler env t f =
     (case frame_code f of
        None \<Rightarrow> None
      | Some c \<Rightarrow> if codeKind c = NATIVE then None else find_exception_entry env (pc f) t c)"

fun first_handler :: "vm_env \<Rightarrow> nat \<Rightarrow> ControlFrame list \<Rightarrow> (nat \<times> ExceptionEntry) option" where
  "first_handler env t [] = None"
| "first_handler env t (f # fs) =
     (case frame_handler env t f of
        Some e \<Rightarrow> Some (0, e)
      | None \<Rightarrow> map_option (\<lambda>(i, e). (Suc i, e)) (first_handler env t fs))"

text \<open>The state after the handler is entered, and after no handler was found.\<close>

definition in_handler :: "ControlFrame \<Rightarrow> ExceptionEntry \<Rightarrow> VMState \<Rightarrow> VMState \<Rightarrow> bool" where
  "in_handler f e st st' \<longleftrightarrow>
     pc (frame st') = dest e \<and> thrown_obj st' = V_EMPTY
     \<and> bottomIndex st' = stackBottomIndex f \<and> localVarOffset (frame st') = localVarOffset f
     \<and> (if catch_type e = type_id T_Root
        then savedThrown st' = thrown_obj st \<and> topIndex st' = bottomIndex st'
        else savedThrown st' = savedThrown st \<and> topIndex st' = bottomIndex st' + 1
          \<and> operands st' ! topIndex st' = thrown_obj st)"

definition exception_result :: "vm_env \<Rightarrow> nat \<Rightarrow> VMState \<Rightarrow> bool \<Rightarrow> VMState \<Rightarrow> bool" where
  "exception_result env t st found st' \<longleftrightarrow>
     (let visited = take (level st) (frame st # frames st) in
      case first_handler env t visited of
        None \<Rightarrow> \<not> found \<and> frames st' = drop (level st) (frames st) \<and> thrown_obj st' = thrown_obj st
      | Some (i, e) \<Rightarrow>
          frames st' = drop i (frames st) \<and> frame_code (frame st') = frame_code (visited ! i)
          \<and> (if catch_type e = type_id T_ProcGuard then \<not> found \<and> thrown_obj st' = thrown_obj st
             else found \<and> in_handler (visited ! i) e st st'))"

text \<open>
  What is needed of the frames of the run: they have code and lie in the operand array one above the
  other, with the variables that a handler resets and room for the exception.
\<close>

definition frame_ok :: "nat \<Rightarrow> ControlFrame \<Rightarrow> bool" where
  "frame_ok n f \<longleftrightarrow>
     frame_code f \<noteq> None \<and> stackBottomIndex f + 1 < n
     \<and> (\<forall>e\<in>set (exceptionEntries (the (frame_code f))).
          localVarOffset f + localOffset e mod 256 + localSize e mod 256 \<le> n)"

definition frames_ok :: "VMState \<Rightarrow> bool" where
  "frames_ok st \<longleftrightarrow>
     topIndex st < length (operands st)
     \<and> nested 0 (frame st) (take (level st - 1) (frames st))
     \<and> (\<forall>f\<in>set (take (level st) (frame st # frames st)). frame_ok (length (operands st)) f)"

lemma level_Cons:
  "frames st = f # fs \<Longrightarrow> recDepth f = recDepth (frame st) \<Longrightarrow>
   level st = Suc (length (takeWhile (\<lambda>f. recDepth f = recDepth (frame st)) fs))"
  by (simp add: level_def)

lemma level_zero: "level st = 0 \<longleftrightarrow> checkVMReturn st"
  by (auto simp: level_def checkVMReturn_def split: list.splits)

lemma level_Suc:
  assumes "level st = Suc n"
  obtains f fs where "frames st = f # fs" "recDepth f = recDepth (frame st)"
    "n = length (takeWhile (\<lambda>f. recDepth f = recDepth (frame st)) fs)"
  using assms by (cases "frames st") (auto simp: level_def split: if_splits)

lemma reset_slots_room:
  "i + n \<le> length (operands st) \<Longrightarrow> \<exists>st'. reset_slots i n st = Some st' \<and> frame st' = frame st
     \<and> frames st' = frames st \<and> length (operands st') = length (operands st)
     \<and> thrown_obj st' = thrown_obj st \<and> savedThrown st' = savedThrown st"
proof (induction n arbitrary: st)
  case (Suc n)
  let ?st = "st\<lparr>operands := (operands st)[i + n := V_EMPTY]\<rparr>"
  have "write_slot st (i + n) V_EMPTY = Some ?st" using Suc.prems by (simp add: write_slot_iff)
  moreover obtain st' where "reset_slots i n ?st = Some st'" "frame st' = frame ?st" "frames st' = frames ?st"
    "length (operands st') = length (operands ?st)" "thrown_obj st' = thrown_obj ?st"
    "savedThrown st' = savedThrown ?st"
    using Suc.IH[of ?st] Suc.prems by auto
  ultimately show ?case by auto
qed simp

lemma enter_handler_ok:
  assumes "topIndex st < length (operands st)" "bottomIndex st \<le> topIndex st"
    "bottomIndex st + 1 < length (operands st)"
    "localVarOffset (frame st) + localOffset e mod 256 + localSize e mod 256 \<le> length (operands st)"
  shows "\<exists>st'. enter_handler e st = Some st' \<and> frames st' = frames st
    \<and> frame_code (frame st') = frame_code (frame st) \<and> in_handler (frame st) e st st'"
proof -
  let ?st0 = "set_pc (dest e) st"
  obtain st1 where st1: "clearOperands ?st0 = Some st1"
    "frame st1 = (frame ?st0)\<lparr>stackTopIndex := min (bottomIndex st) (topIndex st)\<rparr>" "frames st1 = frames st"
    "length (operands st1) = length (operands st)" "thrown_obj st1 = thrown_obj st"
    "savedThrown st1 = savedThrown st"
    using pop_until_effect[of ?st0 "bottomIndex st"] assms(1) by (auto simp: clearOperands_def)
  obtain st2 where st2: "reclaimLocals (localOffset e mod 256) (localSize e mod 256) st1 = Some st2"
    "frame st2 = frame st1" "frames st2 = frames st1" "length (operands st2) = length (operands st1)"
    "thrown_obj st2 = thrown_obj st1" "savedThrown st2 = savedThrown st1"
    using reset_slots_room[of "localVarOffset (frame st1) + localOffset e mod 256" "localSize e mod 256" st1]
      assms(4) st1(2,4) by (auto simp: reclaimLocals_def)
  have top: "topIndex st2 = bottomIndex st" using st2(2) st1(2) assms(2) by simp
  show ?thesis
  proof (cases "catch_type e = type_id T_Root")
    case True
    then show ?thesis using st1 st2 top
      by (simp add: enter_handler_def in_handler_def saveThrownObject_def takeThrownObject_def)
  next
    case False
    then show ?thesis using st1 st2 top assms(3)
      by (auto simp: enter_handler_def in_handler_def loadThrownObject_def takeThrownObject_def push_iff)
  qed
qed


text \<open>Unwinding to the caller's frame within the run.\<close>

lemma frames_ok_unwind:
  assumes "frames_ok st" "level st = Suc n"
  shows "\<exists>st' f. unwind st = Some st' \<and> frames st = f # frames st' \<and> level st' = n
    \<and> thrown_obj st' = thrown_obj st \<and> savedThrown st' = savedThrown st
    \<and> (0 < n \<longrightarrow> frame st' = f \<and> frames_ok st')"
proof -
  obtain f fs where f: "frames st = f # fs" "recDepth f = recDepth (frame st)"
    "n = length (takeWhile (\<lambda>f. recDepth f = recDepth (frame st)) fs)"
    using level_Suc[OF assms(2)] by blast
  have top: "topIndex st < length (operands st)" using assms(1) by (simp add: frames_ok_def)
  obtain st' where st': "unwind st = Some st'"
    using pop_until_effect[of "st\<lparr>frame := (frame st)\<lparr>frame_code := frame_code f,
      stackBottomIndex := stackBottomIndex f, localVarOffset := localVarOffset f, pc := pc f\<rparr>\<rparr>"
      "stackTopIndex f"] top by (auto simp: unwind_def f(1))
  from unwind_SomeD[OF st' top] f(1) have u: "frames st' = fs"
    "frame st' = f\<lparr>stackTopIndex := min (stackTopIndex f) (topIndex st), recDepth := recDepth (frame st)\<rparr>"
    "length (operands st') = length (operands st)" "thrown_obj st' = thrown_obj st"
    "savedThrown st' = savedThrown st" by auto
  have lev: "level st' = n" by (simp add: level_def u(1,2) f(3))
  have "frame st' = f \<and> frames_ok st'" if n: "0 < n"
  proof -
    from n obtain m where m: "n = Suc m" by (cases n) auto
    have nest: "nested 0 (frame st) (f # take m fs)"
      using assms by (simp add: frames_ok_def f(1) m)
    then have e: "frame st' = f" by (cases f) (simp add: u(2) min_def f(2)[symmetric])
    have "nested 0 (frame st') (take (level st' - 1) (frames st'))"
      using nest by (simp add: e lev u(1) m)
    moreover have "topIndex st' < length (operands st')" using nest top by (simp add: e u(3))
    moreover have "\<forall>g\<in>set (take (level st') (frame st' # frames st')). frame_ok (length (operands st')) g"
      using assms by (simp add: frames_ok_def f(1) m e lev u(1,3))
    ultimately show ?thesis using e by (simp add: frames_ok_def)
  qed
  with st' u lev f(1) show ?thesis by (intro exI[of _ st'] exI[of _ f]) auto
qed

text \<open>One frame without a handler: the search goes on in its caller.\<close>

lemma exception_result_unwind:
  assumes "level st = Suc n" "frame_handler env t (frame st) = None" "frames st = f # frames st1"
    "level st1 = n" "thrown_obj st1 = thrown_obj st" "savedThrown st1 = savedThrown st"
    "0 < n \<Longrightarrow> frame st1 = f" "exception_result env t st1 found st'"
  shows "exception_result env t st found st'"
proof (cases n)
  case 0
  then show ?thesis using assms by (simp add: exception_result_def)
next
  case (Suc m)
  let ?vis = "take n (f # frames st1)"
  have vis: "take (level st) (frame st # frames st) = frame st # ?vis" "take (level st1) (frame st1 # frames st1) = ?vis"
    using assms Suc by simp_all
  have handler: "in_handler g e st1 st' = in_handler g e st st'" for g e
    using assms(5,6) by (simp add: in_handler_def)
  show ?thesis
    using assms(8) unfolding exception_result_def Let_def vis
    by (cases "first_handler env t ?vis")
      (auto simp: assms(1-6) handler split: if_splits)
qed

lemma handleException_result:
  assumes "frames_ok (stack vm) \<or> level (stack vm) = 0"
    "getTypeID (vm_heap vm) (thrown_obj (stack vm)) = Some t"
  shows "\<exists>found vm'. handleException env vm = Some (found, vm')
    \<and> exception_result env t (stack vm) found (stack vm') \<and> vm_heap vm' = vm_heap vm \<and> globals vm' = globals vm"
  using assms
proof (induction "level (stack vm)" arbitrary: vm)
  case 0
  then have "checkVMReturn (stack vm)" by (simp add: level_zero)
  then show ?case using 0(1)
    by (intro exI[of _ False] exI[of _ vm]) (simp add: exception_result_def handleException.simps[of env vm])
next
  case (Suc n)
  let ?st = "stack vm"
  from Suc.prems(1) Suc.hyps(2) have ok: "frames_ok ?st" and lev: "level ?st = Suc n" by auto
  then have ret: "\<not> checkVMReturn ?st" using level_zero[of ?st] by simp
  have fok: "frame_ok (length (operands ?st)) (frame ?st)" using ok lev by (simp add: frames_ok_def)
  then obtain c where c: "frame_code (frame ?st) = Some c" by (auto simp: frame_ok_def)
  define vm1 where "vm1 = (if c = signalTrampoline then vm\<lparr>event_mask := False\<rparr> else vm)"
  have vm1: "stack vm1 = ?st" "vm_heap vm1 = vm_heap vm" "globals vm1 = globals vm" by (simp_all add: vm1_def)
  obtain st1 f where u: "unwind ?st = Some st1" "frames ?st = f # frames st1" "level st1 = n"
    "thrown_obj st1 = thrown_obj ?st" "savedThrown st1 = savedThrown ?st" "0 < n \<longrightarrow> frame st1 = f \<and> frames_ok st1"
    using frames_ok_unwind[OF ok lev] by (elim exE conjE) (rule that)
  note unf = handleException.simps[of env vm]
  show ?case
  proof (cases "frame_handler env t (frame ?st)")
    case None
    obtain found vm' where r: "handleException env (vm1\<lparr>stack := st1\<rparr>) = Some (found, vm')"
      "exception_result env t st1 found (stack vm')" "vm_heap vm' = vm_heap vm" "globals vm' = globals vm"
      using Suc.hyps(1)[of "vm1\<lparr>stack := st1\<rparr>"] u(3,4,6) vm1 Suc.prems(2) by (cases "n = 0") auto
    have "handleException env vm = handleException env (vm1\<lparr>stack := st1\<rparr>)"
      using None ret c Suc.prems(2) u(1)
      by (subst unf) (simp add: current_code_def frame_handler_def vm1(1) flip: vm1_def split: if_splits)
    moreover have "exception_result env t ?st found (stack vm')"
      using exception_result_unwind[OF lev None u(2-5) _ r(2)] u(6) by blast
    ultimately show ?thesis using r by auto
  next
    case (Some e)
    have vis: "take (level ?st) (frame ?st # frames ?st) = frame ?st # take n (frames ?st)" by (simp add: lev)
    have nat: "codeKind c \<noteq> NATIVE" "find_exception_entry env (vm_pc vm) t c = Some e"
      using Some c by (auto simp: frame_handler_def split: if_splits)
    show ?thesis
    proof (cases "catch_type e = type_id T_ProcGuard")
      case True
      have "handleException env vm = Some (False, vm)"
        using ret c nat Suc.prems(2) True by (subst unf) (simp add: current_code_def)
      then show ?thesis using Some True c by (auto simp: exception_result_def vis)
    next
      case False
      have "e \<in> set (exceptionEntries c)"
        using nat(2) by (auto simp: find_exception_entry_def find_Some_iff)
      then obtain st' where st': "enter_handler e ?st = Some st'" "frames st' = frames ?st"
        "frame_code (frame st') = frame_code (frame ?st)" "in_handler (frame ?st) e ?st st'"
        using enter_handler_ok[of ?st e] ok fok c nested_bounds[of 0 "frame ?st"]
        by (fastforce simp: frames_ok_def frame_ok_def)
      have "handleException env vm = Some (True, vm\<lparr>stack := st'\<rparr>)"
        using ret c nat Suc.prems(2) False st'(1) by (subst unf) (simp add: current_code_def)
      then show ?thesis using Some False st' by (auto simp: exception_result_def vis)
    qed
  qed
qed


section \<open>A small program\<close>

text \<open>
  The code of \<open>try { throw "a" } finally { try { throw "b" } catch $e {} }\<close>, as the code generator
  lays it out, and a state that is about to run it. Its two exceptions are strings.
\<close>

definition sample_type :: "nat \<Rightarrow> DSType" where
  "sample_type i =
     \<lparr>nameRef = [], tag = make_tag 0 i, superType = (if i = 1 then None else if i = 2 then Some 1 else Some 2),
      class_of = BuiltinType \<lparr>offset = 0, methodSize = 0\<rparr>\<rparr>"

definition sample_env :: vm_env where
  "sample_env =
     \<lparr>natives = \<lparr>nativeFuncInfoTable = [], info_of = (\<lambda>name. \<lparr>offset = 0, methodSize = 0\<rparr>)\<rparr>,
      type_table = map sample_type [0..<10], func_code = (\<lambda>a. NativeCode []),
      native_table = (\<lambda>i vm. (V_EMPTY, vm)), ref_count = (\<lambda>vm a. 1), hash_order = (\<lambda>es. es)\<rparr>"

definition sample_code :: DSCode where
  "sample_code =
     \<lparr>codeKind = TOPLEVEL, localVarNum = 1, stackDepth = 2,
      code_bytes = [code_byte OP_PUSH_STR1, 97, code_byte OP_THROW,
                    code_byte OP_PUSH_STR1, 98, code_byte OP_THROW, code_byte OP_POP,
                    code_byte OP_EXIT_FINALLY, code_byte OP_HALT],
      code_name = [], constPool = [], lineNumEntries = [],
      exceptionEntries =
        [\<lparr>catch_type = type_id T_Root, begin_pc = 0, end_pc = 3, dest = 3, localOffset = 0, localSize = 1\<rparr>,
         \<lparr>catch_type = type_id T_Any, begin_pc = 3, end_pc = 6, dest = 6, localOffset = 0, localSize = 1\<rparr>]\<rparr>"

text \<open>The state at an address with some operands above its only variable, which is at index 1.\<close>

definition sample_vm :: "nat \<Rightarrow> DSValue list \<Rightarrow> DSValue \<Rightarrow> DSValue list \<Rightarrow> VM" where
  "sample_vm i ops saved globs =
     \<lparr>stack = \<lparr>frame = \<lparr>frame_code = Some sample_code, stackTopIndex = 1 + length ops, stackBottomIndex = 1,
                         localVarOffset = 1, pc = i, recDepth = 0\<rparr>,
               frames = [empty_frame], operands = V_EMPTY # V_EMPTY # ops @ replicate (62 - length ops) V_EMPTY,
               thrown_obj = V_EMPTY, savedThrown = saved\<rparr>,
      vm_heap = [], globals = globs, event_mask = False, environ = (\<lambda>_. None), vm_stdout = []\<rparr>"

lemma sample_bytes:
  "code_byte OP_PUSH_STR1 = 11" "code_byte OP_THROW = 50" "code_byte OP_POP = 31"
  "code_byte OP_EXIT_FINALLY = 52" "code_byte OP_HALT = 0"
  by (simp_all add: code_byte_def opcode_byte_def opcode_table_def)

lemma sample_decode:
  "decode_op 11 = Some OP_PUSH_STR1" "decode_op 50 = Some OP_THROW" "decode_op 31 = Some OP_POP"
  "decode_op 52 = Some OP_EXIT_FINALLY"
  by (simp_all add: decode_op_def opcode_table_def)

lemmas sample_run = vm_step_def checkVMEvent_def fetch_def operand_def read_operand_def current_code_def jump_def
  sample_code_def sample_bytes sample_decode sample_vm_def

lemma sample_rest: "replicate 62 x = x # replicate 61 x"
  by (simp add: numeral_eq_Suc)

lemma sample_push:
  "i = 0 \<or> i = 3 \<Longrightarrow> vm_step sample_env None (sample_vm i [] saved globs) =
     Some (Next (sample_vm (i + 2) [V_SSTR [if i = 0 then 97 else 98]] saved globs))"
  by (auto simp: sample_run op_PUSH_STR_def push_value_def on_stack_def push_def write_slot_def set_pc_def
      set_top_def Let_def sample_rest)


definition sample_thrown :: "nat \<Rightarrow> DSValue \<Rightarrow> DSValue list \<Rightarrow> VM" where
  "sample_thrown i v globs =
     (sample_vm i [] V_EMPTY globs)\<lparr>stack := (stack (sample_vm i [] V_EMPTY globs))\<lparr>thrown_obj := v\<rparr>\<rparr>"

text \<open>A throw while an exception is saved throws the saved one again.\<close>

lemma sample_throw:
  "i = 2 \<or> i = 5 \<Longrightarrow> vm_step sample_env None (sample_vm i [v] saved globs) =
     Some (Raised (sample_thrown (i + 1) (if saved = V_EMPTY then v else saved) (globs[10 := V_INT 1])))"
  by (auto simp: sample_run sample_thrown_def op_THROW_def pop_value_def pop_def peek_def read_slot_def write_slot_def
      set_pc_def set_top_def Let_def sample_rest throwObject_def setExitStatus_def setThrownObject_def
      restoreThrownObject_def EXIT_STATUS_INDEX_def)

lemma sample_subtype: "isSameOrBaseTypeOf (map sample_type [0..<10]) 1 9 = Some True"
  "isSameOrBaseTypeOf (map sample_type [0..<10]) 2 9 = Some True"
  by (simp_all add: isSameOrBaseTypeOf.simps isNothingType_def isOptionType_def sample_type_def is_type_def
      typeId_def attr_def make_tag_def hasFlag_def upt_rec)


lemmas sample_handle = sample_thrown_def sample_vm_def sample_code_def checkVMReturn_def current_code_def
  getTypeID_def find_exception_entry_def entry_matches_def sample_env_def sample_subtype sample_subtype[unfolded One_nat_def] enter_handler_def
  clearOperands_def reclaimLocals_def set_pc_def pop_until.simps loadThrownObject_def saveThrownObject_def
  takeThrownObject_def push_def write_slot_def set_top_def signalTrampoline_def NativeCode_def sample_rest
  empty_frame_def

lemma sample_finally:
  "handleException sample_env (sample_thrown 3 (V_SSTR s) globs) =
     Some (True, sample_vm 3 [] (V_SSTR s) globs)"
  by (subst handleException.simps) (simp add: sample_handle)

lemma sample_catch:
  "handleException sample_env (sample_thrown 6 (V_SSTR s) globs) =
     Some (True, sample_vm 6 [V_SSTR s] V_EMPTY globs)"
  by (subst handleException.simps) (simp add: sample_handle)

lemma sample_pop:
  "vm_step sample_env None (sample_vm 6 [v] saved globs) = Some (Next (sample_vm 7 [] saved globs))"
  by (simp add: sample_run on_stack_def popNoReturn_def write_slot_def set_pc_def set_top_def sample_rest)

lemma sample_exit:
  "vm_step sample_env None (sample_vm 7 [] V_EMPTY globs) = None"
  by (simp add: sample_run op_EXIT_FINALLY_def restoreThrownObject_def pop_value_def pop_def peek_def read_slot_def
      write_slot_def set_pc_def set_top_def Let_def)




text \<open>
  [C36] \<open>handleException\<close> finds the handler that the source asks for: it looks at the frames of the
  current run from the innermost outwards, in each at the entries in order, and takes the first one
  whose range has the instruction and whose type has the exception. The frames inside it are gone, its
  operands are cleared, and the exception is on its stack for a \<open>catch\<close> block or saved for a
  \<open>finally\<close> block. Without a handler, or at the guard of a sub-shell, the run ends with the exception
  still thrown.
\<close>

theorem exception_handler_found:
  assumes "frames_ok (stack vm)" "getTypeID (vm_heap vm) (thrown_obj (stack vm)) = Some t"
  shows "\<exists>found vm'. handleException env vm = Some (found, vm')
    \<and> exception_result env t (stack vm) found (stack vm')"
  using handleException_result[of vm t env] assms by blast

lemma exception_handler_found_witness:
  "\<exists>vm'. handleException sample_env (sample_thrown 3 (V_SSTR []) []) = Some (True, vm')
    \<and> savedThrown (stack vm') = V_SSTR []"
proof -
  let ?vm = "sample_thrown 3 (V_SSTR []) []"
  have l: "level (stack ?vm) = 1" by (simp add: level_def sample_thrown_def sample_vm_def empty_frame_def)
  have ok: "frames_ok (stack ?vm)"
    unfolding frames_ok_def l by (simp add: sample_thrown_def sample_vm_def frame_ok_def sample_code_def)
  have t: "getTypeID (vm_heap ?vm) (thrown_obj (stack ?vm)) = Some 9"
    by (simp add: getTypeID_def sample_thrown_def)
  have f: "first_handler sample_env 9 (take 1 (frame (stack ?vm) # frames (stack ?vm)))
      = Some (0, exceptionEntries sample_code ! 0)"
    by (simp add: frame_handler_def find_exception_entry_def entry_matches_def sample_thrown_def sample_vm_def
        sample_code_def sample_env_def sample_subtype sample_subtype[unfolded One_nat_def])
  from exception_handler_found[OF ok t, of sample_env] obtain found vm' where r:
    "handleException sample_env ?vm = Some (found, vm')"
    "exception_result sample_env 9 (stack ?vm) found (stack vm')" by blast
  have "found \<and> savedThrown (stack vm') = thrown_obj (stack ?vm)"
    using r(2) unfolding exception_result_def l Let_def f by (simp add: sample_code_def in_handler_def)
  with r(1) show ?thesis by (auto simp: sample_thrown_def)
qed


lemma instructions_follow_table_witness:
  "\<exists>vm'. exec_op OP_DUP2 sample_env (sample_vm 0 [V_INVALID, V_INVALID] V_EMPTY []) = Some (Next vm')
    \<and> topIndex (stack vm') \<le> 5"
proof -
  let ?vm = "sample_vm 0 [V_INVALID, V_INVALID] V_EMPTY []"
  obtain vm' where vm': "exec_op OP_DUP2 sample_env ?vm = Some (Next vm')"
    by (simp add: on_stack_def dup2_def peekByOffset_def peek_def read_slot_def push_def write_slot_def sample_vm_def)
  from instructions_follow_table[OF vm'] have
    "int (topIndex (stack vm')) \<le> int (topIndex (stack ?vm)) + stack_effect OP_DUP2"
    by (simp add: call_ops_def)
  moreover have "stack_effect OP_DUP2 = 2" by (simp add: stack_effect_def opcode_byte_def opcode_table_def)
  ultimately have "topIndex (stack vm') \<le> 5" by (simp add: sample_vm_def)
  with vm' show ?thesis by blast
qed


text \<open>
  When no frame is left for a signal handler, the mask that should hold signals back while it runs is
  set all the same; only the handler's own frame would clear it.
\<close>

lemma failed_kick_masks:
  assumes "length (frames (stack vm)) = MAX_FRAME_SIZE" "\<not> event_mask vm"
    and "checkVMEvent env (Some (sigNum, handler)) vm = Some (ok, vm')"
  shows "\<not> ok \<and> event_mask vm'"
proof -
  have frames_push: "push v st = Some st' \<Longrightarrow> frames st' = frames st" for v st st' by (simp add: push_iff)
  have frames_reserve: "reserve n st = Some st' \<Longrightarrow> frames st' = frames st" for n st st'
    by (auto simp: reserve_def resize_def Let_def split: if_splits Option.bind_splits)
  from assms show ?thesis
    by (auto simp: checkVMEvent_def kickSignalHandler_def on_stack_def windStackFrame_def wind_def raiseError_def
        newError_def createStr_def throwObject_def setExitStatus_def Let_def
        split: Option.bind_splits if_splits prod.splits dest!: frames_push frames_reserve)
qed

end
