(* ===== verification/Lexer_Base.thy ===== *)
theory Lexer_Base
  imports Unicode_Width String_Ref
begin

text \<open>
  Tokens and line numbers (\<open>src/misc/token.hpp\<close>, \<open>src/misc/lexer_base.hpp\<close>).
\<close>

record Token =
  token_pos :: nat
  token_size :: nat

definition endPos :: "Token \<Rightarrow> nat" where "endPos t = token_pos t + token_size t"

section \<open>Line numbers\<close>

record LineNumTable =
  line_offset :: nat
  newlines :: "nat list"

definition addNewlinePos :: "nat \<Rightarrow> LineNumTable \<Rightarrow> LineNumTable" where
  "addNewlinePos pos t =
     (if newlines t = [] \<or> pos > last (newlines t) then t\<lparr>newlines := newlines t @ [pos]\<rparr> else t)"

definition getMaxLineNum :: "LineNumTable \<Rightarrow> nat" where
  "getMaxLineNum t = length (newlines t) + line_offset t"

definition lookup_line :: "LineNumTable \<Rightarrow> nat \<Rightarrow> nat" where
  "lookup_line t pos =
     (let i = lower_bound (\<lambda>x. x < pos) (newlines t)
      in if i = length (newlines t) then getMaxLineNum t else i + line_offset t)"

end
