(* ===== verification/Syntax_Tree.thy ===== *)
theory Syntax_Tree
  imports Type_Methods Values Lexer_Base
begin

text \<open>
  The syntax tree that the type checker hands to the code generator (\<open>src/node.h\<close>, \<open>src/node.cpp\<close>).
  A node has its type, its token and the members of its class; members that only
  the parser or the type checker reads (names of types, tokens of operators) are left out, and a
  pointer that may be null is an option.
\<close>

datatype ForkKind = FK_NONE | FK_STR | FK_ARRAY | FK_IN_PIPE | FK_OUT_PIPE | FK_COPROC | FK_JOB | FK_DISOWN

datatype GlobMeta = GM_ANY | GM_ZERO_OR_MORE

datatype RedirOP =
  IN_2_FILE | OUT_2_FILE | OUT_2_FILE_APPEND | ERR_2_FILE | ERR_2_FILE_APPEND
| MERGE_ERR_2_OUT_2_FILE | MERGE_ERR_2_OUT_2_FILE_APPEND | MERGE_ERR_2_OUT | MERGE_OUT_2_ERR | HERE_STR

text \<open>The operators that the code generator tells apart.\<close>

datatype OperatorKind =
  OK_COND_AND | OK_COND_OR | OK_STR_CHECK | OK_NULL_COALE | OK_EQ | OK_NE | OK_ADD | OK_UNWRAP | OK_OTHER

datatype NumberValue = Num_Int int64 | Num_Float double | Num_Signal int64

datatype AdditionalOp = AO_NOP | AO_DUP_RECV

datatype TypeOpKind =
  NO_CAST | TO_VOID | NUM_CAST | TO_STRING | TO_BOOL | CHECK_CAST | CHECK_UNWRAP | PRINT
| ALWAYS_FALSE | ALWAYS_TRUE | INSTANCEOF

datatype CaseKind = CK_MAP | CK_IF_ELSE

datatype JumpKind = BREAK | CONTINUE | THROW | RETURN

datatype VarDeclKind = VD_VAR | VD_LET | VD_IMPORT_ENV | VD_EXPORT_ENV

text \<open>
  For a method call the expression of \<open>ApplyNode\<close> is the \<open>AccessNode\<close> that holds the receiver.
\<close>

datatype (plugins only: code size) Node = Node (getType: nat) (getToken: Token) (members: NodeMembers)
and NodeMembers =
  TypeNode
| NumberNode NumberValue
| StringNode bytes bool \<comment> \<open>the text, whether it is a tilde\<close>
| StringExprNode "Node list"
| RegexNode bytes
| ArrayNode "Node list"
| MapNode "Node list" "Node list"
| TupleNode "Node list"
| VarNode bytes nat FieldAttribute
| AccessNode Node nat FieldAttribute AdditionalOp
| TypeOpNode Node TypeOpKind nat \<comment> \<open>with the type that \<open>is\<close> tests for\<close>
| UnaryOpNode OperatorKind "Node option" "Node option"
| BinaryOpNode "Node option" OperatorKind "Node option" "Node option"
| ArgsNode "Node list"
| ApplyNode bool Node Node "MethodHandle option" \<comment> \<open>whether it is a method call\<close>
| NewNode Node "MethodHandle option"
| EmbedNode Node "MethodHandle option"
| CmdNode Node "Node list" nat bool \<comment> \<open>the number of redirections, whether to fork\<close>
| CmdArgNode nat "Node list"
| ArgArrayNode "Node list"
| RedirNode RedirOP Node
| WildCardNode GlobMeta
| PipelineNode "Node list" nat bool \<comment> \<open>the base index, whether it is in a fork\<close>
| WithNode Node "Node list" nat
| ForkNode ForkKind Node
| AssertNode Node Node
| BlockNode "Node list" nat nat nat \<comment> \<open>base index, number of variables, the most in it\<close>
| TypeAliasNode
| LoopNode Node "Node option" Node Node bool
| IfNode Node Node Node
| CaseNode CaseKind Node "Node list"
| ArmNode "Node list" Node
| JumpNode JumpKind Node bool \<comment> \<open>whether it leaves a block with a finally clause\<close>
| CatchNode nat nat Node \<comment> \<open>the type caught, the index of the variable\<close>
| TryNode Node "Node list" "Node option"
| VarDeclNode bytes VarDeclKind bool nat "Node option" \<comment> \<open>whether it is global, the index\<close>
| AssignNode Node Node bool bool \<comment> \<open>self assignment, assignment of a field\<close>
| ElementSelfAssignNode Node Node Node Node Node \<comment> \<open>receiver, index, getter, right side, setter\<close>
| PrefixAssignNode "Node list" "Node option" nat
| FunctionNode bytes Node nat nat nat \<comment> \<open>number of variables, index, type\<close>
| InterfaceNode
| UserDefinedCmdNode bytes Node nat nat \<comment> \<open>index, number of variables\<close>
| SourceNode
| SourceListNode
| CodeCompNode
| EmptyNode

definition getPos :: "Node \<Rightarrow> nat" where "getPos n = token_pos (getToken n)"

section \<open>Access to the children\<close>

text \<open>Each is \<open>None\<close> where the cast of the code fails.\<close>

definition segmentNodes :: "NodeMembers \<Rightarrow> Node list option" where
  "segmentNodes m = (case m of CmdArgNode _ segments \<Rightarrow> Some segments | _ \<Rightarrow> None)"

definition getRecvNode :: "NodeMembers \<Rightarrow> Node option" where
  "getRecvNode m = (case m of AccessNode recv _ _ _ \<Rightarrow> Some recv | _ \<Rightarrow> None)"

definition assign_parts :: "NodeMembers \<Rightarrow> (Node \<times> Node) option" where
  "assign_parts m = (case m of AssignNode left right _ _ \<Rightarrow> Some (left, right) | _ \<Rightarrow> None)"

definition getPatternNodes :: "NodeMembers \<Rightarrow> Node list option" where
  "getPatternNodes m = (case m of ArmNode patterns _ \<Rightarrow> Some patterns | _ \<Rightarrow> None)"

definition isEmptyNode :: "NodeMembers \<Rightarrow> bool" where
  "isEmptyNode m = (case m of EmptyNode \<Rightarrow> True | _ \<Rightarrow> False)"

definition isStringNode :: "NodeMembers \<Rightarrow> bool" where
  "isStringNode m = (case m of StringNode _ _ \<Rightarrow> True | _ \<Rightarrow> False)"

definition isStringExprNode :: "NodeMembers \<Rightarrow> bool" where
  "isStringExprNode m = (case m of StringExprNode _ \<Rightarrow> True | _ \<Rightarrow> False)"

definition isWildCardNode :: "NodeMembers \<Rightarrow> bool" where
  "isWildCardNode m = (case m of WildCardNode _ \<Rightarrow> True | _ \<Rightarrow> False)"

definition isCmdNode :: "NodeMembers \<Rightarrow> bool" where
  "isCmdNode m = (case m of CmdNode _ _ _ _ \<Rightarrow> True | _ \<Rightarrow> False)"

definition isTilde :: "NodeMembers \<Rightarrow> bool" where
  "isTilde m = (case m of StringNode _ tilde \<Rightarrow> tilde | _ \<Rightarrow> False)"

definition isTildeAt :: "Node list \<Rightarrow> nat \<Rightarrow> bool" where
  "isTildeAt segments i \<longleftrightarrow> isTilde (members (segments ! i))"

definition isIgnorableEmptyString :: "Node list \<Rightarrow> bool" where
  "isIgnorableEmptyString segments \<longleftrightarrow>
     length segments > 1
     \<or> (\<not> isStringNode (members (last segments)) \<and> \<not> isStringExprNode (members (last segments)))"

definition isLastPipe :: "Node list \<Rightarrow> bool \<Rightarrow> bool" where
  "isLastPipe nodes inFork \<longleftrightarrow> \<not> inFork \<and> \<not> isCmdNode (members (last nodes))"

definition isDefault :: "Node \<Rightarrow> bool" where
  "isDefault arm \<longleftrightarrow> getPatternNodes (members arm) = Some []"

definition hasDefault :: "Node list \<Rightarrow> bool" where
  "hasDefault arms \<longleftrightarrow> list_ex isDefault arms"

definition isEmptyCode :: "Node \<Rightarrow> bool" where
  "isEmptyCode n \<longleftrightarrow> (case members n of EmptyNode \<Rightarrow> True | BlockNode ns _ _ _ \<Rightarrow> ns = [] | _ \<Rightarrow> False)"

text \<open>\<open>findInnerNode\<close> goes through casts to a block or to a catch clause.\<close>

fun findInnerBlock :: "Node \<Rightarrow> (nat \<times> nat \<times> nat) option" where
  "findInnerBlock (Node _ _ m) =
     (case m of
        BlockNode _ base vars maxVars \<Rightarrow> Some (base, vars, maxVars)
      | TypeOpNode e _ _ \<Rightarrow> findInnerBlock e
      | _ \<Rightarrow> None)"

fun findInnerCatch :: "Node \<Rightarrow> (nat \<times> Node) option" where
  "findInnerCatch (Node _ _ m) =
     (case m of
        CatchNode t _ block \<Rightarrow> Some (t, block)
      | TypeOpNode e _ _ \<Rightarrow> findInnerCatch e
      | _ \<Rightarrow> None)"

end
