(* ===== verification/Code_Builder.thy ===== *)
theory Code_Builder
  imports Syntax_Tree VM_Code
begin

text \<open>
  The state of the code generator and the emission of instructions (\<open>src/codegen.h\<close>, the first
  part of \<open>src/codegen.cpp\<close>). A function is \<open>None\<close> where the source calls \<open>fatal\<close> or breaks an
  assertion. That each instruction is emitted with operands of the length that its table gives,
  which the source asserts, is proved in \<open>Code_Shape\<close>.
\<close>

section \<open>The state\<close>

record CatchBuilder =
  catch_begin :: label
  catch_end :: label
  caught_type :: nat
  catch_address :: nat
  catch_offset :: nat
  catch_size :: nat

record LoopState =
  breakLabel :: label
  continueLabel :: label
  breakWithValueLabel :: label
  blockIndex :: nat

record SourceLexer =
  lexer_sourceName :: bytes
  lexer_scriptDir :: bytes
  lexer_lines :: LineNumTable

text \<open>
  \<open>localVars\<close> is in the order of the source's vector; the head of \<open>loopLabels\<close> and of
  \<open>finallyLabels\<close> is the last element of theirs.
\<close>

record CodeBuilder =
  emitter :: CodeEmitter
  builder_lexer :: SourceLexer
  builder_kind :: CodeKind
  builder_varNum :: nat
  constBuffer :: "DSValue list"
  builder_lines :: "(nat \<times> nat) list"
  catchBuilders :: "CatchBuilder list"
  localVars :: "(nat \<times> nat) list"
  loopLabels :: "LoopState list"
  finallyLabels :: "label list"
  stackDepthCount :: int
  maxStackDepth :: int

datatype CGError = TooLargeFunc bytes | TooLargeUdc bytes | TooLargeToplevel bytes | TooLargeModule bytes

text \<open>
  \<open>builders\<close> and \<open>commons\<close> have their last element first. The objects among the constants are in
  the heap, the code of a function object is found under its address, and a label is a number, the
  next of which is \<open>next_label\<close>.
\<close>

record Generator =
  typePool :: TypePool
  assertion :: bool
  handle_STR :: "MethodHandle option"
  builders :: "CodeBuilder list"
  commons :: "(DSValue \<times> DSValue) list"
  gen_error :: "(Token \<times> CGError) option"
  gen_heap :: heap
  func_objects :: "(addr \<times> DSCode) list"
  next_label :: nat

text \<open>
  What the generator is given: the tables of native methods, the equality of keys and the orders of
  the two hash containers that it uses.
\<close>

record cg_env =
  cg_natives :: Natives
  cg_hash_order :: arrangement
  cg_label_order :: "(label \<times> LabelTarget list) list \<Rightarrow> (label \<times> LabelTarget list) list"

definition new_builder :: "SourceLexer \<Rightarrow> CodeKind \<Rightarrow> nat \<Rightarrow> DSValue list \<Rightarrow> CodeBuilder" where
  "new_builder lx kind varNum consts =
     \<lparr>emitter = new_emitter, builder_lexer = lx, builder_kind = kind, builder_varNum = varNum mod 256,
      constBuffer = consts, builder_lines = [], catchBuilders = [], localVars = [], loopLabels = [],
      finallyLabels = [], stackDepthCount = 0, maxStackDepth = 0\<rparr>"

definition curBuilder :: "Generator \<Rightarrow> CodeBuilder" where
  "curBuilder g = hd (builders g)"

definition on_builder :: "(CodeBuilder \<Rightarrow> CodeBuilder) \<Rightarrow> Generator \<Rightarrow> Generator" where
  "on_builder f g = g\<lparr>builders := f (hd (builders g)) # tl (builders g)\<rparr>"

definition on_emitter :: "(CodeEmitter \<Rightarrow> CodeEmitter) \<Rightarrow> Generator \<Rightarrow> Generator" where
  "on_emitter f = on_builder (\<lambda>b. b\<lparr>emitter := f (emitter b)\<rparr>)"

definition currentCodeOffset :: "Generator \<Rightarrow> nat" where
  "currentCodeOffset g = length (codeBuffer (emitter (curBuilder g)))"

definition inUDC :: "Generator \<Rightarrow> bool" where
  "inUDC g \<longleftrightarrow> builder_kind (curBuilder g) = USER_DEFINED_CMD"

definition inFunc :: "Generator \<Rightarrow> bool" where
  "inFunc g \<longleftrightarrow> builder_kind (curBuilder g) = FUNCTION"

definition type_at :: "Generator \<Rightarrow> nat \<Rightarrow> DSType" where
  "type_at g t = typeTable (typePool g) ! t"

section \<open>Instructions\<close>

text \<open>Conversion to a signed 16-bit number.\<close>

definition to_short :: "int \<Rightarrow> int" where
  "to_short i = (i + 32768) mod 65536 - 32768"

definition append_bytes :: "nat \<Rightarrow> nat \<Rightarrow> Generator \<Rightarrow> Generator" where
  "append_bytes n v = on_emitter (appendN n (of_nat (v mod 256 ^ n)))"

definition add_depth :: "int \<Rightarrow> CodeBuilder \<Rightarrow> CodeBuilder" where
  "add_depth effect b = b\<lparr>stackDepthCount := to_short (stackDepthCount b + to_short effect)\<rparr>"

definition raise_max :: "CodeBuilder \<Rightarrow> CodeBuilder" where
  "raise_max b =
     (let count = stackDepthCount b
      in if count > 0 \<and> count > maxStackDepth b then b\<lparr>maxStackDepth := count\<rparr> else b)"

definition emitIns :: "OpCode \<Rightarrow> Generator \<Rightarrow> Generator" where
  "emitIns op g = on_builder (raise_max \<circ> add_depth (stack_effect op)) (append_bytes 1 (opcode_byte op) g)"

definition emit0byteIns :: "OpCode \<Rightarrow> Generator \<Rightarrow> Generator" where
  "emit0byteIns op = emitIns op"

definition emit1byteIns :: "OpCode \<Rightarrow> nat \<Rightarrow> Generator \<Rightarrow> Generator" where
  "emit1byteIns op v g = append_bytes 1 v (emitIns op g)"

definition emit2byteIns :: "OpCode \<Rightarrow> nat \<Rightarrow> Generator \<Rightarrow> Generator" where
  "emit2byteIns op v g = append_bytes 2 v (emitIns op g)"

definition emit2bytesIns :: "OpCode \<Rightarrow> nat \<Rightarrow> nat \<Rightarrow> Generator \<Rightarrow> Generator" where
  "emit2bytesIns op v1 v2 g = append_bytes 1 v2 (append_bytes 1 v1 (emitIns op g))"

definition emit3byteIns :: "OpCode \<Rightarrow> nat \<Rightarrow> Generator \<Rightarrow> Generator" where
  "emit3byteIns op v g = append_bytes 3 v (emitIns op g)"

definition emit3bytesIns :: "OpCode \<Rightarrow> nat \<Rightarrow> nat \<Rightarrow> nat \<Rightarrow> Generator \<Rightarrow> Generator" where
  "emit3bytesIns op v1 v2 v3 g =
     append_bytes 1 v3 (append_bytes 1 v2 (append_bytes 1 v1 (emitIns op g)))"

definition emit4byteIns :: "OpCode \<Rightarrow> nat \<Rightarrow> Generator \<Rightarrow> Generator" where
  "emit4byteIns op v g = append_bytes 4 v (emitIns op g)"

text \<open>\<open>emitValIns\<close> does not look at the greatest depth.\<close>

definition emitValIns :: "OpCode \<Rightarrow> nat \<Rightarrow> int \<Rightarrow> Generator \<Rightarrow> Generator" where
  "emitValIns op paramSize restSize g =
     on_builder (\<lambda>b. b\<lparr>stackDepthCount :=
         to_short (stackDepthCount b - to_short (int (paramSize mod 256) + restSize))\<rparr>)
       (append_bytes 1 (paramSize mod 256) (append_bytes 1 (opcode_byte op) g))"

definition emitFuncCallIns :: "nat \<Rightarrow> bool \<Rightarrow> Generator \<Rightarrow> Generator" where
  "emitFuncCallIns paramSize hasRet = emitValIns OP_CALL_FUNC paramSize (if hasRet then 0 else 1)"

definition emitNativeCallIns :: "nat \<Rightarrow> nat \<Rightarrow> bool \<Rightarrow> Generator \<Rightarrow> Generator option" where
  "emitNativeCallIns paramSize index hasRet g =
     (if index \<le> 255
      then Some (append_bytes 1 index (emitValIns OP_CALL_BUILTIN2 paramSize (if hasRet then -1 else 0) g))
      else None)"

text \<open>The handles of the pool are all native.\<close>

definition isNative :: "MethodHandle \<Rightarrow> bool" where "isNative h = True"

definition emitMethodCallIns :: "nat \<Rightarrow> MethodHandle \<Rightarrow> Generator \<Rightarrow> Generator option" where
  "emitMethodCallIns paramSize handle g =
     (let hasRet = \<not> isVoidType (type_at g (returnType handle))
      in if isNative handle then emitNativeCallIns (paramSize + 1) (methodIndex handle) hasRet g
         else Some (append_bytes 2 (methodIndex handle)
                (emitValIns OP_CALL_METHOD paramSize (if hasRet then 0 else 1) g)))"

definition emitGlobIns :: "nat \<Rightarrow> bool \<Rightarrow> Generator \<Rightarrow> Generator" where
  "emitGlobIns paramSize tilde g =
     append_bytes 1 (if tilde then 1 else 0) (emitValIns OP_ADD_GLOBBING paramSize 1 g)"

definition emitTypeIns :: "OpCode \<Rightarrow> nat \<Rightarrow> Generator \<Rightarrow> Generator" where
  "emitTypeIns op t g = emit3byteIns op (typeId (type_at g t)) g"

section \<open>Constants\<close>

definition emitConstant :: "DSValue \<Rightarrow> Generator \<Rightarrow> (nat \<times> Generator) option" where
  "emitConstant value g =
     (let g = on_builder (\<lambda>b. b\<lparr>constBuffer := constBuffer b @ [value]\<rparr>) g;
          index = length (constBuffer (curBuilder g)) - 1
      in if index > 0xFFFFFF then None else Some (index, g))"

definition emitLdcIns :: "DSValue \<Rightarrow> Generator \<Rightarrow> Generator option" where
  "emitLdcIns value g =
     do {
       (index, g) \<leftarrow> emitConstant value g;
       Some (if index \<le> 0xFF then emit1byteIns OP_LOAD_CONST index g
             else if index \<le> 0xFFFF then emit2byteIns OP_LOAD_CONST_W index g
             else emit3byteIns OP_LOAD_CONST_T index g)
     }"

definition new_object :: "DSObject \<Rightarrow> Generator \<Rightarrow> DSValue \<times> Generator" where
  "new_object x g = (V_OBJECT (length (gen_heap g)), g\<lparr>gen_heap := gen_heap g @ [Some x]\<rparr>)"

definition new_string :: "bytes \<Rightarrow> Generator \<Rightarrow> DSValue \<times> Generator" where
  "new_string s g = (let (v, h) = createStr (gen_heap g) s in (v, g\<lparr>gen_heap := h\<rparr>))"

definition emit_string :: "bytes \<Rightarrow> Generator \<Rightarrow> Generator option" where
  "emit_string s g = (let (v, g) = new_string s g in emitLdcIns v g)"

section \<open>Methods\<close>

definition find_method :: "cg_env \<Rightarrow> nat \<Rightarrow> string \<Rightarrow> Generator \<Rightarrow> (MethodHandle option \<times> Generator) option" where
  "find_method env recv name g =
     map_option (\<lambda>(pool, h). (h, g\<lparr>typePool := pool\<rparr>)) (lookupMethod (cg_natives env) (typePool g) recv name)"

definition emit_named_call :: "cg_env \<Rightarrow> nat \<Rightarrow> nat \<Rightarrow> string \<Rightarrow> Generator \<Rightarrow> Generator option" where
  "emit_named_call env paramSize recv name g =
     do { (h, g) \<leftarrow> find_method env recv name g; h \<leftarrow> h; emitMethodCallIns paramSize h g }"

definition emitToString :: "cg_env \<Rightarrow> Generator \<Rightarrow> Generator option" where
  "emitToString env g =
     do {
       g \<leftarrow> (case handle_STR g of
              None \<Rightarrow> do { (h, g) \<leftarrow> find_method env (type_id T_Any) ''%str'' g; Some (g\<lparr>handle_STR := h\<rparr>) }
            | Some _ \<Rightarrow> Some g);
       h \<leftarrow> handle_STR g;
       emitMethodCallIns 0 h g
     }"

section \<open>Labels\<close>

definition makeLabel :: "Generator \<Rightarrow> label \<times> Generator" where
  "makeLabel g = (next_label g, g\<lparr>next_label := next_label g + 1\<rparr>)"

definition emitBranchIns :: "OpCode \<Rightarrow> label \<Rightarrow> Generator \<Rightarrow> Generator" where
  "emitBranchIns op l g =
     (let index = currentCodeOffset g
      in on_emitter (writeLabel (index + 1) l index Off16) (emit2byteIns op 0 g))"

definition fork_byte :: "ForkKind \<Rightarrow> nat" where
  "fork_byte k =
     (case k of FK_NONE \<Rightarrow> 0 | FK_STR \<Rightarrow> 1 | FK_ARRAY \<Rightarrow> 2 | FK_IN_PIPE \<Rightarrow> 3 | FK_OUT_PIPE \<Rightarrow> 4 | FK_COPROC \<Rightarrow> 5
      | FK_JOB \<Rightarrow> 6 | FK_DISOWN \<Rightarrow> 7)"

definition emitForkIns :: "ForkKind \<Rightarrow> label \<Rightarrow> Generator \<Rightarrow> Generator" where
  "emitForkIns k l g =
     (let offs = currentCodeOffset g
      in on_emitter (writeLabel (offs + 2) l offs Off16)
           (append_bytes 2 0 (append_bytes 1 (fork_byte k) (emitIns OP_FORK g))))"

definition emitJumpIns :: "label \<Rightarrow> Generator \<Rightarrow> Generator" where
  "emitJumpIns l g =
     (let index = currentCodeOffset g
      in on_emitter (writeLabel (index + 1) l 0 Off32) (emit4byteIns OP_GOTO 0 g))"

definition mark :: "label \<Rightarrow> Generator \<Rightarrow> Generator" where
  "mark l g = on_emitter (markLabel (currentCodeOffset g) l) g"

definition pushLoopLabels :: "label \<Rightarrow> label \<Rightarrow> label \<Rightarrow> Generator \<Rightarrow> Generator" where
  "pushLoopLabels b c bv =
     on_builder (\<lambda>bu. bu\<lparr>loopLabels :=
       \<lparr>breakLabel = b, continueLabel = c, breakWithValueLabel = bv, blockIndex = length (localVars bu)\<rparr>
         # loopLabels bu\<rparr>)"

definition popLoopLabels :: "Generator \<Rightarrow> Generator" where
  "popLoopLabels = on_builder (\<lambda>b. b\<lparr>loopLabels := tl (loopLabels b)\<rparr>)"

definition emitSourcePos :: "nat \<Rightarrow> Generator \<Rightarrow> Generator" where
  "emitSourcePos pos g =
     (let index = currentCodeOffset g;
          lineNum = lookup_line (lexer_lines (builder_lexer (curBuilder g))) pos
      in if builder_lines (curBuilder g) = [] \<or> snd (last (builder_lines (curBuilder g))) \<noteq> lineNum
         then on_builder (\<lambda>b. b\<lparr>builder_lines := builder_lines b @ [(index, lineNum)]\<rparr>) g else g)"

definition catchException :: "label \<Rightarrow> label \<Rightarrow> nat \<Rightarrow> nat \<Rightarrow> nat \<Rightarrow> Generator \<Rightarrow> Generator" where
  "catchException begin_label end_label t offs num g =
     (let index = currentCodeOffset g
      in on_builder (\<lambda>b. b\<lparr>catchBuilders := catchBuilders b @
           [\<lparr>catch_begin = begin_label, catch_end = end_label, caught_type = t, catch_address = index,
             catch_offset = offs mod 65536, catch_size = num mod 65536\<rparr>]\<rparr>) g)"

definition enterFinally :: "label \<Rightarrow> Generator \<Rightarrow> Generator" where
  "enterFinally l = emitBranchIns OP_ENTER_FINALLY l"

definition enterMultiFinally :: "Generator \<Rightarrow> Generator" where
  "enterMultiFinally g = fold enterFinally (finallyLabels (curBuilder g)) g"

section \<open>Code objects\<close>

definition toEntry :: "CodeEmitter \<Rightarrow> CatchBuilder \<Rightarrow> ExceptionEntry" where
  "toEntry e c =
     \<lparr>catch_type = caught_type c, begin_pc = labelIndex e (catch_begin c), end_pc = labelIndex e (catch_end c),
      dest = catch_address c, localOffset = catch_offset c, localSize = catch_size c\<rparr>"

text \<open>
  \<open>build\<close> is \<open>Inl Offset_too_large\<close> where the source returns an empty code, and \<open>Inl Fatal_base\<close>
  where it ends the process. The entries that end the three tables in the source (\<open>nullptr\<close> after
  the constants, an empty entry after the exceptions, and one at the largest address after the line
  numbers) mark where the arrays stop; here the tables are lists and have their lengths.
\<close>

definition build :: "cg_env \<Rightarrow> bytes \<Rightarrow> CodeBuilder \<Rightarrow> finalize_error + DSCode" where
  "build env name b =
     (case finalize (cg_label_order env) (emitter b) of
        Inl x \<Rightarrow> Inl x
      | Inr e \<Rightarrow> Inr
          \<lparr>codeKind = builder_kind b, localVarNum = builder_varNum b, stackDepth = nat (maxStackDepth b),
           code_bytes = codeBuffer e, code_name = name, constPool = constBuffer b,
           lineNumEntries = builder_lines b,
           exceptionEntries = map (toEntry (emitter b)) (catchBuilders b)\<rparr>)"

definition initCodeBuilder_lex :: "CodeKind \<Rightarrow> SourceLexer \<Rightarrow> nat \<Rightarrow> Generator \<Rightarrow> Generator" where
  "initCodeBuilder_lex kind lx varNum g =
     g\<lparr>builders := new_builder lx kind varNum [fst (hd (commons g)), snd (hd (commons g))] # builders g\<rparr>"

definition initCodeBuilder :: "CodeKind \<Rightarrow> nat \<Rightarrow> Generator \<Rightarrow> Generator" where
  "initCodeBuilder kind varNum g = initCodeBuilder_lex kind (builder_lexer (curBuilder g)) varNum g"

definition initToplevelCodeBuilder :: "SourceLexer \<Rightarrow> nat \<Rightarrow> Generator \<Rightarrow> Generator" where
  "initToplevelCodeBuilder lx varNum g =
     (let (name, g) = new_string (lexer_sourceName lx) g;
          (dir, g) = new_string (lexer_scriptDir lx) g
      in initCodeBuilder_lex TOPLEVEL lx varNum (g\<lparr>commons := (name, dir) # commons g\<rparr>))"

text \<open>The code, or \<open>None\<close> inside for code that is too large.\<close>

definition finalizeCodeBuilder :: "cg_env \<Rightarrow> bytes \<Rightarrow> Generator \<Rightarrow> (DSCode option \<times> Generator) option" where
  "finalizeCodeBuilder env name g =
     (let g' = g\<lparr>builders := tl (builders g)\<rparr> in
      case build env name (curBuilder g) of
        Inr c \<Rightarrow> Some (Some c, g')
      | Inl Offset_too_large \<Rightarrow> Some (None, g')
      | Inl Fatal_base \<Rightarrow> None)"

definition reportError :: "Token \<Rightarrow> CGError \<Rightarrow> Generator \<Rightarrow> Generator" where
  "reportError t e g = g\<lparr>gen_error := Some (t, e)\<rparr>"

text \<open>A function object, whose code may be empty.\<close>

definition new_function :: "nat \<Rightarrow> CodeKind \<Rightarrow> bytes \<Rightarrow> DSCode option \<Rightarrow> Generator \<Rightarrow> DSValue \<times> Generator" where
  "new_function t kind name c g =
     (let (v, g') = new_object (FuncObject t kind name) g
      in (v, case c of None \<Rightarrow> g' | Some c \<Rightarrow> g'\<lparr>func_objects := (length (gen_heap g), c) # func_objects g'\<rparr>))"

end
