(* ===== verification/Code_Gen.thy ===== *)
theory Code_Gen
  imports Code_Builder
begin

text \<open>
  The code generator (\<open>ByteCodeGenerator\<close> of \<open>src/codegen.cpp\<close>). Each visitor is a definition with
  the members of its node as arguments, and with \<open>V\<close>, the visit of a node, as its first one; \<open>visit\<close>
  ties the knot at the end.
\<close>

declare bind_option_cong [fundef_cong]

type_synonym visitor = "Node \<Rightarrow> Generator \<Rightarrow> Generator option"

text \<open>A loop over a vector with an index.\<close>

fun loop_on :: "(nat \<Rightarrow> 'n \<Rightarrow> 'g \<Rightarrow> 'g option) \<Rightarrow> nat \<Rightarrow> 'n list \<Rightarrow> 'g \<Rightarrow> 'g option" where
  "loop_on f i [] g = Some g"
| "loop_on f i (x # xs) g = do { g \<leftarrow> f i x g; loop_on f (Suc i) xs g }"

lemma loop_on_cong [fundef_cong]:
  "xs = ys \<Longrightarrow> i = j \<Longrightarrow> g = g' \<Longrightarrow> (\<And>k x. x \<in> set ys \<Longrightarrow> f k x = f' k x) \<Longrightarrow> loop_on f i xs g = loop_on f' j ys g'"
  by (induction xs arbitrary: ys i j g g') (auto cong: bind_option_cong)

abbreviation visit_all :: "visitor \<Rightarrow> Node list \<Rightarrow> Generator \<Rightarrow> Generator option" where
  "visit_all V \<equiv> loop_on (\<lambda>_. V) 0"

text \<open>A visit through a pointer that must not be null.\<close>

definition visit_opt :: "visitor \<Rightarrow> Node option \<Rightarrow> Generator \<Rightarrow> Generator option" where
  "visit_opt V n g = do { n \<leftarrow> n; V n g }"

definition generateBlock ::
  "nat \<Rightarrow> nat \<Rightarrow> bool \<Rightarrow> (Generator \<Rightarrow> Generator option) \<Rightarrow> Generator \<Rightarrow> Generator option"
where
  "generateBlock offs num reclaim func g =
     (let offs = offs mod 65536; num = num mod 65536;
          g = on_builder (\<lambda>b. b\<lparr>localVars := localVars b @ [(offs, num)]\<rparr>) g
      in do {
        g \<leftarrow> func g;
        let g = (if reclaim then emit2bytesIns OP_RECLAIM_LOCAL offs num g else g);
        Some (on_builder (\<lambda>b. b\<lparr>localVars := butlast (localVars b)\<rparr>) g)
      })"

definition needReclaim :: "Node list \<Rightarrow> nat \<Rightarrow> Generator \<Rightarrow> bool" where
  "needReclaim nodes varSize g \<longleftrightarrow>
     nodes \<noteq> [] \<and> \<not> isNothingType (type_at g (getType (last nodes))) \<and> varSize \<noteq> 0
     \<and> \<not> ((inFunc g \<or> inUDC g) \<and> localVars (curBuilder g) = [])"

text \<open>The size of the parts of a node.\<close>

lemma size_members: "members n = m \<Longrightarrow> size m < size n"
  by (cases n) auto

lemma size_listed: "x \<in> set ns \<Longrightarrow> size x < Suc (size_list size ns)"
  by (simp add: less_Suc_eq_le size_list_estimation')

lemma concat_sizes:
  "members n = StringExprNode ns \<Longrightarrow> x \<in> set ns \<Longrightarrow> size x < size n"
  "members n = BinaryOpNode (Some l) op r opt \<Longrightarrow> size l < size n"
  "members n = BinaryOpNode lo op (Some x) opt \<Longrightarrow> size x < size n"
  "members n = EmbedNode e h \<Longrightarrow> size e < size n"
  by (drule size_members, use size_listed in fastforce)+

section \<open>Strings\<close>

definition isBinaryStrConcat :: "Generator \<Rightarrow> Node \<Rightarrow> bool" where
  "isBinaryStrConcat g n \<longleftrightarrow>
     (case members n of
        BinaryOpNode (Some left) op _ _ \<Rightarrow> op = OK_ADD \<and> is_type (type_at g (getType left)) T_String
      | _ \<Rightarrow> False)"

definition concat_default :: "visitor \<Rightarrow> Node \<Rightarrow> bool \<Rightarrow> Generator \<Rightarrow> Generator option" where
  "concat_default V n fragment g =
     do { g \<leftarrow> V n g; Some (if fragment then emit0byteIns OP_CONCAT g else g) }"

function generateConcat :: "visitor \<Rightarrow> Node \<Rightarrow> bool \<Rightarrow> Generator \<Rightarrow> Generator option" where
  "generateConcat V n fragment g =
     (case members n of
        StringNode s _ \<Rightarrow> if s = [] \<and> fragment then Some g else concat_default V n fragment g
      | StringExprNode ns \<Rightarrow>
          if ns = [] then Some (if fragment then g else emit0byteIns OP_PUSH_STR0 g)
          else loop_on (\<lambda>i e. generateConcat V e (fragment \<or> i > 0)) 0 ns g
      | BinaryOpNode (Some left) op right _ \<Rightarrow>
          if isBinaryStrConcat g n then do {
            g \<leftarrow> generateConcat V left fragment g;
            right \<leftarrow> right;
            generateConcat V right True g
          }
          else concat_default V n fragment g
      | EmbedNode e _ \<Rightarrow>
          if isBinaryStrConcat g e \<or> isStringExprNode (members e) \<or> isStringNode (members e)
          then generateConcat V e fragment g
          else concat_default V n fragment g
      | _ \<Rightarrow> concat_default V n fragment g)"
  by pat_completeness auto
termination
  by (relation "measure (\<lambda>(V, n, fragment, g). size n)") (auto simp: concat_sizes)

declare generateConcat.simps [simp del]

text \<open>A group of segments up to the next tilde, then what follows it.\<close>

function concat_segments ::
  "visitor \<Rightarrow> Node list \<Rightarrow> nat \<Rightarrow> nat \<Rightarrow> Generator \<Rightarrow> (nat \<times> Generator) option"
where
  "concat_segments V segs base i g =
     (if i < length segs \<and> \<not> (i > base \<and> isTildeAt segs i) then do {
        g \<leftarrow> generateConcat V (segs ! i) (i > base) g;
        concat_segments V segs base (Suc i) g
      }
      else Some (i, g))"
  by pat_completeness auto
termination
  by (relation "measure (\<lambda>(V, segs, base, i, g). length segs - i)") auto

declare concat_segments.simps [simp del]

definition concatCmdArgSegment ::
  "visitor \<Rightarrow> Node list \<Rightarrow> nat \<Rightarrow> Generator \<Rightarrow> (nat \<times> Generator) option"
where
  "concatCmdArgSegment V segs base g =
     do {
       (i, g) \<leftarrow> concat_segments V segs base base g;
       let g = (if isTildeAt segs base then emit0byteIns OP_EXPAND_TILDE g else g);
       Some (i, if base > 0 then emit0byteIns OP_CONCAT g else g)
     }"

lemma concat_segments_ge: "concat_segments V segs b i g = Some (j, g') \<Longrightarrow> i \<le> j"
proof (induction V segs b i g arbitrary: j g' rule: concat_segments.induct)
  case (1 V segs b i g)
  show ?case
    using 1(2) by (subst (asm) concat_segments.simps) (auto split: if_splits Option.bind_splits dest!: 1(1)[rotated 2])
qed

lemma concatCmdArgSegment_greater:
  "concatCmdArgSegment V segs b g = Some (j, g') \<Longrightarrow> b < length segs \<Longrightarrow> b < j"
  by (subst (asm) concatCmdArgSegment_def, subst (asm) concat_segments.simps)
    (auto simp: Let_def split: if_splits Option.bind_splits dest!: concat_segments_ge)

function cmd_arg_from :: "visitor \<Rightarrow> Node list \<Rightarrow> nat \<Rightarrow> Generator \<Rightarrow> Generator option" where
  "cmd_arg_from V segs i g =
     (if i < length segs then
        do { (j, g) \<leftarrow> concatCmdArgSegment V segs i g; cmd_arg_from V segs j g }
      else Some g)"
  by pat_completeness auto
termination
  by (relation "measure (\<lambda>(V, segs, i, g). length segs - i)")
    (auto dest!: concatCmdArgSegment_greater)

declare cmd_arg_from.simps [simp del]

definition generateCmdArg :: "visitor \<Rightarrow> Node list \<Rightarrow> Generator \<Rightarrow> Generator option" where
  "generateCmdArg V segs g = cmd_arg_from V segs 0 g"

section \<open>Constants and variables\<close>

definition visitNumberNode :: "NumberValue \<Rightarrow> Generator \<Rightarrow> Generator option" where
  "visitNumberNode v g =
     (case v of
        Num_Int n \<Rightarrow>
          if sint n \<ge> 0 \<and> sint n \<le> 255 then Some (emit1byteIns OP_PUSH_INT (unat n) g)
          else emitLdcIns (V_INT n) g
      | Num_Float d \<Rightarrow> emitLdcIns (V_FLOAT d) g
      | Num_Signal n \<Rightarrow>
          if sint n \<ge> 0 \<and> sint n \<le> 255 then Some (emit1byteIns OP_PUSH_SIG (unat n) g) else None)"

definition visitStringNode :: "bytes \<Rightarrow> Generator \<Rightarrow> Generator option" where
  "visitStringNode s g =
     (case s of
        [] \<Rightarrow> Some (emit0byteIns OP_PUSH_STR0 g)
      | [a] \<Rightarrow> Some (emit1byteIns OP_PUSH_STR1 (unat a) g)
      | [a, b] \<Rightarrow> Some (emit2bytesIns OP_PUSH_STR2 (unat a) (unat b) g)
      | [a, b, c] \<Rightarrow> Some (emit3bytesIns OP_PUSH_STR3 (unat a) (unat b) (unat c) g)
      | _ \<Rightarrow> emit_string s g)"

definition visitRegexNode :: "bytes \<Rightarrow> Generator \<Rightarrow> Generator option" where
  "visitRegexNode reStr g = (let (v, g) = new_object (RegexObject reStr) g in emitLdcIns v g)"

definition visitArrayNode :: "visitor \<Rightarrow> nat \<Rightarrow> Node list \<Rightarrow> Generator \<Rightarrow> Generator option" where
  "visitArrayNode V t ns g =
     loop_on (\<lambda>_ e g. do { g \<leftarrow> V e g; Some (emit0byteIns OP_APPEND_ARRAY g) }) 0 ns (emitTypeIns OP_NEW t g)"

text \<open>The two vectors have the same length.\<close>

definition visitMapNode :: "visitor \<Rightarrow> nat \<Rightarrow> Node list \<Rightarrow> Node list \<Rightarrow> Generator \<Rightarrow> Generator option" where
  "visitMapNode V t keys vs g =
     loop_on (\<lambda>_ e g. do {
         g \<leftarrow> V (fst e) g;
         g \<leftarrow> V (snd e) g;
         Some (emit0byteIns OP_APPEND_MAP g)
       }) 0 (zip keys vs) (emitTypeIns OP_NEW t g)"

definition visitTupleNode :: "visitor \<Rightarrow> nat \<Rightarrow> Node list \<Rightarrow> Generator \<Rightarrow> Generator option" where
  "visitTupleNode V t ns g =
     loop_on (\<lambda>i e g. do {
         g \<leftarrow> V e (emit0byteIns OP_DUP g);
         Some (emit2byteIns OP_STORE_FIELD i g)
       }) 0 ns (emitTypeIns OP_NEW t g)"

definition emit_load :: "FieldAttribute \<Rightarrow> nat \<Rightarrow> Generator \<Rightarrow> Generator" where
  "emit_load a i g =
     (if hasFlag a GLOBAL_ATTR then emit2byteIns OP_LOAD_GLOBAL i g else emit1byteIns OP_LOAD_LOCAL i g)"

definition emit_store :: "bool \<Rightarrow> nat \<Rightarrow> Generator \<Rightarrow> Generator" where
  "emit_store global i g =
     (if global then emit2byteIns OP_STORE_GLOBAL i g else emit1byteIns OP_STORE_LOCAL i g)"

definition visitVarNode :: "nat \<Rightarrow> nat \<Rightarrow> FieldAttribute \<Rightarrow> Generator \<Rightarrow> Generator option" where
  "visitVarNode pos i a g =
     (let g = emitSourcePos pos g in Some
       (if hasFlag a ENV_ATTR then emit0byteIns OP_LOAD_ENV (emit_load a i g)
        else if hasFlag a RANDOM_ATTR then emit0byteIns OP_RAND g
        else if hasFlag a SECONDS_ATTR then emit0byteIns OP_GET_SECOND g
        else if hasFlag a MOD_CONST then emit1byteIns OP_LOAD_CONST i g
        else emit_load a i g))"

definition visitAccessNode ::
  "visitor \<Rightarrow> Node \<Rightarrow> nat \<Rightarrow> AdditionalOp \<Rightarrow> Generator \<Rightarrow> Generator option"
where
  "visitAccessNode V recv i op g =
     do {
       g \<leftarrow> V recv g;
       Some (if isModType (type_at g (getType recv))
             then emit2byteIns OP_LOAD_GLOBAL i (emit0byteIns OP_POP g)
             else case op of
               AO_NOP \<Rightarrow> emit2byteIns OP_LOAD_FIELD i g
             | AO_DUP_RECV \<Rightarrow> emit2byteIns OP_LOAD_FIELD i (emit0byteIns OP_DUP g))
     }"

section \<open>Operators\<close>

definition emit_print :: "cg_env \<Rightarrow> nat \<Rightarrow> Generator \<Rightarrow> Generator option" where
  "emit_print env t g =
     (let exprType = type_at g t in
      do {
        g \<leftarrow> (if isOptionType exprType then
                (let elementType = elementTypes (class_of exprType) ! 0;
                     (thenLabel, g) = makeLabel g;
                     (mergeLabel, g) = makeLabel g
                 in do {
                   g \<leftarrow> emit_string (ascii ''(invalid)'') (emitBranchIns OP_TRY_UNWRAP thenLabel g);
                   let g = mark thenLabel (emitJumpIns mergeLabel g);
                   g \<leftarrow> (if is_type (type_at g elementType) T_String then Some g else emitToString env g);
                   Some (mark mergeLabel g)
                 })
              else if is_type exprType T_String then Some g
              else emitToString env g);
        Some (emitTypeIns OP_PRINT t g)
      })"

definition visitTypeOpNode ::
  "cg_env \<Rightarrow> visitor \<Rightarrow> nat \<Rightarrow> nat \<Rightarrow> Node \<Rightarrow> TypeOpKind \<Rightarrow> nat \<Rightarrow> Generator \<Rightarrow> Generator option"
where
  "visitTypeOpNode env V t pos expr op target g =
     do {
       g \<leftarrow> V expr g;
       let et = getType expr;
       (case op of
          NO_CAST \<Rightarrow> Some g
        | TO_VOID \<Rightarrow> Some (emit0byteIns OP_POP g)
        | NUM_CAST \<Rightarrow>
            if is_type (type_at g et) T_Int then emit_named_call env 0 et ''toFloat'' g
            else if is_type (type_at g et) T_Float then emit_named_call env 0 et ''toInt'' g
            else None
        | TO_STRING \<Rightarrow> emitToString env (emitSourcePos pos g)
        | TO_BOOL \<Rightarrow> emit_named_call env 0 et ''%bool'' (emitSourcePos pos g)
        | CHECK_CAST \<Rightarrow> Some (emitTypeIns OP_CHECK_CAST t (emitSourcePos pos g))
        | CHECK_UNWRAP \<Rightarrow> Some (emit0byteIns OP_CHECK_UNWRAP (emitSourcePos pos g))
        | PRINT \<Rightarrow> emit_print env et (emitSourcePos pos g)
        | ALWAYS_FALSE \<Rightarrow> Some (emit0byteIns OP_PUSH_FALSE (emit0byteIns OP_POP g))
        | ALWAYS_TRUE \<Rightarrow> Some (emit0byteIns OP_PUSH_TRUE (emit0byteIns OP_POP g))
        | INSTANCEOF \<Rightarrow> Some (emitTypeIns OP_INSTANCE_OF target g))
     }"

definition visitUnaryOpNode ::
  "visitor \<Rightarrow> OperatorKind \<Rightarrow> Node option \<Rightarrow> Node option \<Rightarrow> Generator \<Rightarrow> Generator option"
where
  "visitUnaryOpNode V op expr apply_node g =
     (if op = OK_UNWRAP then do { g \<leftarrow> visit_opt V expr g; Some (emit0byteIns OP_UNWRAP g) }
      else visit_opt V apply_node g)"

definition generate_condition ::
  "visitor \<Rightarrow> bool \<Rightarrow> Node option \<Rightarrow> Node option \<Rightarrow> Generator \<Rightarrow> Generator option"
where
  "generate_condition V is_and left right g =
     (let (elseLabel, g) = makeLabel g; (mergeLabel, g) = makeLabel g in
      do {
        g \<leftarrow> visit_opt V left g;
        let g = emitBranchIns OP_BRANCH elseLabel g;
        g \<leftarrow> (if is_and then do {
                g \<leftarrow> visit_opt V right g;
                Some (emit0byteIns OP_PUSH_FALSE (mark elseLabel (emitJumpIns mergeLabel g)))
              }
              else visit_opt V right (mark elseLabel (emitJumpIns mergeLabel (emit0byteIns OP_PUSH_TRUE g))));
        Some (mark mergeLabel g)
      })"

definition has_func_type :: "Generator \<Rightarrow> Node option \<Rightarrow> bool" where
  "has_func_type g n \<longleftrightarrow> (case n of None \<Rightarrow> False | Some n \<Rightarrow> isFuncType (type_at g (getType n)))"

definition visitBinaryOpNode ::
  "cg_env \<Rightarrow> visitor \<Rightarrow> Node \<Rightarrow> Node option \<Rightarrow> OperatorKind \<Rightarrow> Node option \<Rightarrow> Node option \<Rightarrow> Generator
   \<Rightarrow> Generator option"
where
  "visitBinaryOpNode env V n left op right opt g =
     (if op = OK_COND_AND \<or> op = OK_COND_OR then generate_condition V (op = OK_COND_AND) left right g
      else if op = OK_STR_CHECK then
        (let (mergeLabel, g) = makeLabel g in
         do {
           g \<leftarrow> visit_opt V left g;
           g \<leftarrow> emit_named_call env 0 (type_id T_String) ''empty'' (emit0byteIns OP_DUP g);
           g \<leftarrow> visit_opt V right (emit0byteIns OP_POP (emitBranchIns OP_BRANCH mergeLabel g));
           Some (mark mergeLabel g)
         })
      else if op = OK_NULL_COALE then
        (let (mergeLabel, g) = makeLabel g in
         do {
           g \<leftarrow> visit_opt V left g;
           g \<leftarrow> visit_opt V right (emitBranchIns OP_TRY_UNWRAP mergeLabel g);
           Some (mark mergeLabel g)
         })
      else if has_func_type g left \<and> has_func_type g right then
        do {
          g \<leftarrow> visit_opt V left g;
          g \<leftarrow> visit_opt V right g;
          if op = OK_EQ then Some (emit0byteIns OP_REF_EQ g)
          else if op = OK_NE then Some (emit0byteIns OP_REF_NE g)
          else None
        }
      else if isBinaryStrConcat g n then
        do {
          left \<leftarrow> left;
          if isEmptyNode (members left)
          then do { g \<leftarrow> visit_opt V right g; Some (emit0byteIns OP_APPEND g) }
          else generateConcat V n False g
        }
      else visit_opt V opt g)"

section \<open>Calls\<close>

definition args_size :: "Node \<Rightarrow> nat option" where
  "args_size n = (case members n of ArgsNode ns \<Rightarrow> Some (length ns) | _ \<Rightarrow> None)"

definition visitApplyNode ::
  "visitor \<Rightarrow> nat \<Rightarrow> nat \<Rightarrow> bool \<Rightarrow> Node \<Rightarrow> Node \<Rightarrow> MethodHandle option \<Rightarrow> Generator \<Rightarrow> Generator option"
where
  "visitApplyNode V t pos isMethodCall expr args handle g =
     do {
       paramSize \<leftarrow> args_size args;
       if isMethodCall then do {
         recv \<leftarrow> getRecvNode (members expr);
         g \<leftarrow> V recv g;
         g \<leftarrow> V args g;
         handle \<leftarrow> handle;
         emitMethodCallIns paramSize handle (emitSourcePos pos g)
       }
       else do {
         g \<leftarrow> V expr g;
         g \<leftarrow> V args g;
         Some (emitFuncCallIns paramSize (\<not> isVoidType (type_at g t)) (emitSourcePos pos g))
       }
     }"

definition type_has_info :: "Natives \<Rightarrow> DSType \<Rightarrow> bool" where
  "type_has_info N t \<longleftrightarrow>
     has_info t (temp_info (arrayTemplate N)) \<or> has_info t (temp_info (mapTemplate N))"

definition visitNewNode ::
  "cg_env \<Rightarrow> visitor \<Rightarrow> nat \<Rightarrow> nat \<Rightarrow> Node \<Rightarrow> MethodHandle option \<Rightarrow> Generator \<Rightarrow> Generator option"
where
  "visitNewNode env V t pos args handle g =
     (if isOptionType (type_at g t) then Some (emit0byteIns OP_PUSH_INVALID g)
      else do {
        paramSize \<leftarrow> args_size args;
        let g = emitTypeIns OP_NEW t g;
        if type_has_info (cg_natives env) (type_at g t) then Some g
        else do {
          g \<leftarrow> V args g;
          handle \<leftarrow> handle;
          emitMethodCallIns paramSize handle (emitSourcePos pos g)
        }
      })"

definition visitEmbedNode ::
  "visitor \<Rightarrow> nat \<Rightarrow> Node \<Rightarrow> MethodHandle option \<Rightarrow> Generator \<Rightarrow> Generator option"
where
  "visitEmbedNode V pos expr handle g =
     do {
       g \<leftarrow> V expr g;
       (case handle of None \<Rightarrow> Some g | Some h \<Rightarrow> emitMethodCallIns 0 h (emitSourcePos pos g))
     }"

end
