(* ===== verification/Code_Visit.thy ===== *)
theory Code_Visit
  imports Code_Gen
begin

text \<open>
  The visitors of commands and statements and the code generator as a whole (\<open>src/codegen.cpp\<close>).
\<close>

section \<open>Commands\<close>

text \<open>A redirection and an argument both hold a \<open>CmdArgNode\<close>.\<close>

definition generate_cmd_arg :: "visitor \<Rightarrow> Node \<Rightarrow> Generator \<Rightarrow> Generator option" where
  "generate_cmd_arg V n g = do { segs \<leftarrow> segmentNodes (members n); generateCmdArg V segs g }"

definition visitCmdNode :: "visitor \<Rightarrow> nat \<Rightarrow> Node \<Rightarrow> Node list \<Rightarrow> nat \<Rightarrow> bool \<Rightarrow> Generator \<Rightarrow> Generator option" where
  "visitCmdNode V pos name args redirCount needFork g =
     (let hasRedir = redirCount > 0 in
      do {
        g \<leftarrow> V name g;
        let g = emit0byteIns OP_NEW_CMD (if isTilde (members name) then emit0byteIns OP_EXPAND_TILDE g else g);
        g \<leftarrow> visit_all V args (emit0byteIns (if hasRedir then OP_NEW_REDIR else OP_PUSH_NULL) g);
        let g = emitSourcePos pos (if hasRedir then emit0byteIns OP_DO_REDIR g else g);
        Some (emit0byteIns (if needFork then OP_CALL_CMD else OP_CALL_CMD_NOFORK) g)
      })"

fun glob_segments :: "visitor \<Rightarrow> Node list \<Rightarrow> nat \<Rightarrow> nat \<Rightarrow> Generator \<Rightarrow> Generator option" where
  "glob_segments V [] i firstIndex g = Some g"
| "glob_segments V (e # es) i firstIndex g =
     (if isWildCardNode (members e)
      then do { g \<leftarrow> V e g; glob_segments V es (Suc i) (Suc i) g }
      else do { g \<leftarrow> generateConcat V e (i > firstIndex) g; glob_segments V es (Suc i) firstIndex g })"

definition visitCmdArgNode :: "visitor \<Rightarrow> nat \<Rightarrow> Node list \<Rightarrow> Generator \<Rightarrow> Generator option" where
  "visitCmdArgNode V globPathSize segs g =
     (if globPathSize > 0 then
        do {
          g \<leftarrow> glob_segments V segs 0 0 g;
          if globPathSize \<le> 255
          then Some (emitGlobIns globPathSize (isTildeAt segs 0) (emit0byteIns OP_PUSH_NULL g)) else None
        }
      else
        do {
          g \<leftarrow> generateCmdArg V segs g;
          Some (emit1byteIns OP_ADD_CMD_ARG (if isIgnorableEmptyString segs then 1 else 0) g)
        })"

definition visitArgArrayNode :: "visitor \<Rightarrow> nat \<Rightarrow> Node list \<Rightarrow> Generator \<Rightarrow> Generator option" where
  "visitArgArrayNode V t args g =
     do {
       g \<leftarrow> visit_all V args (emit0byteIns OP_PUSH_NULL (emitTypeIns OP_NEW t g));
       Some (emit0byteIns OP_POP g)
     }"

definition redir_byte :: "RedirOP \<Rightarrow> nat" where
  "redir_byte op =
     (case op of IN_2_FILE \<Rightarrow> 0 | OUT_2_FILE \<Rightarrow> 1 | OUT_2_FILE_APPEND \<Rightarrow> 2 | ERR_2_FILE \<Rightarrow> 3
      | ERR_2_FILE_APPEND \<Rightarrow> 4 | MERGE_ERR_2_OUT_2_FILE \<Rightarrow> 5 | MERGE_ERR_2_OUT_2_FILE_APPEND \<Rightarrow> 6
      | MERGE_ERR_2_OUT \<Rightarrow> 7 | MERGE_OUT_2_ERR \<Rightarrow> 8 | HERE_STR \<Rightarrow> 9)"

definition visitRedirNode :: "visitor \<Rightarrow> RedirOP \<Rightarrow> Node \<Rightarrow> Generator \<Rightarrow> Generator option" where
  "visitRedirNode V op target g =
     do { g \<leftarrow> generate_cmd_arg V target g; Some (emit1byteIns OP_ADD_REDIR_OP (redir_byte op) g) }"

definition visitWildCardNode :: "GlobMeta \<Rightarrow> Generator \<Rightarrow> Generator option" where
  "visitWildCardNode m g =
     Some (emit1byteIns OP_PUSH_META (case m of GM_ANY \<Rightarrow> 0 | GM_ZERO_OR_MORE \<Rightarrow> 1) g)"

definition makeLabels :: "nat \<Rightarrow> Generator \<Rightarrow> label list \<times> Generator" where
  "makeLabels n g = ([next_label g..<next_label g + n], g\<lparr>next_label := next_label g + n\<rparr>)"

definition emitPipelineIns :: "label list \<Rightarrow> bool \<Rightarrow> ForkKind \<Rightarrow> Generator \<Rightarrow> Generator option" where
  "emitPipelineIns labels lastPipe forkKind g =
     (if length labels > 250 then None
      else let offs = currentCodeOffset g;
               g = emitIns (if lastPipe then OP_PIPELINE_LP
                     else if forkKind = FK_NONE then OP_PIPELINE else OP_PIPELINE_ASYNC) g;
               (offs, g) = (if forkKind = FK_NONE then (offs, g)
                     else (offs + 1, append_bytes 1 (fork_byte forkKind) g));
               g = append_bytes 1 (length labels) g
           in loop_on (\<lambda>i l g. Some (on_emitter (writeLabel (offs + 2 + i * 2) l offs Off16) (append_bytes 2 0 g)))
                0 labels g)"

definition generatePipeline ::
  "visitor \<Rightarrow> nat \<Rightarrow> Node list \<Rightarrow> nat \<Rightarrow> bool \<Rightarrow> ForkKind \<Rightarrow> Generator \<Rightarrow> Generator option"
where
  "generatePipeline V pos nodes base inFork forkKind g =
     (if nodes = [] then None else
      let lastPipe = isLastPipe nodes inFork;
          size' = length nodes - (if lastPipe then 1 else 0);
          (labels, g) = makeLabels (length nodes + (if lastPipe then 0 else 1)) g
      in do {
        g \<leftarrow> emitPipelineIns labels lastPipe forkKind (emitSourcePos pos g);
        let (begin_label, g) = makeLabel g;
        let (end_label, g) = makeLabel g;
        g \<leftarrow> loop_on (\<lambda>i n g. V n (mark (labels ! i) (if i > 0 then emit0byteIns OP_HALT g else g)))
               0 (take size' nodes) (mark begin_label g);
        let g = catchException begin_label end_label (type_id T_ProcGuard) 0 0 (mark end_label g);
        let g = mark (last labels) (emit0byteIns OP_HALT g);
        (if lastPipe
         then generateBlock base 1 True (\<lambda>g. V (last nodes) (emit1byteIns OP_STORE_LOCAL base g)) g
         else Some g)
      })"

definition visitWithNode :: "visitor \<Rightarrow> Node \<Rightarrow> Node list \<Rightarrow> nat \<Rightarrow> Generator \<Rightarrow> Generator option" where
  "visitWithNode V expr redirs base g =
     generateBlock base 1 True (\<lambda>g. do {
         g \<leftarrow> visit_all V redirs (emit0byteIns OP_NEW_REDIR g);
         V expr (emit1byteIns OP_STORE_LOCAL base (emit0byteIns OP_DO_REDIR g))
       }) g"

text \<open>
  The constructor of \<open>ForkNode\<close> marks a pipeline as one in a fork: \<open>None\<close> is for a tree that it
  has not made.
\<close>

definition visitForkNode :: "visitor \<Rightarrow> ForkKind \<Rightarrow> Node \<Rightarrow> Generator \<Rightarrow> Generator option" where
  "visitForkNode V forkKind expr g =
     (case (members expr, forkKind = FK_ARRAY \<or> forkKind = FK_STR) of
        (PipelineNode nodes base inFork, False) \<Rightarrow>
          if inFork then generatePipeline V (getPos expr) nodes base inFork forkKind g else None
      | _ \<Rightarrow>
          (let (beginLabel, g) = makeLabel g;
               (endLabel, g) = makeLabel g;
               (mergeLabel, g) = makeLabel g
           in do {
             g \<leftarrow> V expr (emitForkIns forkKind mergeLabel (mark beginLabel g));
             let g = catchException beginLabel endLabel (type_id T_ProcGuard) 0 0 (mark endLabel g);
             Some (mark mergeLabel (emit0byteIns OP_HALT g))
           }))"

section \<open>Statements\<close>

definition visitAssertNode :: "visitor \<Rightarrow> Node \<Rightarrow> Node \<Rightarrow> Generator \<Rightarrow> Generator option" where
  "visitAssertNode V cond msg g =
     (if assertion g then do {
        g \<leftarrow> V cond g;
        g \<leftarrow> V msg g;
        Some (emit0byteIns OP_ASSERT (emitSourcePos (getPos cond) g))
      }
      else Some g)"

definition visitBlockNode :: "visitor \<Rightarrow> Node list \<Rightarrow> nat \<Rightarrow> nat \<Rightarrow> Generator \<Rightarrow> Generator option" where
  "visitBlockNode V nodes base varSize g =
     (if nodes = [] then Some g
      else generateBlock base varSize (needReclaim nodes varSize g) (visit_all V nodes) g)"

definition visitLoopNode ::
  "visitor \<Rightarrow> nat \<Rightarrow> Node \<Rightarrow> Node option \<Rightarrow> Node \<Rightarrow> Node \<Rightarrow> bool \<Rightarrow> Generator \<Rightarrow> Generator option"
where
  "visitLoopNode V t init cond iter block doWhile g =
     (let (offs, num) = (case members init of VarDeclNode _ _ _ i _ \<Rightarrow> (i mod 65536, 1 :: nat) | _ \<Rightarrow> (0, 0))
      in generateBlock offs num (num > 0) (\<lambda>g.
        (let (initLabel, g) = makeLabel g;
             (startLabel, g) = makeLabel g;
             (break_l, g) = makeLabel g;
             (continue_l, g) = makeLabel g;
             (value_l, g) = makeLabel g
         in do {
           g \<leftarrow> V init (pushLoopLabels break_l continue_l value_l g);
           let g = (if isEmptyCode iter then g else emitJumpIns initLabel g);
           let g = (if doWhile then emitJumpIns startLabel g else g);
           g \<leftarrow> V iter (mark continue_l g);
           let g = mark initLabel g;
           g \<leftarrow> (case cond of None \<Rightarrow> Some (emit0byteIns OP_PUSH_TRUE g) | Some c \<Rightarrow> V c g);
           g \<leftarrow> V block (mark startLabel (emitBranchIns OP_BRANCH break_l g));
           let g = mark break_l g;
           let g = (if isVoidType (type_at g t) then g else mark value_l (emit0byteIns OP_PUSH_INVALID g));
           Some (popLoopLabels g)
         })) g)"

definition visitIfNode :: "visitor \<Rightarrow> Node \<Rightarrow> Node \<Rightarrow> Node \<Rightarrow> Generator \<Rightarrow> Generator option" where
  "visitIfNode V cond then_node else_node g =
     (let (elseLabel, g) = makeLabel g; (mergeLabel, g) = makeLabel g in
      do {
        g \<leftarrow> V cond g;
        g \<leftarrow> V then_node (emitBranchIns OP_BRANCH elseLabel g);
        let g = (if \<not> isEmptyCode else_node \<and> \<not> isNothingType (type_at g (getType then_node))
                 then emitJumpIns mergeLabel g else g);
        g \<leftarrow> V else_node (mark elseLabel g);
        Some (mark mergeLabel g)
      })"

definition newObject :: "Node \<Rightarrow> Generator \<Rightarrow> (DSValue \<times> Generator) option" where
  "newObject n g =
     (case members n of
        NumberNode v \<Rightarrow>
          (case v of
             Num_Float _ \<Rightarrow> None
           | Num_Int i \<Rightarrow> Some (if is_type (type_at g (getType n)) T_Signal then V_SIG (sint i) else V_INT i, g)
           | Num_Signal i \<Rightarrow> Some (if is_type (type_at g (getType n)) T_Signal then V_SIG (sint i) else V_INT i, g))
      | StringNode s _ \<Rightarrow> Some (new_string s g)
      | _ \<Rightarrow> None)"

text \<open>The map object is changed in place, after the instruction that loads it has been emitted.\<close>

definition set_case_label :: "cg_env \<Rightarrow> addr \<Rightarrow> nat \<Rightarrow> Node \<Rightarrow> Generator \<Rightarrow> Generator option" where
  "set_case_label env a offs e g =
     do {
       (key, g) \<leftarrow> newObject e g;
       (case get_object (gen_heap g) (V_OBJECT a) of
          Some (MapObject t es n) \<Rightarrow>
            Some (g\<lparr>gen_heap := (gen_heap g)[a := Some (MapObject t
              (fst (MapObject_set (equals (gen_heap g)) (cg_hash_order env) es key (V_NUMBER (of_nat offs)))) n)]\<rparr>)
        | _ \<Rightarrow> None)
     }"

definition generateCaseLabels :: "cg_env \<Rightarrow> addr \<Rightarrow> Node \<Rightarrow> Generator \<Rightarrow> Generator option" where
  "generateCaseLabels env a arm g =
     do { patterns \<leftarrow> getPatternNodes (members arm);
          loop_on (\<lambda>_. set_case_label env a (currentCodeOffset g)) 0 patterns g }"

definition previous_type :: "Node list \<Rightarrow> nat \<Rightarrow> nat option" where
  "previous_type arms i = (if i = 0 then None else Some (getType (arms ! (i - 1))))"

definition generateMapCase :: "cg_env \<Rightarrow> visitor \<Rightarrow> Node \<Rightarrow> Node list \<Rightarrow> Generator \<Rightarrow> Generator option" where
  "generateMapCase env V expr arms g =
     (let (mergeLabel, g) = makeLabel g;
          (elseLabel, g) = makeLabel g;
          a = length (gen_heap g);
          (m, g) = new_object (MapObject (type_id T_Void) [] 0) g
      in do {
        g \<leftarrow> emitLdcIns m g;
        g \<leftarrow> V expr g;
        let g = emitJumpIns (if hasDefault arms then elseLabel else mergeLabel) (emit0byteIns OP_LOOKUP_HASH g);
        g \<leftarrow> loop_on (\<lambda>i arm g.
            (let g = (case previous_type arms i of
                   None \<Rightarrow> g
                 | Some t \<Rightarrow> if isNothingType (type_at g t) then g else emitJumpIns mergeLabel g)
             in do {
               g \<leftarrow> (if isDefault arm then Some (mark elseLabel g) else generateCaseLabels env a arm g);
               V arm g
             })) 0 arms g;
        Some (mark mergeLabel g)
      })"

definition arm_pattern ::
  "visitor \<Rightarrow> MethodHandle \<Rightarrow> MethodHandle \<Rightarrow> label \<Rightarrow> nat \<Rightarrow> Node \<Rightarrow> Generator \<Rightarrow> Generator option"
where
  "arm_pattern V eqHandle matchHandle armMerge i p g =
     (let g = (if i > 0 then
                 (let (elseLabel, g) = makeLabel g
                  in mark elseLabel (emitJumpIns armMerge (emit0byteIns OP_PUSH_TRUE (emitBranchIns OP_BRANCH elseLabel g))))
               else g)
      in do {
        g \<leftarrow> V p (emit0byteIns OP_DUP g);
        let t = type_at g (getType p);
        if is_type t T_String then emitMethodCallIns 1 eqHandle g
        else if is_type t T_Regex then emitMethodCallIns 1 matchHandle g
        else None
      })"

definition generateIfElseArm ::
  "visitor \<Rightarrow> Node \<Rightarrow> MethodHandle \<Rightarrow> MethodHandle \<Rightarrow> label \<Rightarrow> Generator \<Rightarrow> Generator option"
where
  "generateIfElseArm V arm eqHandle matchHandle mergeLabel g =
     (let (armElse, g) = makeLabel g; (armMerge, g) = makeLabel g in
      do {
        patterns \<leftarrow> getPatternNodes (members arm);
        g \<leftarrow> loop_on (arm_pattern V eqHandle matchHandle armMerge) 0 patterns g;
        g \<leftarrow> V arm (emit0byteIns OP_POP (emitBranchIns OP_BRANCH armElse (mark armMerge g)));
        Some (mark armElse (emitJumpIns mergeLabel g))
      })"

definition generateIfElseCase :: "cg_env \<Rightarrow> visitor \<Rightarrow> Node \<Rightarrow> Node list \<Rightarrow> Generator \<Rightarrow> Generator option" where
  "generateIfElseCase env V expr arms g =
     (if is_type (type_at g (getType expr)) T_String then do {
        g \<leftarrow> V expr g;
        (eqHandle, g) \<leftarrow> find_method env (getType expr) ''%eq'' g;
        (matchHandle, g) \<leftarrow> find_method env (getType expr) ''%match'' g;
        eqHandle \<leftarrow> eqHandle;
        matchHandle \<leftarrow> matchHandle;
        let (mergeLabel, g) = makeLabel g;
        g \<leftarrow> loop_on (\<lambda>_ arm g. if isDefault arm then Some g
               else generateIfElseArm V arm eqHandle matchHandle mergeLabel g) 0 arms g;
        g \<leftarrow> (case filter isDefault arms of
               [] \<Rightarrow> Some g
             | ds \<Rightarrow> V (last ds) (emit0byteIns OP_POP g));
        Some (mark mergeLabel g)
      }
      else None)"

text \<open>The blocks from that of the innermost loop on are one after another in the frame.\<close>

definition generateBreakContinue :: "visitor \<Rightarrow> JumpKind \<Rightarrow> Node \<Rightarrow> bool \<Rightarrow> Generator \<Rightarrow> Generator option" where
  "generateBreakContinue V op expr leaving g =
     (if loopLabels (curBuilder g) = [] then None
      else do {
        g \<leftarrow> V expr g;
        let b = curBuilder g;
        let l = hd (loopLabels b);
        if blockIndex l < length (localVars b) then do {
          let startOffset = fst (localVars b ! blockIndex l);
          let stopOffset = fst (last (localVars b)) + snd (last (localVars b));
          let g = (if stopOffset \<noteq> startOffset
                   then emit2bytesIns OP_RECLAIM_LOCAL startOffset (stopOffset + 2 ^ 32 - startOffset) g else g);
          let g = (if leaving then enterMultiFinally g else g);
          let void = isVoidType (type_at g (getType expr));
          if op = BREAK then Some (emitJumpIns (if void then breakLabel l else breakWithValueLabel l) g)
          else if void then Some (emitJumpIns (continueLabel l) g)
          else None
        }
        else None
      })"

definition visitJumpNode :: "visitor \<Rightarrow> JumpKind \<Rightarrow> Node \<Rightarrow> bool \<Rightarrow> Generator \<Rightarrow> Generator option" where
  "visitJumpNode V op expr leaving g =
     (case op of
        THROW \<Rightarrow> do { g \<leftarrow> V expr g; Some (emit0byteIns OP_THROW g) }
      | RETURN \<Rightarrow> do {
          g \<leftarrow> V expr g;
          let g = enterMultiFinally g;
          let t = type_at g (getType expr);
          if inUDC g then (if is_type t T_Int then Some (emit0byteIns OP_RETURN_UDC g) else None)
          else Some (emit0byteIns (if isVoidType t then OP_RETURN else OP_RETURN_V) g)
        }
      | _ \<Rightarrow> generateBreakContinue V op expr leaving g)"

definition visitCatchNode :: "visitor \<Rightarrow> nat \<Rightarrow> Node \<Rightarrow> Generator \<Rightarrow> Generator option" where
  "visitCatchNode V i block g =
     (if isEmptyCode block then Some (emit0byteIns OP_POP g) else V block (emit1byteIns OP_STORE_LOCAL i g))"

text \<open>The part of a \<open>try\<close> that follows its body or one of its catch clauses.\<close>

definition leave_try :: "bool \<Rightarrow> label \<Rightarrow> label \<Rightarrow> nat \<Rightarrow> Generator \<Rightarrow> Generator" where
  "leave_try hasFinally finallyLabel mergeLabel t g =
     (if isNothingType (type_at g t) then g
      else emitJumpIns mergeLabel (if hasFinally then enterFinally finallyLabel g else g))"

definition generate_catch ::
  "visitor \<Rightarrow> label \<Rightarrow> label \<Rightarrow> nat \<Rightarrow> nat \<Rightarrow> bool \<Rightarrow> label \<Rightarrow> label \<Rightarrow> Node \<Rightarrow> Generator \<Rightarrow> Generator option"
where
  "generate_catch V beginLabel endLabel base varSize hasFinally finallyLabel mergeLabel c g =
     do {
       (catchType, _) \<leftarrow> findInnerCatch c;
       g \<leftarrow> V c (catchException beginLabel endLabel catchType base varSize g);
       Some (leave_try hasFinally finallyLabel mergeLabel (getType c) g)
     }"

definition max_var_size :: "Node \<Rightarrow> nat" where
  "max_var_size c =
     (case findInnerCatch c of
        Some (_, block) \<Rightarrow> (case members block of BlockNode _ _ _ maxVars \<Rightarrow> maxVars | _ \<Rightarrow> 0)
      | None \<Rightarrow> 0)"

definition visitTryNode :: "visitor \<Rightarrow> Node \<Rightarrow> Node list \<Rightarrow> Node option \<Rightarrow> Generator \<Rightarrow> Generator option" where
  "visitTryNode V expr catches finally_node g =
     (let (finallyLabel, g) = makeLabel g;
          hasFinally = finally_node \<noteq> None;
          g = (if hasFinally then on_builder (\<lambda>b. b\<lparr>finallyLabels := finallyLabel # finallyLabels b\<rparr>) g else g);
          (beginLabel, g) = makeLabel g;
          (endLabel, g) = makeLabel g;
          (mergeLabel, g) = makeLabel g
      in do {
        g \<leftarrow> V expr (mark beginLabel g);
        let g = leave_try hasFinally finallyLabel mergeLabel (getType expr) (mark endLabel g);
        (base, varSize, maxVars) \<leftarrow> findInnerBlock expr;
        g \<leftarrow> loop_on (\<lambda>_. generate_catch V beginLabel endLabel base varSize hasFinally finallyLabel mergeLabel)
               0 catches g;
        g \<leftarrow> (case finally_node of
               None \<Rightarrow> Some g
             | Some f \<Rightarrow>
                 (let g = mark finallyLabel (on_builder (\<lambda>b. b\<lparr>finallyLabels := tl (finallyLabels b)\<rparr>) g);
                      g = catchException beginLabel finallyLabel (type_id T_Root) base
                            (Max (set (maxVars # map max_var_size catches))) g
                  in do { g \<leftarrow> V f g; Some (emit0byteIns OP_EXIT_FINALLY g) }));
        Some (mark mergeLabel g)
      })"

definition visitVarDeclNode ::
  "visitor \<Rightarrow> nat \<Rightarrow> bytes \<Rightarrow> VarDeclKind \<Rightarrow> bool \<Rightarrow> nat \<Rightarrow> Node option \<Rightarrow> Generator \<Rightarrow> Generator option"
where
  "visitVarDeclNode V pos name k global i expr g =
     do {
       g \<leftarrow> (case k of
              VD_IMPORT_ENV \<Rightarrow> do {
                g \<leftarrow> emit_string name g;
                g \<leftarrow> (case expr of None \<Rightarrow> Some (emit0byteIns OP_DUP g) | Some e \<Rightarrow> V e (emit0byteIns OP_DUP g));
                Some (emit1byteIns OP_IMPORT_ENV (if expr \<noteq> None then 1 else 0) (emitSourcePos pos g))
              }
            | VD_EXPORT_ENV \<Rightarrow> do {
                g \<leftarrow> emit_string name g;
                g \<leftarrow> visit_opt V expr (emit0byteIns OP_DUP g);
                Some (emit0byteIns OP_STORE_ENV g)
              }
            | _ \<Rightarrow> visit_opt V expr g);
       Some (emit_store global i g)
     }"

definition assign_field :: "visitor \<Rightarrow> Node \<Rightarrow> Node \<Rightarrow> bool \<Rightarrow> Generator \<Rightarrow> Generator option" where
  "assign_field V left right self g =
     (case members left of
        AccessNode recv i _ _ \<Rightarrow> do {
          g \<leftarrow> (if self then V left g
                else do {
                  g \<leftarrow> V recv g;
                  Some (if isModType (type_at g (getType recv)) then emit0byteIns OP_POP g else g)
                });
          g \<leftarrow> V right g;
          Some (emit2byteIns (if isModType (type_at g (getType recv)) then OP_STORE_GLOBAL else OP_STORE_FIELD) i g)
        }
      | _ \<Rightarrow> None)"

definition visitAssignNode :: "visitor \<Rightarrow> Node \<Rightarrow> Node \<Rightarrow> bool \<Rightarrow> bool \<Rightarrow> Generator \<Rightarrow> Generator option" where
  "visitAssignNode V left right self field g =
     (if field then assign_field V left right self g
      else do {
        g \<leftarrow> (if self then V left g else Some g);
        g \<leftarrow> (case segmentNodes (members right) of
               Some segs \<Rightarrow> generateCmdArg V segs g
             | None \<Rightarrow> V right g);
        (case members left of
           VarNode _ i a \<Rightarrow>
             Some (if hasFlag a ENV_ATTR then emit0byteIns OP_STORE_ENV (emit0byteIns OP_SWAP (emit_load a i g))
               else if hasFlag a SECONDS_ATTR then emit0byteIns OP_SET_SECOND g
               else emit_store (hasFlag a GLOBAL_ATTR) i g)
         | _ \<Rightarrow> None)
      })"

definition visitElementSelfAssignNode ::
  "visitor \<Rightarrow> Node \<Rightarrow> Node \<Rightarrow> Node \<Rightarrow> Node \<Rightarrow> Node \<Rightarrow> Generator \<Rightarrow> Generator option"
where
  "visitElementSelfAssignNode V recv i getter right setter g =
     do {
       g \<leftarrow> V recv g;
       g \<leftarrow> V i g;
       g \<leftarrow> V getter (emit0byteIns OP_DUP2 g);
       g \<leftarrow> V right g;
       V setter g
     }"

definition prefix_assign :: "visitor \<Rightarrow> Node \<Rightarrow> Generator \<Rightarrow> Generator option" where
  "prefix_assign V e g =
     do {
       (left, right) \<leftarrow> assign_parts (members e);
       (case members left of
          VarNode name i _ \<Rightarrow> do {
            g \<leftarrow> emit_string name g;
            g \<leftarrow> generate_cmd_arg V right (emit1byteIns OP_STORE_LOCAL i (emit0byteIns OP_DUP g));
            Some (emit0byteIns OP_ADD2ENV_CTX g)
          }
        | _ \<Rightarrow> None)
     }"

definition visitPrefixAssignNode ::
  "visitor \<Rightarrow> Node list \<Rightarrow> Node option \<Rightarrow> nat \<Rightarrow> Generator \<Rightarrow> Generator option"
where
  "visitPrefixAssignNode V assigns expr base g =
     (case expr of
        Some e \<Rightarrow>
          generateBlock base (length assigns + 1) True (\<lambda>g. do {
            g \<leftarrow> loop_on (\<lambda>_. prefix_assign V) 0 assigns (emit0byteIns OP_NEW_ENV_CTX g);
            V e (emit1byteIns OP_STORE_LOCAL base g)
          }) g
      | None \<Rightarrow> visit_all V assigns g)"

section \<open>Functions\<close>

definition generate_function ::
  "cg_env \<Rightarrow> visitor \<Rightarrow> CodeKind \<Rightarrow> Token \<Rightarrow> CGError \<Rightarrow> bytes \<Rightarrow> Node \<Rightarrow> nat \<Rightarrow> nat \<Rightarrow> nat \<Rightarrow> Generator
   \<Rightarrow> Generator option"
where
  "generate_function env V kind token err name block maxVarNum i t g =
     do {
       g \<leftarrow> V block (initCodeBuilder kind maxVarNum g);
       (c, g) \<leftarrow> finalizeCodeBuilder env name g;
       let g = (if c = None then reportError token err g else g);
       let (func, g) = new_function t kind name c g;
       g \<leftarrow> emitLdcIns func g;
       Some (emit2byteIns OP_STORE_GLOBAL i g)
     }"

text \<open>The visit of a node by its class.\<close>

definition accept :: "cg_env \<Rightarrow> visitor \<Rightarrow> Node \<Rightarrow> Generator \<Rightarrow> Generator option" where
  "accept env V n g =
     (let t = getType n; pos = getPos n in
      case members n of
        TypeNode \<Rightarrow> None
      | NumberNode v \<Rightarrow> visitNumberNode v g
      | StringNode s _ \<Rightarrow> visitStringNode s g
      | StringExprNode _ \<Rightarrow> generateConcat V n False g
      | RegexNode s \<Rightarrow> visitRegexNode s g
      | ArrayNode ns \<Rightarrow> visitArrayNode V t ns g
      | MapNode ks vs \<Rightarrow> visitMapNode V t ks vs g
      | TupleNode ns \<Rightarrow> visitTupleNode V t ns g
      | VarNode _ i a \<Rightarrow> visitVarNode pos i a g
      | AccessNode recv i _ op \<Rightarrow> visitAccessNode V recv i op g
      | TypeOpNode e op target \<Rightarrow> visitTypeOpNode env V t pos e op target g
      | UnaryOpNode op e app \<Rightarrow> visitUnaryOpNode V op e app g
      | BinaryOpNode l op r opt \<Rightarrow> visitBinaryOpNode env V n l op r opt g
      | ArgsNode ns \<Rightarrow> visit_all V ns g
      | ApplyNode is_method e args h \<Rightarrow> visitApplyNode V t pos is_method e args h g
      | NewNode args h \<Rightarrow> visitNewNode env V t pos args h g
      | EmbedNode e h \<Rightarrow> visitEmbedNode V pos e h g
      | CmdNode name args redirs needFork \<Rightarrow> visitCmdNode V pos name args redirs needFork g
      | CmdArgNode k segs \<Rightarrow> visitCmdArgNode V k segs g
      | ArgArrayNode args \<Rightarrow> visitArgArrayNode V t args g
      | RedirNode op target \<Rightarrow> visitRedirNode V op target g
      | WildCardNode m \<Rightarrow> visitWildCardNode m g
      | PipelineNode ns base inFork \<Rightarrow> generatePipeline V pos ns base inFork FK_NONE g
      | WithNode e redirs base \<Rightarrow> visitWithNode V e redirs base g
      | ForkNode k e \<Rightarrow> visitForkNode V k e g
      | AssertNode c m \<Rightarrow> visitAssertNode V c m g
      | BlockNode ns base vars _ \<Rightarrow> visitBlockNode V ns base vars g
      | TypeAliasNode \<Rightarrow> Some g
      | LoopNode init c iter block doWhile \<Rightarrow> visitLoopNode V t init c iter block doWhile g
      | IfNode c a b \<Rightarrow> visitIfNode V c a b g
      | CaseNode k e arms \<Rightarrow>
          (case k of CK_MAP \<Rightarrow> generateMapCase env V e arms g | CK_IF_ELSE \<Rightarrow> generateIfElseCase env V e arms g)
      | ArmNode _ action \<Rightarrow> V action g
      | JumpNode op e leaving \<Rightarrow> visitJumpNode V op e leaving g
      | CatchNode _ i block \<Rightarrow> visitCatchNode V i block g
      | TryNode e cs f \<Rightarrow> visitTryNode V e cs f g
      | VarDeclNode name k global i e \<Rightarrow> visitVarDeclNode V pos name k global i e g
      | AssignNode l r self field \<Rightarrow> visitAssignNode V l r self field g
      | ElementSelfAssignNode recv i getter right setter \<Rightarrow>
          visitElementSelfAssignNode V recv i getter right setter g
      | PrefixAssignNode as e base \<Rightarrow> visitPrefixAssignNode V as e base g
      | FunctionNode name block maxVarNum i ft \<Rightarrow>
          generate_function env V FUNCTION (getToken n) (TooLargeFunc name) name block maxVarNum i ft g
      | InterfaceNode \<Rightarrow> Some g
      | UserDefinedCmdNode name block i maxVarNum \<Rightarrow>
          generate_function env V USER_DEFINED_CMD (getToken n) (TooLargeUdc name) name block maxVarNum i
            (type_id T_Void) g
      | SourceNode \<Rightarrow> Some g
      | SourceListNode \<Rightarrow> Some g
      | CodeCompNode \<Rightarrow> Some g
      | EmptyNode \<Rightarrow> Some g)"

section \<open>The visit of a tree\<close>

text \<open>Two visitors that agree on the nodes smaller than \<open>k\<close>.\<close>

definition agree :: "nat \<Rightarrow> visitor \<Rightarrow> visitor \<Rightarrow> bool" where
  "agree k V V' \<longleftrightarrow> (\<forall>x. size x < k \<longrightarrow> V x = V' x)"

lemma agreeD: "agree k V V' \<Longrightarrow> size x < k \<Longrightarrow> V x = V' x"
  by (simp add: agree_def)

lemma agree_mono: "agree k V V' \<Longrightarrow> k' \<le> k \<Longrightarrow> agree k' V V'"
  by (simp add: agree_def)

lemma size_in_list: "x \<in> set ns \<Longrightarrow> size x < size_list size ns"
  by (induction ns) auto

lemma visit_opt_agree:
  "agree k V V' \<Longrightarrow> size_option size n \<le> k \<Longrightarrow> visit_opt V n = visit_opt V' n"
  by (cases n) (simp_all add: visit_opt_def agreeD fun_eq_iff)

lemma loop_on_agree:
  assumes "\<And>i x. x \<in> set xs \<Longrightarrow> f i x = f' i x"
  shows "loop_on f i xs g = loop_on f' i xs g"
  using assms by (intro loop_on_cong) (simp_all add: fun_eq_iff)

lemma visit_all_agree:
  assumes "agree k V V'" "size_list size ns \<le> k"
  shows "visit_all V ns g = visit_all V' ns g"
proof (rule loop_on_agree)
  fix x assume "x \<in> set ns"
  from size_in_list [OF this] assms(2) show "V x = V' x" by (intro agreeD [OF assms(1)]) simp
qed

lemma generateConcat_agree:
  "agree k V V' \<Longrightarrow> size n < k \<Longrightarrow> generateConcat V n fragment g = generateConcat V' n fragment g"
proof (induction n arbitrary: fragment g rule: measure_induct_rule [of size])
  case (less n)
  note IH = less.IH [OF _ less.prems(1)]
  have d: "concat_default V n fragment g = concat_default V' n fragment g"
    using less.prems by (simp add: concat_default_def agreeD)
  note u = generateConcat.simps [of V n fragment g] generateConcat.simps [of V' n fragment g]
  show ?case
  proof (cases "members n")
    case (StringExprNode ns)
    have "generateConcat V x f g1 = generateConcat V' x f g1" if "x \<in> set ns" for x f g1
      using concat_sizes(1) [OF StringExprNode that] less.prems(2) by (intro IH) auto
    then show ?thesis unfolding u StringExprNode NodeMembers.case
      by (auto simp: fun_eq_iff intro!: loop_on_agree)
  next
    case (BinaryOpNode l op r opt)
    have "generateConcat V x f g1 = generateConcat V' x f g1" if "l = Some x \<or> r = Some x" for x f g1
      using concat_sizes(2) [of n x] concat_sizes(3) [of n _ _ x] BinaryOpNode that less.prems(2)
      by (intro IH) auto
    then show ?thesis unfolding u BinaryOpNode NodeMembers.case using d
      by (cases l; cases r) simp_all
  next
    case (EmbedNode e h)
    have "generateConcat V e f g1 = generateConcat V' e f g1" for f g1
      using concat_sizes(4) [OF EmbedNode] less.prems(2) by (intro IH) auto
    then show ?thesis unfolding u EmbedNode NodeMembers.case using d by simp
  qed (simp_all add: u d)
qed

lemma generateConcat_self_agree:
  assumes "agree (size n) V V'" "(\<exists>ns. members n = StringExprNode ns) \<or> isBinaryStrConcat g n"
  shows "generateConcat V n fragment g = generateConcat V' n fragment g"
proof -
  note u = generateConcat.simps [of V n fragment g] generateConcat.simps [of V' n fragment g]
  note c = generateConcat_agree [OF assms(1)]
  from assms(2) consider ns where "members n = StringExprNode ns"
    | l op r opt where "members n = BinaryOpNode (Some l) op r opt" "isBinaryStrConcat g n"
    by (auto simp: isBinaryStrConcat_def split: NodeMembers.splits option.splits)
  then show ?thesis
  proof cases
    case 1
    then show ?thesis unfolding u 1 NodeMembers.case
      using concat_sizes(1) [OF 1] by (auto simp: fun_eq_iff intro!: loop_on_agree c)
  next
    case 2
    have "generateConcat V l f g1 = generateConcat V' l f g1" for f g1
      using concat_sizes(2) [OF 2(1)] by (rule c)
    moreover have "generateConcat V x f g1 = generateConcat V' x f g1" if "r = Some x" for x f g1
      using concat_sizes(3) 2(1) that by (intro c) blast
    ultimately show ?thesis unfolding u 2(1) NodeMembers.case using 2(2) by (cases r) simp_all
  qed
qed

lemma concat_segments_agree:
  "agree k V V' \<Longrightarrow> size_list size segs \<le> k \<Longrightarrow> concat_segments V segs b i g = concat_segments V' segs b i g"
proof (induction V segs b i g rule: concat_segments.induct)
  case (1 V segs b i g)
  have "generateConcat V (segs ! i) f g = generateConcat V' (segs ! i) f g" if "i < length segs" for f
    using that size_in_list [OF nth_mem [OF that]] 1(3) by (intro generateConcat_agree [OF 1(2)]) simp
  with 1 show ?case
    by (auto simp: concat_segments.simps [of V segs b i] concat_segments.simps [of V' segs b i]
        intro!: bind_option_cong)
qed

lemma generateCmdArg_agree:
  "agree k V V' \<Longrightarrow> size_list size segs \<le> k \<Longrightarrow> generateCmdArg V segs g = generateCmdArg V' segs g"
proof -
  have "agree k V V' \<Longrightarrow> size_list size segs \<le> k \<Longrightarrow> cmd_arg_from V segs i g = cmd_arg_from V' segs i g" for i g
  proof (induction V segs i g rule: cmd_arg_from.induct)
    case (1 V segs i g)
    have "concatCmdArgSegment V segs i g = concatCmdArgSegment V' segs i g"
      by (simp add: concatCmdArgSegment_def concat_segments_agree [OF 1(2,3)])
    with 1 show ?case
      by (auto simp: cmd_arg_from.simps [of V segs i] cmd_arg_from.simps [of V' segs i]
          intro!: bind_option_cong split: prod.split)
  qed
  then show "agree k V V' \<Longrightarrow> size_list size segs \<le> k \<Longrightarrow> ?thesis" by (simp add: generateCmdArg_def)
qed

text \<open>Each visitor looks at the visits of smaller nodes only.\<close>

lemma agree_listed: "agree k V V' \<Longrightarrow> x \<in> set ns \<Longrightarrow> size_list size ns \<le> k \<Longrightarrow> V x = V' x"
  using size_in_list [of x ns] by (simp add: agreeD)

lemma agree_zipped:
  "agree k V V' \<Longrightarrow> p \<in> set (zip ns ms) \<Longrightarrow> size_list size ns \<le> k \<Longrightarrow> size_list size ms \<le> k
   \<Longrightarrow> V (fst p) = V' (fst p) \<and> V (snd p) = V' (snd p)"
  by (cases p) (auto dest: agree_listed set_zip_leftD set_zip_rightD)

lemma part_sizes:
  "getRecvNode (members n) = Some r \<Longrightarrow> size r < size n"
  "segmentNodes (members n) = Some segs \<Longrightarrow> size_list size segs < size n"
  "assign_parts (members n) = Some (l, r) \<Longrightarrow> size l < size n \<and> size r < size n"
  "getPatternNodes (members n) = Some ps \<Longrightarrow> size_list size ps < size n"
  using size_members [of n "members n"]
  by (auto simp: getRecvNode_def segmentNodes_def assign_parts_def getPatternNodes_def
      split: NodeMembers.splits)

lemmas simple_agree = agreeD visit_opt_agree visit_all_agree generateConcat_agree generateCmdArg_agree

lemma expressions_agree:
  assumes "agree k V V'"
  shows "size_list size ns \<le> k \<Longrightarrow> visitArrayNode V t ns g = visitArrayNode V' t ns g"
    "size_list size ns \<le> k \<Longrightarrow> visitTupleNode V t ns g = visitTupleNode V' t ns g"
    "size_list size ns \<le> k \<Longrightarrow> size_list size ms \<le> k \<Longrightarrow> visitMapNode V t ns ms g = visitMapNode V' t ns ms g"
    "size n < k \<Longrightarrow> visitAccessNode V n i ao g = visitAccessNode V' n i ao g"
    "size n < k \<Longrightarrow> visitTypeOpNode env V t pos n tk target g = visitTypeOpNode env V' t pos n tk target g"
    "size_option size x \<le> k \<Longrightarrow> size_option size y \<le> k \<Longrightarrow>
      visitUnaryOpNode V op x y g = visitUnaryOpNode V' op x y g"
    "size n < k \<Longrightarrow> size m < k \<Longrightarrow>
      visitApplyNode V t pos is_method n m h g = visitApplyNode V' t pos is_method n m h g"
    "size m < k \<Longrightarrow> visitNewNode env V t pos m h g = visitNewNode env V' t pos m h g"
    "size m < k \<Longrightarrow> visitEmbedNode V pos m h g = visitEmbedNode V' pos m h g"
proof -
  note a = simple_agree [OF assms]
  show "size_list size ns \<le> k \<Longrightarrow> visitArrayNode V t ns g = visitArrayNode V' t ns g"
    unfolding visitArrayNode_def by (rule loop_on_agree) (simp add: agree_listed [OF assms])
  show "size_list size ns \<le> k \<Longrightarrow> visitTupleNode V t ns g = visitTupleNode V' t ns g"
    unfolding visitTupleNode_def by (rule loop_on_agree) (simp add: agree_listed [OF assms])
  show "size_list size ns \<le> k \<Longrightarrow> size_list size ms \<le> k \<Longrightarrow> visitMapNode V t ns ms g = visitMapNode V' t ns ms g"
    unfolding visitMapNode_def by (rule loop_on_agree) (simp add: agree_zipped [OF assms])
  show "size n < k \<Longrightarrow> visitAccessNode V n i ao g = visitAccessNode V' n i ao g"
    by (simp add: visitAccessNode_def a)
  show "size n < k \<Longrightarrow> visitTypeOpNode env V t pos n tk target g = visitTypeOpNode env V' t pos n tk target g"
    by (simp add: visitTypeOpNode_def a)
  show "size_option size x \<le> k \<Longrightarrow> size_option size y \<le> k \<Longrightarrow>
      visitUnaryOpNode V op x y g = visitUnaryOpNode V' op x y g"
    by (simp add: visitUnaryOpNode_def a)
  show "size n < k \<Longrightarrow> size m < k \<Longrightarrow>
      visitApplyNode V t pos is_method n m h g = visitApplyNode V' t pos is_method n m h g"
    using part_sizes(1) [of n]
    by (auto simp: visitApplyNode_def a intro!: bind_option_cong agreeD [OF assms, THEN fun_cong])
  show "size m < k \<Longrightarrow> visitNewNode env V t pos m h g = visitNewNode env V' t pos m h g"
    by (simp add: visitNewNode_def Let_def a cong: bind_option_cong if_cong)
  show "size m < k \<Longrightarrow> visitEmbedNode V pos m h g = visitEmbedNode V' pos m h g"
    by (simp add: visitEmbedNode_def a)
qed

lemma loop_on_agree2:
  assumes "\<And>i x. i < j + length xs \<Longrightarrow> x \<in> set xs \<Longrightarrow> f i x = f' i x"
  shows "loop_on f j xs g = loop_on f' j xs g"
  using assms by (induction xs arbitrary: j g) (auto intro!: bind_option_cong)

lemma generateBlock_agree:
  "(\<And>g. f g = f' g) \<Longrightarrow> generateBlock offs num r f g = generateBlock offs num r f' g"
  by (simp add: generateBlock_def)

lemma generate_cmd_arg_agree:
  assumes "agree k V V'" "size n < k"
  shows "generate_cmd_arg V n g = generate_cmd_arg V' n g"
  using part_sizes(2) [of n] assms(2)
  by (auto simp: generate_cmd_arg_def intro!: bind_option_cong generateCmdArg_agree [OF assms(1)])

lemma visitBinaryOpNode_agree:
  assumes "agree (size n) V V'" "members n = BinaryOpNode l op r opt"
  shows "visitBinaryOpNode env V n l op r opt g = visitBinaryOpNode env V' n l op r opt g"
proof -
  have s: "size_option size l \<le> size n" "size_option size r \<le> size n" "size_option size opt \<le> size n"
    using size_members [OF assms(2)] by auto
  note v = visit_opt_agree [OF assms(1) s(1)] visit_opt_agree [OF assms(1) s(2)] visit_opt_agree [OF assms(1) s(3)]
  have c: "isBinaryStrConcat g n \<Longrightarrow> generateConcat V n f g = generateConcat V' n f g" for f
    by (rule generateConcat_self_agree [OF assms(1)]) simp
  show ?thesis by (simp add: visitBinaryOpNode_def generate_condition_def v c cong: bind_option_cong if_cong)
qed

lemma glob_segments_agree:
  "agree k V V' \<Longrightarrow> size_list size segs \<le> k \<Longrightarrow> glob_segments V segs i f g = glob_segments V' segs i f g"
  by (induction V segs i f g rule: glob_segments.induct)
    (auto simp: agreeD generateConcat_agree intro!: bind_option_cong)

lemma commands_agree:
  assumes "agree k V V'"
  shows "size n < k \<Longrightarrow> size_list size ns \<le> k \<Longrightarrow> visitCmdNode V pos n ns rc nf g = visitCmdNode V' pos n ns rc nf g"
    "size_list size ns \<le> k \<Longrightarrow> visitCmdArgNode V gs ns g = visitCmdArgNode V' gs ns g"
    "size_list size ns \<le> k \<Longrightarrow> visitArgArrayNode V t ns g = visitArgArrayNode V' t ns g"
    "size n < k \<Longrightarrow> visitRedirNode V rop n g = visitRedirNode V' rop n g"
    "size_list size ns < k \<Longrightarrow> generatePipeline V pos ns base fk k' g = generatePipeline V' pos ns base fk k' g"
    "size n < k \<Longrightarrow> size_list size ns \<le> k \<Longrightarrow> visitWithNode V n ns base g = visitWithNode V' n ns base g"
proof -
  note a = simple_agree [OF assms]
  show "size n < k \<Longrightarrow> size_list size ns \<le> k \<Longrightarrow> visitCmdNode V pos n ns rc nf g = visitCmdNode V' pos n ns rc nf g"
    by (simp add: visitCmdNode_def a)
  show "size_list size ns \<le> k \<Longrightarrow> visitCmdArgNode V gs ns g = visitCmdArgNode V' gs ns g"
    by (simp add: visitCmdArgNode_def a glob_segments_agree [OF assms])
  show "size_list size ns \<le> k \<Longrightarrow> visitArgArrayNode V t ns g = visitArgArrayNode V' t ns g"
    by (simp add: visitArgArrayNode_def a)
  show "size n < k \<Longrightarrow> visitRedirNode V rop n g = visitRedirNode V' rop n g"
    by (simp add: visitRedirNode_def generate_cmd_arg_agree [OF assms])
  show "size_list size ns < k \<Longrightarrow> generatePipeline V pos ns base fk k' g = generatePipeline V' pos ns base fk k' g"
  proof -
    assume *: "size_list size ns < k"
    have listed: "x \<in> set (take j ns) \<Longrightarrow> V x = V' x" for x j
      using * by (intro agree_listed [OF assms, of _ ns]) (auto dest: in_set_takeD)
    note listed' = listed [of _ "length ns", simplified]
    have last: "ns \<noteq> [] \<Longrightarrow> V (last ns) = V' (last ns)"
      using * by (intro agree_listed [OF assms, of _ ns]) auto
    show ?thesis
      unfolding generatePipeline_def
      by (auto simp: Let_def last listed listed' intro!: bind_option_cong loop_on_agree generateBlock_agree split: prod.split)
  qed
  show "size n < k \<Longrightarrow> size_list size ns \<le> k \<Longrightarrow> visitWithNode V n ns base g = visitWithNode V' n ns base g"
    by (simp add: visitWithNode_def a)
qed

lemma visitForkNode_agree:
  assumes "agree k V V'" "size n < k"
  shows "visitForkNode V fk n g = visitForkNode V' fk n g"
proof -
  have "size_list size ns < k" if "members n = PipelineNode ns base inf" for ns base inf
    using size_members [OF that] assms(2) by simp
  then show ?thesis
    using agreeD [OF assms]
    by (auto simp: visitForkNode_def Let_def commands_agree(5) [OF assms(1)] split: NodeMembers.splits prod.split bool.split)
qed

lemma statements_agree:
  assumes "agree k V V'"
  shows "size n < k \<Longrightarrow> size m < k \<Longrightarrow> visitAssertNode V n m g = visitAssertNode V' n m g"
    "size_list size ns \<le> k \<Longrightarrow> visitBlockNode V ns base vars g = visitBlockNode V' ns base vars g"
    "size n < k \<Longrightarrow> size_option size c \<le> k \<Longrightarrow> size l < k \<Longrightarrow> size m < k \<Longrightarrow>
      visitLoopNode V t n c l m dw g = visitLoopNode V' t n c l m dw g"
    "size n < k \<Longrightarrow> size m < k \<Longrightarrow> size l < k \<Longrightarrow> visitIfNode V n m l g = visitIfNode V' n m l g"
    "size n < k \<Longrightarrow> size_list size ns \<le> k \<Longrightarrow> generateMapCase env V n ns g = generateMapCase env V' n ns g"
    "size n < k \<Longrightarrow> size_list size ns \<le> k \<Longrightarrow> generateIfElseCase env V n ns g = generateIfElseCase env V' n ns g"
    "size n < k \<Longrightarrow> visitJumpNode V jk n lv g = visitJumpNode V' jk n lv g"
    "size n < k \<Longrightarrow> visitCatchNode V i n g = visitCatchNode V' i n g"
    "size n < k \<Longrightarrow> size_list size ns \<le> k \<Longrightarrow> size_option size c \<le> k \<Longrightarrow>
      visitTryNode V n ns c g = visitTryNode V' n ns c g"
proof -
  note a = simple_agree [OF assms] agree_listed [OF assms]
  show "size n < k \<Longrightarrow> size m < k \<Longrightarrow> visitAssertNode V n m g = visitAssertNode V' n m g"
    by (simp add: visitAssertNode_def a)
  show "size_list size ns \<le> k \<Longrightarrow> visitBlockNode V ns base vars g = visitBlockNode V' ns base vars g"
    by (simp add: visitBlockNode_def a cong: generateBlock_agree)
  show "size n < k \<Longrightarrow> size_option size c \<le> k \<Longrightarrow> size l < k \<Longrightarrow> size m < k \<Longrightarrow>
      visitLoopNode V t n c l m dw g = visitLoopNode V' t n c l m dw g"
    unfolding visitLoopNode_def
    by (auto simp: Let_def a intro!: bind_option_cong generateBlock_agree split: prod.split option.split)
  show "size n < k \<Longrightarrow> size m < k \<Longrightarrow> size l < k \<Longrightarrow> visitIfNode V n m l g = visitIfNode V' n m l g"
    by (simp add: visitIfNode_def a)
  show "size n < k \<Longrightarrow> size_list size ns \<le> k \<Longrightarrow> generateMapCase env V n ns g = generateMapCase env V' n ns g"
    unfolding generateMapCase_def
    by (auto simp: Let_def a fun_eq_iff intro!: bind_option_cong loop_on_agree split: prod.split option.split)
  show "size n < k \<Longrightarrow> visitJumpNode V jk n lv g = visitJumpNode V' jk n lv g"
    by (cases jk) (simp_all add: visitJumpNode_def generateBreakContinue_def a)
  show "size n < k \<Longrightarrow> visitCatchNode V i n g = visitCatchNode V' i n g"
    by (simp add: visitCatchNode_def a)
  show "size n < k \<Longrightarrow> size_list size ns \<le> k \<Longrightarrow> size_option size c \<le> k \<Longrightarrow>
      visitTryNode V n ns c g = visitTryNode V' n ns c g"
    unfolding visitTryNode_def generate_catch_def
    by (auto simp: Let_def a fun_eq_iff intro!: bind_option_cong loop_on_agree split: prod.split option.split)
  assume s: "size n < k" "size_list size ns \<le> k"
  have arm: "generateIfElseArm V x e m l g = generateIfElseArm V' x e m l g" if x: "x \<in> set ns" for x e m l g
  proof -
    have "V p = V' p" if "getPatternNodes (members x) = Some ps" "p \<in> set ps" for p ps
      using part_sizes(4) [OF that(1)] size_in_list [OF that(2)] size_in_list [OF x] s(2)
      by (intro agreeD [OF assms]) simp
    then show ?thesis
      unfolding generateIfElseArm_def
      by (auto simp: Let_def a(6) [OF x s(2)] arm_pattern_def fun_eq_iff
          intro!: bind_option_cong loop_on_agree split: prod.split)
  qed
  have last: "filter isDefault ns \<noteq> [] \<Longrightarrow> V (last (filter isDefault ns)) = V' (last (filter isDefault ns))"
    using last_in_set [of "filter isDefault ns"] s(2) by (auto intro: a(6))
  show "generateIfElseCase env V n ns g = generateIfElseCase env V' n ns g"
    unfolding generateIfElseCase_def
    using last
    by (auto simp: Let_def a(1) [OF s(1)] arm fun_eq_iff intro!: bind_option_cong loop_on_agree
        split: prod.split list.split if_splits)
qed

lemma assignments_agree:
  assumes "agree k V V'"
  shows "size_option size c \<le> k \<Longrightarrow> visitVarDeclNode V pos s vk gl i c g = visitVarDeclNode V' pos s vk gl i c g"
    "size n < k \<Longrightarrow> size m < k \<Longrightarrow> visitAssignNode V n m sa fa g = visitAssignNode V' n m sa fa g"
    "size n < k \<Longrightarrow> size m < k \<Longrightarrow> size l < k \<Longrightarrow> size n' < k \<Longrightarrow> size m' < k \<Longrightarrow>
      visitElementSelfAssignNode V n m l n' m' g = visitElementSelfAssignNode V' n m l n' m' g"
    "size_list size ns \<le> k \<Longrightarrow> size_option size c \<le> k \<Longrightarrow>
      visitPrefixAssignNode V ns c base g = visitPrefixAssignNode V' ns c base g"
    "size n < k \<Longrightarrow> generate_function env V kd tok e s n mv i t g = generate_function env V' kd tok e s n mv i t g"
proof -
  note a = simple_agree [OF assms] agree_listed [OF assms]
  show "size_option size c \<le> k \<Longrightarrow> visitVarDeclNode V pos s vk gl i c g = visitVarDeclNode V' pos s vk gl i c g"
    unfolding visitVarDeclNode_def
    by (auto simp: a intro!: bind_option_cong split: VarDeclKind.split option.split)
  show "size n < k \<Longrightarrow> size m < k \<Longrightarrow> visitAssignNode V n m sa fa g = visitAssignNode V' n m sa fa g"
  proof -
    assume s: "size n < k" "size m < k"
    have recv: "V r = V' r" if "members n = AccessNode r i at ao" for r i at ao
      using size_members [OF that] s(1) by (intro a(1)) simp
    have field: "assign_field V n m sa g = assign_field V' n m sa g"
      using a(1) [OF s(1)] a(1) [OF s(2)] by (auto simp: assign_field_def recv split: NodeMembers.split)
    have segs: "generateCmdArg V segs g1 = generateCmdArg V' segs g1" if "segmentNodes (members m) = Some segs" for segs g1
      using part_sizes(2) [OF that] s(2) by (intro a(5)) simp
    show ?thesis
      unfolding visitAssignNode_def
      by (auto simp: field segs a(1) [OF s(1)] a(1) [OF s(2)] intro!: bind_option_cong split: option.split)
  qed
  show "size n < k \<Longrightarrow> size m < k \<Longrightarrow> size l < k \<Longrightarrow> size n' < k \<Longrightarrow> size m' < k \<Longrightarrow>
      visitElementSelfAssignNode V n m l n' m' g = visitElementSelfAssignNode V' n m l n' m' g"
    by (simp add: visitElementSelfAssignNode_def a)
  show "size_list size ns \<le> k \<Longrightarrow> size_option size c \<le> k \<Longrightarrow>
      visitPrefixAssignNode V ns c base g = visitPrefixAssignNode V' ns c base g"
  proof -
    assume s: "size_list size ns \<le> k" "size_option size c \<le> k"
    have "generate_cmd_arg V r g1 = generate_cmd_arg V' r g1"
      if "x \<in> set ns" "assign_parts (members x) = Some (l, r)" for x l r g1
      using part_sizes(3) [OF that(2)] size_in_list [OF that(1)] s(1)
      by (intro generate_cmd_arg_agree [OF assms]) simp
    then have "prefix_assign V x = prefix_assign V' x" if "x \<in> set ns" for x
      using that by (auto simp: prefix_assign_def fun_eq_iff intro!: bind_option_cong split: NodeMembers.split)
    then show ?thesis
      unfolding visitPrefixAssignNode_def using s
      by (auto simp: a intro!: bind_option_cong generateBlock_agree loop_on_agree split: option.split)
  qed
  show "size n < k \<Longrightarrow> generate_function env V kd tok e s n mv i t g = generate_function env V' kd tok e s n mv i t g"
    by (simp add: generate_function_def a)
qed

lemma accept_agree:
  assumes "agree (size n) V V'"
  shows "accept env V n g = accept env V' n g"
proof -
  note all = simple_agree [OF assms] expressions_agree [OF assms] commands_agree [OF assms]
    visitForkNode_agree [OF assms] statements_agree [OF assms] assignments_agree [OF assms]
    visitBinaryOpNode_agree [OF assms] generateConcat_self_agree [OF assms]
  show ?thesis
    using size_members [of n "members n"]
    by (cases "members n") (simp_all add: accept_def all split: CaseKind.split)
qed

lemma accept_cong [fundef_cong]:
  assumes "env = env'" "n = n'" "g = g'" "\<And>x. size x < size n' \<Longrightarrow> V x = V' x"
  shows "accept env V n g = accept env' V' n' g'"
  using accept_agree [of n' V V' env' g'] assms by (simp add: agree_def)

function visit :: "cg_env \<Rightarrow> Node \<Rightarrow> Generator \<Rightarrow> Generator option" where
  "visit env n g = accept env (\<lambda>x. visit env x) n g"
  by pat_completeness auto
termination
  by (relation "measure (\<lambda>(env, n, g). size n)") auto

declare visit.simps [simp del]

section \<open>Modules\<close>

definition new_generator :: "TypePool \<Rightarrow> bool \<Rightarrow> heap \<Rightarrow> Generator" where
  "new_generator pool assertions h =
     \<lparr>typePool = pool, assertion = assertions, handle_STR = None, builders = [], commons = [],
      gen_error = None, gen_heap = h, func_objects = [], next_label = 0\<rparr>"

definition initialize :: "SourceLexer \<Rightarrow> Generator \<Rightarrow> Generator" where
  "initialize lx = initToplevelCodeBuilder lx 0"

definition generate :: "cg_env \<Rightarrow> Node \<Rightarrow> Generator \<Rightarrow> (bool \<times> Generator) option" where
  "generate env n g = map_option (\<lambda>g. (gen_error g = None, g)) (visit env n g)"

definition set_localVarNum :: "nat \<Rightarrow> Generator \<Rightarrow> Generator" where
  "set_localVarNum i = on_builder (\<lambda>b. b\<lparr>builder_varNum := i mod 256\<rparr>)"

definition finalize_toplevel :: "cg_env \<Rightarrow> nat \<Rightarrow> Generator \<Rightarrow> (DSCode option \<times> Generator) option" where
  "finalize_toplevel env maxVarIndex g =
     do {
       (c, g) \<leftarrow> finalizeCodeBuilder env [] (emitIns OP_RETURN (set_localVarNum maxVarIndex g));
       let g = (if c = None
                then reportError \<lparr>token_pos = 0, token_size = 0\<rparr>
                       (TooLargeToplevel (asStrRef (gen_heap g) (fst (hd (commons g))))) g
                else g);
       Some (c, g\<lparr>commons := tl (commons g)\<rparr>)
     }"

definition enterModule :: "SourceLexer \<Rightarrow> Generator \<Rightarrow> Generator" where
  "enterModule lx = initToplevelCodeBuilder lx 0"

text \<open>The node that names the module gives its type, the number of its variables and its path.\<close>

record ModuleSource =
  source_token :: Token
  source_pathToken :: Token
  source_type :: nat
  source_path :: bytes
  source_maxVarNum :: nat

definition module_index :: "DSType \<Rightarrow> nat option" where
  "module_index t = (case class_of t of ModType _ i _ _ \<Rightarrow> Some i | _ \<Rightarrow> None)"

definition exitModule :: "cg_env \<Rightarrow> ModuleSource \<Rightarrow> Generator \<Rightarrow> (bool \<times> Generator) option" where
  "exitModule env node g =
     do {
       let t = type_at g (source_type node);
       let name = ascii (nameRef t);
       (c, g) \<leftarrow> finalizeCodeBuilder env name (emitIns OP_RETURN (set_localVarNum (source_maxVarNum node) g));
       let g = (if c = None then reportError (source_token node) (TooLargeModule (source_path node)) g else g);
       let (func, g) = new_function (source_type node) TOPLEVEL name c g;
       g \<leftarrow> emitLdcIns func (g\<lparr>commons := tl (commons g)\<rparr>);
       i \<leftarrow> module_index t;
       let g = emit0byteIns OP_DUP (emitSourcePos (token_pos (source_pathToken node)) g);
       let g = emit2byteIns OP_STORE_GLOBAL i (emit1byteIns OP_CALL_FUNC 0 g);
       Some (gen_error g = None, g)
     }"

end
