(* ===== verification/Code_Stream.thy ===== *)
theory Code_Stream
  imports Code_Builder
begin

text \<open>
  Byte code as a sequence of instructions: the operands of each have the length of its table entry,
  or the length that its first operands give for the three pipeline instructions; and the places
  in it that hold the targets of jumps.
\<close>

section \<open>Instructions and their targets\<close>

definition ins_length :: "bytes \<Rightarrow> nat option" where
  "ins_length bs =
     (case decode_op (unat (hd bs)) of
        None \<Rightarrow> None
      | Some op \<Rightarrow>
          if getByteSize op \<ge> 0 then Some (1 + nat (getByteSize op))
          else (let k = (if op = OP_PIPELINE_ASYNC then 2 else 1)
                in if k < length bs then Some (1 + k + 2 * unat (bs ! k)) else None))"

lemma ins_length_pos: "ins_length bs = Some n \<Longrightarrow> 0 < n"
  by (auto simp: ins_length_def Let_def split: option.splits if_splits)

text \<open>The instructions from an offset on, with their bytes.\<close>

function split_code :: "nat \<Rightarrow> bytes \<Rightarrow> (nat \<times> bytes) list option" where
  "split_code i bs =
     (if bs = [] then Some []
      else case ins_length bs of
        None \<Rightarrow> None
      | Some n \<Rightarrow>
          if n \<le> length bs then map_option (Cons (i, take n bs)) (split_code (i + n) (drop n bs)) else None)"
  by pat_completeness auto
termination
  by (relation "measure (\<lambda>(i, bs). length bs)") (auto dest: ins_length_pos)

declare split_code.simps [simp del]

abbreviation slot :: "nat \<Rightarrow> nat \<Rightarrow> OffsetLen \<Rightarrow> LabelTarget" where
  "slot i b n \<equiv> \<lparr>targetIndex = i, baseIndex = b, offsetLen = n\<rparr>"

definition op_slots :: "OpCode \<Rightarrow> nat \<Rightarrow> bytes \<Rightarrow> LabelTarget list" where
  "op_slots op i bs =
     (if op \<in> {OP_BRANCH, OP_TRY_UNWRAP, OP_ENTER_FINALLY} then [slot (i + 1) i Off16]
      else if op = OP_GOTO then [slot (i + 1) 0 Off32]
      else if op = OP_FORK then [slot (i + 2) i Off16]
      else if op \<in> {OP_PIPELINE, OP_PIPELINE_LP} then
        map (\<lambda>j. slot (i + 2 + 2 * j) i Off16) [0..<unat (bs ! 1)]
      else if op = OP_PIPELINE_ASYNC then
        map (\<lambda>j. slot (i + 3 + 2 * j) (i + 1) Off16) [0..<unat (bs ! 2)]
      else [])"

definition ins_slots :: "nat \<times> bytes \<Rightarrow> LabelTarget list" where
  "ins_slots x = (case decode_op (unat (hd (snd x))) of None \<Rightarrow> [] | Some op \<Rightarrow> op_slots op (fst x) (snd x))"

definition all_slots :: "(nat \<times> bytes) list \<Rightarrow> LabelTarget list" where
  "all_slots xs = concat (map ins_slots xs)"

definition bounds :: "(nat \<times> bytes) list \<Rightarrow> bytes \<Rightarrow> nat set" where
  "bounds xs c = insert (length c) (fst ` set xs)"

section \<open>Putting code together\<close>

lemma split_code_Nil [simp]: "split_code i [] = Some []"
  by (simp add: split_code.simps)

lemma ins_length_append:
  "ins_length bs = Some n \<Longrightarrow> n \<le> length bs \<Longrightarrow> bs \<noteq> [] \<Longrightarrow> ins_length (bs @ cs) = Some n"
  by (auto simp: ins_length_def Let_def nth_append split: option.splits if_splits)

lemma split_code_append:
  "split_code i a = Some xs \<Longrightarrow> split_code (i + length a) b = Some ys \<Longrightarrow> split_code i (a @ b) = Some (xs @ ys)"
proof (induction i a arbitrary: xs rule: split_code.induct)
  case (1 i bs)
  show ?case
  proof (cases "bs = []")
    case False
    with 1(2) obtain n xs' where n: "ins_length bs = Some n" "n \<le> length bs"
      "split_code (i + n) (drop n bs) = Some xs'" "xs = (i, take n bs) # xs'"
      by (subst (asm) split_code.simps) (auto split: option.splits if_splits)
    have "split_code (i + n) (drop n bs @ b) = Some (xs' @ ys)"
      using 1(1) [OF False n(1,2,3)] 1(3) n(2) by simp
    with n False ins_length_append [OF n(1,2) False, of b] show ?thesis
      by (subst split_code.simps) simp
  qed (use 1 in simp)
qed

lemma split_code_single:
  "ins_length bs = Some (length bs) \<Longrightarrow> bs \<noteq> [] \<Longrightarrow> split_code i bs = Some [(i, bs)]"
  by (subst split_code.simps) simp

lemma split_code_cases:
  assumes "split_code i bs = Some xs"
  obtains "bs = []" "xs = []"
  | n ys where "bs \<noteq> []" "ins_length bs = Some n" "0 < n" "n \<le> length bs"
      "split_code (i + n) (drop n bs) = Some ys" "xs = (i, take n bs) # ys"
  using assms by (subst (asm) split_code.simps) (auto split: option.splits if_splits dest: ins_length_pos)

lemma split_code_range: "split_code i bs = Some xs \<Longrightarrow> (p, b) \<in> set xs \<Longrightarrow> i \<le> p \<and> p < i + length bs"
proof (induction i bs arbitrary: xs rule: split_code.induct)
  case (1 i bs)
  from 1(2) show ?case
  proof (cases rule: split_code_cases)
    case (2 n ys)
    from 1(1) [OF 2(1,2,4,5)] 1(3) 2 show ?thesis by fastforce
  qed (use 1 in simp)
qed

section \<open>The places of targets\<close>

lemma jump_sizes:
  "getByteSize OP_BRANCH = 2" "getByteSize OP_TRY_UNWRAP = 2" "getByteSize OP_ENTER_FINALLY = 2"
  "getByteSize OP_GOTO = 4" "getByteSize OP_FORK = 3" "getByteSize OP_PIPELINE = -1"
  "getByteSize OP_PIPELINE_LP = -1" "getByteSize OP_PIPELINE_ASYNC = -1"
  by (simp_all add: getByteSize_def opcode_byte_def opcode_table_def)

lemma getByteSize_neg:
  "getByteSize op < 0 \<longleftrightarrow> op \<in> {OP_PIPELINE, OP_PIPELINE_LP, OP_PIPELINE_ASYNC}"
  by (cases op) (simp_all add: getByteSize_def opcode_byte_def opcode_table_def)

lemma pair_spans: "concat (map (\<lambda>j. span (slot (a + 2 * j) b Off16)) [0..<k]) = [a..<a + 2 * k]"
proof (induction k)
  case (Suc k)
  then show ?case using upt_add_eq_append [of a "a + 2 * k" 2] by (simp add: span_def)
qed simp

lemma op_slots_spans:
  assumes "ins_length bs = Some n" "n \<le> length bs" "decode_op (unat (hd bs)) = Some op"
  shows "distinct (concat (map span (op_slots op i bs)))"
    "set (concat (map span (op_slots op i bs))) \<subseteq> {i<..<i + n}"
    "i + k \<in> set (concat (map span (op_slots op i bs))) \<Longrightarrow> getByteSize op < 0 \<Longrightarrow>
      (if op = OP_PIPELINE_ASYNC then 2 else 1) < k"
proof -
  have pipe_eq: "concat (map span (op_slots op i bs)) =
      [i + 2..<i + 2 + 2 * unat (bs ! 1)]" "n = 2 + 2 * unat (bs ! 1)" if "op \<in> {OP_PIPELINE, OP_PIPELINE_LP}"
    using that assms pair_spans [of "i + 2" i "unat (bs ! 1)"]
    by (auto simp: op_slots_def ins_length_def Let_def jump_sizes comp_def split: if_splits)
  have async_eq: "concat (map span (op_slots op i bs)) =
      [i + 3..<i + 3 + 2 * unat (bs ! 2)]" "n = 3 + 2 * unat (bs ! 2)" if "op = OP_PIPELINE_ASYNC"
    using that assms pair_spans [of "i + 3" "i + 1" "unat (bs ! 2)"]
    by (auto simp: op_slots_def ins_length_def Let_def jump_sizes comp_def split: if_splits)
  consider (branch) "op \<in> {OP_BRANCH, OP_TRY_UNWRAP, OP_ENTER_FINALLY}" "n = 3"
    | (jump) "op = OP_GOTO" "n = 5" | (fork) "op = OP_FORK" "n = 4"
    | (pipe) "op \<in> {OP_PIPELINE, OP_PIPELINE_LP}" | (async) "op = OP_PIPELINE_ASYNC"
    | (none) "op_slots op i bs = []"
  proof -
    have "op \<in> {OP_BRANCH, OP_TRY_UNWRAP, OP_ENTER_FINALLY} \<Longrightarrow> n = 3" "op = OP_GOTO \<Longrightarrow> n = 5" "op = OP_FORK \<Longrightarrow> n = 4"
      using assms(1,3) by (auto simp: ins_length_def jump_sizes)
    moreover have "op_slots op i bs = []"
      if "op \<notin> {OP_BRANCH, OP_TRY_UNWRAP, OP_ENTER_FINALLY}" "op \<noteq> OP_GOTO" "op \<noteq> OP_FORK"
        "op \<notin> {OP_PIPELINE, OP_PIPELINE_LP}" "op \<noteq> OP_PIPELINE_ASYNC"
      using that by (simp add: op_slots_def)
    ultimately show thesis using branch jump fork pipe async none by blast
  qed
  note c = this
  have "distinct (concat (map span (op_slots op i bs))) \<and> set (concat (map span (op_slots op i bs))) \<subseteq> {i<..<i + n}"
    using c
  proof cases
    case pipe
    show ?thesis unfolding pipe_eq [OF pipe] by auto
  next
    case async
    show ?thesis unfolding async_eq [OF async] by auto
  qed (auto simp: op_slots_def span_def)
  then show "distinct (concat (map span (op_slots op i bs)))"
    "set (concat (map span (op_slots op i bs))) \<subseteq> {i<..<i + n}" by blast+
  assume k: "i + k \<in> set (concat (map span (op_slots op i bs)))" "getByteSize op < 0"
  show "(if op = OP_PIPELINE_ASYNC then 2 else 1) < k"
  proof (cases "op = OP_PIPELINE_ASYNC")
    case True
    from k(1) show ?thesis unfolding async_eq(1) [OF True] set_upt using True by simp
  next
    case False
    with k(2) have p: "op \<in> {OP_PIPELINE, OP_PIPELINE_LP}" by (simp add: getByteSize_neg)
    from k(1) show ?thesis unfolding pipe_eq(1) [OF p] set_upt using False by simp
  qed
qed

definition all_spans :: "(nat \<times> bytes) list \<Rightarrow> nat list" where
  "all_spans xs = concat (map span (all_slots xs))"

lemma all_spans_Cons: "all_spans (x # xs) = concat (map span (ins_slots x)) @ all_spans xs"
  by (simp add: all_spans_def all_slots_def)

lemma all_spans_Nil [simp]: "all_spans [] = []"
  by (simp add: all_spans_def all_slots_def)

lemma ins_length_decodes:
  "ins_length bs = Some n \<Longrightarrow> \<exists>op. decode_op (unat (hd bs)) = Some op"
  by (auto simp: ins_length_def split: option.splits)

lemma ins_length_take:
  "ins_length bs = Some n \<Longrightarrow> n \<le> length bs \<Longrightarrow> bs \<noteq> [] \<Longrightarrow> ins_length (take n bs) = Some n"
  by (auto simp: ins_length_def Let_def split: option.splits if_splits)

lemma split_code_spans:
  "split_code i bs = Some xs \<Longrightarrow> distinct (all_spans xs) \<and> set (all_spans xs) \<subseteq> {i<..<i + length bs}"
proof (induction i bs arbitrary: xs rule: split_code.induct)
  case (1 i bs)
  from 1(2) show ?case
  proof (cases rule: split_code_cases)
    case (2 n ys)
    let ?b = "take n bs"
    note l = ins_length_take [OF 2(2,4,1)]
    obtain op where op: "decode_op (unat (hd ?b)) = Some op" using ins_length_decodes [OF l] by blast
    have s: "concat (map span (ins_slots (i, ?b))) = concat (map span (op_slots op i ?b))"
      by (simp add: ins_slots_def op)
    note this = op_slots_spans(1,2) [OF l _ op, of i]
    moreover have "distinct (all_spans ys) \<and> set (all_spans ys) \<subseteq> {i + n<..<i + length bs}"
      using 1(1) [OF 2(1,2,4,5)] 2(4) by simp
    ultimately show ?thesis using 2(3,4) unfolding 2(6) all_spans_Cons s by fastforce
  qed simp
qed

section \<open>Filling in the targets\<close>

text \<open>Two pieces of code that differ in the places of targets only.\<close>

lemma ins_length_same:
  assumes "ins_length bs = Some n" "n \<le> length bs" "length cs = length bs" "hd cs = hd bs"
    "\<And>op. decode_op (unat (hd bs)) = Some op \<Longrightarrow> getByteSize op < 0 \<Longrightarrow>
      cs ! (if op = OP_PIPELINE_ASYNC then 2 else 1) = bs ! (if op = OP_PIPELINE_ASYNC then 2 else 1)"
  shows "ins_length cs = Some n"
  using assms by (auto simp: ins_length_def Let_def split: option.splits if_splits)

text \<open>
  Code that differs from \<open>bs\<close> in the places of targets only has the same instructions, up to these.
\<close>

lemma split_code_same:
  "split_code i bs = Some xs \<Longrightarrow> length cs = length bs \<Longrightarrow>
   (\<And>k. k < length bs \<Longrightarrow> i + k \<notin> set (all_spans xs) \<Longrightarrow> cs ! k = bs ! k) \<Longrightarrow>
   \<exists>ys. split_code i cs = Some ys \<and> map fst ys = map fst xs \<and> map ins_slots ys = map ins_slots xs"
proof (induction i bs arbitrary: xs cs rule: split_code.induct)
  case (1 i bs)
  from 1(2) show ?case
  proof (cases rule: split_code_cases)
    case 1
    then show ?thesis using \<open>length cs = length bs\<close> by simp
  next
    case (2 n ys)
    note l = ins_length_take [OF 2(2,4,1)]
    obtain op where op: "decode_op (unat (hd bs)) = Some op" using ins_length_decodes [OF 2(2)] by blast
    have hd: "hd (take n bs) = hd bs" using 2(1,3) by (cases bs; cases n) auto
    have s: "concat (map span (ins_slots (i, take n bs))) = concat (map span (op_slots op i (take n bs)))"
      by (simp add: ins_slots_def op hd)
    have spans: "set (all_spans xs) = set (concat (map span (op_slots op i (take n bs)))) \<union> set (all_spans ys)"
      unfolding 2(6) all_spans_Cons s by simp
    have len: "n \<le> length (take n bs)" using 2(4) by simp
    note sp = op_slots_spans [OF l len op [folded hd], of i]
    have later: "set (all_spans ys) \<subseteq> {i + n<..}" using split_code_spans [OF 2(5)] by auto
    have same: "cs ! k = bs ! k" if "k < n" "i + k \<notin> set (concat (map span (op_slots op i (take n bs))))" for k
      using that later 2(4) 1(4) [of k] unfolding spans by fastforce
    have ne: "cs \<noteq> []" using 2(1) 1(3) by auto
    have "i + 0 \<notin> set (concat (map span (op_slots op i (take n bs))))"
      using subsetD [OF sp(2), of i] by force
    from same [OF 2(3) this] have h: "hd cs = hd bs" using 2(1) ne by (simp add: hd_conv_nth)
    have cnt: "cs ! (if op' = OP_PIPELINE_ASYNC then 2 else 1) = bs ! (if op' = OP_PIPELINE_ASYNC then 2 else 1)"
      if "decode_op (unat (hd bs)) = Some op'" "getByteSize op' < 0" for op'
    proof (rule same)
      have [simp]: "op' = op" using that(1) op by simp
      show "(if op' = OP_PIPELINE_ASYNC then 2 else 1) < n"
        using 2(2) that(2) op by (auto simp: ins_length_def Let_def split: if_splits)
      show "i + (if op' = OP_PIPELINE_ASYNC then 2 else 1) \<notin> set (concat (map span (op_slots op i (take n bs))))"
        using sp(3) [of "if op' = OP_PIPELINE_ASYNC then 2 else 1"] that(2) by fastforce
    qed
    have il: "ins_length cs = Some n" by (rule ins_length_same [OF 2(2,4) 1(3) h cnt])
    have "\<exists>zs. split_code (i + n) (drop n cs) = Some zs \<and> map fst zs = map fst ys \<and> map ins_slots zs = map ins_slots ys"
    proof (rule 1(1) [OF 2(1,2,4,5)])
      show "length (drop n cs) = length (drop n bs)" using 1(3) by simp
      fix k assume k: "k < length (drop n bs)" "i + n + k \<notin> set (all_spans ys)"
      have "i + (n + k) \<notin> set (all_spans xs)" using k(2) sp(2) unfolding spans by (auto simp: add.assoc)
      from 1(4) [OF _ this] k(1) 1(3) show "drop n cs ! k = drop n bs ! k" by simp
    qed
    then obtain zs where zs: "split_code (i + n) (drop n cs) = Some zs" "map fst zs = map fst ys"
      "map ins_slots zs = map ins_slots ys" by blast
    have slots: "ins_slots (i, take n cs) = ins_slots (i, take n bs)"
    proof -
      have "hd (take n cs) = hd bs" using h ne 2(3) by (cases cs; cases n) auto
      moreover have "op_slots op i (take n cs) = op_slots op i (take n bs)"
      proof (cases "getByteSize op < 0")
        case True
        have "(if op = OP_PIPELINE_ASYNC then 2 else 1) < n"
          using 2(2) True op by (auto simp: ins_length_def Let_def split: if_splits)
        with cnt [OF op True] show ?thesis by (auto simp: op_slots_def split: if_splits)
      qed (simp add: getByteSize_neg op_slots_def)
      ultimately show ?thesis by (simp add: ins_slots_def op hd)
    qed
    have "split_code i cs = Some ((i, take n cs) # zs)"
      using ne il zs(1) 2(4) 1(3) by (subst split_code.simps) simp
    then show ?thesis using zs(2,3) slots unfolding 2(6) by simp
  qed
qed

end
