(* ===== verification/Code_Steps.thy ===== *)
theory Code_Steps
  imports Code_Visit Code_Stream VM_Loop
begin

text \<open>
  What the emission of an instruction keeps: the buffer holds whole instructions, the places that
  refer to labels are the operands of its jumps, every label is at the start of an instruction or
  at the end, and the entries of the exception table are nested.
\<close>

section \<open>Emitters\<close>

definition targets :: "CodeEmitter \<Rightarrow> LabelTarget list" where
  "targets e = concat (map snd (labelMap e))"

definition emitter_ok :: "CodeEmitter \<Rightarrow> bool" where
  "emitter_ok e \<longleftrightarrow>
     (\<exists>xs. split_code 0 (codeBuffer e) = Some xs \<and> mset (targets e) = mset (all_slots xs)
       \<and> (\<forall>l. labelIndex e l \<in> bounds xs (codeBuffer e)))"

text \<open>Where a jump leads.\<close>

definition jump_dest :: "bytes \<Rightarrow> LabelTarget \<Rightarrow> nat" where
  "jump_dest c u = baseIndex u + unat (readN (len_bytes (offsetLen u)) (drop (targetIndex u) c) 0)"

definition code_ok :: "bytes \<Rightarrow> nat list \<Rightarrow> bool" where
  "code_ok c addresses \<longleftrightarrow>
     (\<exists>xs. split_code 0 c = Some xs
       \<and> (\<forall>x\<in>set xs. \<forall>u\<in>set (ins_slots x). jump_dest c u \<in> bounds xs c)
       \<and> set addresses \<subseteq> bounds xs c)"

lemma label_targets_snd: "map snd (label_targets id e) = targets e"
  by (simp add: label_targets_def targets_def map_concat comp_def case_prod_unfold)

lemma finalized_ok:
  assumes "emitter_ok e" "mset (order (labelMap e)) = mset (labelMap e)" "finalize order e = Inr e'"
    "length (codeBuffer e) < 2 ^ 32" "\<And>xs. split_code 0 (codeBuffer e) = Some xs \<Longrightarrow> set as \<subseteq> bounds xs (codeBuffer e)"
  shows "code_ok (codeBuffer e') as"
proof -
  from assms(1) obtain xs where xs: "split_code 0 (codeBuffer e) = Some xs"
    "mset (targets e) = mset (all_slots xs)" "\<And>l. labelIndex e l \<in> bounds xs (codeBuffer e)"
    by (auto simp: emitter_ok_def)
  note sp = split_code_spans [OF xs(1)]
  have in_code: "x \<in> bounds xs (codeBuffer e) \<Longrightarrow> x < 2 ^ 32" for x
    using split_code_range [OF xs(1)] assms(4) by (fastforce simp: bounds_def)
  have "mset (spans (label_targets id e)) = mset (all_spans xs)"
    using xs(2) unfolding spans_def all_spans_def label_targets_snd [symmetric]
    by (metis (no_types) mset_concat_cong mset_map map_map)
  then have s: "distinct (spans (label_targets id e))" "set (spans (label_targets id e)) = set (all_spans xs)"
    using sp by (metis mset_eq_imp_distinct_iff, metis set_mset_mset)
  have loc: "\<exists>l. location = labelIndex e l" if "(location, u) \<in> set (label_targets id e)" for location u
    using that by (auto simp: label_targets_def)
  have "\<forall>(location, u)\<in>set (label_targets id e). location < 2 ^ 32"
    using loc xs(3) in_code by fastforce
  moreover have "\<forall>i\<in>set (spans (label_targets id e)). i < length (codeBuffer e)"
    using sp s(2) by auto
  ultimately have "case finalize order e of
      Inr e' \<Rightarrow> length (codeBuffer e') = length (codeBuffer e)
        \<and> (\<forall>(location, u)\<in>set (label_targets id e). offset_written (codeBuffer e') location u)
        \<and> (\<forall>i. i \<notin> set (spans (label_targets id e)) \<longrightarrow> codeBuffer e' ! i = codeBuffer e ! i)
    | Inl x \<Rightarrow> True"
    using finalize_resolves_labels [of order e, OF assms(2) s(1)] by (auto split: sum.splits)
  with s(2) assms(3)
  have f: "length (codeBuffer e') = length (codeBuffer e)"
    "\<And>location u. (location, u) \<in> set (label_targets id e) \<Longrightarrow> offset_written (codeBuffer e') location u"
    "\<And>i. i \<notin> set (all_spans xs) \<Longrightarrow> codeBuffer e' ! i = codeBuffer e ! i"
    by auto
  from split_code_same [OF xs(1) f(1)] f(3) obtain ys where ys: "split_code 0 (codeBuffer e') = Some ys"
    "map fst ys = map fst xs" "map ins_slots ys = map ins_slots xs" by auto
  have b: "bounds ys (codeBuffer e') = bounds xs (codeBuffer e)"
    using ys(2) f(1) unfolding bounds_def by (metis list.set_map)
  have "jump_dest (codeBuffer e') u \<in> bounds ys (codeBuffer e')" if "y \<in> set ys" "u \<in> set (ins_slots y)" for y u
  proof -
    have "u \<in> set (all_slots xs)" using that unfolding all_slots_def ys(3) [symmetric] by auto
    then have "u \<in> set (targets e)" using xs(2) by (metis set_mset_mset)
    then obtain location where l: "(location, u) \<in> set (label_targets id e)"
      unfolding label_targets_snd [symmetric] by auto
    with f(2) have "offset_written (codeBuffer e') location u" by blast
    then have "jump_dest (codeBuffer e') u = location" by (simp add: offset_written_def jump_dest_def)
    then show ?thesis using loc [OF l] xs(3) b by auto
  qed
  then show ?thesis unfolding code_ok_def using ys(1) b assms(5) [OF xs(1)] by auto
qed

section \<open>Steps of the generator\<close>

text \<open>
  What any piece of the generator does to the builder it works on: code and exception entries are
  added, the labels that were there keep their places, and what is well-formed stays so. The labels
  below \<open>k\<close> are those that were there at the start, those below \<open>k'\<close> at the end.
\<close>

definition builder_ok :: "CodeBuilder \<Rightarrow> bool" where
  "builder_ok b \<longleftrightarrow>
     emitter_ok (emitter b)
     \<and> (\<forall>xs. split_code 0 (codeBuffer (emitter b)) = Some xs \<longrightarrow>
          catch_address ` set (catchBuilders b) \<subseteq> bounds xs (codeBuffer (emitter b)))"

definition inner_or_apart :: "(label \<Rightarrow> nat) \<Rightarrow> CatchBuilder \<Rightarrow> CatchBuilder \<Rightarrow> bool" where
  "inner_or_apart idx x y \<longleftrightarrow>
     (idx (catch_begin y) \<le> idx (catch_begin x) \<and> idx (catch_end x) \<le> idx (catch_end y))
     \<or> idx (catch_end x) \<le> idx (catch_begin y) \<or> idx (catch_end y) \<le> idx (catch_begin x)"

definition entries_ok :: "(label \<Rightarrow> nat) \<Rightarrow> nat \<Rightarrow> nat \<Rightarrow> CatchBuilder list \<Rightarrow> bool" where
  "entries_ok idx lo hi es \<longleftrightarrow>
     (\<forall>c\<in>set es. lo \<le> idx (catch_begin c) \<and> idx (catch_begin c) \<le> idx (catch_end c)
        \<and> idx (catch_end c) \<le> hi)
     \<and> sorted_wrt (inner_or_apart idx) es"

abbreviation code_of :: "CodeBuilder \<Rightarrow> bytes" where "code_of b \<equiv> codeBuffer (emitter b)"
abbreviation index_of :: "CodeBuilder \<Rightarrow> label \<Rightarrow> nat" where "index_of b \<equiv> labelIndex (emitter b)"

definition labels_in :: "nat \<Rightarrow> nat \<Rightarrow> CatchBuilder list \<Rightarrow> bool" where
  "labels_in k k' es \<longleftrightarrow>
     (\<forall>c\<in>set es. k \<le> catch_begin c \<and> catch_begin c < k' \<and> k \<le> catch_end c \<and> catch_end c < k')"

definition builder_step :: "nat \<Rightarrow> nat \<Rightarrow> CodeBuilder \<Rightarrow> CodeBuilder \<Rightarrow> bool" where
  "builder_step k k' b b' \<longleftrightarrow>
     (builder_ok b \<longrightarrow> builder_ok b') \<and> k \<le> k'
     \<and> (\<exists>chunk. code_of b' = code_of b @ chunk)
     \<and> (\<forall>l<k. index_of b' l = index_of b l)
     \<and> (\<exists>es. catchBuilders b' = catchBuilders b @ es
          \<and> entries_ok (index_of b') (length (code_of b)) (length (code_of b')) es \<and> labels_in k k' es)"

definition entry_order :: "ExceptionEntry \<Rightarrow> ExceptionEntry \<Rightarrow> bool" where
  "entry_order x y \<longleftrightarrow>
     (begin_pc y \<le> begin_pc x \<and> end_pc x \<le> end_pc y) \<or> end_pc x \<le> begin_pc y \<or> end_pc y \<le> begin_pc x"

definition dscode_ok :: "DSCode \<Rightarrow> bool" where
  "dscode_ok c \<longleftrightarrow>
     (length (code_bytes c) < 2 ^ 32 \<longrightarrow>
        code_ok (code_bytes c) (concat (map (\<lambda>e. [begin_pc e, end_pc e, dest e]) (exceptionEntries c))))
     \<and> (\<forall>e\<in>set (exceptionEntries c). begin_pc e \<le> end_pc e)
     \<and> sorted_wrt entry_order (exceptionEntries c)"

definition functions_ok :: "Generator \<Rightarrow> bool" where
  "functions_ok g \<longleftrightarrow> (\<forall>(a, c)\<in>set (func_objects g). dscode_ok c)"

definition gen_step :: "Generator \<Rightarrow> Generator \<Rightarrow> bool" where
  "gen_step g g' \<longleftrightarrow>
     (builders g \<noteq> [] \<longrightarrow>
        builders g' \<noteq> [] \<and> tl (builders g') = tl (builders g)
        \<and> builder_step (next_label g) (next_label g') (curBuilder g) (curBuilder g')
        \<and> (functions_ok g \<longrightarrow> functions_ok g'))"

lemma entries_ok_cong:
  "(\<And>c. c \<in> set es \<Longrightarrow> idx' (catch_begin c) = idx (catch_begin c) \<and> idx' (catch_end c) = idx (catch_end c)) \<Longrightarrow>
   lo' \<le> lo \<Longrightarrow> hi \<le> hi' \<Longrightarrow> entries_ok idx lo hi es \<Longrightarrow> entries_ok idx' lo' hi' es"
  unfolding entries_ok_def
  by (auto simp: inner_or_apart_def intro: order_trans elim!: sorted_wrt_mono_rel [rotated])

lemma entries_ok_append:
  "entries_ok idx lo mid es \<Longrightarrow> entries_ok idx mid hi fs \<Longrightarrow> lo \<le> mid \<Longrightarrow> mid \<le> hi \<Longrightarrow> entries_ok idx lo hi (es @ fs)"
  unfolding entries_ok_def
  by (fastforce simp: sorted_wrt_append inner_or_apart_def)

lemma builder_step_refl: "builder_step k k b b"
  by (auto simp: builder_step_def entries_ok_def labels_in_def intro!: exI [of _ "[]"])

lemma builder_step_trans:
  assumes "builder_step k k' b b'" "builder_step k' k'' b' b''"
  shows "builder_step k k'' b b''"
proof -
  from assms(1) obtain chunk es where 1: "builder_ok b \<longrightarrow> builder_ok b'" "k \<le> k'" "code_of b' = code_of b @ chunk"
    "\<forall>l<k. index_of b' l = index_of b l" "catchBuilders b' = catchBuilders b @ es"
    "entries_ok (index_of b') (length (code_of b)) (length (code_of b')) es" "labels_in k k' es"
    unfolding builder_step_def by blast
  from assms(2) obtain chunk' es' where 2: "builder_ok b' \<longrightarrow> builder_ok b''" "k' \<le> k''" "code_of b'' = code_of b' @ chunk'"
    "\<forall>l<k'. index_of b'' l = index_of b' l" "catchBuilders b'' = catchBuilders b' @ es'"
    "entries_ok (index_of b'') (length (code_of b')) (length (code_of b'')) es'" "labels_in k' k'' es'"
    unfolding builder_step_def by blast
  have "entries_ok (index_of b'') (length (code_of b)) (length (code_of b'')) (es @ es')"
  proof (rule entries_ok_append [OF _ 2(6)])
    show "entries_ok (index_of b'') (length (code_of b)) (length (code_of b')) es"
      by (rule entries_ok_cong [OF _ _ _ 1(6)]) (use 1(7) 2(4) in \<open>auto simp: labels_in_def\<close>)
  qed (simp_all add: 1(3) 2(3))
  moreover have "labels_in k k'' (es @ es')" using 1(2,7) 2(2,7) by (auto simp: labels_in_def)
  ultimately show ?thesis
    unfolding builder_step_def using 1 2 by (auto intro!: exI [of _ "es @ es'"])
qed

lemma gen_step_refl: "gen_step g g"
  by (auto simp: gen_step_def builder_step_refl curBuilder_def)

lemma gen_step_trans: "gen_step g g' \<Longrightarrow> gen_step g' g'' \<Longrightarrow> gen_step g g''"
  unfolding gen_step_def by (auto intro: builder_step_trans)

lemma gen_step_labels: "gen_step g g' \<Longrightarrow> builders g \<noteq> [] \<Longrightarrow> next_label g \<le> next_label g'"
  by (simp add: gen_step_def builder_step_def)

lemma gen_step_builders: "gen_step g g' \<Longrightarrow> builders g \<noteq> [] \<Longrightarrow> builders g' \<noteq> []"
  by (simp add: gen_step_def)

section \<open>Emitting an instruction\<close>

text \<open>\<open>ins\<close> is added to the code, with targets \<open>us\<close>.\<close>

definition emitted :: "bytes \<Rightarrow> LabelTarget list \<Rightarrow> Generator \<Rightarrow> Generator \<Rightarrow> bool" where
  "emitted ins us g g' \<longleftrightarrow>
     (builders g \<noteq> [] \<longrightarrow>
        builders g' \<noteq> [] \<and> tl (builders g') = tl (builders g) \<and> next_label g' = next_label g
        \<and> func_objects g' = func_objects g
        \<and> code_of (curBuilder g') = code_of (curBuilder g) @ ins
        \<and> mset (targets (emitter (curBuilder g'))) = mset (targets (emitter (curBuilder g))) + mset us
        \<and> index_of (curBuilder g') = index_of (curBuilder g)
        \<and> catchBuilders (curBuilder g') = catchBuilders (curBuilder g))"

lemma bounds_append:
  assumes "split_code 0 c = Some xs" "bs \<noteq> []" "ys = [(length c, bs)]"
  shows "bounds xs c \<subseteq> bounds (xs @ ys) (c @ bs)" "length (c @ bs) \<in> bounds (xs @ ys) (c @ bs)"
  using assms by (auto simp: bounds_def)

lemma emitted_step:
  assumes "emitted ins us g g'" "ins \<noteq> []" "ins_length ins = Some (length ins)"
    "mset us = mset (ins_slots (currentCodeOffset g, ins))"
  shows "gen_step g g'"
proof (cases "builders g = []")
  case False
  let ?b = "curBuilder g" and ?b' = "curBuilder g'"
  from assms(1) False have e: "builders g' \<noteq> []" "tl (builders g') = tl (builders g)" "next_label g' = next_label g"
    "func_objects g' = func_objects g" "code_of ?b' = code_of ?b @ ins"
    "mset (targets (emitter ?b')) = mset (targets (emitter ?b)) + mset us"
    "index_of ?b' = index_of ?b" "catchBuilders ?b' = catchBuilders ?b"
    by (auto simp: emitted_def)
  have "builder_ok ?b'" if ok: "builder_ok ?b"
  proof -
    from ok obtain xs where xs: "split_code 0 (code_of ?b) = Some xs"
      "mset (targets (emitter ?b)) = mset (all_slots xs)" "\<forall>l. index_of ?b l \<in> bounds xs (code_of ?b)"
      "catch_address ` set (catchBuilders ?b) \<subseteq> bounds xs (code_of ?b)"
      by (auto simp: builder_ok_def emitter_ok_def)
    let ?x = "(length (code_of ?b), ins)"
    have "split_code (0 + length (code_of ?b)) ins = Some [?x]"
      using split_code_single [OF assms(3,2)] by simp
    from split_code_append [OF xs(1) this] have s: "split_code 0 (code_of ?b') = Some (xs @ [?x])"
      by (simp add: e(5))
    note b = bounds_append(1) [OF xs(1) assms(2) refl]
    have "mset (targets (emitter ?b')) = mset (all_slots (xs @ [?x]))"
      using e(6) xs(2) assms(4) by (simp add: all_slots_def currentCodeOffset_def)
    then show ?thesis
      unfolding builder_ok_def emitter_ok_def using s xs(3,4) b by (auto simp: e(5,7,8))
  qed
  then show ?thesis
    using e by (auto simp: gen_step_def builder_step_def functions_ok_def entries_ok_def labels_in_def)
qed (simp add: gen_step_def)

lemma emitted_trans:
  "emitted i us g g' \<Longrightarrow> emitted j vs g' g'' \<Longrightarrow> emitted (i @ j) (us @ vs) g g''"
  unfolding emitted_def by (auto simp: neq_Nil_conv)

definition num_bytes :: "nat \<Rightarrow> nat \<Rightarrow> bytes" where
  "num_bytes n v = map (be_byte (of_nat (v mod 256 ^ n))) (rev [0..<n])"

lemma length_num_bytes [simp]: "length (num_bytes n v) = n"
  by (simp add: num_bytes_def)

lemma num_bytes_1: "num_bytes 1 v = [of_nat v]"
proof -
  have "(ucast (of_nat (v mod 256) :: u64) :: byte) = of_nat v"
    by (simp add: word_unat_eq_iff unsigned_ucast_eq unsigned_of_nat take_bit_eq_mod mod_mod_cancel)
  then show ?thesis by (simp add: num_bytes_def be_byte_def)
qed

text \<open>The steps that do not touch code, labels and exception entries.\<close>

definition quiet :: "Generator \<Rightarrow> Generator \<Rightarrow> bool" where
  "quiet g g' \<longleftrightarrow>
     (builders g \<noteq> [] \<longrightarrow>
        builders g' \<noteq> [] \<and> tl (builders g') = tl (builders g) \<and> next_label g \<le> next_label g'
        \<and> (functions_ok g \<longrightarrow> functions_ok g')
        \<and> emitter (curBuilder g') = emitter (curBuilder g)
        \<and> catchBuilders (curBuilder g') = catchBuilders (curBuilder g))"

lemma quiet_step: "quiet g g' \<Longrightarrow> gen_step g g'"
  by (auto simp: quiet_def gen_step_def builder_step_def builder_ok_def entries_ok_def labels_in_def)

lemma quiet_on_builder:
  "(\<And>b. emitter (f b) = emitter b \<and> catchBuilders (f b) = catchBuilders b) \<Longrightarrow> quiet g (on_builder f g)"
  by (auto simp: quiet_def on_builder_def curBuilder_def functions_ok_def)

lemma quiet_trans: "quiet g g' \<Longrightarrow> quiet g' g'' \<Longrightarrow> quiet g g''"
  by (auto simp: quiet_def)

lemma emitted_quiet: "emitted i us g g' \<Longrightarrow> (\<And>b. emitter (f b) = emitter b \<and> catchBuilders (f b) = catchBuilders b) \<Longrightarrow>
   emitted i us g (on_builder f g')"
  by (auto simp: emitted_def on_builder_def curBuilder_def)

lemma emitted_bytes: "emitted (num_bytes n v) [] g (append_bytes n v g)"
proof -
  have "codeBuffer (appendN n (of_nat (v mod 256 ^ n)) e) = codeBuffer e @ num_bytes n v"
    "labelIndex (appendN n (of_nat (v mod 256 ^ n)) e) = labelIndex e"
    "labelMap (appendN n (of_nat (v mod 256 ^ n)) e) = labelMap e" for e
    by (simp_all add: appendN_def emitN_def Let_def writeN_bytes num_bytes_def)
  then show ?thesis
    by (auto simp: emitted_def append_bytes_def on_emitter_def on_builder_def curBuilder_def targets_def)
qed

lemma emitted_ins: "emitted [code_byte op] [] g (emitIns op g)"
  unfolding emitIns_def code_byte_def num_bytes_1 [symmetric]
  by (rule emitted_quiet [OF emitted_bytes]) (simp add: raise_max_def add_depth_def Let_def)

lemma emitted_label:
  "emitted i us g g' \<Longrightarrow> emitted i (us @ [slot p b n]) g (on_emitter (writeLabel p l b n) g')"
proof -
  have "mset (concat (map snd (add_target l u m))) = mset (concat (map snd m)) + {#u#}" for l u m
    by (induction l u m rule: add_target.induct) auto
  then show "emitted i us g g' \<Longrightarrow> ?thesis"
    by (auto simp: emitted_def on_emitter_def on_builder_def curBuilder_def writeLabel_def targets_def)
qed

lemma decode_code_byte: "decode_op (unat (code_byte op)) = Some op"
proof -
  have "opcode_byte op < 81" by (cases op) (simp_all add: opcode_byte_def opcode_table_def)
  then show ?thesis by (simp add: code_byte_def unat_of_nat decode_opcode_byte)
qed

lemma ins_length_op:
  "getByteSize op = int (length ops) \<Longrightarrow> ins_length (code_byte op # ops) = Some (length (code_byte op # ops))"
  by (simp add: ins_length_def decode_code_byte)

lemma ins_length_op': "getByteSize op = int (length ops) \<Longrightarrow> n = Suc (length ops) \<Longrightarrow> ins_length (code_byte op # ops) = Some n"
  by (simp add: ins_length_op)

lemma ins_slots_op: "ins_slots (i, code_byte op # ops) = op_slots op i (code_byte op # ops)"
  by (simp add: ins_slots_def decode_code_byte)

lemma op_sizes:
  "getByteSize OP_HALT = 0" "getByteSize OP_ASSERT = 0" "getByteSize OP_PRINT = 3"
  "getByteSize OP_INSTANCE_OF = 3" "getByteSize OP_CHECK_CAST = 3" "getByteSize OP_PUSH_NULL = 0"
  "getByteSize OP_PUSH_TRUE = 0" "getByteSize OP_PUSH_FALSE = 0" "getByteSize OP_PUSH_SIG = 1"
  "getByteSize OP_PUSH_INT = 1" "getByteSize OP_PUSH_STR0 = 0" "getByteSize OP_PUSH_STR1 = 1"
  "getByteSize OP_PUSH_STR2 = 2" "getByteSize OP_PUSH_STR3 = 3" "getByteSize OP_PUSH_META = 1"
  "getByteSize OP_PUSH_TYPE = 3" "getByteSize OP_PUSH_INVALID = 0" "getByteSize OP_LOAD_CONST = 1"
  "getByteSize OP_LOAD_CONST_W = 2" "getByteSize OP_LOAD_CONST_T = 3"
  "getByteSize OP_LOAD_GLOBAL = 2" "getByteSize OP_STORE_GLOBAL = 2"
  "getByteSize OP_LOAD_LOCAL = 1" "getByteSize OP_STORE_LOCAL = 1" "getByteSize OP_LOAD_FIELD = 2"
  "getByteSize OP_STORE_FIELD = 2" "getByteSize OP_IMPORT_ENV = 1" "getByteSize OP_LOAD_ENV = 0"
  "getByteSize OP_STORE_ENV = 0" "getByteSize OP_NEW_ENV_CTX = 0" "getByteSize OP_ADD2ENV_CTX = 0"
  "getByteSize OP_POP = 0" "getByteSize OP_DUP = 0" "getByteSize OP_DUP2 = 0"
  "getByteSize OP_SWAP = 0" "getByteSize OP_CONCAT = 0" "getByteSize OP_APPEND = 0"
  "getByteSize OP_APPEND_ARRAY = 0" "getByteSize OP_APPEND_MAP = 0" "getByteSize OP_NEW = 3"
  "getByteSize OP_CALL_METHOD = 3" "getByteSize OP_CALL_FUNC = 1" "getByteSize OP_CALL_BUILTIN = 1"
  "getByteSize OP_CALL_BUILTIN2 = 2" "getByteSize OP_RETURN = 0" "getByteSize OP_RETURN_V = 0"
  "getByteSize OP_RETURN_UDC = 0" "getByteSize OP_EXIT_SIG = 0" "getByteSize OP_BRANCH = 2"
  "getByteSize OP_GOTO = 4" "getByteSize OP_THROW = 0" "getByteSize OP_ENTER_FINALLY = 2"
  "getByteSize OP_EXIT_FINALLY = 0" "getByteSize OP_LOOKUP_HASH = 0" "getByteSize OP_REF_EQ = 0"
  "getByteSize OP_REF_NE = 0" "getByteSize OP_FORK = 3" "getByteSize OP_PIPELINE = -1"
  "getByteSize OP_PIPELINE_LP = -1" "getByteSize OP_PIPELINE_ASYNC = -1"
  "getByteSize OP_EXPAND_TILDE = 0" "getByteSize OP_NEW_CMD = 0" "getByteSize OP_ADD_CMD_ARG = 1"
  "getByteSize OP_ADD_GLOBBING = 2" "getByteSize OP_CALL_CMD = 0"
  "getByteSize OP_CALL_CMD_NOFORK = 0" "getByteSize OP_BUILTIN_CMD = 0"
  "getByteSize OP_BUILTIN_EVAL = 0" "getByteSize OP_BUILTIN_EXEC = 0"
  "getByteSize OP_NEW_REDIR = 0" "getByteSize OP_ADD_REDIR_OP = 1" "getByteSize OP_DO_REDIR = 0"
  "getByteSize OP_RAND = 0" "getByteSize OP_GET_SECOND = 0" "getByteSize OP_SET_SECOND = 0"
  "getByteSize OP_UNWRAP = 0" "getByteSize OP_CHECK_UNWRAP = 0" "getByteSize OP_TRY_UNWRAP = 2"
  "getByteSize OP_RECLAIM_LOCAL = 2"
  by (simp_all add: getByteSize_def opcode_byte_def opcode_table_def)

definition plain_op :: "OpCode \<Rightarrow> bool" where
  "plain_op op \<longleftrightarrow> op \<notin> {OP_BRANCH, OP_TRY_UNWRAP, OP_ENTER_FINALLY, OP_GOTO, OP_FORK, OP_PIPELINE,
     OP_PIPELINE_LP, OP_PIPELINE_ASYNC}"

lemma plain_slots: "plain_op op \<Longrightarrow> op_slots op i bs = []"
  by (simp add: plain_op_def op_slots_def)

lemma plain_step:
  assumes "emitted (code_byte op # ops) [] g g'" "plain_op op" "getByteSize op = int (length ops)"
  shows "gen_step g g'"
  using assms by (intro emitted_step [OF assms(1)]) (simp_all add: ins_length_op ins_slots_op plain_slots)

lemma emit0_step: "plain_op op \<Longrightarrow> getByteSize op = 0 \<Longrightarrow> gen_step g (emit0byteIns op g)"
  by (rule plain_step [of op "[]"]) (simp_all add: emit0byteIns_def emitted_ins)

lemma emitted_operand:
  "emitted (code_byte op # ops) us g g' \<Longrightarrow> emitted (code_byte op # ops @ num_bytes n v) us g (append_bytes n v g')"
  using emitted_trans [OF _ emitted_bytes] by fastforce

lemma emit1_step: "plain_op op \<Longrightarrow> getByteSize op = 1 \<Longrightarrow> gen_step g (emit1byteIns op v g)"
  using emitted_operand [OF emitted_ins, of op 1 v g] unfolding emit1byteIns_def
  by (rule plain_step) simp_all

lemma emit2_step: "plain_op op \<Longrightarrow> getByteSize op = 2 \<Longrightarrow> gen_step g (emit2byteIns op v g)"
  using emitted_operand [OF emitted_ins, of op 2 v g] unfolding emit2byteIns_def
  by (rule plain_step) simp_all

lemma emit2b_step: "plain_op op \<Longrightarrow> getByteSize op = 2 \<Longrightarrow> gen_step g (emit2bytesIns op v w g)"
  using emitted_operand [OF emitted_operand [OF emitted_ins], of op 1 v 1 w g] unfolding emit2bytesIns_def
  by (rule plain_step) simp_all

lemma emit3_step: "plain_op op \<Longrightarrow> getByteSize op = 3 \<Longrightarrow> gen_step g (emit3byteIns op v g)"
  using emitted_operand [OF emitted_ins, of op 3 v g] unfolding emit3byteIns_def
  by (rule plain_step) simp_all

lemma emit3b_step: "plain_op op \<Longrightarrow> getByteSize op = 3 \<Longrightarrow> gen_step g (emit3bytesIns op v w x g)"
  using emitted_operand [OF emitted_operand [OF emitted_operand [OF emitted_ins]], of op 1 v 1 w 1 x g]
  unfolding emit3bytesIns_def by (rule plain_step) simp_all

lemma emitted_val: "emitted (code_byte op # num_bytes 1 (v mod 256)) [] g (emitValIns op v r g)"
proof -
  have "emitted [code_byte op] [] g (append_bytes 1 (opcode_byte op) g)"
    using emitted_bytes [of 1 "opcode_byte op" g] by (simp only: num_bytes_1 code_byte_def)
  from emitted_quiet [OF emitted_operand [OF this, of 1 "v mod 256"]] show ?thesis
    unfolding emitValIns_def by simp
qed

lemma emitFuncCallIns_step: "gen_step g (emitFuncCallIns n r g)"
  using emitted_val [of OP_CALL_FUNC] unfolding emitFuncCallIns_def
  by (rule plain_step) (simp_all add: plain_op_def op_sizes)

lemma emitMethodCallIns_step: "emitMethodCallIns n h g = Some g' \<Longrightarrow> gen_step g g'"
  using plain_step [OF emitted_operand [OF emitted_val], of OP_CALL_METHOD n 2 "methodIndex h" g]
    plain_step [OF emitted_operand [OF emitted_val], of OP_CALL_BUILTIN2 "n + 1" 1 "methodIndex h" g]
  by (auto simp: emitMethodCallIns_def emitNativeCallIns_def Let_def plain_op_def op_sizes split: if_splits)

lemma emitGlobIns_step: "gen_step g (emitGlobIns n t g)"
  using emitted_operand [OF emitted_val, of OP_ADD_GLOBBING n 1 "if t then 1 else 0" g] unfolding emitGlobIns_def
  by (rule plain_step) (simp_all add: plain_op_def op_sizes)

lemma emitTypeIns_step: "plain_op op \<Longrightarrow> getByteSize op = 3 \<Longrightarrow> gen_step g (emitTypeIns op t g)"
  by (simp add: emitTypeIns_def emit3_step)

lemma emitted_offset:
  "emitted i us g g' \<Longrightarrow> builders g \<noteq> [] \<Longrightarrow> currentCodeOffset g' = currentCodeOffset g + length i"
  by (simp add: emitted_def currentCodeOffset_def)

lemma emitBranchIns_step:
  assumes "op \<in> {OP_BRANCH, OP_TRY_UNWRAP, OP_ENTER_FINALLY}"
  shows "gen_step g (emitBranchIns op l g)"
  using emitted_label [OF emitted_operand [OF emitted_ins, of op 2 0 g], of "currentCodeOffset g + 1"
      "currentCodeOffset g" Off16 l]
  unfolding emitBranchIns_def emit2byteIns_def Let_def
  by (rule emitted_step) (use assms in \<open>auto simp: ins_slots_op op_slots_def jump_sizes intro!: ins_length_op'\<close>)

lemma emitForkIns_step: "gen_step g (emitForkIns k l g)"
  using emitted_label [OF emitted_operand [OF emitted_operand [OF emitted_ins, of OP_FORK 1 "fork_byte k" g], of 2 0],
      of "currentCodeOffset g + 2" "currentCodeOffset g" Off16 l]
  unfolding emitForkIns_def Let_def
  by (rule emitted_step) (auto simp: ins_slots_op op_slots_def jump_sizes intro!: ins_length_op')

lemma emitJumpIns_step: "gen_step g (emitJumpIns l g)"
  using emitted_label [OF emitted_operand [OF emitted_ins, of OP_GOTO 4 0 g], of "currentCodeOffset g + 1" 0 Off32 l]
  unfolding emitJumpIns_def emit4byteIns_def Let_def
  by (rule emitted_step) (auto simp: ins_slots_op op_slots_def jump_sizes intro!: ins_length_op')

end
