(* ===== verification/Code_Shape.thy ===== *)
theory Code_Shape
  imports Code_Steps
begin

text \<open>
  Sequences of steps of the generator. A visitor goes through states that are reached from the one
  it starts in; the labels that it has made and not yet used for an entry of the exception table
  are open, and may be marked.
\<close>

section \<open>States that are reached\<close>

definition new_entries :: "Generator \<Rightarrow> Generator \<Rightarrow> CatchBuilder list" where
  "new_entries g0 g = drop (length (catchBuilders (curBuilder g0))) (catchBuilders (curBuilder g))"

definition open_label :: "Generator \<Rightarrow> Generator \<Rightarrow> label \<Rightarrow> bool" where
  "open_label g0 g l \<longleftrightarrow>
     next_label g0 \<le> l \<and> l < next_label g
     \<and> (\<forall>c\<in>set (new_entries g0 g). catch_begin c \<noteq> l \<and> catch_end c \<noteq> l)"

definition reach :: "Generator \<Rightarrow> label set \<Rightarrow> Generator \<Rightarrow> bool" where
  "reach g0 L g \<longleftrightarrow> builders g0 \<noteq> [] \<and> gen_step g0 g \<and> (\<forall>l\<in>L. open_label g0 g l)"

definition keeps :: "Generator \<Rightarrow> label set \<Rightarrow> Generator option \<Rightarrow> bool" where
  "keeps g0 L m \<longleftrightarrow> (\<forall>g. m = Some g \<longrightarrow> reach g0 L g)"

named_theorems reaches
named_theorems keeping

lemma gen_step_entries:
  assumes "gen_step g0 g" "gen_step g g'" "builders g0 \<noteq> []"
  shows "\<exists>es. new_entries g0 g' = new_entries g0 g @ es \<and> labels_in (next_label g) (next_label g') es
    \<and> entries_ok (index_of (curBuilder g')) (currentCodeOffset g) (currentCodeOffset g') es"
  using assms by (auto simp: gen_step_def builder_step_def new_entries_def currentCodeOffset_def)

lemma reach_refl: "builders g \<noteq> [] \<Longrightarrow> reach g {} g"
  by (simp add: reach_def gen_step_refl)

lemma reach_ne: "reach g0 L g \<Longrightarrow> builders g \<noteq> []"
  by (auto simp: reach_def gen_step_builders)

lemma open_label_step:
  "gen_step g0 g \<Longrightarrow> gen_step g g' \<Longrightarrow> builders g0 \<noteq> [] \<Longrightarrow> open_label g0 g l \<Longrightarrow> open_label g0 g' l"
  using gen_step_entries [of g0 g g'] gen_step_labels [of g g'] gen_step_builders [of g0 g]
  by (fastforce simp: open_label_def labels_in_def)

lemma reach_trans: "reach g0 L g \<Longrightarrow> gen_step g g' \<Longrightarrow> reach g0 L g'"
  by (auto simp: reach_def intro: gen_step_trans open_label_step)

lemma reach_label: "reach g0 L g \<Longrightarrow> next_label g0 \<le> next_label g"
  by (simp add: reach_def gen_step_labels)

lemma reach_mono: "reach g0 L g \<Longrightarrow> L' \<subseteq> L \<Longrightarrow> reach g0 L' g"
  by (auto simp: reach_def)

lemma keeps_mono: "keeps g0 L m \<Longrightarrow> L' \<subseteq> L \<Longrightarrow> keeps g0 L' m"
  by (auto simp: keeps_def intro: reach_mono)

lemma keeps_None [keeping]: "keeps g0 L None"
  by (simp add: keeps_def)

lemma keeps_Some [keeping]: "reach g0 L g \<Longrightarrow> keeps g0 L (Some g)"
  by (simp add: keeps_def)

lemma keeps_done: "reach g0 L g \<Longrightarrow> keeps g0 {} (Some g)"
  by (auto simp: keeps_def intro: reach_mono)

lemma keepsI: "(\<And>g. m = Some g \<Longrightarrow> reach g0 L g) \<Longrightarrow> keeps g0 L m"
  by (simp add: keeps_def)

lemma keepsD: "keeps g0 L m \<Longrightarrow> m = Some g \<Longrightarrow> reach g0 L g"
  by (simp add: keeps_def)

lemma keeps_bind [keeping]:
  fixes m :: "Generator option"
  assumes "keeps g0 L m" "\<And>g. reach g0 L g \<Longrightarrow> keeps g0 L' (f g)"
  shows "keeps g0 L' (Option.bind m f)"
  using assms by (cases m) (auto simp: keeps_def)

text \<open>A piece that is proved from its own start on.\<close>

definition always :: "(Generator \<Rightarrow> Generator option) \<Rightarrow> bool" where
  "always f \<longleftrightarrow> (\<forall>g. builders g \<noteq> [] \<longrightarrow> keeps g {} (f g))"

lemma alwaysI: "(\<And>g0 g. reach g0 {} g \<Longrightarrow> g = g0 \<Longrightarrow> keeps g0 {} (f g)) \<Longrightarrow> always f"
  by (simp add: always_def reach_refl)

lemma always_step: "always f \<Longrightarrow> builders g \<noteq> [] \<Longrightarrow> f g = Some g' \<Longrightarrow> gen_step g g'"
  by (auto simp: always_def keeps_def reach_def)

lemma always_keeps: "always f \<Longrightarrow> reach g0 L g \<Longrightarrow> keeps g0 L (f g)"
  by (rule keepsI, frule reach_ne, erule reach_trans) (rule always_step)

lemma keeps_loop:
  assumes "reach g0 L g"
    "\<And>i x g. x \<in> set xs \<Longrightarrow> j \<le> i \<Longrightarrow> i < j + length xs \<Longrightarrow> reach g0 L g \<Longrightarrow> keeps g0 L (f i x g)"
  shows "keeps g0 L (loop_on f j xs g)"
  using assms
proof (induction xs arbitrary: j g)
  case (Cons x xs)
  have "keeps g0 L (f j x g)" by (rule Cons.prems) (simp_all add: Cons.prems)
  then show ?case by (auto intro!: keeps_bind Cons.IH Cons.prems)
qed (simp add: keeps_Some)

lemma keeps_if [keeping]: "(b \<Longrightarrow> keeps g0 L m) \<Longrightarrow> (\<not> b \<Longrightarrow> keeps g0 L m') \<Longrightarrow> keeps g0 L (if b then m else m')"
  by simp

lemma reach_if [reaches]: "(b \<Longrightarrow> reach g0 L g) \<Longrightarrow> (\<not> b \<Longrightarrow> reach g0 L g') \<Longrightarrow> reach g0 L (if b then g else g')"
  by simp

lemma keeps_case_option [keeping]:
  "(x = None \<Longrightarrow> keeps g0 L m) \<Longrightarrow> (\<And>y. x = Some y \<Longrightarrow> keeps g0 L (f y)) \<Longrightarrow> keeps g0 L (case_option m f x)"
  by (cases x) simp_all

lemma keeps_case_prod [keeping]: "(\<And>a b. p = (a, b) \<Longrightarrow> keeps g0 L (f a b)) \<Longrightarrow> keeps g0 L (case_prod f p)"
  by (cases p) simp

lemma keeps_let [keeping]: "keeps g0 L (f x) \<Longrightarrow> keeps g0 L (Let x f)"
  by simp

lemma keeps_let_gen [keeping]: "reach g0 L x \<Longrightarrow> (\<And>g. reach g0 L g \<Longrightarrow> keeps g0 L' (f g)) \<Longrightarrow> keeps g0 L' (Let x f)"
  by simp

lemma keeps_bind_any:
  "(\<And>x. m = Some x \<Longrightarrow> keeps g0 L (f x)) \<Longrightarrow> keeps g0 L (Option.bind m f)"
  by (cases m) (simp_all add: keeps_None)

text \<open>The end of a piece, which forgets the open labels.\<close>

definition ends :: "Generator \<Rightarrow> Generator option \<Rightarrow> bool" where
  "ends g0 m \<longleftrightarrow> keeps g0 {} m"

lemma ends_keeps: "keeps g0 L m \<Longrightarrow> ends g0 m"
  by (auto simp: ends_def intro: keeps_mono)

lemma ends_Some: "reach g0 L g \<Longrightarrow> ends g0 (Some g)"
  by (simp add: ends_def keeps_done)

lemma ends_bind:
  fixes m :: "Generator option"
  shows "keeps g0 L m \<Longrightarrow> (\<And>g. reach g0 L g \<Longrightarrow> ends g0 (f g)) \<Longrightarrow> ends g0 (Option.bind m f)"
  by (auto simp: ends_def intro: keeps_bind)

lemma ends_let_gen: "reach g0 L x \<Longrightarrow> (\<And>g. reach g0 L g \<Longrightarrow> ends g0 (f g)) \<Longrightarrow> ends g0 (Let x f)"
  by simp

lemma ends_other:
  "ends g0 None" "ends g0 (f x) \<Longrightarrow> ends g0 (Let x f)"
  "(b \<Longrightarrow> ends g0 m) \<Longrightarrow> (\<not> b \<Longrightarrow> ends g0 m') \<Longrightarrow> ends g0 (if b then m else m')"
  "(y = None \<Longrightarrow> ends g0 m) \<Longrightarrow> (\<And>z. y = Some z \<Longrightarrow> ends g0 (h z)) \<Longrightarrow> ends g0 (case_option m h y)"
  "(\<And>a b. p = (a, b) \<Longrightarrow> ends g0 (k a b)) \<Longrightarrow> ends g0 (case_prod k p)"
  "(\<And>z. y = Some z \<Longrightarrow> ends g0 (h z)) \<Longrightarrow> ends g0 (Option.bind y h)"
  by (simp_all add: ends_def keeps_None split: option.split prod.split) (cases y; simp add: keeps_None)+

lemma always_ends: "(\<And>g0 g. reach g0 {} g \<Longrightarrow> ends g0 (f g)) \<Longrightarrow> always f"
  by (simp add: always_def ends_def reach_refl)

section \<open>Single steps\<close>

lemmas reach_emit [reaches] =
  reach_trans [OF _ emit0_step] reach_trans [OF _ emit1_step] reach_trans [OF _ emit2_step]
  reach_trans [OF _ emit2b_step] reach_trans [OF _ emit3_step] reach_trans [OF _ emit3b_step]
  reach_trans [OF _ emitFuncCallIns_step] reach_trans [OF _ emitGlobIns_step]
  reach_trans [OF _ emitTypeIns_step] reach_trans [OF _ emitBranchIns_step]
  reach_trans [OF _ emitForkIns_step] reach_trans [OF _ emitJumpIns_step]

lemma keeps_method_call [keeping]: "reach g0 L g \<Longrightarrow> keeps g0 L (emitMethodCallIns n h g)"
  by (rule keepsI) (erule reach_trans, erule emitMethodCallIns_step)

lemma reach_quiet: "reach g0 L g \<Longrightarrow> quiet g g' \<Longrightarrow> reach g0 L g'"
  by (erule reach_trans) (rule quiet_step)

lemma reach_on_builder:
  "reach g0 L g \<Longrightarrow> (\<And>b. emitter (f b) = emitter b \<and> catchBuilders (f b) = catchBuilders b) \<Longrightarrow>
   reach g0 L (on_builder f g)"
  by (erule reach_quiet) (rule quiet_on_builder)

lemma reach_sourcePos [reaches]: "reach g0 L g \<Longrightarrow> reach g0 L (emitSourcePos pos g)"
  unfolding emitSourcePos_def Let_def by (intro reach_if) (simp_all add: reach_on_builder)

lemma reach_pushLoop [reaches]: "reach g0 L g \<Longrightarrow> reach g0 L (pushLoopLabels b c v g)"
  unfolding pushLoopLabels_def by (erule reach_on_builder) simp

lemma reach_popLoop [reaches]: "reach g0 L g \<Longrightarrow> reach g0 L (popLoopLabels g)"
  unfolding popLoopLabels_def by (erule reach_on_builder) simp

lemma quiet_same:
  assumes "builders g' = builders g" "next_label g \<le> next_label g'" "func_objects g' = func_objects g"
  shows "quiet g g'"
  using assms by (simp add: quiet_def curBuilder_def functions_ok_def)

lemma reach_same:
  assumes "reach g0 L g" "builders g' = builders g" "next_label g' = next_label g" "func_objects g' = func_objects g"
  shows "reach g0 L g'"
  by (rule reach_quiet [OF assms(1)]) (simp add: quiet_same assms)

lemma keeps_makeLabel [keeping]:
  assumes "reach g0 L g" "\<And>l g'. reach g0 (insert l L) g' \<Longrightarrow> l \<notin> L \<Longrightarrow> keeps g0 L' (f l g')"
  shows "keeps g0 L' (let (l, g') = makeLabel g in f l g')"
proof -
  let ?l = "next_label g" and ?g = "g\<lparr>next_label := next_label g + 1\<rparr>"
  have r: "reach g0 L ?g" by (rule reach_quiet [OF assms(1) quiet_same]) simp_all
  have new: "\<forall>c\<in>set (new_entries g0 g). catch_begin c < ?l \<and> catch_end c < ?l"
    using gen_step_entries [of g0 g0 g] assms(1) by (auto simp: reach_def gen_step_refl labels_in_def new_entries_def)
  then have "open_label g0 ?g ?l"
    using reach_label [OF assms(1)] by (auto simp: open_label_def new_entries_def curBuilder_def)
  moreover have "?l \<notin> L" using assms(1) by (auto simp: reach_def open_label_def)
  ultimately show ?thesis using assms(2) [of ?l ?g] r by (simp add: makeLabel_def reach_def)
qed

lemma ends_makeLabel:
  assumes "reach g0 L g" "\<And>l g'. reach g0 (insert l L) g' \<Longrightarrow> l \<notin> L \<Longrightarrow> ends g0 (f l g')"
  shows "ends g0 (let (l, g') = makeLabel g in f l g')"
  using assms unfolding ends_def by (rule keeps_makeLabel)

lemma on_builder_simps:
  "curBuilder (on_builder f g) = f (curBuilder g)" "tl (builders (on_builder f g)) = tl (builders g)"
  "builders (on_builder f g) \<noteq> []" "next_label (on_builder f g) = next_label g"
  "func_objects (on_builder f g) = func_objects g"
  by (simp_all add: on_builder_def curBuilder_def)

text \<open>
  Steps that change the labels or add exception entries: what they must do to the labels, and to
  the entries made so far.
\<close>

lemma reach_change:
  assumes r: "reach g0 L g" and "builders g' \<noteq> []" "tl (builders g') = tl (builders g)"
    and l: "next_label g' = next_label g" "func_objects g' = func_objects g"
    and ok: "builder_ok (curBuilder g) \<Longrightarrow> builder_ok (curBuilder g')"
    and code: "code_of (curBuilder g') = code_of (curBuilder g)"
    and idx: "\<And>k. k < next_label g0 \<Longrightarrow> index_of (curBuilder g') k = index_of (curBuilder g) k"
    and new: "catchBuilders (curBuilder g') = catchBuilders (curBuilder g) @ es"
    and entries: "entries_ok (index_of (curBuilder g)) (currentCodeOffset g0) (currentCodeOffset g) (new_entries g0 g) \<Longrightarrow>
      entries_ok (index_of (curBuilder g')) (currentCodeOffset g0) (currentCodeOffset g) (new_entries g0 g @ es)"
    and es: "labels_in (next_label g0) (next_label g) es"
    and L': "L' \<subseteq> L" "\<And>c. c \<in> set es \<Longrightarrow> catch_begin c \<notin> L' \<and> catch_end c \<notin> L'"
  shows "reach g0 L' g'"
proof -
  let ?start = "curBuilder g0" and ?cur = "curBuilder g" and ?next = "curBuilder g'"
  from r have g0: "builders g0 \<noteq> []" and st: "gen_step g0 g" by (simp_all add: reach_def)
  then have gs: "builders g \<noteq> []" "tl (builders g) = tl (builders g0)" "functions_ok g0 \<longrightarrow> functions_ok g"
    and bs: "builder_step (next_label g0) (next_label g) ?start ?cur"
    by (simp_all add: gen_step_def)
  from bs obtain fs where 1: "builder_ok ?start \<longrightarrow> builder_ok ?cur"
    "next_label g0 \<le> next_label g" "\<exists>chunk. code_of ?cur = code_of ?start @ chunk"
    "\<forall>l<next_label g0. index_of ?cur l = index_of ?start l" "catchBuilders ?cur = catchBuilders ?start @ fs"
    "entries_ok (index_of ?cur) (length (code_of ?start)) (length (code_of ?cur)) fs"
    "labels_in (next_label g0) (next_label g) fs"
    unfolding builder_step_def by blast
  have fs: "new_entries g0 g = fs" "new_entries g0 g' = fs @ es" using 1(5) new by (simp_all add: new_entries_def)
  have "gen_step g0 g'"
    unfolding gen_step_def builder_step_def
  proof (intro impI conjI exI [of _ "fs @ es"])
    show "entries_ok (index_of ?next) (length (code_of ?start)) (length (code_of ?next)) (fs @ es)"
      using entries 1(6) by (simp add: currentCodeOffset_def fs code)
    show "labels_in (next_label g0) (next_label g') (fs @ es)" using es 1(7) l by (auto simp: labels_in_def)
  qed (use gs 1 assms(2,3) l ok code idx new in \<open>simp_all add: functions_ok_def\<close>)
  moreover have "open_label g0 g' k" if "k \<in> L'" for k
    using r L' that l by (auto simp: reach_def open_label_def fs)
  ultimately show ?thesis using g0 by (simp add: reach_def)
qed

lemma reach_entries:
  assumes "reach g0 L g"
  shows "entries_ok (index_of (curBuilder g)) (currentCodeOffset g0) (currentCodeOffset g) (new_entries g0 g)"
    "labels_in (next_label g0) (next_label g) (new_entries g0 g)"
    "currentCodeOffset g0 \<le> currentCodeOffset g"
  using assms by (auto simp: reach_def gen_step_def builder_step_def new_entries_def currentCodeOffset_def)

lemma mark_simps:
  "curBuilder (mark l g) = (curBuilder g)\<lparr>emitter := markLabel (currentCodeOffset g) l (emitter (curBuilder g))\<rparr>"
  "tl (builders (mark l g)) = tl (builders g)" "builders (mark l g) \<noteq> []"
  "next_label (mark l g) = next_label g" "func_objects (mark l g) = func_objects g"
  "currentCodeOffset (mark l g) = currentCodeOffset g"
  "new_entries g0 (mark l g) = new_entries g0 g"
  "index_of (curBuilder (mark l g)) = (index_of (curBuilder g))(l := currentCodeOffset g)"
  by (simp_all add: mark_def on_emitter_def on_builder_simps markLabel_def currentCodeOffset_def new_entries_def)

lemma targets_touch: "targets (markLabel i l e) = targets e"
proof -
  have "concat (map snd (touch_label l m)) = concat (map snd m)" for m
    by (induction l m rule: touch_label.induct) auto
  then show ?thesis by (simp add: targets_def markLabel_def)
qed

lemma mark_ok:
  assumes "builder_ok (curBuilder g)"
  shows "builder_ok (curBuilder (mark l g))"
  using assms
  by (auto simp: builder_ok_def emitter_ok_def mark_simps targets_touch)
    (auto simp: markLabel_def bounds_def currentCodeOffset_def)

lemma reach_mark [reaches]:
  assumes "reach g0 L g" "l \<in> L"
  shows "reach g0 L (mark l g)"
proof (rule reach_change [OF assms(1), where es = "[]"])
  have o: "open_label g0 g l" using assms by (simp add: reach_def)
  then show "\<And>k. k < next_label g0 \<Longrightarrow> index_of (curBuilder (mark l g)) k = index_of (curBuilder g) k"
    by (simp add: mark_simps markLabel_def open_label_def)
  have "entries_ok (index_of (curBuilder (mark l g))) (currentCodeOffset g0) (currentCodeOffset g) (new_entries g0 g)"
    by (rule entries_ok_cong [OF _ _ _ reach_entries(1) [OF assms(1)]]) (use o in \<open>auto simp: mark_simps markLabel_def open_label_def\<close>)
  then show "entries_ok (index_of (curBuilder (mark l g))) (currentCodeOffset g0) (currentCodeOffset g) (new_entries g0 g @ [])"
    by simp
qed (simp_all add: mark_simps markLabel_def mark_ok [simplified mark_simps markLabel_def] labels_in_def)

text \<open>Constants, strings and methods.\<close>

lemma keeps_ldc [keeping]: "reach g0 L g \<Longrightarrow> keeps g0 L (emitLdcIns v g)"
  unfolding emitLdcIns_def emitConstant_def Let_def
  by (auto simp: plain_op_def op_sizes intro!: keeping reaches reach_on_builder split: Option.bind_splits)

lemma keeps_emit_string [keeping]: "reach g0 L g \<Longrightarrow> keeps g0 L (emit_string s g)"
  unfolding emit_string_def new_string_def Let_def case_prod_beta
  by (rule keeps_ldc) (auto elim!: reach_same split: prod.split)

lemma reach_new_object: "reach g0 L g \<Longrightarrow> new_object x g = (v, g') \<Longrightarrow> reach g0 L g'"
  by (auto simp: new_object_def elim!: reach_same)

lemma reach_find_method: "reach g0 L g \<Longrightarrow> find_method env t name g = Some (h, g') \<Longrightarrow> reach g0 L g'"
  by (auto simp: find_method_def elim!: reach_same)

lemma keeps_named_call [keeping]: "reach g0 L g \<Longrightarrow> keeps g0 L (emit_named_call env n t name g)"
  unfolding emit_named_call_def
  by (auto intro!: keeps_bind_any keeping dest: reach_find_method)

lemma reach_handle: "reach g0 L g \<Longrightarrow> reach g0 L (g\<lparr>handle_STR := h\<rparr>)"
  by (erule reach_same) simp_all

lemma keeps_toString [keeping]: "reach g0 L g \<Longrightarrow> keeps g0 L (emitToString env g)"
  unfolding emitToString_def
proof (rule keeps_bind [where L = L], goal_cases)
  case 1
  then show ?case
    by (auto intro!: keeps_Some keeps_bind_any reach_handle intro: reach_find_method split: option.split)
next
  case (2 g1)
  then show ?case by (intro keeps_bind_any keeps_method_call)
qed

end
