(* ===== verification/Code_Keeps.thy ===== *)
theory Code_Keeps
  imports Code_Shape
begin

text \<open>Every visitor keeps the shape of the code, when the visits of the parts do.\<close>

definition all_always :: "visitor \<Rightarrow> bool" where
  "all_always V \<longleftrightarrow> (\<forall>x. always (V x))"

named_theorems visiting

lemma keeps_V [visiting]: "all_always V \<Longrightarrow> reach g0 L g \<Longrightarrow> keeps g0 L (V x g)"
  by (simp add: all_always_def always_keeps)

lemma keeps_visit_opt [visiting]: "all_always V \<Longrightarrow> reach g0 L g \<Longrightarrow> keeps g0 L (visit_opt V x g)"
  by (cases x) (simp_all add: visit_opt_def keeps_None keeps_V)

lemma keeps_visit_all [visiting]: "all_always V \<Longrightarrow> reach g0 L g \<Longrightarrow> keeps g0 L (visit_all V xs g)"
  by (rule keeps_loop) (auto intro: keeps_V)

lemma keeps_generateBlock [visiting]:
  assumes "reach g0 L g" "\<And>g. reach g0 L g \<Longrightarrow> keeps g0 L (f g)"
  shows "keeps g0 L (generateBlock offs num r f g)"
proof -
  have "keeps g0 L (f (on_builder (\<lambda>b. b\<lparr>localVars := localVars b @ [(offs mod 65536, num mod 65536)]\<rparr>) g))"
    by (rule assms(2), rule reach_on_builder [OF assms(1)]) simp
  then show ?thesis
    unfolding generateBlock_def Let_def
    by (auto simp: plain_op_def op_sizes intro!: keeps_bind keeps_Some reaches reach_on_builder)
qed

lemma always_block: "always f \<Longrightarrow> reach g0 L g \<Longrightarrow> keeps g0 L (generateBlock offs num r f g)"
  by (rule keeps_generateBlock) (simp_all add: always_keeps)

lemmas steps = ends_Some ends_bind ends_makeLabel ends_let_gen ends_other
  keeps_Some keeps_bind keeps_makeLabel keeps_let_gen keeps_let keeps_None
  keeps_if keeps_case_option keeps_case_prod keeps_ldc keeps_emit_string keeps_toString
  keeps_method_call keeps_named_call keeps_V keeps_visit_opt keeps_visit_all keeps_generateBlock
  keeps_loop keeps_bind_any

lemmas op_rules = plain_op_def op_sizes

text \<open>Strings and arguments.\<close>

lemma keeps_concat_default: "all_always V \<Longrightarrow> reach g0 L g \<Longrightarrow> keeps g0 L (concat_default V n fragment g)"
  unfolding concat_default_def by (rule steps reaches | assumption | simp add: op_rules)+

lemma keeps_generateConcat [visiting]:
  "all_always V \<Longrightarrow> reach g0 L g \<Longrightarrow> keeps g0 L (generateConcat V n fragment g)"
proof (induction n arbitrary: fragment g rule: measure_induct_rule [of size])
  case (less n)
  note IH = less.IH [OF _ less.prems(1)]
  note d = keeps_concat_default [OF less.prems]
  note u = generateConcat.simps [of V n fragment g]
  show ?case
  proof (cases "members n")
    case (StringExprNode ns)
    have "keeps g0 L (generateConcat V x f g1)" if "x \<in> set ns" "reach g0 L g1" for x f g1
      using concat_sizes(1) [OF StringExprNode that(1)] that(2) by (rule IH)
    then show ?thesis unfolding u StringExprNode NodeMembers.case
      using less.prems by (auto simp: op_rules intro!: keeps_loop keeps_Some reaches)
  next
    case (BinaryOpNode l op r opt)
    have b: "keeps g0 L (generateConcat V x f g1)" if "l = Some x \<or> r = Some x" "reach g0 L g1" for x f g1
      using concat_sizes(2) [of n x] concat_sizes(3) [of n _ _ x] BinaryOpNode that by (intro IH) auto
    then show ?thesis unfolding u BinaryOpNode NodeMembers.case using d less.prems
      by (auto intro!: keeps_bind_any b dest!: keepsD [OF b, rotated 2] split: option.split)
  next
    case (EmbedNode e h)
    show ?thesis unfolding u EmbedNode NodeMembers.case
      using d less.prems IH [OF concat_sizes(4) [OF EmbedNode]] by simp
  qed (use d less.prems in \<open>simp_all add: u keeps_Some\<close>)
qed

lemma reach_concat_segments:
  "all_always V \<Longrightarrow> reach g0 L g \<Longrightarrow> concat_segments V segs base i g = Some (j, g') \<Longrightarrow> reach g0 L g'"
proof (induction V segs base i g rule: concat_segments.induct)
  case (1 V segs base i g)
  show ?case
    using 1(4) keepsD [OF keeps_generateConcat [OF 1(2,3)]] 1(3)
    by (subst (asm) concat_segments.simps) (auto split: if_splits Option.bind_splits intro: 1(1) [OF _ _ 1(2)])
qed

lemma reach_concatCmdArgSegment:
  assumes "all_always V" "reach g0 L g" "concatCmdArgSegment V segs base g = Some (j, g')"
  shows "reach g0 L g'"
proof -
  from assms(3) obtain g1 where "concat_segments V segs base base g = Some (j, g1)"
    and g': "g' = (let g = (if isTildeAt segs base then emit0byteIns OP_EXPAND_TILDE g1 else g1)
      in if base > 0 then emit0byteIns OP_CONCAT g else g)"
    by (auto simp: concatCmdArgSegment_def Let_def split: Option.bind_splits)
  from reach_concat_segments [OF assms(1,2) this(1)] show ?thesis
    unfolding g' Let_def by (auto simp: op_rules intro!: reaches)
qed

lemma keeps_generateCmdArg [visiting]:
  "all_always V \<Longrightarrow> reach g0 L g \<Longrightarrow> keeps g0 L (generateCmdArg V segs g)"
proof -
  have "all_always V \<Longrightarrow> reach g0 L g \<Longrightarrow> keeps g0 L (cmd_arg_from V segs i g)" for i g
  proof (induction V segs i g rule: cmd_arg_from.induct)
    case (1 V segs i g)
    show ?case
      using 1(3) reach_concatCmdArgSegment [OF 1(2,3), of segs i]
      by (subst cmd_arg_from.simps) (auto intro!: keeps_bind_any keeps_Some 1(1) [OF _ _ refl 1(2)])
  qed
  then show "all_always V \<Longrightarrow> reach g0 L g \<Longrightarrow> ?thesis" by (simp add: generateCmdArg_def)
qed

lemma keeps_generate_cmd_arg: "all_always V \<Longrightarrow> reach g0 L g \<Longrightarrow> keeps g0 L (generate_cmd_arg V n g)"
  unfolding generate_cmd_arg_def by (intro keeps_bind_any keeps_generateCmdArg)

lemma reach_load_store [reaches]:
  "reach g0 L g \<Longrightarrow> reach g0 L (emit_load a i g)" "reach g0 L g \<Longrightarrow> reach g0 L (emit_store b i g)"
  by (simp_all add: emit_load_def emit_store_def reaches op_rules)

lemma reach_case_ao [reaches]:
  "reach g0 L x \<Longrightarrow> reach g0 L y \<Longrightarrow> reach g0 L (case ao of AO_NOP \<Rightarrow> x | AO_DUP_RECV \<Rightarrow> y)"
  by (cases ao) simp_all

text \<open>Expressions.\<close>

lemma always_leaves:
  "always (visitNumberNode v)" "always (visitStringNode s)" "always (visitRegexNode s)"
  "always (visitVarNode pos i a)" "always (visitWildCardNode m)"
proof -
  show "always (visitNumberNode v)"
    by (rule always_ends, cases v)
      (auto simp: visitNumberNode_def op_rules intro!: ends_Some ends_other reaches intro: ends_keeps keeps_ldc)
  show "always (visitStringNode s)"
    by (rule always_ends)
      (auto simp: visitStringNode_def op_rules intro!: ends_Some reaches intro: ends_keeps keeps_emit_string split: list.split)
  show "always (visitRegexNode s)"
    by (rule always_ends)
      (auto simp: visitRegexNode_def split: prod.split intro: ends_keeps keeps_ldc reach_new_object)
  show "always (visitVarNode pos i a)"
    by (rule always_ends, unfold visitVarNode_def) (rule steps reaches | assumption | simp add: op_rules)+
  show "always (visitWildCardNode m)"
    by (rule always_ends, unfold visitWildCardNode_def) (rule steps reaches | assumption | simp add: op_rules)+
qed

lemma keeps_print: "reach g0 L g \<Longrightarrow> keeps g0 L (emit_print env t g)"
proof -
  have "always (\<lambda>g. (let elementType = e g; (thenLabel, g) = makeLabel g; (mergeLabel, g) = makeLabel g
      in do {
        g \<leftarrow> emit_string s (emitBranchIns OP_TRY_UNWRAP thenLabel g);
        let g = mark thenLabel (emitJumpIns mergeLabel g);
        g \<leftarrow> (if is_type (type_at g elementType) T_String then Some g else emitToString env g);
        Some (mark mergeLabel g)
      }))" for e s
    by (rule always_ends, rule ends_other(2)) (rule steps reaches ends_keeps | assumption | simp add: op_rules)+
  note a = always_keeps [OF this]
  have "always (emit_print env t)"
    unfolding emit_print_def
    by (rule always_ends, rule ends_other(2)) (rule a steps reaches ends_keeps | assumption | simp add: op_rules)+
  then show "reach g0 L g \<Longrightarrow> ?thesis" by (rule always_keeps)
qed

lemma always_expressions:
  assumes "all_always V"
  shows "always (visitArrayNode V t ns)" "always (visitMapNode V t ks vs)" "always (visitTupleNode V t ns)"
    "always (visitAccessNode V n i ao)" "always (visitUnaryOpNode V op x y)" 
    "always (visitApplyNode V t pos is_method n m h)" "always (visitNewNode env V t pos m h)"
    "always (visitEmbedNode V pos m h)" "always (generate_condition V is_and x y)"
proof -
  note a = keeps_V [OF assms] keeps_visit_opt [OF assms] keeps_visit_all [OF assms]
  show "always (visitArrayNode V t ns)"
    by (rule always_ends, unfold visitArrayNode_def) (rule steps a reaches ends_keeps | assumption | simp add: op_rules)+
  show "always (visitMapNode V t ks vs)"
    by (rule always_ends, unfold visitMapNode_def) (rule steps a reaches ends_keeps | assumption | simp add: op_rules)+
  show "always (visitTupleNode V t ns)"
    by (rule always_ends, unfold visitTupleNode_def) (rule steps a reaches ends_keeps | assumption | simp add: op_rules)+
  show "always (visitAccessNode V n i ao)"
    by (rule always_ends, unfold visitAccessNode_def) (rule steps a reaches ends_keeps | assumption | simp add: op_rules)+
  show "always (visitUnaryOpNode V op x y)"
    by (rule always_ends, unfold visitUnaryOpNode_def) (rule steps a reaches ends_keeps | assumption | simp add: op_rules)+
  show "always (visitApplyNode V t pos is_method n m h)"
    by (rule always_ends, unfold visitApplyNode_def) (rule steps a reaches ends_keeps | assumption | simp add: op_rules)+
  show "always (visitNewNode env V t pos m h)"
    by (rule always_ends, unfold visitNewNode_def) (rule steps a reaches ends_keeps | assumption | simp add: op_rules)+
  show "always (visitEmbedNode V pos m h)"
    by (rule always_ends, unfold visitEmbedNode_def) (rule steps a reaches ends_keeps | assumption | simp add: op_rules)+
  show "always (generate_condition V is_and x y)"
    by (rule always_ends, unfold generate_condition_def) (rule steps a reaches ends_keeps | assumption | simp add: op_rules)+
qed

lemma always_typeOp:
  assumes "all_always V"
  shows "always (visitTypeOpNode env V t pos n tk target)"
proof (rule always_ends)
  fix g0 g assume "reach g0 {} g"
  then have V: "keeps g0 {} (V n g)" by (rule keeps_V [OF assms])
  show "ends g0 (visitTypeOpNode env V t pos n tk target g)"
    unfolding visitTypeOpNode_def
    by (rule ends_bind [OF V], cases tk)
      (simp_all, (rule steps reaches ends_keeps keeps_print | assumption | simp add: op_rules)+)
qed

lemma always_binaryOp:
  assumes "all_always V"
  shows "always (visitBinaryOpNode env V n l op r opt)"
proof (rule always_ends)
  note a = keeps_V [OF assms] keeps_visit_opt [OF assms] keeps_generateConcat [OF assms]
    always_keeps [OF always_expressions(9) [OF assms]]
  fix g0 g assume "reach g0 {} g"
  then show "ends g0 (visitBinaryOpNode env V n l op r opt g)"
    unfolding visitBinaryOpNode_def
    by - (rule steps a reaches ends_keeps | assumption | simp add: op_rules)+
qed

lemma keeps_glob_segments:
  assumes "all_always V"
  shows "reach g0 L g \<Longrightarrow> keeps g0 L (glob_segments V segs i f g)"
  by (induction segs arbitrary: i f g)
    (auto intro!: keeps_Some keeps_bind_any dest: keepsD [OF keeps_V [OF assms]] keepsD [OF keeps_generateConcat [OF assms]])

lemma always_commands:
  assumes "all_always V"
  shows "always (visitCmdNode V pos n ns rc nf)" "always (visitCmdArgNode V gs ns)"
    "always (visitArgArrayNode V t ns)" "always (visitRedirNode V rop n)" "always (visitWithNode V n ns base)"
proof -
  note a = keeps_V [OF assms] keeps_visit_all [OF assms] keeps_glob_segments [OF assms]
    keeps_generateCmdArg [OF assms] keeps_generate_cmd_arg [OF assms]
  show "always (visitCmdNode V pos n ns rc nf)"
    by (rule always_ends, unfold visitCmdNode_def) (rule steps a reaches ends_keeps | assumption | simp add: op_rules)+
  show "always (visitCmdArgNode V gs ns)"
    by (rule always_ends, unfold visitCmdArgNode_def) (rule steps a reaches ends_keeps | assumption | simp add: op_rules)+
  show "always (visitArgArrayNode V t ns)"
    by (rule always_ends, unfold visitArgArrayNode_def) (rule steps a reaches ends_keeps | assumption | simp add: op_rules)+
  show "always (visitRedirNode V rop n)"
    by (rule always_ends, unfold visitRedirNode_def) (rule steps a reaches ends_keeps | assumption | simp add: op_rules)+
  show "always (visitWithNode V n ns base)"
    by (rule always_ends, unfold visitWithNode_def) (rule steps a reaches ends_keeps | assumption | simp add: op_rules)+
qed

lemma always_statements:
  assumes "all_always V"
  shows "always (visitAssertNode V n m)" "always (visitBlockNode V ns base vars)"
    "always (visitLoopNode V t n c l m dw)" "always (visitIfNode V n m l)"
    "always (visitCatchNode V i n)"
    "always (visitElementSelfAssignNode V n m l n' m')"
proof -
  note a = keeps_V [OF assms] keeps_visit_all [OF assms]
  show "always (visitAssertNode V n m)"
    by (rule always_ends, unfold visitAssertNode_def) (rule steps a reaches ends_keeps | assumption | simp add: op_rules)+
  show "always (visitBlockNode V ns base vars)"
    by (rule always_ends, unfold visitBlockNode_def) (rule steps a reaches ends_keeps | assumption | simp add: op_rules)+
  show "always (visitLoopNode V t n c l m dw)"
    unfolding visitLoopNode_def
    by (rule always_ends, (rule ends_other)+, rule ends_keeps, rule always_block, rule always_ends)
      (rule steps a reaches ends_keeps | assumption | simp add: op_rules)+
  show "always (visitIfNode V n m l)"
    by (rule always_ends, unfold visitIfNode_def) (rule steps a reaches ends_keeps | assumption | simp add: op_rules)+
  show "always (visitCatchNode V i n)"
    by (rule always_ends, unfold visitCatchNode_def) (rule steps a reaches ends_keeps | assumption | simp add: op_rules)+
  show "always (visitElementSelfAssignNode V n m l n' m')"
    by (rule always_ends, unfold visitElementSelfAssignNode_def) (rule steps a reaches ends_keeps | assumption | simp add: op_rules)+
qed

text \<open>Case expressions.\<close>

lemma reach_newObject: "reach g0 L g \<Longrightarrow> newObject n g = Some (v, g') \<Longrightarrow> reach g0 L g'"
  by (auto simp: newObject_def new_string_def Let_def split: NodeMembers.splits NumberValue.splits prod.splits
      elim!: reach_same)

lemma reach_heap: "reach g0 L g \<Longrightarrow> reach g0 L (g\<lparr>gen_heap := h\<rparr>)"
  by (erule reach_same) simp_all

lemma keeps_case_label: "reach g0 L g \<Longrightarrow> keeps g0 L (set_case_label env a offs e g)"
  unfolding set_case_label_def
  by (auto intro!: keeps_bind_any keeps_Some keeps_None intro!: reach_heap intro: reach_newObject
      split: option.split DSObject.split)

lemma keeps_caseLabels: "reach g0 L g \<Longrightarrow> keeps g0 L (generateCaseLabels env a arm g)"
  unfolding generateCaseLabels_def by (intro keeps_bind_any keeps_loop keeps_case_label)

lemma reach_case_option [reaches]:
  "reach g0 L x \<Longrightarrow> (\<And>z. reach g0 L (f z)) \<Longrightarrow> reach g0 L (case_option x f y)"
  by (cases y) simp_all

lemma ends_new_object:
  "reach g0 L g \<Longrightarrow> (\<And>v g'. reach g0 L g' \<Longrightarrow> ends g0 (f v g')) \<Longrightarrow> ends g0 (let (v, g') = new_object x g in f v g')"
  by (simp add: new_object_def reach_heap)

lemma always_mapCase:
  assumes "all_always V"
  shows "always (generateMapCase env V n arms)"
proof (rule always_ends)
  note a = keeps_V [OF assms] keeps_caseLabels
  fix g0 g assume "reach g0 {} g"
  then show "ends g0 (generateMapCase env V n arms g)"
    unfolding generateMapCase_def
    by - (rule ends_new_object steps a reaches ends_keeps | assumption | simp add: op_rules)+
qed

lemma ends_find_method:
  assumes "reach g0 L g" "\<And>h g'. reach g0 L g' \<Longrightarrow> ends g0 (f h g')"
  shows "ends g0 (do { (h, g') \<leftarrow> find_method env t name g; f h g' })"
  using assms by (auto intro!: ends_other(6) dest: reach_find_method)

lemma keeps_case_list: "keeps g0 L m \<Longrightarrow> (\<And>y ys. keeps g0 L (f y ys)) \<Longrightarrow> keeps g0 L (case_list m f xs)"
  by (cases xs) simp_all

lemma always_arm_pattern:
  assumes "all_always V"
  shows "reach g0 L g \<Longrightarrow> keeps g0 L (arm_pattern V eqh mh l i p g)"
proof -
  note a = keeps_V [OF assms]
  have "always (\<lambda>g. let (e, g) = makeLabel g
      in Some (mark e (emitJumpIns l (emit0byteIns OP_PUSH_TRUE (emitBranchIns OP_BRANCH e g)))))"
    by (rule always_ends) (rule steps reaches | assumption | simp add: op_rules)+
  from always_keeps [OF this]
  have j [unfolded Let_def]: "reach g0 L g \<Longrightarrow> reach g0 L (let (e, g) = makeLabel g
      in mark e (emitJumpIns l (emit0byteIns OP_PUSH_TRUE (emitBranchIns OP_BRANCH e g))))" for g
    by (simp add: keeps_def split: prod.splits)
  show "reach g0 L g \<Longrightarrow> ?thesis"
    unfolding arm_pattern_def Let_def
    by (rule j steps a reaches | assumption | simp add: op_rules)+
qed

lemma keeps_ifElseArm:
  assumes "all_always V"
  shows "reach g0 L g \<Longrightarrow> keeps g0 L (generateIfElseArm V arm eqh mh l g)"
proof -
  note a = keeps_V [OF assms] always_arm_pattern [OF assms]
  have "always (generateIfElseArm V arm eqh mh l)"
    unfolding generateIfElseArm_def
    by (rule always_ends) (rule steps a reaches ends_keeps | assumption | simp add: op_rules)+
  then show "reach g0 L g \<Longrightarrow> ?thesis" by (rule always_keeps)
qed

lemma always_ifElseCase:
  assumes "all_always V"
  shows "always (generateIfElseCase env V n arms)"
proof (rule always_ends)
  note a = keeps_V [OF assms] keeps_ifElseArm [OF assms] ends_find_method keeps_case_list
  fix g0 g assume "reach g0 {} g"
  then show "ends g0 (generateIfElseCase env V n arms g)"
    unfolding generateIfElseCase_def
    by - (rule ends_find_method steps a reaches ends_keeps | assumption | simp add: op_rules)+
qed

text \<open>Jumps.\<close>

lemma reach_enterMultiFinally [reaches]: "reach g0 L g \<Longrightarrow> reach g0 L (enterMultiFinally g)"
proof -
  have "reach g0 L g \<Longrightarrow> reach g0 L (fold enterFinally ls g)" for ls g
    by (induction ls arbitrary: g) (simp_all add: enterFinally_def reaches)
  then show "reach g0 L g \<Longrightarrow> ?thesis" by (simp add: enterMultiFinally_def)
qed

lemma always_jump:
  assumes "all_always V"
  shows "always (visitJumpNode V jk n lv)"
proof (rule always_ends)
  note a = keeps_V [OF assms]
  have bc: "ends g0 (generateBreakContinue V jk n lv g)" if "reach g0 {} g" for g0 g
    using that unfolding generateBreakContinue_def
    by - (rule steps a reaches ends_keeps | assumption | simp add: op_rules)+
  fix g0 g assume g: "reach g0 {} g"
  show "ends g0 (visitJumpNode V jk n lv g)"
    unfolding visitJumpNode_def
    using bc [OF g] g
    by (cases jk) (simp_all, (rule steps a reaches ends_keeps | assumption | simp add: op_rules)+)
qed

text \<open>Variables and assignments.\<close>

lemma always_assignments:
  assumes "all_always V"
  shows "always (visitVarDeclNode V pos s vk gl i c)" "always (assign_field V n m sa)"
    "always (visitAssignNode V n m sa fa)" "always (prefix_assign V x)" "always (visitPrefixAssignNode V ns c base)"
proof -
  note a = keeps_V [OF assms] keeps_visit_opt [OF assms] keeps_visit_all [OF assms]
    keeps_generateCmdArg [OF assms] keeps_generate_cmd_arg [OF assms]
  show "always (visitVarDeclNode V pos s vk gl i c)"
    by (rule always_ends, unfold visitVarDeclNode_def, cases vk)
      (simp_all only: VarDeclKind.case, (rule steps a reaches ends_keeps | assumption | simp add: op_rules)+)
  show f: "always (assign_field V n m sa)"
    by (rule always_ends, unfold assign_field_def, cases "members n")
      (simp_all only: NodeMembers.case ends_other(1), (rule steps a reaches ends_keeps | assumption | simp add: op_rules)+)
  show "always (visitAssignNode V n m sa fa)"
    by (rule always_ends, unfold visitAssignNode_def, cases "members n")
      (simp_all only: NodeMembers.case, (rule steps always_keeps [OF f] a reaches ends_keeps | assumption | simp add: op_rules)+)
  show p: "always (prefix_assign V x)" for x
  proof (rule always_ends)
    fix g0 g assume g: "reach g0 {} g"
    have "ends g0 (case members l of
          VarNode name i _ \<Rightarrow> do {
            g \<leftarrow> emit_string name g;
            g \<leftarrow> generate_cmd_arg V r (emit1byteIns OP_STORE_LOCAL i (emit0byteIns OP_DUP g));
            Some (emit0byteIns OP_ADD2ENV_CTX g)
          }
        | _ \<Rightarrow> None)" for l r
      using g by (cases "members l")
        (simp_all only: NodeMembers.case ends_other(1), (rule steps a reaches | assumption | simp add: op_rules)+)
    then show "ends g0 (prefix_assign V x g)"
      unfolding prefix_assign_def by (auto intro!: ends_other(6))
  qed
  show "always (visitPrefixAssignNode V ns c base)"
    by (rule always_ends, unfold visitPrefixAssignNode_def)
      (rule always_keeps [OF p] steps a reaches ends_keeps | assumption | simp add: op_rules)+
qed

end
