(* ===== verification/Code_Regions.thy ===== *)
theory Code_Regions
  imports Code_Keeps
begin

text \<open>
  The regions of code for which there are exception entries. A region that has begun has its first
  label marked; one that has been left has both; the entries that exist lie inside it or apart
  from it.
\<close>

section \<open>Regions\<close>

definition begun :: "Generator \<Rightarrow> label set \<Rightarrow> label \<Rightarrow> Generator \<Rightarrow> bool" where
  "begun g0 L b g \<longleftrightarrow>
     reach g0 L g \<and> next_label g0 \<le> b \<and> b < next_label g
     \<and> currentCodeOffset g0 \<le> index_of (curBuilder g) b \<and> index_of (curBuilder g) b \<le> currentCodeOffset g
     \<and> (\<forall>c\<in>set (new_entries g0 g). index_of (curBuilder g) (catch_end c) \<le> index_of (curBuilder g) b
          \<or> index_of (curBuilder g) b \<le> index_of (curBuilder g) (catch_begin c))"

definition region_left :: "Generator \<Rightarrow> label set \<Rightarrow> label \<Rightarrow> label \<Rightarrow> Generator \<Rightarrow> bool" where
  "region_left g0 L b e g \<longleftrightarrow>
     begun g0 L b g \<and> next_label g0 \<le> e \<and> e < next_label g
     \<and> index_of (curBuilder g) b \<le> index_of (curBuilder g) e
     \<and> index_of (curBuilder g) e \<le> currentCodeOffset g
     \<and> (\<forall>c\<in>set (new_entries g0 g).
          (index_of (curBuilder g) b \<le> index_of (curBuilder g) (catch_begin c)
             \<and> index_of (curBuilder g) (catch_end c) \<le> index_of (curBuilder g) e)
          \<or> index_of (curBuilder g) (catch_end c) \<le> index_of (curBuilder g) b
          \<or> index_of (curBuilder g) e \<le> index_of (curBuilder g) (catch_begin c))"

lemma begun_reach: "begun g0 L b g \<Longrightarrow> reach g0 L g"
  by (simp add: begun_def)

lemma left_begun: "region_left g0 L b e g \<Longrightarrow> begun g0 L b g"
  by (simp add: region_left_def)

lemma left_reach: "region_left g0 L b e g \<Longrightarrow> reach g0 L g"
  by (rule begun_reach [OF left_begun])

text \<open>What is known of the entries made since the start.\<close>

lemma reach_entry:
  assumes "reach g0 L g" "c \<in> set (new_entries g0 g)"
  shows "index_of (curBuilder g) (catch_begin c) \<le> index_of (curBuilder g) (catch_end c)"
    "index_of (curBuilder g) (catch_end c) \<le> currentCodeOffset g"
    "next_label g0 \<le> catch_begin c" "catch_begin c < next_label g"
    "next_label g0 \<le> catch_end c" "catch_end c < next_label g"
  using reach_entries [OF assms(1)] assms(2) by (auto simp: entries_ok_def labels_in_def)

lemma begun_mark: "reach g0 L g \<Longrightarrow> b \<in> L \<Longrightarrow> begun g0 L b (mark b g)"
  using reach_mark [of g0 L g b] reach_entry [of g0 L "mark b g"] reach_entries(3) [of g0 L g]
  by (auto simp: begun_def mark_simps markLabel_def reach_def open_label_def)

lemma step_facts:
  assumes "gen_step g g'" "builders g \<noteq> []"
  shows "\<And>l. l < next_label g \<Longrightarrow> index_of (curBuilder g') l = index_of (curBuilder g) l"
    "currentCodeOffset g \<le> currentCodeOffset g'" "next_label g \<le> next_label g'"
  using assms by (auto simp: gen_step_def builder_step_def currentCodeOffset_def)

lemma new_entries_step:
  assumes "reach g0 L g" "gen_step g g'" "c \<in> set (new_entries g0 g')"
  shows "c \<in> set (new_entries g0 g) \<or> currentCodeOffset g \<le> index_of (curBuilder g') (catch_begin c)"
  using gen_step_entries [of g0 g g'] assms by (auto simp: reach_def entries_ok_def)

lemma begun_step:
  assumes "begun g0 L b g" "gen_step g g'"
  shows "begun g0 L b g'"
proof -
  have r: "reach g0 L g" using assms(1) by (rule begun_reach)
  note f = step_facts [OF assms(2) reach_ne [OF r]]
  have b: "index_of (curBuilder g') b = index_of (curBuilder g) b" using assms(1) by (simp add: begun_def f)
  have "index_of (curBuilder g') (catch_end c) \<le> index_of (curBuilder g') b
      \<or> index_of (curBuilder g') b \<le> index_of (curBuilder g') (catch_begin c)"
    if "c \<in> set (new_entries g0 g')" for c
    using new_entries_step [OF r assms(2) that]
  proof
    assume c: "c \<in> set (new_entries g0 g)"
    from reach_entry [OF r c] show ?thesis using assms(1) c by (simp add: begun_def f)
  next
    assume "currentCodeOffset g \<le> index_of (curBuilder g') (catch_begin c)"
    then show ?thesis using assms(1) by (simp add: begun_def b)
  qed
  then show ?thesis
    using assms(1) reach_trans [OF r assms(2)] f by (auto simp: begun_def b intro: order_trans)
qed

lemma left_step:
  assumes "region_left g0 L b e g" "gen_step g g'"
  shows "region_left g0 L b e g'"
proof -
  have r: "reach g0 L g" using assms(1) by (rule left_reach)
  note f = step_facts [OF assms(2) reach_ne [OF r]]
  have b: "index_of (curBuilder g') b = index_of (curBuilder g) b"
    "index_of (curBuilder g') e = index_of (curBuilder g) e"
    using assms(1) by (simp_all add: region_left_def begun_def f)
  have "(index_of (curBuilder g) b \<le> index_of (curBuilder g') (catch_begin c)
             \<and> index_of (curBuilder g') (catch_end c) \<le> index_of (curBuilder g) e)
          \<or> index_of (curBuilder g') (catch_end c) \<le> index_of (curBuilder g) b
          \<or> index_of (curBuilder g) e \<le> index_of (curBuilder g') (catch_begin c)"
    if "c \<in> set (new_entries g0 g')" for c
    using new_entries_step [OF r assms(2) that]
  proof
    assume c: "c \<in> set (new_entries g0 g)"
    from reach_entry [OF r c] show ?thesis using assms(1) c by (simp add: region_left_def f)
  next
    assume "currentCodeOffset g \<le> index_of (curBuilder g') (catch_begin c)"
    then show ?thesis using assms(1) by (simp add: region_left_def)
  qed
  moreover have "begun g0 L b g'" using assms left_begun begun_step by blast
  ultimately show ?thesis
    using assms(1) f unfolding region_left_def b by fastforce
qed

text \<open>Marking another label.\<close>

lemma mark_index:
  "l \<noteq> k \<Longrightarrow> index_of (curBuilder (mark l g)) k = index_of (curBuilder g) k"
  by (simp add: mark_simps markLabel_def)

lemma open_entry:
  "reach g0 L g \<Longrightarrow> l \<in> L \<Longrightarrow> c \<in> set (new_entries g0 g) \<Longrightarrow> l \<noteq> catch_begin c \<and> l \<noteq> catch_end c"
  by (auto simp: reach_def open_label_def)

lemma begun_mark_other:
  assumes "begun g0 L b g" "l \<in> L" "l \<noteq> b"
  shows "begun g0 L b (mark l g)"
  using assms reach_mark [OF begun_reach [OF assms(1)] assms(2)] open_entry [OF begun_reach [OF assms(1)] assms(2)]
  by (auto simp: begun_def mark_index mark_simps(4,6,7))

lemma left_mark_other:
  assumes "region_left g0 L b e g" "l \<in> L" "l \<noteq> b" "l \<noteq> e"
  shows "region_left g0 L b e (mark l g)"
  using assms begun_mark_other [OF left_begun [OF assms(1)] assms(2,3)]
    open_entry [OF left_reach [OF assms(1)] assms(2)]
  by (auto simp: region_left_def mark_index mark_simps(4,6,7))

lemma left_mark:
  assumes "begun g0 L b g" "e \<in> L" "e \<noteq> b"
  shows "region_left g0 L b e (mark e g)"
proof -
  have r: "reach g0 L g" using assms(1) by (rule begun_reach)
  have e: "index_of (curBuilder (mark e g)) e = currentCodeOffset g" by (simp add: mark_simps markLabel_def)
  have "next_label g0 \<le> e" "e < next_label g" using r assms(2) by (auto simp: reach_def open_label_def)
  then show ?thesis
    using assms(1) begun_mark_other [OF assms] reach_entry [OF r] open_entry [OF r assms(2)] assms(3)
    unfolding region_left_def e mark_simps(4,6,7)
    by (auto simp: mark_index begun_def)
qed

text \<open>Adding the entry of the region.\<close>

lemma left_catch:
  assumes "region_left g0 L b e g"
  shows "region_left g0 (L - {b, e}) b e (catchException b e t offs num g)"
    (is "region_left _ _ _ _ ?g'")
proof -
  have r: "reach g0 L g" using assms by (rule left_reach)
  let ?c = "\<lparr>catch_begin = b, catch_end = e, caught_type = t, catch_address = currentCodeOffset g,
             catch_offset = offs mod 65536, catch_size = num mod 65536\<rparr>"
  have g': "curBuilder ?g' = (curBuilder g)\<lparr>catchBuilders := catchBuilders (curBuilder g) @ [?c]\<rparr>"
    "next_label ?g' = next_label g" "currentCodeOffset ?g' = currentCodeOffset g"
    by (simp_all add: catchException_def Let_def on_builder_simps currentCodeOffset_def)
  have "reach g0 (L - {b, e}) ?g'"
  proof (rule reach_change [OF r, where es = "[?c]"])
    show "builder_ok (curBuilder g) \<Longrightarrow> builder_ok (curBuilder ?g')"
      by (auto simp: builder_ok_def emitter_ok_def g' currentCodeOffset_def bounds_def)
    show "labels_in (next_label g0) (next_label g) [?c]"
      using assms by (simp add: labels_in_def region_left_def begun_def)
    show "entries_ok (index_of (curBuilder g)) (currentCodeOffset g0) (currentCodeOffset g) (new_entries g0 g) \<Longrightarrow>
      entries_ok (index_of (curBuilder ?g')) (currentCodeOffset g0) (currentCodeOffset g) (new_entries g0 g @ [?c])"
      using assms by (auto simp: g' entries_ok_def sorted_wrt_append inner_or_apart_def region_left_def begun_def)
  qed (auto simp: g' catchException_def Let_def on_builder_simps)
  moreover have "new_entries g0 ?g' = new_entries g0 g @ [?c]"
    using r by (auto simp: new_entries_def g' reach_def gen_step_def builder_step_def)
  ultimately show ?thesis
    using assms by (auto simp: region_left_def begun_def g')
qed

end
