(* ===== verification/Code_Wellformed.thy ===== *)
theory Code_Wellformed
  imports Code_Regions
begin

text \<open>
  The code that is generated for a tree is well-formed: the pieces with exception entries, the code
  of functions, and the tree as a whole.
\<close>

section \<open>Pipelines\<close>

lemma pipeline_labels_emitted:
  assumes "emitted ins us g g1"
    "loop_on (\<lambda>i l g. Some (on_emitter (writeLabel (offs + 2 + i * 2) l offs Off16) (append_bytes 2 0 g))) j ls g1 = Some g2"
  shows "emitted (ins @ concat (map (\<lambda>_. num_bytes 2 0) ls))
     (us @ map (\<lambda>k. slot (offs + 2 + 2 * k) offs Off16) [j..<j + length ls]) g g2"
  using assms
proof (induction ls arbitrary: ins us j g1)
  case (Cons l ls)
  have "emitted (ins @ num_bytes 2 0) (us @ []) g (append_bytes 2 0 g1)"
    by (rule emitted_trans [OF Cons.prems(1) emitted_bytes])
  then have "emitted (ins @ num_bytes 2 0) (us @ [slot (offs + 2 + j * 2) offs Off16]) g
      (on_emitter (writeLabel (offs + 2 + j * 2) l offs Off16) (append_bytes 2 0 g1))"
    by (intro emitted_label) simp
  from Cons.IH [OF this, of "Suc j"] Cons.prems(2) have
    "emitted ((ins @ num_bytes 2 0) @ concat (map (\<lambda>_. num_bytes 2 0) ls))
     ((us @ [slot (offs + 2 + j * 2) offs Off16]) @ map (\<lambda>k. slot (offs + 2 + 2 * k) offs Off16) [Suc j..<Suc j + length ls]) g g2"
    by (simp del: upt_Suc)
  moreover have "[j..<j + length (l # ls)] = j # [Suc j..<Suc j + length ls]" by (simp add: upt_conv_Cons del: upt_Suc)
  ultimately show ?case by (simp add: mult.commute del: upt_Suc)
qed simp

lemma pipeline_bytes_length: "length (concat (map (\<lambda>_. num_bytes 2 0) ls)) = 2 * length ls"
  by (induction ls) simp_all

lemma small_byte: "n \<le> 250 \<Longrightarrow> unat (of_nat n :: byte) = n"
  by (simp add: unat_of_nat)

lemma emitPipelineIns_step:
  assumes "emitPipelineIns ls lp k g = Some g'" "lp \<longrightarrow> k = FK_NONE"
  shows "gen_step g g'"
proof (cases "k = FK_NONE")
  case True
  let ?op = "if lp then OP_PIPELINE_LP else OP_PIPELINE" and ?zs = "concat (map (\<lambda>_. num_bytes 2 0) ls) :: bytes"
  from assms(1) have n: "length ls \<le> 250" by (simp add: emitPipelineIns_def split: if_splits)
  have "loop_on (\<lambda>i l g. Some (on_emitter (writeLabel (currentCodeOffset g0 + 2 + i * 2) l (currentCodeOffset g0) Off16)
      (append_bytes 2 0 g))) 0 ls (append_bytes 1 (length ls) (emitIns ?op g0)) = Some g'" if "g0 = g" for g0
    using assms(1) n True that by (cases lp) (simp_all add: emitPipelineIns_def Let_def)
  from pipeline_labels_emitted [OF emitted_operand [OF emitted_ins] this [OF refl]]
  have e: "emitted (code_byte ?op # of_nat (length ls) # ?zs)
     (map (\<lambda>k. slot (currentCodeOffset g + 2 + 2 * k) (currentCodeOffset g) Off16) [0..<length ls]) g g'"
    by (simp add: num_bytes_1 [unfolded One_nat_def])
  show ?thesis
    by (rule emitted_step [OF e])
      (use n in \<open>auto simp: ins_length_def decode_code_byte op_sizes pipeline_bytes_length small_byte
         ins_slots_op op_slots_def\<close>)
next
  case False
  let ?zs = "concat (map (\<lambda>_. num_bytes 2 0) ls) :: bytes"
  from assms(1) have n: "length ls \<le> 250" by (simp add: emitPipelineIns_def split: if_splits)
  from False assms(2) have lp: "\<not> lp" by simp
  have "loop_on (\<lambda>i l g. Some (on_emitter (writeLabel (Suc (currentCodeOffset g0) + 2 + i * 2) l (Suc (currentCodeOffset g0)) Off16)
      (append_bytes 2 0 g))) 0 ls (append_bytes 1 (length ls) (append_bytes 1 (fork_byte k) (emitIns OP_PIPELINE_ASYNC g0))) = Some g'"
    if "g0 = g" for g0
    using assms(1) n False lp that by (simp add: emitPipelineIns_def Let_def)
  from pipeline_labels_emitted [OF emitted_operand [OF emitted_operand [OF emitted_ins]] this [OF refl]]
  have e: "emitted (code_byte OP_PIPELINE_ASYNC # of_nat (fork_byte k) # of_nat (length ls) # ?zs)
     (map (\<lambda>k. slot (Suc (currentCodeOffset g) + 2 + 2 * k) (Suc (currentCodeOffset g)) Off16) [0..<length ls]) g g'"
    by (simp add: num_bytes_1 [unfolded One_nat_def])
  show ?thesis
    by (rule emitted_step [OF e])
      (use n in \<open>auto simp: ins_length_def decode_code_byte op_sizes pipeline_bytes_length small_byte
         ins_slots_op op_slots_def numeral_3_eq_3\<close>)
qed

lemma keeps_pipelineIns:
  "reach g0 L g \<Longrightarrow> (lp \<longrightarrow> k = FK_NONE) \<Longrightarrow> keeps g0 L (emitPipelineIns ls lp k g)"
  by (rule keepsI) (erule reach_trans, erule emitPipelineIns_step)

lemma reach_makeLabels:
  assumes "reach g0 L g" "makeLabels n g = (ls, g')"
  shows "reach g0 (set ls \<union> L) g'" "distinct ls" "length ls = n" "set ls \<inter> L = {}"
proof -
  let ?g = "g\<lparr>next_label := next_label g + n\<rparr>"
  have ls: "ls = [next_label g..<next_label g + n]" "g' = ?g" using assms(2) by (simp_all add: makeLabels_def)
  have r: "reach g0 L ?g" by (rule reach_quiet [OF assms(1) quiet_same]) simp_all
  have "\<forall>c\<in>set (new_entries g0 ?g). catch_begin c < next_label g \<and> catch_end c < next_label g"
    using reach_entry(4,6) [OF assms(1)] by (simp add: new_entries_def curBuilder_def)
  then have "\<forall>l\<in>set ls. open_label g0 ?g l"
    using reach_label [OF assms(1)] by (auto simp: open_label_def ls)
  with r show "reach g0 (set ls \<union> L) g'" by (auto simp: reach_def ls)
  show "distinct ls" "length ls = n" by (simp_all add: ls)
  show "set ls \<inter> L = {}" using assms(1) by (auto simp: reach_def open_label_def ls)
qed

text \<open>A loop that marks labels inside a region.\<close>

lemma begun_loop:
  assumes "begun g0 L b g" "loop_on f j xs g = Some g'"
    "\<And>i x g g'. i < j + length xs \<Longrightarrow> j \<le> i \<Longrightarrow> x \<in> set xs \<Longrightarrow> begun g0 L b g \<Longrightarrow> f i x g = Some g' \<Longrightarrow> begun g0 L b g'"
  shows "begun g0 L b g'"
  using assms
proof (induction xs arbitrary: j g)
  case (Cons x xs)
  from Cons.prems(2) obtain g1 where 1: "f j x g = Some g1" "loop_on f (Suc j) xs g1 = Some g'"
    by (auto split: Option.bind_splits)
  have "begun g0 L b g1" by (rule Cons.prems(3) [OF _ _ _ Cons.prems(1) 1(1)]) simp_all
  show ?case by (rule Cons.IH [OF \<open>begun g0 L b g1\<close> 1(2)]) (rule Cons.prems(3), auto)
qed simp

lemma makeLabel_reach:
  assumes "reach g0 L g" "makeLabel g = (l, g')"
  shows "reach g0 (insert l L) g'" "l \<notin> L"
proof -
  have "keeps g0 (insert l L) (let (l', g') = makeLabel g in if l' = l then Some g' else None)"
    by (rule keeps_makeLabel [OF assms(1)]) (auto intro: keeps_Some keeps_None)
  with assms(2) show "reach g0 (insert l L) g'" by (simp add: keeps_def)
  show "l \<notin> L" using assms by (auto simp: makeLabel_def reach_def open_label_def)
qed

lemma generateBlock_step:
  assumes "generateBlock offs num r f g = Some g'" "builders g \<noteq> []" "\<And>g. builders g \<noteq> [] \<Longrightarrow> keeps g {} (f g)"
  shows "gen_step g g'"
  using always_step [of "generateBlock offs num r f" g g'] assms always_block [of f] reach_refl
  by (auto simp: always_def)

lemma emit0_plain_step: "plain_op op \<Longrightarrow> getByteSize op = 0 \<Longrightarrow> gen_step g (emit0byteIns op g)"
  by (rule emit0_step)

lemma always_pipeline:
  assumes V: "all_always V" and k: "inF \<or> k = FK_NONE"
  shows "always (generatePipeline V pos ns base inF k)"
proof (unfold always_def, intro allI impI keepsI)
  fix g g' assume ne: "builders g \<noteq> []" and ok: "generatePipeline V pos ns base inF k g = Some g'"
  let ?lp = "isLastPipe ns inF" let ?n = "length ns - (if ?lp then 1 else 0)"
  obtain ls g1 where 1: "makeLabels (length ns + (if ?lp then 0 else 1)) g = (ls, g1)" by force
  from ok 1 obtain g2 where 2: "emitPipelineIns ls ?lp k (emitSourcePos pos g1) = Some g2"
    by (auto simp: generatePipeline_def Let_def split: Option.bind_splits if_splits)
  obtain b g3 where 3: "makeLabel g2 = (b, g3)" by force
  obtain e g4 where 4: "makeLabel g3 = (e, g4)" by force
  from ok 1 2 3 4 obtain g5 where
    5: "loop_on (\<lambda>i n g. V n (mark (ls ! i) (if i > 0 then emit0byteIns OP_HALT g else g))) 0 (take ?n ns) (mark b g4) = Some g5"
    and fin: "(let g = mark (last ls) (emit0byteIns OP_HALT (catchException b e (type_id T_ProcGuard) 0 0 (mark e g5))) in
      if ?lp then generateBlock base 1 True (\<lambda>g. V (last ns) (emit1byteIns OP_STORE_LOCAL base g)) g else Some g) = Some g'"
    and nonempty: "ns \<noteq> []"
    by (auto simp: generatePipeline_def Let_def split: Option.bind_splits if_splits)
  note r1 = reach_makeLabels [OF reach_refl [OF ne] 1]
  have lsne: "ls \<noteq> []" using r1(3) nonempty by (cases ?lp; cases ns) auto
  have "reach g (set ls) g2"
    using keepsD [OF keeps_pipelineIns 2] reach_sourcePos r1(1) k by (auto simp: isLastPipe_def)
  from makeLabel_reach [OF this 3] have 6: "reach g (insert b (set ls)) g3" "b \<notin> set ls" .
  from makeLabel_reach [OF 6(1) 4] have 7: "reach g (insert e (insert b (set ls))) g4" "e \<noteq> b" "e \<notin> set ls" by auto
  let ?L = "insert e (insert b (set ls))"
  have bm: "begun g ?L b (mark b g4)" by (rule begun_mark [OF 7(1)]) simp
  have 8: "begun g ?L b g5"
  proof (rule begun_loop [OF bm 5])
    fix i x h h'
    assume *: "begun g ?L b h" "V x (mark (ls ! i) (if i > 0 then emit0byteIns OP_HALT h else h)) = Some h'"
      "i < 0 + length (take ?n ns)"
    have i: "ls ! i \<in> set ls" using *(3) r1(3) by (intro nth_mem) (auto split: if_splits)
    have "begun g ?L b (if i > 0 then emit0byteIns OP_HALT h else h)"
      using *(1) begun_step [OF *(1) emit0_step] by (auto simp: op_rules)
    then have m: "begun g ?L b (mark (ls ! i) (if i > 0 then emit0byteIns OP_HALT h else h))"
      using i 6(2) by (intro begun_mark_other) auto
    have "gen_step (mark (ls ! i) (if i > 0 then emit0byteIns OP_HALT h else h)) h'"
      using V *(2) by (intro always_step [of "V x"]) (auto simp: all_always_def mark_simps)
    then show "begun g ?L b h'" by (rule begun_step [OF m])
  qed
  have "region_left g ?L b e (mark e g5)" by (rule left_mark [OF 8]) (use 7 in auto)
  from left_reach [OF left_catch [OF this]]
  have "reach g (?L - {b, e}) (catchException b e (type_id T_ProcGuard) 0 0 (mark e g5))" .
  then have "reach g (?L - {b, e}) (mark (last ls) (emit0byteIns OP_HALT (catchException b e (type_id T_ProcGuard) 0 0 (mark e g5))))"
    using lsne 6(2) 7(3) by (intro reaches) (auto simp: op_rules intro: last_in_set)
  from reach_mono [OF this] have
    9: "reach g {} (mark (last ls) (emit0byteIns OP_HALT (catchException b e (type_id T_ProcGuard) 0 0 (mark e g5))))" (is "reach g {} ?g")
    by simp
  note blk = keeps_generateBlock [OF 9, of "\<lambda>g. V (last ns) (emit1byteIns OP_STORE_LOCAL base g)" base 1 True]
  have "keeps g {} (generateBlock base 1 True (\<lambda>g. V (last ns) (emit1byteIns OP_STORE_LOCAL base g)) ?g)"
    by (rule blk, rule keeps_V [OF V]) (auto simp: op_rules intro!: reaches)
  with fin 9 show "reach g {} g'" by (auto simp: Let_def keeps_def split: if_splits)
qed

section \<open>Forks and exception handlers\<close>

lemma begun_V:
  assumes "all_always V" "begun g0 L b g" "V x g = Some g'"
  shows "begun g0 L b g'"
  using assms by (intro begun_step [OF assms(2)] always_step [of "V x"])
    (auto simp: all_always_def begun_def dest: reach_ne)

lemma left_V:
  assumes "all_always V" "region_left g0 L b e g" "V x g = Some g'"
  shows "region_left g0 L b e g'"
  using assms by (intro left_step [OF assms(2)] always_step [of "V x"])
    (auto simp: all_always_def dest!: left_reach dest: reach_ne)

lemma always_fork:
  assumes V: "all_always V"
  shows "always (visitForkNode V k x)"
proof (unfold always_def, intro allI impI keepsI)
  fix g g' assume ne: "builders g \<noteq> []" and ok: "visitForkNode V k x g = Some g'"
  show "reach g {} g'"
  proof (cases "\<exists>ns base inF. members x = PipelineNode ns base inF \<and> \<not> (k = FK_ARRAY \<or> k = FK_STR)")
    case True
    then obtain ns base inF where "members x = PipelineNode ns base inF" "\<not> (k = FK_ARRAY \<or> k = FK_STR)" by blast
    with ok have "generatePipeline V (getPos x) ns base inF k g = Some g'" "inF"
      by (auto simp: visitForkNode_def split: if_splits)
    with always_step [OF always_pipeline [OF V] ne this(1)] ne show ?thesis by (simp add: reach_def)
  next
    case False
    obtain b g1 where 1: "makeLabel g = (b, g1)" by force
    obtain e g2 where 2: "makeLabel g1 = (e, g2)" by force
    obtain m g3 where 3: "makeLabel g2 = (m, g3)" by force
    from ok False 1 2 3 obtain g4 where 4: "V x (emitForkIns k m (mark b g3)) = Some g4"
      and g': "g' = mark m (emit0byteIns OP_HALT (catchException b e (type_id T_ProcGuard) 0 0 (mark e g4)))"
      by (auto simp: visitForkNode_def Let_def split: NodeMembers.splits bool.splits Option.bind_splits)
    note r1 = makeLabel_reach [OF reach_refl [OF ne] 1]
    note r2 = makeLabel_reach [OF r1(1) 2]
    note r3 = makeLabel_reach [OF r2(1) 3]
    have "begun g {m, e, b} b (mark b g3)" using r3(1) by (rule begun_mark) simp
    from begun_V [OF V begun_step [OF this emitForkIns_step] 4] have "begun g {m, e, b} b g4" .
    from left_mark [OF this] r2(2) have "region_left g {m, e, b} b e (mark e g4)" by simp
    from left_reach [OF left_catch [OF this]]
    have "reach g ({m, e, b} - {b, e}) (catchException b e (type_id T_ProcGuard) 0 0 (mark e g4))" .
    then have "reach g ({m, e, b} - {b, e}) g'"
      unfolding g' using r3(2) by (intro reaches) (auto simp: op_rules)
    then show ?thesis by (rule reach_mono) simp
  qed
qed

lemma reach_leave_try [reaches]: "reach g0 L g \<Longrightarrow> reach g0 L (leave_try hf fl ml t g)"
  by (simp add: leave_try_def enterFinally_def reaches)

lemma leave_try_step: "gen_step g (leave_try hf fl ml t g)"
  by (auto simp: leave_try_def enterFinally_def intro: emitJumpIns_step emitBranchIns_step gen_step_refl
      gen_step_trans [OF emitBranchIns_step emitJumpIns_step])

lemma left_mono: "region_left g0 L b e g \<Longrightarrow> L' \<subseteq> L \<Longrightarrow> region_left g0 L' b e g"
  by (auto simp: region_left_def begun_def intro: reach_mono)

lemma left_catches:
  assumes V: "all_always V" and "region_left g0 L b e g" "b \<notin> L" "e \<notin> L"
    "loop_on (\<lambda>_. generate_catch V b e base num hf fl ml) j cs g = Some g'"
  shows "region_left g0 L b e g'"
  using assms(2,5)
proof (induction cs arbitrary: j g)
  case (Cons c cs)
  from Cons.prems(2) obtain t n g1 where "findInnerCatch c = Some (t, n)"
    and 1: "V c (catchException b e t base num g) = Some g1"
    and 2: "loop_on (\<lambda>_. generate_catch V b e base num hf fl ml) (Suc j) cs (leave_try hf fl ml (getType c) g1) = Some g'"
    by (auto simp: generate_catch_def [of V b e base num hf fl ml c] split: Option.bind_splits)
  have "L - {b, e} = L" using assms(3,4) by auto
  with left_catch [OF Cons.prems(1)] have "region_left g0 L b e (catchException b e t base num g)" by metis
  from left_step [OF left_V [OF V this 1] leave_try_step] 2 show ?case by (rule Cons.IH)
qed simp

lemma always_try:
  assumes V: "all_always V"
  shows "always (visitTryNode V x cs fin)"
proof (unfold always_def, intro allI impI keepsI)
  fix g g' assume ne: "builders g \<noteq> []" and ok: "visitTryNode V x cs fin g = Some g'"
  obtain f g1 where 1: "makeLabel g = (f, g1)" by force
  let ?hf = "fin \<noteq> None"
  let ?g1 = "if ?hf then on_builder (\<lambda>b. b\<lparr>finallyLabels := f # finallyLabels b\<rparr>) g1 else g1"
  obtain b g2 where 2: "makeLabel ?g1 = (b, g2)" by force
  obtain e g3 where 3: "makeLabel g2 = (e, g3)" by force
  obtain m g4 where 4: "makeLabel g3 = (m, g4)" by force
  let ?leave = "leave_try ?hf f m"
  from ok 1 2 3 4 obtain g5 base num maxVars g6 g7 where
    5: "V x (mark b g4) = Some g5" "findInnerBlock x = Some (base, num, maxVars)"
    and 6: "loop_on (\<lambda>_. generate_catch V b e base num ?hf f m) 0 cs (?leave (getType x) (mark e g5)) = Some g6"
    and 7: "(case fin of
               None \<Rightarrow> Some g6
             | Some y \<Rightarrow>
                 (let g = mark f (on_builder (\<lambda>b. b\<lparr>finallyLabels := tl (finallyLabels b)\<rparr>) g6);
                      g = catchException b f (type_id T_Root) base (Max (set (maxVars # map max_var_size cs))) g
                  in do { g \<leftarrow> V y g; Some (emit0byteIns OP_EXIT_FINALLY g) })) = Some g7"
    and g': "g' = mark m g7"
    by (auto simp: visitTryNode_def Let_def split: Option.bind_splits prod.splits)
  note r1 = makeLabel_reach [OF reach_refl [OF ne] 1]
  have "reach g {f} ?g1" using r1(1) by (auto intro: reach_on_builder)
  note r2 = makeLabel_reach [OF this 2]
  note r3 = makeLabel_reach [OF r2(1) 3]
  note r4 = makeLabel_reach [OF r3(1) 4]
  let ?L = "{m, e, b, f}"
  have "begun g ?L b (mark b g4)" using r4(1) by (rule begun_mark) simp
  from begun_V [OF V this 5(1)] have "begun g ?L b g5" .
  from left_mark [OF this] r3(2) have "region_left g ?L b e (mark e g5)" by simp
  from left_mono [OF left_step [OF this leave_try_step]]
  have "region_left g {m, f} b e (?leave (getType x) (mark e g5))" by simp
  from left_catches [OF V this _ _ 6] r2(2) r3(2) r4(2) have left: "region_left g {m, f} b e g6" by auto
  have "reach g {m} g7"
  proof (cases fin)
    case None
    with 7 left_reach [OF left] show ?thesis by (auto intro: reach_mono)
  next
    case (Some y)
    let ?g = "on_builder (\<lambda>b. b\<lparr>finallyLabels := tl (finallyLabels b)\<rparr>) g6"
    let ?c = "catchException b f (type_id T_Root) base (Max (set (maxVars # map max_var_size cs))) (mark f ?g)"
    from 7 Some obtain g8 where 8: "V y ?c = Some g8" "g7 = emit0byteIns OP_EXIT_FINALLY g8"
      by (auto simp: Let_def split: Option.bind_splits)
    have "begun g {m, f} b ?g"
      by (rule begun_step [OF left_begun [OF left]], rule quiet_step, rule quiet_on_builder) simp
    then have "region_left g {m, f} b f (mark f ?g)" by (rule left_mark) (use r2(2) in auto)
    from left_V [OF V left_catch [OF this] 8(1)] have "reach g ({m, f} - {b, f}) g8" by (rule left_reach)
    then have "reach g ({m, f} - {b, f}) g7" unfolding 8(2) by (intro reaches) (auto simp: op_rules)
    then show ?thesis by (rule reach_mono) (use r4(2) in auto)
  qed
  then have "reach g {m} g'" unfolding g' by (rule reach_mark) simp
  then show "reach g {} g'" by (rule reach_mono) simp
qed

section \<open>Code objects\<close>

definition permutes :: "cg_env \<Rightarrow> bool" where
  "permutes env \<longleftrightarrow> (\<forall>m. mset (cg_label_order env m) = mset m)"

text \<open>What a builder has become since it was new.\<close>

definition grown :: "nat \<Rightarrow> CodeBuilder \<Rightarrow> bool" where
  "grown k b \<longleftrightarrow> (\<exists>lx kd n cs. builder_step 0 k (new_builder lx kd n cs) b)"

lemma new_builder_ok: "builder_ok (new_builder lx kd n cs)"
  by (simp add: builder_ok_def emitter_ok_def new_builder_def new_emitter_def targets_def all_slots_def bounds_def)

lemma builder_step_mono: "builder_step k k' b b' \<Longrightarrow> k' \<le> k'' \<Longrightarrow> builder_step k k'' b b'"
  unfolding builder_step_def labels_in_def by (elim conjE exE, intro conjI exI) (auto intro: less_le_trans)

lemma grown_new: "grown k (new_builder lx kd n cs)"
  unfolding grown_def using builder_step_mono [OF builder_step_refl] by blast

lemma grown_step: "grown k b \<Longrightarrow> builder_step k k' b b' \<Longrightarrow> grown k' b'"
  unfolding grown_def using builder_step_trans by blast

lemma grown_mono: "grown k b \<Longrightarrow> k \<le> k' \<Longrightarrow> grown k' b"
  unfolding grown_def using builder_step_mono by blast

lemma finalize_length: "finalize order e = Inr e' \<Longrightarrow> length (codeBuffer e') = length (codeBuffer e)"
proof -
  have w: "length (writeN n c i v) = length c" for n c i v
    by (induction n c i v rule: writeN.induct) simp_all
  have "write_target l u c = Inr c' \<Longrightarrow> length c' = length c" for l u c c'
    by (auto simp: write_target_def Let_def w split: if_splits OffsetLen.splits)
  then have "write_targets us c = Inr c' \<Longrightarrow> length c' = length c" for us c c'
    by (induction us c rule: write_targets.induct) (auto split: sum.splits)
  then show "finalize order e = Inr e' \<Longrightarrow> ?thesis" by (auto simp: finalize_def split: sum.splits)
qed

lemma build_ok:
  assumes "permutes env" "grown k b" "build env name b = Inr c"
  shows "dscode_ok c"
proof -
  from assms(2) obtain lx kd n cs where st: "builder_step 0 k (new_builder lx kd n cs) b" by (auto simp: grown_def)
  have new: "code_of (new_builder lx kd n cs) = []" "catchBuilders (new_builder lx kd n cs) = []"
    by (simp_all add: new_builder_def new_emitter_def)
  from st have ok: "builder_ok b" and es: "entries_ok (index_of b) 0 (length (code_of b)) (catchBuilders b)"
    by (auto simp: builder_step_def new_builder_ok new)
  from assms(3) obtain e where e: "finalize (cg_label_order env) (emitter b) = Inr e"
    and c: "code_bytes c = codeBuffer e" "exceptionEntries c = map (toEntry (emitter b)) (catchBuilders b)"
    by (auto simp: build_def split: sum.splits finalize_error.splits)
  let ?as = "concat (map (\<lambda>e. [begin_pc e, end_pc e, dest e]) (exceptionEntries c))"
  have "code_ok (codeBuffer e) ?as" if "length (codeBuffer e) < 2 ^ 32"
  proof (rule finalized_ok [OF _ _ e])
    show "emitter_ok (emitter b)" using ok by (simp add: builder_ok_def)
    show "mset (cg_label_order env (labelMap (emitter b))) = mset (labelMap (emitter b))"
      using assms(1) by (simp add: permutes_def)
    show "length (code_of b) < 2 ^ 32" using that finalize_length [OF e] by simp
    fix xs assume xs: "split_code 0 (code_of b) = Some xs"
    have "\<forall>l. index_of b l \<in> bounds xs (code_of b)" "catch_address ` set (catchBuilders b) \<subseteq> bounds xs (code_of b)"
      using ok xs by (auto simp: builder_ok_def emitter_ok_def)
    then show "set ?as \<subseteq> bounds xs (code_of b)"
      unfolding c(2) by (auto simp: toEntry_def)
  qed
  moreover have "\<forall>x\<in>set (exceptionEntries c). begin_pc x \<le> end_pc x"
    using es by (auto simp: c(2) toEntry_def entries_ok_def)
  moreover have "sorted_wrt entry_order (exceptionEntries c)"
    using es unfolding c(2) entries_ok_def sorted_wrt_map
    by (auto simp: toEntry_def entry_order_def inner_or_apart_def elim!: sorted_wrt_mono_rel [rotated])
  ultimately show ?thesis by (simp add: dscode_ok_def c(1))
qed

lemma finalizeCodeBuilder_ok:
  assumes "permutes env" "grown k (curBuilder g)" "finalizeCodeBuilder env name g = Some (c, g')"
  shows "(\<forall>x. c = Some x \<longrightarrow> dscode_ok x) \<and> g' = g\<lparr>builders := tl (builders g)\<rparr>"
  using assms build_ok [OF assms(1,2), of name]
  by (auto simp: finalizeCodeBuilder_def Let_def split: sum.splits finalize_error.splits)

lemma new_function_ok:
  assumes "\<forall>x. c = Some x \<longrightarrow> dscode_ok x" "new_function t kd name c g = (v, g')"
  shows "functions_ok g \<longrightarrow> functions_ok g'" "builders g' = builders g" "next_label g' = next_label g"
  using assms by (auto simp: new_function_def new_object_def functions_ok_def split: option.splits)

lemma always_function:
  assumes V: "all_always V" and "permutes env"
  shows "always (generate_function env V kd tok er name block n i t)"
proof (unfold always_def, intro allI impI keepsI)
  fix g g' assume ne: "builders g \<noteq> []" and ok: "generate_function env V kd tok er name block n i t g = Some g'"
  from ok obtain g1 c g2 where 1: "V block (initCodeBuilder kd n g) = Some g1"
    and 2: "finalizeCodeBuilder env name g1 = Some (c, g2)"
    by (auto simp: generate_function_def split: Option.bind_splits)
  let ?g3 = "if c = None then reportError tok er g2 else g2"
  obtain v g4 where 3: "new_function t kd name c ?g3 = (v, g4)" by force
  with ok 1 2 obtain g5 where 4: "emitLdcIns v g4 = Some g5" "g' = emit2byteIns OP_STORE_GLOBAL i g5"
    by (auto simp: generate_function_def Let_def split: Option.bind_splits prod.splits)
  let ?gi = "initCodeBuilder kd n g"
  have i: "builders ?gi \<noteq> []" "tl (builders ?gi) = builders g" "functions_ok ?gi = functions_ok g"
    "next_label ?gi = next_label g" "grown (next_label g) (curBuilder ?gi)"
    by (simp_all add: initCodeBuilder_def initCodeBuilder_lex_def functions_ok_def curBuilder_def grown_new)
  have "gen_step ?gi g1" using V 1 i(1) by (intro always_step [of "V block"]) (auto simp: all_always_def)
  then have s: "tl (builders g1) = builders g" "next_label g \<le> next_label g1" "functions_ok g \<longrightarrow> functions_ok g1"
    "grown (next_label g1) (curBuilder g1)"
    using i grown_step [OF i(5)] by (auto simp: gen_step_def builder_step_def)
  note f = finalizeCodeBuilder_ok [OF assms(2) s(4) 2]
  have g3: "functions_ok ?g3 = functions_ok g1" "builders ?g3 = builders g" "next_label ?g3 = next_label g1"
    using f s(1) by (auto simp: reportError_def functions_ok_def)
  have "functions_ok g \<longrightarrow> functions_ok g4" "builders g4 = builders g" "next_label g4 = next_label g1"
    using new_function_ok [OF _ 3] f s(3) g3 by auto
  then have "reach g {} g4"
    using s(2) by (intro reach_quiet [OF reach_refl [OF ne]]) (auto simp: quiet_def ne curBuilder_def)
  from keepsD [OF keeps_ldc [OF this] 4(1)] show "reach g {} g'"
    unfolding 4(2) by (intro reaches) (auto simp: op_rules)
qed

section \<open>Trees\<close>

lemma all_always_accept:
  assumes V: "all_always V" and "permutes env"
  shows "always (accept env V n)"
proof -
  have s: "always f" if "\<And>g. f g = h g" "always h" for f h
    using that by (simp add: always_def)
  have gc: "always (generateConcat V n False)" "always (visit_all V ns)" "always (V x)" for n ns x
    using V by (auto intro!: always_ends intro: ends_keeps keeps_generateConcat [OF V] keeps_visit_all [OF V]
        simp: all_always_def)
  have id: "always Some" "always (\<lambda>_. None)"
    by (auto intro!: always_ends ends_Some ends_other(1))
  note all = always_leaves always_expressions [OF V] always_typeOp [OF V] always_binaryOp [OF V]
    always_commands [OF V] always_statements [OF V] always_mapCase [OF V] always_ifElseCase [OF V]
    always_jump [OF V] always_assignments [OF V] always_fork [OF V] always_try [OF V]
    always_function [OF V assms(2)] always_pipeline [OF V] gc id
  show ?thesis
  proof (cases "members n")
    case (CaseNode k e arms)
    then show ?thesis by (cases k) (auto simp: accept_def Let_def all intro: s)
  qed (auto simp: accept_def Let_def all intro: s)
qed

lemma all_always_visit:
  assumes "permutes env"
  shows "all_always (visit env)"
proof -
  have "always (visit env n)" for n
  proof (induction n rule: measure_induct_rule [of size])
    case (less n)
    let ?V = "\<lambda>x g. if size x < size n then visit env x g else None"
    have "all_always ?V"
    proof (unfold all_always_def, intro allI)
      fix x show "always (?V x)"
        using less.IH [of x] by (cases "size x < size n") (simp_all add: always_def keeps_None)
    qed
    moreover have "visit env n g = accept env ?V n g" for g
      unfolding visit.simps [of env n g] by (rule accept_agree) (simp add: agree_def)
    ultimately show ?case using all_always_accept [OF _ assms, of ?V n] by (simp add: always_def)
  qed
  then show ?thesis by (simp add: all_always_def)
qed

section \<open>The builders of nested modules\<close>

definition stack_ok :: "Generator \<Rightarrow> bool" where
  "stack_ok g \<longleftrightarrow> functions_ok g \<and> builders g \<noteq> [] \<and> (\<forall>b\<in>set (builders g). grown (next_label g) b)"

lemma stack_step: "stack_ok g \<Longrightarrow> gen_step g g' \<Longrightarrow> stack_ok g'"
  unfolding stack_ok_def gen_step_def
  by (cases "builders g"; cases "builders g'")
    (auto simp: curBuilder_def intro: grown_step grown_mono builder_step_def [THEN iffD1, THEN conjunct2, THEN conjunct1])

lemma stack_same:
  assumes "stack_ok g" "builders g' = builders g" "next_label g' = next_label g" "functions_ok g \<longrightarrow> functions_ok g'"
  shows "stack_ok g'"
  using assms by (simp add: stack_ok_def)

lemma stack_enter:
  assumes "builders g = [] \<longrightarrow> functions_ok g" "builders g \<noteq> [] \<longrightarrow> stack_ok g"
  shows "stack_ok (initToplevelCodeBuilder lx n g)"
  using assms
  by (cases "builders g = []")
    (auto simp: stack_ok_def initToplevelCodeBuilder_def initCodeBuilder_lex_def new_string_def Let_def
      functions_ok_def grown_new split: prod.split)

lemma set_localVarNum_step: "gen_step g (set_localVarNum n g)"
  unfolding set_localVarNum_def by (rule quiet_step, rule quiet_on_builder) simp

end
