(* ===== verification/Code_Modules.thy ===== *)
theory Code_Modules
  imports Code_Wellformed
begin

text \<open>
  The generator as the compiler drives it (\<open>Compiler::operator()\<close> of \<open>src/ydsh.cpp\<close>): all the code
  that it makes is well-formed.
\<close>

section \<open>The compiler\<close>

text \<open>
  What the front end gives in one step: a node, the start of a module or its end. That it only
  leaves a module that it has entered is asked for here; the source has an assertion on the
  builders.
\<close>

datatype FrontEndResult = IN_MODULE Node | ENTER_MODULE SourceLexer | EXIT_MODULE ModuleSource

definition serve :: "cg_env \<Rightarrow> FrontEndResult \<Rightarrow> Generator \<Rightarrow> (bool \<times> Generator) option" where
  "serve env r g =
     (case r of
        IN_MODULE n \<Rightarrow> generate env n g
      | ENTER_MODULE lx \<Rightarrow> Some (True, enterModule lx g)
      | EXIT_MODULE m \<Rightarrow> if length (builders g) > 1 then exitModule env m g else None)"

text \<open>The loop, which an error ends.\<close>

fun serve_all :: "cg_env \<Rightarrow> FrontEndResult list \<Rightarrow> Generator \<Rightarrow> (bool \<times> Generator) option" where
  "serve_all env [] g = Some (True, g)"
| "serve_all env (r # rs) g =
     do { (ok, g) \<leftarrow> serve env r g; if ok then serve_all env rs g else Some (False, g) }"

text \<open>Whether there was no error, and the code.\<close>

definition compile ::
  "cg_env \<Rightarrow> SourceLexer \<Rightarrow> FrontEndResult list \<Rightarrow> nat \<Rightarrow> Generator \<Rightarrow> (bool \<times> DSCode option \<times> Generator) option"
where
  "compile env lx rs maxVarIndex g =
     do {
       (ok, g) \<leftarrow> serve_all env rs (initialize lx g);
       (c, g) \<leftarrow> (if ok then finalize_toplevel env maxVarIndex g else Some (None, g));
       Some (gen_error g = None, c, g)
     }"

section \<open>Well-formed code\<close>

lemma grown_hd: "stack_ok g \<Longrightarrow> grown (next_label g) (curBuilder g)"
  by (cases "builders g") (auto simp: stack_ok_def curBuilder_def)

lemma stack_visit:
  assumes "permutes env" "stack_ok g" "visit env n g = Some g'"
  shows "stack_ok g'"
  using all_always_visit [OF assms(1)] assms(2,3)
  by (intro stack_step [OF assms(2)] always_step [of "visit env n"]) (auto simp: all_always_def stack_ok_def)

lemma stack_exit:
  assumes "permutes env" "stack_ok g" "length (builders g) > 1" "exitModule env m g = Some (b, g')"
  shows "stack_ok g'"
proof -
  let ?h = "emitIns OP_RETURN (set_localVarNum (source_maxVarNum m) g)"
  let ?name = "ascii (nameRef (type_at g (source_type m)))"
  from assms(4) obtain c g1 where 1: "finalizeCodeBuilder env ?name ?h = Some (c, g1)"
    by (auto simp: exitModule_def Let_def split: Option.bind_splits)
  let ?g2 = "if c = None then reportError (source_token m) (TooLargeModule (source_path m)) g1 else g1"
  obtain v g3 where 2: "new_function (source_type m) TOPLEVEL ?name c ?g2 = (v, g3)" by force
  with assms(4) 1 obtain g4 i where 3: "emitLdcIns v (g3\<lparr>commons := tl (commons g3)\<rparr>) = Some g4"
    and g': "g' = emit2byteIns OP_STORE_GLOBAL i (emit1byteIns OP_CALL_FUNC 0 (emit0byteIns OP_DUP
        (emitSourcePos (token_pos (source_pathToken m)) g4)))"
    by (auto simp: exitModule_def Let_def split: Option.bind_splits prod.splits)
  have "gen_step (set_localVarNum (source_maxVarNum m) g) ?h"
    using emit0_step [of OP_RETURN] by (simp add: op_rules emit0byteIns_def)
  then have h: "stack_ok ?h" by (rule stack_step [OF stack_step [OF assms(2) set_localVarNum_step]])
  have len: "length (builders ?h) = length (builders g)"
    using assms(3) by (simp add: emitIns_def set_localVarNum_def append_bytes_def on_emitter_def on_builder_def)
  note f = finalizeCodeBuilder_ok [OF assms(1) grown_hd [OF h] 1]
  have "stack_ok g1"
    using f h assms(3) len by (cases "builders ?h") (auto simp: stack_ok_def functions_ok_def)
  then have "stack_ok ?g2" by (auto simp: reportError_def elim!: stack_same simp: functions_ok_def)
  then have "stack_ok g3" using new_function_ok [OF _ 2] f by (auto elim!: stack_same)
  then have g3: "stack_ok (g3\<lparr>commons := tl (commons g3)\<rparr>)" by (rule stack_same) (simp_all add: functions_ok_def)
  then have "reach (g3\<lparr>commons := tl (commons g3)\<rparr>) {} (g3\<lparr>commons := tl (commons g3)\<rparr>)"
    by (intro reach_refl) (simp add: stack_ok_def)
  from keepsD [OF keeps_ldc [OF this] 3] have "reach (g3\<lparr>commons := tl (commons g3)\<rparr>) {} g'"
    unfolding g' by (intro reaches) (auto simp: op_rules)
  then show ?thesis by (intro stack_step [OF g3]) (simp add: reach_def)
qed

lemma stack_serve:
  assumes "permutes env" "stack_ok g" "serve env r g = Some (ok, g')"
  shows "stack_ok g' \<and> (\<not> ok \<longrightarrow> gen_error g' \<noteq> None)"
proof (cases r)
  case (IN_MODULE n)
  then show ?thesis using assms stack_visit by (auto simp: serve_def generate_def)
next
  case (ENTER_MODULE lx)
  then show ?thesis using assms stack_enter [of g lx 0] by (auto simp: serve_def enterModule_def stack_ok_def [of g])
next
  case (EXIT_MODULE m)
  then have "exitModule env m g = Some (ok, g')" "length (builders g) > 1"
    using assms(3) by (auto simp: serve_def split: if_splits)
  moreover from this(1) have "\<not> ok \<longrightarrow> gen_error g' \<noteq> None"
    by (auto simp: exitModule_def Let_def split: Option.bind_splits prod.splits)
  ultimately show ?thesis using stack_exit [OF assms(1,2)] by auto
qed

lemma stack_serve_all:
  "permutes env \<Longrightarrow> stack_ok g \<Longrightarrow> serve_all env rs g = Some (ok, g') \<Longrightarrow>
   stack_ok g' \<and> (\<not> ok \<longrightarrow> gen_error g' \<noteq> None)"
proof (induction rs arbitrary: g)
  case (Cons r rs)
  from Cons.prems(3) obtain b g1 where 1: "serve env r g = Some (b, g1)"
    and 2: "(if b then serve_all env rs g1 else Some (False, g1)) = Some (ok, g')"
    by (auto split: Option.bind_splits)
  from stack_serve [OF Cons.prems(1,2) 1] Cons.IH [OF Cons.prems(1)] 2 show ?case by (cases b) auto
qed simp

lemma stack_initialize: "stack_ok (initialize lx (new_generator pool a h))"
  unfolding initialize_def by (rule stack_enter) (simp_all add: new_generator_def functions_ok_def)

lemma stack_finalize:
  assumes "permutes env" "stack_ok g" "finalize_toplevel env n g = Some (c, g')"
  shows "(\<forall>x. c = Some x \<longrightarrow> dscode_ok x) \<and> functions_ok g' \<and> (c = None \<longrightarrow> gen_error g' \<noteq> None)"
proof -
  let ?h = "emitIns OP_RETURN (set_localVarNum n g)"
  have "gen_step (set_localVarNum n g) ?h"
    using emit0_step [of OP_RETURN] by (simp add: op_rules emit0byteIns_def)
  then have h: "stack_ok ?h" by (rule stack_step [OF stack_step [OF assms(2) set_localVarNum_step]])
  from assms(3) obtain g1 where 1: "finalizeCodeBuilder env [] ?h = Some (c, g1)" "func_objects g' = func_objects g1"
    "c = None \<longrightarrow> gen_error g' \<noteq> None"
    by (auto simp: finalize_toplevel_def Let_def reportError_def split: Option.bind_splits if_splits)
  from finalizeCodeBuilder_ok [OF assms(1) grown_hd [OF h] 1(1)] show ?thesis
    using h 1 by (auto simp: stack_ok_def functions_ok_def)
qed

lemma compile_ok:
  assumes "permutes env" "compile env lx rs n (new_generator pool assertions h) = Some (ok, c, g')"
  shows "(ok \<longrightarrow> c \<noteq> None) \<and> (\<forall>x. c = Some x \<longrightarrow> dscode_ok x) \<and> functions_ok g'"
proof -
  from assms(2) obtain b g where 1: "serve_all env rs (initialize lx (new_generator pool assertions h)) = Some (b, g)"
    and 2: "(if b then finalize_toplevel env n g else Some (None, g)) = Some (c, g')" and ok: "ok = (gen_error g' = None)"
    by (auto simp: compile_def split: Option.bind_splits)
  from stack_serve_all [OF assms(1) stack_initialize 1] have s: "stack_ok g" "\<not> b \<longrightarrow> gen_error g \<noteq> None" by auto
  show ?thesis
  proof (cases b)
    case True
    with 2 have "finalize_toplevel env n g = Some (c, g')" by simp
    from stack_finalize [OF assms(1) s(1) this] show ?thesis by (auto simp: ok)
  next
    case False
    with 2 s show ?thesis by (auto simp: ok stack_ok_def)
  qed
qed

end
