(* ===== verification/Code_Examples.thy ===== *)
theory Code_Examples
  imports Code_Modules
begin

section \<open>Evaluation\<close>

lemma opcode_bytes [simp]:
  "opcode_byte OP_PUSH_STR0 = 10" "opcode_byte OP_PUSH_STR1 = 11" "opcode_byte OP_PUSH_STR2 = 12"
  "opcode_byte OP_PRINT = 2" "opcode_byte OP_PUSH_TRUE = 6" "opcode_byte OP_PUSH_FALSE = 7"
  "opcode_byte OP_PUSH_INVALID = 16" "opcode_byte OP_POP = 31" "opcode_byte OP_GOTO = 49"
  "opcode_byte OP_BRANCH = 48" "opcode_byte OP_ENTER_FINALLY = 51"
  "opcode_byte OP_EXIT_FINALLY = 52" "opcode_byte OP_RETURN = 44"
  "opcode_byte OP_RECLAIM_LOCAL = 78" "opcode_byte OP_STORE_LOCAL = 23"
  "opcode_byte OP_LOAD_LOCAL = 22" "opcode_byte OP_LOAD_GLOBAL = 20"
  "opcode_byte OP_STORE_GLOBAL = 21" "opcode_byte OP_CALL_FUNC = 41" "opcode_byte OP_CONCAT = 35"
  "opcode_byte OP_THROW = 50" "opcode_byte OP_ASSERT = 1"
  by (simp_all add: opcode_byte_def opcode_table_def)

lemma stack_effects [simp]:
  "stack_effect OP_PUSH_STR0 = 1" "stack_effect OP_PUSH_STR1 = 1" "stack_effect OP_PUSH_STR2 = 1"
  "stack_effect OP_PRINT = - 1" "stack_effect OP_PUSH_TRUE = 1" "stack_effect OP_PUSH_FALSE = 1"
  "stack_effect OP_PUSH_INVALID = 1" "stack_effect OP_POP = - 1" "stack_effect OP_GOTO = 0"
  "stack_effect OP_BRANCH = - 1" "stack_effect OP_ENTER_FINALLY = 1"
  "stack_effect OP_EXIT_FINALLY = - 1" "stack_effect OP_RETURN = 0"
  "stack_effect OP_RECLAIM_LOCAL = 0" "stack_effect OP_STORE_LOCAL = - 1"
  "stack_effect OP_LOAD_LOCAL = 1" "stack_effect OP_LOAD_GLOBAL = 1"
  "stack_effect OP_STORE_GLOBAL = - 1" "stack_effect OP_CALL_FUNC = 0"
  "stack_effect OP_CONCAT = - 1" "stack_effect OP_THROW = 0" "stack_effect OP_ASSERT = - 2"
  by (simp_all add: stack_effect_def opcode_table_def)

definition sample_type :: "nat \<Rightarrow> DSType" where
  "sample_type i = \<lparr>nameRef = ''T'', tag = of_nat i, superType = None, class_of = ErrorType\<rparr>"

definition sample_types :: TypePool where
  "sample_types = \<lparr>methodIdCount = 0, typeTable = map sample_type [0..<13], nameMap = Map.empty, methodMap = Map.empty\<rparr>"
definition sample_lexer :: SourceLexer where
  "sample_lexer = \<lparr>lexer_sourceName = [], lexer_scriptDir = [], lexer_lines = \<lparr>line_offset = 1, newlines = []\<rparr>\<rparr>"
definition sample_env :: cg_env where
  "sample_env = \<lparr>cg_natives = no_natives, cg_hash_order = id, cg_label_order = id\<rparr>"

lemma sample_ids [simp]: "typeId (sample_type 3) = 3" "typeId (sample_type 4) = 4" "typeId (sample_type 9) = 9"
  by (simp_all add: sample_type_def typeId_def)

lemma type_at_sample: "typePool g = sample_types \<Longrightarrow> i < 13 \<Longrightarrow> type_at g i = sample_type i"
  by (simp add: type_at_def sample_types_def del: upt_Suc upt_rec_numeral)


text \<open>A state of the generator with one builder, with what changes in it as arguments.\<close>

definition sample_builder ::
  "bytes \<Rightarrow> (label \<Rightarrow> nat) \<Rightarrow> (label \<times> LabelTarget list) list \<Rightarrow> CatchBuilder list \<Rightarrow> (nat \<times> nat) list \<Rightarrow> LoopState list
   \<Rightarrow> label list \<Rightarrow> int \<Rightarrow> int \<Rightarrow> (nat \<times> nat) list \<Rightarrow> CodeBuilder"
where
  "sample_builder c i m cs vs ls fs n x p =
     \<lparr>emitter = \<lparr>codeBuffer = c, labelIndex = i, labelMap = m\<rparr>, builder_lexer = sample_lexer, builder_kind = TOPLEVEL,
      builder_varNum = 0, constBuffer = [V_SSTR [], V_SSTR []], builder_lines = p, catchBuilders = cs, localVars = vs,
      loopLabels = ls, finallyLabels = fs, stackDepthCount = n, maxStackDepth = x\<rparr>"

definition sample_state :: "CodeBuilder \<Rightarrow> nat \<Rightarrow> Generator" where
  "sample_state b k =
     \<lparr>typePool = sample_types, assertion = True, handle_STR = None, builders = [b], commons = [(V_SSTR [], V_SSTR [])],
      gen_error = None, gen_heap = [], func_objects = [], next_label = k\<rparr>"

lemma sample_line: "lookup_line (lexer_lines sample_lexer) pos = 1"
  by (simp add: sample_lexer_def lookup_line_def lower_bound_def lower_bound_from.simps getMaxLineNum_def)

lemma sample_on_builder:
  "on_builder f (sample_state b l) = sample_state (f b) l" "curBuilder (sample_state b l) = b"
  "type_at (sample_state b l) t = typeTable sample_types ! t" "makeLabel (sample_state b l) = (l, sample_state b (Suc l))"
  "gen_error (sample_state b l) = None"
  by (simp_all add: on_builder_def sample_state_def curBuilder_def type_at_def makeLabel_def)

lemma sample_members:
  "localVars (sample_builder c i m cs vs ls fs n x p) = vs" "loopLabels (sample_builder c i m cs vs ls fs n x p) = ls"
  "finallyLabels (sample_builder c i m cs vs ls fs n x p) = fs" "stackDepthCount (sample_builder c i m cs vs ls fs n x p) = n"
  "builder_varNum (sample_builder c i m cs vs ls fs n x p) = 0" "builder_kind (sample_builder c i m cs vs ls fs n x p) = TOPLEVEL"
  "constBuffer (sample_builder c i m cs vs ls fs n x p) = [V_SSTR [], V_SSTR []]"
  "sample_builder c i m cs vs ls fs n x p\<lparr>builder_varNum := 0\<rparr> = sample_builder c i m cs vs ls fs n x p"
  "maxStackDepth (sample_builder c i m cs vs ls fs n x p) = x" "catchBuilders (sample_builder c i m cs vs ls fs n x p) = cs"
  "builder_lines (sample_builder c i m cs vs ls fs n x p) = p" "builder_lexer (sample_builder c i m cs vs ls fs n x p) = sample_lexer"
  "emitter (sample_builder c i m cs vs ls fs n x p) = \<lparr>codeBuffer = c, labelIndex = i, labelMap = m\<rparr>"
  "sample_builder c i m cs vs ls fs n x p\<lparr>emitter := \<lparr>codeBuffer = c', labelIndex = i', labelMap = m'\<rparr>\<rparr> =
   sample_builder c' i' m' cs vs ls fs n x p"
  "sample_builder c i m cs vs ls fs n x p\<lparr>catchBuilders := cs'\<rparr> = sample_builder c i m cs' vs ls fs n x p"
  "sample_builder c i m cs vs ls fs n x p\<lparr>localVars := vs'\<rparr> = sample_builder c i m cs vs' ls fs n x p"
  "sample_builder c i m cs vs ls fs n x p\<lparr>loopLabels := ls'\<rparr> = sample_builder c i m cs vs ls' fs n x p"
  "sample_builder c i m cs vs ls fs n x p\<lparr>finallyLabels := fs'\<rparr> = sample_builder c i m cs vs ls fs' n x p"
  "sample_builder c i m cs vs ls fs n x p\<lparr>stackDepthCount := n'\<rparr> = sample_builder c i m cs vs ls fs n' x p"
  "sample_builder c i m cs vs ls fs n x p\<lparr>maxStackDepth := x'\<rparr> = sample_builder c i m cs vs ls fs n x' p"
  "sample_builder c i m cs vs ls fs n x p\<lparr>builder_lines := p'\<rparr> = sample_builder c i m cs vs ls fs n x p'"
  by (simp_all add: sample_builder_def)

lemma appendN_bytes:
  "appendN k (of_nat (v mod 256 ^ k)) \<lparr>codeBuffer = c, labelIndex = i, labelMap = m\<rparr> =
   \<lparr>codeBuffer = c @ num_bytes k v, labelIndex = i, labelMap = m\<rparr>"
  by (simp add: appendN_def emitN_def Let_def writeN_bytes num_bytes_def)

lemma appendN_byte:
  "appendN (Suc 0) (of_nat (v mod 256)) \<lparr>codeBuffer = c, labelIndex = i, labelMap = m\<rparr> =
   \<lparr>codeBuffer = c @ [of_nat v], labelIndex = i, labelMap = m\<rparr>"
  using appendN_bytes [of 1 v c i m] by (simp add: num_bytes_1 [unfolded One_nat_def])

lemma sample_emits:
  "append_bytes k v (sample_state (sample_builder c i m cs vs ls fs n x p) l) =
     sample_state (sample_builder (c @ num_bytes k v) i m cs vs ls fs n x p) l"
  "emitIns op (sample_state (sample_builder c i m cs vs ls fs n x p) l) =
     (let n = to_short (n + to_short (stack_effect op))
      in sample_state (sample_builder (c @ [code_byte op]) i m cs vs ls fs n (if n > 0 \<and> n > x then n else x) p) l)"
  "mark k (sample_state (sample_builder c i m cs vs ls fs n x p) l) =
     sample_state (sample_builder c (i(k := length c)) (touch_label k m) cs vs ls fs n x p) l"
  "on_emitter (writeLabel j k q w) (sample_state (sample_builder c i m cs vs ls fs n x p) l) =
     sample_state (sample_builder c i (add_target k (slot j q w) m) cs vs ls fs n x p) l"
  "currentCodeOffset (sample_state (sample_builder c i m cs vs ls fs n x p) l) = length c"
  "pushLoopLabels lb lc lv (sample_state (sample_builder c i m cs vs ls fs n x p) l) =
     sample_state (sample_builder c i m cs vs (\<lparr>breakLabel = lb, continueLabel = lc, breakWithValueLabel = lv,
       blockIndex = length vs\<rparr> # ls) fs n x p) l"
  "popLoopLabels (sample_state (sample_builder c i m cs vs ls fs n x p) l) =
     sample_state (sample_builder c i m cs vs (tl ls) fs n x p) l"
  "catchException k1 k2 t o1 s1 (sample_state (sample_builder c i m cs vs ls fs n x p) l) =
     sample_state (sample_builder c i m (cs @ [\<lparr>catch_begin = k1, catch_end = k2, caught_type = t,
       catch_address = length c, catch_offset = o1 mod 65536, catch_size = s1 mod 65536\<rparr>]) vs ls fs n x p) l"
  "emitSourcePos pos (sample_state (sample_builder c i m cs vs ls fs n x p) l) =
     sample_state (sample_builder c i m cs vs ls fs n x (if p = [] \<or> snd (last p) \<noteq> 1 then p @ [(length c, 1)] else p)) l"
  by (simp_all add: append_bytes_def on_emitter_def sample_on_builder sample_members appendN_bytes appendN_byte
      emitIns_def raise_max_def add_depth_def code_byte_def num_bytes_1 [unfolded One_nat_def] mark_def markLabel_def
      writeLabel_def currentCodeOffset_def Let_def pushLoopLabels_def popLoopLabels_def catchException_def emitSourcePos_def
      sample_line)

lemma sample_val:
  "emitValIns op q r (sample_state (sample_builder c i m cs vs ls fs n x p) l) =
     sample_state (sample_builder (c @ [code_byte op, of_nat q]) i m cs vs ls fs
       (to_short (n - to_short (int (q mod 256) + r))) x p) l"
  by (simp add: emitValIns_def append_bytes_def on_emitter_def sample_on_builder sample_members appendN_byte code_byte_def)

lemma sample_makeLabel: "(let (k, g) = makeLabel (sample_state b l) in f k g) = f l (sample_state b (Suc l))"
  by (simp add: sample_on_builder)

lemma sample_branch:
  "emitBranchIns op k (sample_state (sample_builder c i m cs vs ls fs n x p) l) =
   (let n = to_short (n + to_short (stack_effect op))
    in sample_state (sample_builder (c @ [code_byte op, 0, 0]) i (add_target k (slot (Suc (length c)) (length c) Off16) m)
         cs vs ls fs n (if n > 0 \<and> n > x then n else x) p) l)"
  "emitJumpIns k (sample_state (sample_builder c i m cs vs ls fs n x p) l) =
   (let n = to_short (n + to_short (stack_effect OP_GOTO))
    in sample_state (sample_builder (c @ [code_byte OP_GOTO, 0, 0, 0, 0]) i (add_target k (slot (Suc (length c)) 0 Off32) m)
         cs vs ls fs n (if n > 0 \<and> n > x then n else x) p) l)"
  by (simp_all add: emitBranchIns_def emitJumpIns_def emit2byteIns_def emit4byteIns_def Let_def sample_emits
      num_bytes_def be_byte_def upt_rec)


definition sample_start :: Generator where
  "sample_start = sample_state (sample_builder [] (\<lambda>_. 0) [] [] [] [] [] 0 0 []) 0"

lemma sample_initialize: "initialize sample_lexer (new_generator sample_types True []) = sample_start"
  by (simp add: initialize_def initToplevelCodeBuilder_def new_generator_def new_string_def createStr_def sample_lexer_def Let_def
      sample_start_def sample_state_def sample_builder_def initCodeBuilder_lex_def new_builder_def new_emitter_def
      SSTR14_def)

text \<open>The instructions of some code with the places that they jump to.\<close>

definition listing :: "bytes \<Rightarrow> (nat \<times> OpCode option \<times> nat list) list option" where
  "listing c = map_option (map (\<lambda>x. (fst x, decode_op (unat (hd (snd x))), map (jump_dest c) (ins_slots x))))
     (split_code 0 c)"

lemmas sample_visitors =
  visit.simps [of sample_env _ "sample_state b l" for b l] accept_def [of sample_env _ _ "sample_state b l" for b l]
  visitTryNode_def [of _ _ _ _ "sample_state b l" for b l] visitBlockNode_def [of _ _ _ _ "sample_state b l" for b l]
  visitLoopNode_def [of _ _ _ _ _ _ _ "sample_state b l" for b l] visitJumpNode_def [of _ _ _ _ "sample_state b l" for b l]
  generateBreakContinue_def [of _ _ _ _ "sample_state b l" for b l]
  visitTypeOpNode_def [of _ _ _ _ _ _ _ "sample_state b l" for b l]
  generateBlock_def [of _ _ _ _ "sample_state b l" for b l]
  needReclaim_def [of _ _ "sample_state b l" for b l] leave_try_def [of _ _ _ _ "sample_state b l" for b l]
  generate_catch_def [of _ _ _ _ _ _ _ _ _ "sample_state b l" for b l] visitCatchNode_def
  enterFinally_def enterMultiFinally_def [of "sample_state b l" for b l]
  visitStringNode_def [of _ "sample_state b l" for b l] emit_print_def [of _ _ "sample_state b l" for b l]
  visitVarDeclNode_def [of _ _ _ _ _ _ _ "sample_state b l" for b l]
  visitApplyNode_def [of _ _ _ _ _ _ _ "sample_state b l" for b l]
  visitBinaryOpNode_def [of _ _ _ _ _ _ _ "sample_state b l" for b l]
  generateConcat.simps [of _ _ _ "sample_state b l" for b l] concat_default_def
  isBinaryStrConcat_def [of "sample_state b l" for b l] has_func_type_def [of "sample_state b l" for b l]
  emit0byteIns_def emit1byteIns_def emit2byteIns_def emit2bytesIns_def emit3byteIns_def emit_load_def emit_store_def
  emitFuncCallIns_def args_size_def visit_opt_def
  emitTypeIns_def [of _ _ "sample_state b l" for b l]
  isEmptyCode_def findInnerBlock.simps findInnerCatch.simps max_var_size_def
  getPos_def isNothingType_def isVoidType_def is_type_def isEmptyNode_def

lemma sample_var:
  "visitVarNode pos i 0 g = Some (emit1byteIns OP_LOAD_LOCAL i (emitSourcePos pos g))"
  "visitVarNode pos i GLOBAL_ATTR g = Some (emit2byteIns OP_LOAD_GLOBAL i (emitSourcePos pos g))"
  by (simp_all add: visitVarNode_def emit_load_def hasFlag_def ENV_ATTR_def RANDOM_ATTR_def SECONDS_ATTR_def MOD_CONST_def
      GLOBAL_ATTR_def)

lemma sample_pool: "typeTable sample_types ! 3 = sample_type 3" "typeTable sample_types ! 4 = sample_type 4" "typeTable sample_types ! 9 = sample_type 9"
  "isFuncType (sample_type 9) = False"
  by (simp_all add: sample_type_def isFuncType_def attr_def hasFlag_def sample_types_def del: upt_Suc upt_rec_numeral)

lemmas sample_eval = sample_makeLabel sample_on_builder sample_members sample_emits sample_branch sample_visitors sample_pool
  sample_val sample_var num_bytes_def be_byte_def upt_rec to_short_def

section \<open>Leaving a loop\<close>

text \<open>
  \<open>try { while true { var x = 'AB'; try { break } finally { x } } } finally { 'CD' }\<close>
\<close>

definition sample_node :: "nat \<Rightarrow> NodeMembers \<Rightarrow> Node" where
  "sample_node t m = Node t \<lparr>token_pos = 0, token_size = 1\<rparr> m"

definition sample_block :: "nat \<Rightarrow> Node list \<Rightarrow> nat \<Rightarrow> nat \<Rightarrow> Node" where
  "sample_block t ns base num = sample_node t (BlockNode ns base num num)"

definition sample_pop :: "Node \<Rightarrow> Node" where "sample_pop n = sample_node 3 (TypeOpNode n TO_VOID 0)"
definition sample_string :: "bytes \<Rightarrow> Node" where "sample_string s = sample_node 9 (StringNode s False)"
definition sample_empty :: Node where "sample_empty = sample_node 3 EmptyNode"

definition break_in_try :: Node where
  "break_in_try =
     sample_node 3 (TryNode
       (sample_block 3
          [sample_node 3 (LoopNode sample_empty None sample_empty
             (sample_block 4
                [sample_node 3 (VarDeclNode [120] VD_VAR False 0 (Some (sample_string [65, 66]))),
                 sample_node 4 (TryNode
                   (sample_block 4 [sample_node 4 (JumpNode BREAK sample_empty True)] 1 0) []
                   (Some (sample_block 3 [sample_pop (sample_node 9 (VarNode [120] 0 0))] 1 0)))] 0 1) False)] 0 0)
       [] (Some (sample_block 3 [sample_pop (sample_string [67, 68])] 0 0)))"

lemmas sample_nodes = sample_block_def sample_pop_def sample_string_def sample_empty_def sample_node_def

lemma sample_finish:
  assumes "serve_all sample_env (map IN_MODULE ns) sample_start = Some (True, sample_state (sample_builder c i m cs vs ls fs n x p) k)"
    "finalize id \<lparr>codeBuffer = c @ [code_byte OP_RETURN], labelIndex = i, labelMap = m\<rparr> = Inr e"
    "n \<le> x" "- 100 < n" "n < 100"
  shows "\<exists>d g. compile sample_env sample_lexer (map IN_MODULE ns) 0 (new_generator sample_types True []) = Some (True, Some d, g)
    \<and> code_bytes d = codeBuffer e \<and> stackDepth d = nat x"
proof -
  have "emitIns OP_RETURN (set_localVarNum 0 (sample_state (sample_builder c i m cs vs ls fs n x p) k)) =
    sample_state (sample_builder (c @ [code_byte OP_RETURN]) i m cs vs ls fs n x p) k"
    using assms(3,4,5) by (simp add: set_localVarNum_def sample_on_builder sample_members sample_emits to_short_def)
  then show ?thesis
    using assms(1,2)
    by (simp add: compile_def sample_initialize finalize_toplevel_def finalizeCodeBuilder_def build_def sample_env_def
        sample_on_builder sample_members Let_def)
qed

lemma writeN_Suc: "writeN (Suc i) buf ptr b = writeN i (buf[ptr := be_byte b i]) (Suc ptr) b"
  by (simp only: writeN.simps Let_def masked_byte)

lemma writeN_small:
  "writeN 2 buf ptr b = buf[ptr := be_byte b 1, Suc ptr := be_byte b 0]"
  "writeN 4 buf ptr b = buf[ptr := be_byte b 3, Suc ptr := be_byte b 2, Suc (Suc ptr) := be_byte b 1,
     Suc (Suc (Suc ptr)) := be_byte b 0]"
proof -
  have "writeN (Suc (Suc 0)) buf ptr b = buf[ptr := be_byte b 1, Suc ptr := be_byte b 0]"
    by (simp add: writeN_Suc del: writeN.simps(2))
  then show "writeN 2 buf ptr b = buf[ptr := be_byte b 1, Suc ptr := be_byte b 0]" by (simp only: numeral_2_eq_2)
  have "writeN (Suc (Suc (Suc (Suc 0)))) buf ptr b = buf[ptr := be_byte b (Suc (Suc (Suc 0))), Suc ptr := be_byte b (Suc (Suc 0)),
     Suc (Suc ptr) := be_byte b 1, Suc (Suc (Suc ptr)) := be_byte b 0]"
    by (simp add: writeN_Suc del: writeN.simps(2))
  then show "writeN 4 buf ptr b = buf[ptr := be_byte b 3, Suc ptr := be_byte b 2, Suc (Suc ptr) := be_byte b 1,
     Suc (Suc (Suc ptr)) := be_byte b 0]" by (simp add: eval_nat_numeral)
qed

lemma Suc_2: "Suc (Suc 0) = 2" by simp

definition break_in_try_bytes :: bytes where
  "break_in_try_bytes =
     [code_byte OP_PUSH_TRUE, code_byte OP_BRANCH, 0, 0, code_byte OP_PUSH_STR2, 65, 66, code_byte OP_STORE_LOCAL, 0,
      code_byte OP_RECLAIM_LOCAL, 0, 1, code_byte OP_ENTER_FINALLY, 0, 0, code_byte OP_ENTER_FINALLY, 0, 0,
      code_byte OP_GOTO, 0, 0, 0, 0, code_byte OP_LOAD_LOCAL, 0, code_byte OP_POP, code_byte OP_EXIT_FINALLY,
      code_byte OP_ENTER_FINALLY, 0, 0, code_byte OP_GOTO, 0, 0, 0, 0, code_byte OP_PUSH_STR2, 67, 68,
      code_byte OP_POP, code_byte OP_EXIT_FINALLY]"

definition break_in_try_labels :: "(label \<times> LabelTarget list) list" where
  "break_in_try_labels =
     [(1, []), (7, []), (4, []), (6, [slot 2 1 Off16, slot 19 0 Off32]), (5, []), (10, []), (9, [slot 13 12 Off16]),
      (0, [slot 16 15 Off16, slot 28 27 Off16]), (11, []), (12, []), (2, []), (3, [slot 31 0 Off32])]"

definition break_in_try_index :: "label \<Rightarrow> nat" where
  "break_in_try_index =
     (\<lambda>_. 0)(1 := 0, 7 := 0, 4 := 0, 5 := 4, 10 := 9, 11 := 23, 9 := 23, 12 := 27, 6 := 27, 2 := 27, 0 := 35, 3 := 40)"

lemma break_in_try_built:
  "\<exists>cs p. serve_all sample_env (map IN_MODULE [break_in_try]) sample_start =
     Some (True, sample_state (sample_builder break_in_try_bytes break_in_try_index break_in_try_labels cs [] [] [] 1 3 p) 13)"
  by (simp add: sample_eval break_in_try_def sample_nodes sample_start_def serve_def generate_def Suc_2
      break_in_try_bytes_def break_in_try_index_def break_in_try_labels_def)
    (intro exI, rule refl)

lemma break_in_try_final:
  "\<exists>e. finalize id \<lparr>codeBuffer = break_in_try_bytes @ [code_byte OP_RETURN], labelIndex = break_in_try_index,
     labelMap = break_in_try_labels\<rparr> = Inr e
   \<and> codeBuffer e =
     [code_byte OP_PUSH_TRUE, code_byte OP_BRANCH, 0, 26, code_byte OP_PUSH_STR2, 65, 66, code_byte OP_STORE_LOCAL, 0,
      code_byte OP_RECLAIM_LOCAL, 0, 1, code_byte OP_ENTER_FINALLY, 0, 11, code_byte OP_ENTER_FINALLY, 0, 20,
      code_byte OP_GOTO, 0, 0, 0, 27, code_byte OP_LOAD_LOCAL, 0, code_byte OP_POP, code_byte OP_EXIT_FINALLY,
      code_byte OP_ENTER_FINALLY, 0, 8, code_byte OP_GOTO, 0, 0, 0, 40, code_byte OP_PUSH_STR2, 67, 68,
      code_byte OP_POP, code_byte OP_EXIT_FINALLY, code_byte OP_RETURN]"
  by (simp add: finalize_def label_targets_def write_target_def writeN_small break_in_try_bytes_def break_in_try_index_def
      break_in_try_labels_def be_byte_def Suc_2 Let_def)

lemma split_code_op:
  assumes "0 \<le> getByteSize op" "nat (getByteSize op) \<le> length bs"
  shows "split_code i (code_byte op # bs) = map_option (Cons (i, code_byte op # take (nat (getByteSize op)) bs))
    (split_code (i + Suc (nat (getByteSize op))) (drop (nat (getByteSize op)) bs))"
  using assms by (subst split_code.simps) (simp add: ins_length_def decode_code_byte)

lemma readN_small:
  "readN 2 (a # b # bs) 0 = readN 1 (b # bs) (push_bit 8 (ucast a))"
  "readN 4 (a # b # c # d # bs) 0 = readN 1 (d # bs) (push_bit 24 (ucast a) OR push_bit 16 (ucast b) OR push_bit 8 (ucast c))"
  by (simp_all add: numeral_2_eq_2 eval_nat_numeral or.assoc)

lemmas listing_eval = readN_small listing_def split_code_op op_sizes ins_slots_op decode_code_byte op_slots_def jump_dest_def

lemma break_in_try_compiled:
  "\<exists>c g. compile sample_env sample_lexer [IN_MODULE break_in_try] 0 (new_generator sample_types True []) = Some (True, Some c, g)
    \<and> listing (code_bytes c) = Some
        [(0, Some OP_PUSH_TRUE, []), (1, Some OP_BRANCH, [27]), (4, Some OP_PUSH_STR2, []), (7, Some OP_STORE_LOCAL, []),
         (9, Some OP_RECLAIM_LOCAL, []), (12, Some OP_ENTER_FINALLY, [23]), (15, Some OP_ENTER_FINALLY, [35]),
         (18, Some OP_GOTO, [27]), (23, Some OP_LOAD_LOCAL, []), (25, Some OP_POP, []), (26, Some OP_EXIT_FINALLY, []),
         (27, Some OP_ENTER_FINALLY, [35]), (30, Some OP_GOTO, [40]), (35, Some OP_PUSH_STR2, []), (38, Some OP_POP, []),
         (39, Some OP_EXIT_FINALLY, []), (40, Some OP_RETURN, [])]"
proof -
  obtain e where e: "finalize id \<lparr>codeBuffer = break_in_try_bytes @ [code_byte OP_RETURN], labelIndex = break_in_try_index,
     labelMap = break_in_try_labels\<rparr> = Inr e"
    and b: "codeBuffer e =
     [code_byte OP_PUSH_TRUE, code_byte OP_BRANCH, 0, 26, code_byte OP_PUSH_STR2, 65, 66, code_byte OP_STORE_LOCAL, 0,
      code_byte OP_RECLAIM_LOCAL, 0, 1, code_byte OP_ENTER_FINALLY, 0, 11, code_byte OP_ENTER_FINALLY, 0, 20,
      code_byte OP_GOTO, 0, 0, 0, 27, code_byte OP_LOAD_LOCAL, 0, code_byte OP_POP, code_byte OP_EXIT_FINALLY,
      code_byte OP_ENTER_FINALLY, 0, 8, code_byte OP_GOTO, 0, 0, 0, 40, code_byte OP_PUSH_STR2, 67, 68,
      code_byte OP_POP, code_byte OP_EXIT_FINALLY, code_byte OP_RETURN]"
    using break_in_try_final by blast
  obtain cs p where "serve_all sample_env (map IN_MODULE [break_in_try]) sample_start =
     Some (True, sample_state (sample_builder break_in_try_bytes break_in_try_index break_in_try_labels cs [] [] [] 1 3 p) 13)"
    using break_in_try_built by blast
  from sample_finish [OF this e] show ?thesis
    by (auto simp: b listing_eval)
qed


section \<open>The depth of the stack\<close>

text \<open>\<open>try { f() } catch e {}\<close>, then \<open>'A' + 'B'\<close>\<close>

definition catch_then_concat :: "Node list" where
  "catch_then_concat =
     [sample_node 3 (TryNode
        (sample_block 3
           [sample_node 3 (ApplyNode False (sample_node 9 (VarNode [102] 0 GLOBAL_ATTR)) (sample_node 3 (ArgsNode [])) None)]
           0 0)
        [sample_node 3 (CatchNode 2 0 (sample_block 3 [] 0 0))] None),
      sample_pop (sample_node 9 (BinaryOpNode (Some (sample_string [65])) OK_ADD (Some (sample_string [66])) None))]"

definition catch_then_concat_bytes :: bytes where
  "catch_then_concat_bytes =
     [code_byte OP_LOAD_GLOBAL, 0, 0, code_byte OP_CALL_FUNC, 0, code_byte OP_GOTO, 0, 0, 0, 0, code_byte OP_POP,
      code_byte OP_GOTO, 0, 0, 0, 0, code_byte OP_PUSH_STR1, 65, code_byte OP_PUSH_STR1, 66, code_byte OP_CONCAT,
      code_byte OP_POP]"

definition catch_then_concat_labels :: "(label \<times> LabelTarget list) list" where
  "catch_then_concat_labels = [(1, []), (2, []), (3, [slot 6 0 Off32, slot 12 0 Off32])]"

lemma catch_then_concat_built:
  "\<exists>cs p. serve_all sample_env (map IN_MODULE catch_then_concat) sample_start =
     Some (True, sample_state (sample_builder catch_then_concat_bytes ((\<lambda>_. 0)(1 := 0, 2 := 5, 3 := 16)) catch_then_concat_labels
       cs [] [] [] (- 1) 1 p) 4)"
  by (simp add: sample_eval catch_then_concat_def sample_nodes sample_start_def serve_def generate_def Suc_2
      catch_then_concat_bytes_def catch_then_concat_labels_def)
    (intro exI, rule refl)

lemma catch_then_concat_final:
  "\<exists>e. finalize id \<lparr>codeBuffer = catch_then_concat_bytes @ [code_byte OP_RETURN],
     labelIndex = (\<lambda>_. 0)(1 := 0, 2 := 5, 3 := 16), labelMap = catch_then_concat_labels\<rparr> = Inr e
   \<and> codeBuffer e = 
     [code_byte OP_LOAD_GLOBAL, 0, 0, code_byte OP_CALL_FUNC, 0, code_byte OP_GOTO, 0, 0, 0, 16, code_byte OP_POP,
      code_byte OP_GOTO, 0, 0, 0, 16, code_byte OP_PUSH_STR1, 65, code_byte OP_PUSH_STR1, 66, code_byte OP_CONCAT,
      code_byte OP_POP, code_byte OP_RETURN]"
  by (simp add: finalize_def label_targets_def write_target_def writeN_small catch_then_concat_bytes_def
      catch_then_concat_labels_def be_byte_def Suc_2 Let_def)


section \<open>The code is well-formed\<close>

text \<open>
  [C38] The code that the compiler makes is well-formed. Whatever the front end gives it, trees of any
  shape, functions and modules: when the generator returns the code of the script, then that
  code and the code of every function object made on the way is a sequence of whole instructions;
  the target of every jump in it is the start of an instruction or the end of the code, and so are
  the bounds and the handler of every entry of its exception table, no range of which ends before it
  begins; and of any two entries the first is for the inner region, or the two regions are apart,
  so that the search for a handler, which takes the first that fits, finds the innermost one.
  When no error is reported there is code. The map of labels may be visited in any order.
\<close>

theorem generated_code_wellformed:
  assumes "permutes env"
    and "compile env lx rs n (new_generator pool assertions h) = Some (ok, c, g)"
  shows "(ok \<longrightarrow> c \<noteq> None) \<and> (\<forall>x. c = Some x \<longrightarrow> dscode_ok x) \<and> (\<forall>(a, f)\<in>set (func_objects g). dscode_ok f)"
  using compile_ok [OF assms] by (simp add: functions_ok_def)

lemma generated_code_wellformed_witness:
  "\<exists>c g. compile sample_env sample_lexer [IN_MODULE break_in_try] 0 (new_generator sample_types True []) = Some (True, Some c, g)
    \<and> dscode_ok c"
proof -
  have p: "permutes sample_env" by (simp add: permutes_def sample_env_def)
  obtain c g where "compile sample_env sample_lexer [IN_MODULE break_in_try] 0 (new_generator sample_types True []) = Some (True, Some c, g)"
    using break_in_try_compiled by blast
  then show ?thesis using generated_code_wellformed [OF p] by blast
qed

end
